(* ===== verification/Raiker_Prelude.thy ===== *)
theory Raiker_Prelude
  imports Main "HOL-Library.Char_ord" "HOL-Library.List_Lexorder"
begin

text \<open>
  Shared vocabulary of the development: the Python values that reach Raiker's governance code
  (parsed JSON arguments), the parts of Python's \<^verbatim>\<open>str\<close>, \<^verbatim>\<open>dict\<close> and \<^verbatim>\<open>fnmatch\<close> the code
  relies on, errors as values, and the collections of facts the component theories extend.

  Strings are \<open>char list\<close> and are ordered lexicographically by code (\<open>List_Lexorder\<close> over
  \<open>Char_ord\<close>), which is Python's order on \<^verbatim>\<open>str\<close> for the identifiers and ISO-8601 timestamps the
  code compares. Text beyond Latin-1 is outside the model.
\<close>

named_theorems gate_simps \<open>evaluation rules of the guard functions of the runtime authority\<close>
named_theorems store_simps \<open>what a table of the store holds after each update\<close>
named_theorems frame_simps \<open>fields an operation leaves unchanged\<close>

subsection \<open>Python values\<close>

text \<open>
  Arguments are decoded JSON. A float is kept by its \<^verbatim>\<open>repr\<close>: no modelled code computes with it,
  it is only printed or tested for truth. A dictionary is an association list, because iteration
  order is visible in the walks of \<^verbatim>\<open>critical.py\<close>.
\<close>

datatype pyval =
    PNone
  | PBool bool
  | PInt int
  | PFloat string
  | PStr string
  | PList "pyval list"
  | PDict "(string \<times> pyval) list"

type_synonym pydict = "(string \<times> pyval) list"

definition dict_get :: "pydict \<Rightarrow> string \<Rightarrow> pyval" where
  "dict_get d k = (case map_of d k of None \<Rightarrow> PNone | Some v \<Rightarrow> v)"

definition dict_set :: "pydict \<Rightarrow> string \<Rightarrow> pyval \<Rightarrow> pydict" where
  "dict_set d k v =
     (if k \<in> fst ` set d then map (\<lambda>(k', v'). if k' = k then (k', v) else (k', v')) d
      else d @ [(k, v)])"

fun truthy :: "pyval \<Rightarrow> bool" where
  "truthy PNone = False"
| "truthy (PBool b) = b"
| "truthy (PInt i) = (i \<noteq> 0)"
| "truthy (PFloat r) = (r \<noteq> ''0.0'' \<and> r \<noteq> ''-0.0'')"
| "truthy (PStr s) = (s \<noteq> [])"
| "truthy (PList xs) = (xs \<noteq> [])"
| "truthy (PDict d) = (d \<noteq> [])"

definition py_or :: "pyval \<Rightarrow> pyval \<Rightarrow> pyval" where
  "py_or a b = (if truthy a then a else b)"

definition opt_str :: "string option \<Rightarrow> pyval" where
  "opt_str x = (case x of None \<Rightarrow> PNone | Some s \<Rightarrow> PStr s)"

lemma dict_get_set_same [simp]: "dict_get (dict_set d k v) k = v"
proof (cases "k \<in> fst ` set d")
  case True
  then have "map_of (map (\<lambda>(k', v'). if k' = k then (k', v) else (k', v')) d) k = Some v"
    by (induction d) auto
  with True show ?thesis by (simp add: dict_get_def dict_set_def)
next
  case False
  then have "map_of d k = None" by (simp add: map_of_eq_None_iff)
  with False show ?thesis by (simp add: dict_get_def dict_set_def map_add_def)
qed

lemma dict_get_set_other [simp]: "k' \<noteq> k \<Longrightarrow> dict_get (dict_set d k v) k' = dict_get d k'"
proof -
  assume ne: "k' \<noteq> k"
  have "map_of (map (\<lambda>(k', v'). if k' = k then (k', v) else (k', v')) d) k' = map_of d k'"
    using ne by (induction d) auto
  with ne show ?thesis by (auto simp: dict_get_def dict_set_def map_add_def split: option.splits)
qed

subsection \<open>Printing values: \<^verbatim>\<open>str\<close> and \<^verbatim>\<open>repr\<close>\<close>

definition dec_digit :: "nat \<Rightarrow> char" where
  "dec_digit d = char_of (48 + d)"

fun nat_dec :: "nat \<Rightarrow> string" where
  "nat_dec n = (if n < 10 then [dec_digit n] else nat_dec (n div 10) @ [dec_digit (n mod 10)])"

declare nat_dec.simps [simp del]

lemma of_char_dec_digit: "d < 10 \<Longrightarrow> (of_char (dec_digit d) :: nat) = 48 + d"
  by (simp add: dec_digit_def)

definition dec_value :: "string \<Rightarrow> nat" where
  "dec_value s = foldl (\<lambda>n c. 10 * n + (of_char c - 48)) 0 s"

lemma dec_value_nat_dec [simp]: "dec_value (nat_dec n) = n"
proof (induction n rule: nat_dec.induct)
  case (1 n)
  then show ?case
    by (subst nat_dec.simps) (auto simp: dec_value_def of_char_dec_digit)
qed

lemma nat_dec_inject [simp]: "nat_dec m = nat_dec n \<longleftrightarrow> m = n"
  by (metis dec_value_nat_dec)

definition int_dec :: "int \<Rightarrow> string" where
  "int_dec i = (if i < 0 then CHR ''-'' # nat_dec (nat (- i)) else nat_dec (nat i))"

definition hex_digit :: "nat \<Rightarrow> char" where
  "hex_digit d = (if d < 10 then char_of (48 + d) else char_of (87 + d))"

definition repr_char :: "char \<Rightarrow> char \<Rightarrow> string" where
  "repr_char q c =
     (if c = q \<or> c = CHR 0x5C then [CHR 0x5C, c]
      else if c = CHR 0x0A then [CHR 0x5C, CHR ''n'']
      else if c = CHR 0x0D then [CHR 0x5C, CHR ''r'']
      else if c = CHR 0x09 then [CHR 0x5C, CHR ''t'']
      else if of_char c < (32::nat) \<or> of_char c = (127::nat)
      then [CHR 0x5C, CHR ''x'', hex_digit (of_char c div 16), hex_digit (of_char c mod 16)]
      else [c])"

definition repr_string :: "string \<Rightarrow> string" where
  "repr_string s =
     (let q = (if CHR 0x27 \<in> set s \<and> CHR 0x22 \<notin> set s then CHR 0x22 else CHR 0x27)
      in q # concat (map (repr_char q) s) @ [q])"

fun py_repr :: "pyval \<Rightarrow> string"
  and py_repr_elems :: "pyval list \<Rightarrow> string"
  and py_repr_items :: "(string \<times> pyval) list \<Rightarrow> string" where
  "py_repr PNone = ''None''"
| "py_repr (PBool b) = (if b then ''True'' else ''False'')"
| "py_repr (PInt i) = int_dec i"
| "py_repr (PFloat r) = r"
| "py_repr (PStr s) = repr_string s"
| "py_repr (PList xs) = ''['' @ py_repr_elems xs @ '']''"
| "py_repr (PDict d) = ''{'' @ py_repr_items d @ ''}''"
| "py_repr_elems [] = []"
| "py_repr_elems [x] = py_repr x"
| "py_repr_elems (x # y # xs) = py_repr x @ '', '' @ py_repr_elems (y # xs)"
| "py_repr_items [] = []"
| "py_repr_items [(k, v)] = repr_string k @ '': '' @ py_repr v"
| "py_repr_items ((k, v) # e # xs) =
     repr_string k @ '': '' @ py_repr v @ '', '' @ py_repr_items (e # xs)"

definition py_str :: "pyval \<Rightarrow> string" where
  "py_str v = (case v of PStr s \<Rightarrow> s | _ \<Rightarrow> py_repr v)"

lemma py_str_PStr [simp]: "py_str (PStr s) = s"
  by (simp add: py_str_def)

lemma py_str_PNone [simp]: "py_str PNone = ''None''"
  by (simp add: py_str_def)

subsection \<open>String helpers\<close>

definition lower_char :: "char \<Rightarrow> char" where
  "lower_char c =
     (let n = (of_char c :: nat)
      in if 65 \<le> n \<and> n \<le> 90 \<or> 192 \<le> n \<and> n \<le> 222 \<and> n \<noteq> 215 then char_of (n + 32) else c)"

definition str_lower :: "string \<Rightarrow> string" where
  "str_lower s = map lower_char s"

definition is_space :: "char \<Rightarrow> bool" where
  "is_space c = ((of_char c :: nat) \<in> {9, 10, 11, 12, 13, 28, 29, 30, 31, 32, 133, 160})"

definition str_strip :: "string \<Rightarrow> string" where
  "str_strip s = rev (dropWhile is_space (rev (dropWhile is_space s)))"

definition starts_with :: "string \<Rightarrow> string \<Rightarrow> bool" where
  "starts_with s p = (take (length p) s = p)"

lemma starts_with_iff: "starts_with s p \<longleftrightarrow> (\<exists>r. s = p @ r)"
proof
  assume "starts_with s p"
  then have "s = p @ drop (length p) s" by (metis append_take_drop_id starts_with_def)
  then show "\<exists>r. s = p @ r" ..
qed (auto simp: starts_with_def)

definition ends_with :: "string \<Rightarrow> string \<Rightarrow> bool" where
  "ends_with s p = (length p \<le> length s \<and> drop (length s - length p) s = p)"

subsection \<open>\<^verbatim>\<open>fnmatch.fnmatch\<close> on a POSIX host\<close>

text \<open>
  A pattern is read into tokens and the tokens are matched against the whole name. A bracket
  expression follows \<^verbatim>\<open>fnmatch.translate\<close>: a leading \<^verbatim>\<open>!\<close> negates it, a \<^verbatim>\<open>]\<close> right after the
  opening is literal, \<open>a-b\<close> is a range, an unclosed bracket is a literal \<^verbatim>\<open>[\<close>.
\<close>

datatype glob = GStar | GAny | GLit char | GClass bool "(char \<times> char) list"

fun class_items :: "string \<Rightarrow> (char \<times> char) list" where
  "class_items (lo # m # hi # rest) =
     (if m = CHR ''-'' then (lo, hi) # class_items rest
      else (lo, lo) # class_items (m # hi # rest))"
| "class_items (c # rest) = (c, c) # class_items rest"
| "class_items [] = []"

definition split_class :: "string \<Rightarrow> (bool \<times> string \<times> string) option" where
  "split_class p =
     (let neg = (case p of c # r \<Rightarrow> c = CHR ''!'' | [] \<Rightarrow> False);
          p1 = (if neg then tl p else p);
          lit = (case p1 of c # r \<Rightarrow> if c = CHR '']'' then [c] else [] | [] \<Rightarrow> []);
          p2 = drop (length lit) p1;
          body = takeWhile (\<lambda>c. c \<noteq> CHR '']'') p2
      in case dropWhile (\<lambda>c. c \<noteq> CHR '']'') p2 of
           [] \<Rightarrow> None
         | _ # rest \<Rightarrow> Some (neg, lit @ body, rest))"

lemma split_class_shorter: "split_class p = Some (neg, body, rest) \<Longrightarrow> length rest < length p"
proof -
  define neg' where "neg' = (case p of c # r \<Rightarrow> c = CHR ''!'' | [] \<Rightarrow> False)"
  define p1 where "p1 = (if neg' then tl p else p)"
  define lit where "lit = (case p1 of c # r \<Rightarrow> if c = CHR '']'' then [c] else [] | [] \<Rightarrow> [])"
  define q where "q = drop (length lit) p1"
  have "length q \<le> length p" by (auto simp: q_def p1_def)
  moreover assume "split_class p = Some (neg, body, rest)"
  then obtain c where "dropWhile (\<lambda>c. c \<noteq> CHR '']'') q = c # rest"
    unfolding split_class_def Let_def neg'_def [symmetric] p1_def [symmetric]
      lit_def [symmetric] q_def [symmetric]
    by (cases "dropWhile (\<lambda>c. c \<noteq> CHR '']'') q") simp_all
  then have "Suc (length rest) \<le> length q"
    by (metis length_Cons length_dropWhile_le)
  ultimately show ?thesis by simp
qed

function glob_tokens :: "string \<Rightarrow> glob list" where
  "glob_tokens [] = []"
| "glob_tokens (c # p) =
     (if c = CHR ''*'' then GStar # glob_tokens p
      else if c = CHR ''?'' then GAny # glob_tokens p
      else if c = CHR ''['' then
        (case split_class p of
           None \<Rightarrow> GLit c # glob_tokens p
         | Some (neg, body, rest) \<Rightarrow> GClass neg (class_items body) # glob_tokens rest)
      else GLit c # glob_tokens p)"
  by pat_completeness auto
termination
  by (relation "measure length") (auto dest: split_class_shorter)

definition in_class :: "(char \<times> char) list \<Rightarrow> char \<Rightarrow> bool" where
  "in_class items c = list_ex (\<lambda>(lo, hi). lo \<le> c \<and> c \<le> hi) items"

fun glob_match :: "glob list \<Rightarrow> string \<Rightarrow> bool" where
  "glob_match [] s = (s = [])"
| "glob_match (GStar # ts) [] = glob_match ts []"
| "glob_match (GStar # ts) (c # s) = (glob_match ts (c # s) \<or> glob_match (GStar # ts) s)"
| "glob_match (GAny # ts) [] = False"
| "glob_match (GAny # ts) (c # s) = glob_match ts s"
| "glob_match (GLit l # ts) [] = False"
| "glob_match (GLit l # ts) (c # s) = (l = c \<and> glob_match ts s)"
| "glob_match (GClass neg items # ts) [] = False"
| "glob_match (GClass neg items # ts) (c # s) = (in_class items c \<noteq> neg \<and> glob_match ts s)"

definition fnmatch :: "string \<Rightarrow> string \<Rightarrow> bool" where
  "fnmatch name pat = glob_match (glob_tokens pat) name"

lemma glob_match_star [simp]: "glob_match [GStar] s"
  by (induction s) auto

lemma fnmatch_star [simp]: "fnmatch s ''*''"
  by (simp add: fnmatch_def)

text \<open>A pattern without wildcards matches itself and nothing else.\<close>

lemma glob_match_literals: "glob_match (map GLit p) s \<longleftrightarrow> s = p"
proof (induction p arbitrary: s)
  case Nil
  then show ?case by simp
next
  case (Cons c p)
  then show ?case by (cases s) auto
qed

lemma fnmatch_literal:
  assumes "\<forall>c \<in> set p. c \<noteq> CHR ''*'' \<and> c \<noteq> CHR ''?'' \<and> c \<noteq> CHR ''[''"
  shows "fnmatch s p \<longleftrightarrow> s = p"
proof -
  have "glob_tokens p = map GLit p"
    using assms by (induction p) auto
  then show ?thesis by (simp add: fnmatch_def glob_match_literals)
qed

subsection \<open>Lists and options\<close>

text \<open>A \<^verbatim>\<open>for\<close> loop that returns the first hit is \<open>List.find\<close>.\<close>

lemma find_SomeD: "List.find P xs = Some x \<Longrightarrow> x \<in> set xs \<and> P x"
  by (induction xs) (auto split: if_splits)

lemma find_eq_None [simp]: "List.find P xs = None \<longleftrightarrow> (\<forall>x \<in> set xs. \<not> P x)"
  by (induction xs) auto

subsection \<open>Invariants of stepwise components\<close>

text \<open>
  An invariant kept by one step of a relation holds along every run. The locale is the contract
  of a stepwise component; each stateful component interprets it.
\<close>

locale step_invariant =
  fixes step :: "'s \<Rightarrow> 's \<Rightarrow> bool"
    and inv :: "'s \<Rightarrow> bool"
  assumes keep: "step s t \<Longrightarrow> inv s \<Longrightarrow> inv t"
begin

lemma keep_star: "step\<^sup>*\<^sup>* s t \<Longrightarrow> inv s \<Longrightarrow> inv t"
  by (induction rule: rtranclp_induct) (auto intro: keep)

end

subsection \<open>Functional refinement\<close>

text \<open>
  A detailed step implements an abstract one through an abstraction function, for the operations that
  stay within \<open>ok\<close>. The contract is stated once; what follows for runs holds for every implementation.
\<close>

locale refines =
  fixes inv :: "'s \<Rightarrow> bool"
    and abs :: "'s \<Rightarrow> 'a"
    and ok :: "'o \<Rightarrow> bool"
    and step :: "'o \<Rightarrow> 's \<Rightarrow> 's"
    and spec :: "'o \<Rightarrow> 'a \<Rightarrow> 'a"
  assumes inv_step: "inv s \<Longrightarrow> ok opr \<Longrightarrow> inv (step opr s)"
    and abs_step: "inv s \<Longrightarrow> ok opr \<Longrightarrow> abs (step opr s) = spec opr (abs s)"
begin

lemma inv_run: "inv s \<Longrightarrow> list_all ok ops \<Longrightarrow> inv (fold step ops s)"
  by (induction ops arbitrary: s) (auto intro: inv_step)

lemma abs_run: "inv s \<Longrightarrow> list_all ok ops \<Longrightarrow> abs (fold step ops s) = fold spec ops (abs s)"
  by (induction ops arbitrary: s) (simp_all add: abs_step inv_step)

end

end
