(* ===== verification/Turn_State_Machine.thy ===== *)
theory Turn_State_Machine
  imports Raiker_Prelude
begin

text \<open>
  The state machine one turn runs through (\<^verbatim>\<open>raiker/runtime/state_machine.py\<close>): the nineteen
  runtime states, the published transition table, and \<^verbatim>\<open>RuntimeStateMachine.transition\<close>, which
  refuses an unknown state and a transition the table does not list, and records the history.
\<close>

subsection \<open>States and the transition table\<close>

datatype runtime_state =
    RECEIVED | NORMALISED | CLASSIFIED | CONTEXT_READY | PLAN_READY | PLAN_SKIPPED
  | POLICY_REVIEWED | EXECUTING | WAITING_FOR_APPROVAL | DENIED | OBSERVING | VERIFYING
  | RESPONDING | CHECKPOINTING | CLOSED | FAILED | CANCELLED | PAUSED | WAITING_FOR_USER

definition RUNTIME_STATES :: "(string \<times> runtime_state) list" where
  "RUNTIME_STATES =
     [(''RECEIVED'', RECEIVED), (''NORMALISED'', NORMALISED), (''CLASSIFIED'', CLASSIFIED),
      (''CONTEXT_READY'', CONTEXT_READY), (''PLAN_READY'', PLAN_READY),
      (''PLAN_SKIPPED'', PLAN_SKIPPED), (''POLICY_REVIEWED'', POLICY_REVIEWED),
      (''EXECUTING'', EXECUTING), (''WAITING_FOR_APPROVAL'', WAITING_FOR_APPROVAL),
      (''DENIED'', DENIED), (''OBSERVING'', OBSERVING), (''VERIFYING'', VERIFYING),
      (''RESPONDING'', RESPONDING), (''CHECKPOINTING'', CHECKPOINTING), (''CLOSED'', CLOSED),
      (''FAILED'', FAILED), (''CANCELLED'', CANCELLED), (''PAUSED'', PAUSED),
      (''WAITING_FOR_USER'', WAITING_FOR_USER)]"

fun VALID_TRANSITIONS :: "runtime_state \<Rightarrow> runtime_state list" where
  "VALID_TRANSITIONS RECEIVED = [NORMALISED]"
| "VALID_TRANSITIONS NORMALISED = [CLASSIFIED]"
| "VALID_TRANSITIONS CLASSIFIED = [CONTEXT_READY]"
| "VALID_TRANSITIONS CONTEXT_READY = [PLAN_READY, PLAN_SKIPPED]"
| "VALID_TRANSITIONS PLAN_READY = [POLICY_REVIEWED, RESPONDING]"
| "VALID_TRANSITIONS PLAN_SKIPPED = [POLICY_REVIEWED, RESPONDING]"
| "VALID_TRANSITIONS POLICY_REVIEWED = [EXECUTING, WAITING_FOR_APPROVAL, DENIED, RESPONDING]"
| "VALID_TRANSITIONS EXECUTING = [OBSERVING]"
| "VALID_TRANSITIONS WAITING_FOR_APPROVAL = [RESPONDING]"
| "VALID_TRANSITIONS DENIED = [RESPONDING, POLICY_REVIEWED]"
| "VALID_TRANSITIONS OBSERVING = [VERIFYING]"
| "VALID_TRANSITIONS VERIFYING = [RESPONDING, POLICY_REVIEWED]"
| "VALID_TRANSITIONS RESPONDING = [CHECKPOINTING, CLOSED]"
| "VALID_TRANSITIONS CHECKPOINTING = [CLOSED]"
| "VALID_TRANSITIONS CLOSED = []"
| "VALID_TRANSITIONS FAILED = []"
| "VALID_TRANSITIONS CANCELLED = []"
| "VALID_TRANSITIONS PAUSED = [RECEIVED, CANCELLED]"
| "VALID_TRANSITIONS WAITING_FOR_USER = [RECEIVED, CANCELLED]"

subsection \<open>The machine\<close>

record RuntimeStateMachine =
  state :: runtime_state
  history :: "runtime_state list"

datatype transition_error = UnknownState string | InvalidTransition runtime_state runtime_state

definition new_machine :: RuntimeStateMachine where
  "new_machine = \<lparr>state = RECEIVED, history = [RECEIVED]\<rparr>"

definition transition :: "RuntimeStateMachine \<Rightarrow> string \<Rightarrow> transition_error + RuntimeStateMachine" where
  "transition m new_state =
     (case map_of RUNTIME_STATES new_state of
        None \<Rightarrow> Inl (UnknownState new_state)
      | Some s \<Rightarrow>
          if s \<notin> set (VALID_TRANSITIONS (state m)) then Inl (InvalidTransition (state m) s)
          else Inr (m\<lparr>state := s, history := history m @ [s]\<rparr>))"

text \<open>A turn drives the machine with a sequence of requests; a refused one raises and ends it.\<close>

fun run_transitions :: "RuntimeStateMachine \<Rightarrow> string list \<Rightarrow> transition_error + RuntimeStateMachine" where
  "run_transitions m [] = Inr m"
| "run_transitions m (r # rs) =
     (case transition m r of Inl e \<Rightarrow> Inl e | Inr m' \<Rightarrow> run_transitions m' rs)"

inductive machine_step :: "RuntimeStateMachine \<Rightarrow> RuntimeStateMachine \<Rightarrow> bool" where
  step: "transition m r = Inr m' \<Longrightarrow> machine_step m m'"

inductive_cases machine_stepE [elim!]: "machine_step m m'"

subsection \<open>Invariants of every reachable machine\<close>

lemma runtime_state_names: "map_of RUNTIME_STATES r = Some s \<Longrightarrow> (r, s) \<in> set RUNTIME_STATES"
  by (rule map_of_SomeD)

definition state_name :: "runtime_state \<Rightarrow> string" where
  "state_name s = fst (the (List.find (\<lambda>p. snd p = s) RUNTIME_STATES))"

lemma state_name_parses: "map_of RUNTIME_STATES (state_name s) = Some s"
  by (cases s) (simp_all add: RUNTIME_STATES_def state_name_def)

lemma transition_Inr:
  "transition m r = Inr m' \<longleftrightarrow>
     (\<exists>s. map_of RUNTIME_STATES r = Some s \<and> s \<in> set (VALID_TRANSITIONS (state m)) \<and>
          m' = m\<lparr>state := s, history := history m @ [s]\<rparr>)"
  by (auto simp: transition_def split: option.splits)

lemma run_transitions_steps: "run_transitions m rs = Inr m' \<Longrightarrow> machine_step\<^sup>*\<^sup>* m m'"
proof (induction rs arbitrary: m)
  case Nil
  then show ?case by simp
next
  case (Cons r rs)
  then obtain m1 where "transition m r = Inr m1" and "run_transitions m1 rs = Inr m'"
    by (auto split: sum.splits)
  with Cons.IH show ?case
    by (meson converse_rtranclp_into_rtranclp machine_step.step)
qed

fun table_path :: "runtime_state list \<Rightarrow> bool" where
  "table_path (a # b # xs) = (b \<in> set (VALID_TRANSITIONS a) \<and> table_path (b # xs))"
| "table_path _ = True"

definition machine_inv :: "RuntimeStateMachine \<Rightarrow> bool" where
  "machine_inv m \<longleftrightarrow> history m \<noteq> [] \<and> hd (history m) = RECEIVED \<and> last (history m) = state m
     \<and> table_path (history m)
     \<and> state m \<notin> {FAILED, CANCELLED, PAUSED, WAITING_FOR_USER}"

lemma table_path_snoc:
  "table_path (xs @ [b]) \<longleftrightarrow> (xs = [] \<or> (table_path xs \<and> b \<in> set (VALID_TRANSITIONS (last xs))))"
  by (induction xs rule: table_path.induct) auto

lemma table_path_nth:
  "table_path xs \<Longrightarrow> Suc i < length xs \<Longrightarrow> xs ! Suc i \<in> set (VALID_TRANSITIONS (xs ! i))"
proof (induction xs arbitrary: i rule: table_path.induct)
  case (1 a b xs)
  then show ?case by (cases i) auto
qed auto

lemma sinks_not_entered:
  "s \<in> set (VALID_TRANSITIONS a) \<Longrightarrow> a \<notin> {PAUSED, WAITING_FOR_USER} \<Longrightarrow>
     s \<notin> {FAILED, CANCELLED, PAUSED, WAITING_FOR_USER}"
  by (cases a) auto

interpretation turn: step_invariant machine_step machine_inv
proof
  fix m m'
  assume "machine_step m m'" and inv: "machine_inv m"
  then obtain r s where "s \<in> set (VALID_TRANSITIONS (state m))"
    and "m' = m\<lparr>state := s, history := history m @ [s]\<rparr>"
    by (auto simp: transition_Inr)
  with inv show "machine_inv m'"
    using sinks_not_entered [of s "state m"]
    by (auto simp: machine_inv_def table_path_snoc)
qed

lemma new_machine_inv: "machine_inv new_machine"
  by (simp add: machine_inv_def new_machine_def)

lemma reachable_machine_inv: "machine_step\<^sup>*\<^sup>* new_machine m \<Longrightarrow> machine_inv m"
  by (rule turn.keep_star [OF _ new_machine_inv])

subsection \<open>Properties of a turn\<close>

lemma run_machine_inv: "run_transitions new_machine rs = Inr m \<Longrightarrow> machine_inv m"
  by (rule reachable_machine_inv [OF run_transitions_steps])

lemma table_path_no_sink:
  "table_path xs \<Longrightarrow> xs \<noteq> [] \<Longrightarrow> hd xs = RECEIVED \<Longrightarrow>
     set xs \<inter> {FAILED, CANCELLED, PAUSED, WAITING_FOR_USER} = {}"
proof (induction xs rule: rev_induct)
  case (snoc b xs)
  show ?case
  proof (cases "xs = []")
    case False
    with snoc have "set xs \<inter> {FAILED, CANCELLED, PAUSED, WAITING_FOR_USER} = {}"
      and "b \<in> set (VALID_TRANSITIONS (last xs))" and "last xs \<in> set xs"
      by (auto simp: table_path_snoc)
    moreover from this have "last xs \<notin> {PAUSED, WAITING_FOR_USER}" by auto
    ultimately show ?thesis using sinks_not_entered [of b "last xs"] by auto
  qed (use snoc.prems in auto)
qed simp

text \<open>
  In the history of every turn, whatever requests drove it, a step into \<open>EXECUTING\<close> comes
  directly after \<open>POLICY_REVIEWED\<close>: nothing executes that was not just reviewed.
\<close>

theorem executing_follows_policy_review:
  assumes "run_transitions new_machine rs = Inr m" and "Suc i < length (history m)"
    and "history m ! Suc i = EXECUTING"
  shows "history m ! i = POLICY_REVIEWED"
proof -
  have "EXECUTING \<in> set (VALID_TRANSITIONS (history m ! i))"
    using run_machine_inv [OF assms(1)] assms(2,3) table_path_nth by (metis machine_inv_def)
  then show ?thesis by (cases "history m ! i") auto
qed

abbreviation executing_run :: "string list" where
  "executing_run \<equiv> [''NORMALISED'', ''CLASSIFIED'', ''CONTEXT_READY'', ''PLAN_READY'',
     ''POLICY_REVIEWED'', ''EXECUTING'']"

abbreviation executing_machine :: RuntimeStateMachine where
  "executing_machine \<equiv> \<lparr>state = EXECUTING, history = [RECEIVED, NORMALISED, CLASSIFIED,
     CONTEXT_READY, PLAN_READY, POLICY_REVIEWED, EXECUTING]\<rparr>"

lemma executing_run_machine: "run_transitions new_machine executing_run = Inr executing_machine"
  by (simp add: new_machine_def transition_def RUNTIME_STATES_def)

theorem executing_follows_policy_review_witness:
  "history executing_machine ! 6 = EXECUTING \<and> history executing_machine ! 5 = POLICY_REVIEWED"
  using executing_follows_policy_review [OF executing_run_machine, of 5] by simp

text \<open>
  No request sequence takes a turn through \<open>FAILED\<close>, \<open>CANCELLED\<close>, \<open>PAUSED\<close> or
  \<open>WAITING_FOR_USER\<close>: the table has no transition into them from a state a turn visits.
\<close>

theorem turn_never_enters_sinks:
  assumes "run_transitions new_machine rs = Inr m"
  shows "set (history m) \<inter> {FAILED, CANCELLED, PAUSED, WAITING_FOR_USER} = {}"
  using run_machine_inv [OF assms] by (intro table_path_no_sink) (auto simp: machine_inv_def)

theorem turn_never_enters_sinks_witness:
  "set (history executing_machine) \<inter> {FAILED, CANCELLED, PAUSED, WAITING_FOR_USER} = {}"
  using turn_never_enters_sinks [OF executing_run_machine] .

text \<open>One way to the end of the turn from every state that has one.\<close>

fun way_out :: "runtime_state \<Rightarrow> string list" where
  "way_out RECEIVED = ''NORMALISED'' # ''CLASSIFIED'' # ''CONTEXT_READY'' # ''PLAN_READY'' # [''RESPONDING'', ''CLOSED'']"
| "way_out NORMALISED = ''CLASSIFIED'' # ''CONTEXT_READY'' # ''PLAN_READY'' # [''RESPONDING'', ''CLOSED'']"
| "way_out CLASSIFIED = ''CONTEXT_READY'' # ''PLAN_READY'' # [''RESPONDING'', ''CLOSED'']"
| "way_out CONTEXT_READY = ''PLAN_READY'' # [''RESPONDING'', ''CLOSED'']"
| "way_out EXECUTING = ''OBSERVING'' # ''VERIFYING'' # [''RESPONDING'', ''CLOSED'']"
| "way_out OBSERVING = ''VERIFYING'' # [''RESPONDING'', ''CLOSED'']"
| "way_out RESPONDING = [''CLOSED'']"
| "way_out CHECKPOINTING = [''CLOSED'']"
| "way_out CLOSED = []"
| "way_out _ = [''RESPONDING'', ''CLOSED'']"

lemma way_out_closes:
  "state m \<notin> {FAILED, CANCELLED, PAUSED, WAITING_FOR_USER} \<Longrightarrow>
     \<exists>m'. run_transitions m (way_out (state m)) = Inr m' \<and> state m' = CLOSED"
  by (cases "state m") (simp_all add: transition_def RUNTIME_STATES_def)

text \<open>
  C40: A turn is never stuck: from every machine a turn reaches, some sequence of requests is
  accepted and ends in \<open>CLOSED\<close>.
\<close>

theorem turn_can_always_close:
  assumes "run_transitions new_machine rs = Inr m"
  shows "\<exists>rest m'. run_transitions m rest = Inr m' \<and> state m' = CLOSED"
  using way_out_closes [of m] run_machine_inv [OF assms] by (auto simp: machine_inv_def)

theorem turn_can_always_close_witness:
  "\<exists>rest m'. run_transitions executing_machine rest = Inr m' \<and> state m' = CLOSED"
  using turn_can_always_close [OF executing_run_machine] .

end
