(* ===== verification/Governance_Store.thy ===== *)
theory Governance_Store
  imports Raiker_Prelude
begin

text \<open>
  The data the governance components share: principals, the tables of the SQLite store they read
  and write, the event log, and the contracts that cross component boundaries
  (\<^verbatim>\<open>runtime/authority/models.py\<close>, \<^verbatim>\<open>runtime/authority/router.py\<close>, \<^verbatim>\<open>runtime/executors/base.py\<close>,
  \<^verbatim>\<open>contracts/models.py\<close>, \<^verbatim>\<open>storage/stores/\<close>).

  A table keyed by a primary key is a map; a table whose row order is visible is a list. JSON
  columns hold the decoded value, \<open>None\<close> standing for text that does not parse. One operation reads
  the clock once: \<open>clock\<close> is what \<^verbatim>\<open>utc_now()\<close> returns during it. Identifiers come from a counter
  through the \<open>uuid\<close> of the environment. Event ids and timestamps, which \<^verbatim>\<open>make_event\<close> adds to
  every event alike, are left out.
\<close>

subsection \<open>Principals\<close>

datatype PrincipalType = HUMAN | AI_AGENT | AUTOMATION | SYSTEM

fun principal_type_value :: "PrincipalType \<Rightarrow> string" where
  "principal_type_value HUMAN = ''human''"
| "principal_type_value AI_AGENT = ''ai_agent''"
| "principal_type_value AUTOMATION = ''automation''"
| "principal_type_value SYSTEM = ''system''"

record Principal =
  principal_id :: string
  principal_type :: PrincipalType
  delegated_by_user_id :: "string option"
  role_ids :: "string list"
  domain_scopes :: "string list"
  pr_expires_at :: "string option"
  is_active :: bool

abbreviation human :: "Principal \<Rightarrow> bool" where
  "human p \<equiv> principal_type p = HUMAN"

subsection \<open>Rows\<close>

record event =
  ev_session :: string
  ev_turn :: "string option"
  ev_type :: string
  ev_actor :: string
  ev_payload :: pydict

record tool_action_row =
  ta_session :: string
  ta_turn :: "string option"
  ta_tool :: string
  ta_args :: "pyval option"
  ta_risk :: string
  ta_status :: string
  ta_proposed_at :: string
  ta_completed_at :: "string option"
  ta_proposed_by :: string
  ta_owner :: "string option"

record approval_row =
  ap_action :: string
  ap_status :: string
  ap_scope :: string
  ap_created_at :: string
  ap_expires_at :: "string option"
  ap_sha256 :: "string option"
  ap_critical :: bool
  ap_approved_by :: "string option"
  ap_resolved_at :: "string option"
  ap_answer :: "string option"
  ap_decision_scope :: "pyval option"

record grant_row =
  gr_id :: string
  gr_principal :: string
  gr_granted_by :: string
  gr_action_type :: string
  gr_tool :: string
  gr_scope :: string
  gr_ceiling :: string
  gr_reason :: string
  gr_created_at :: string
  gr_expires_at :: string
  gr_revoked :: bool
  gr_revoked_at :: "string option"
  gr_revoked_by :: "string option"
  gr_use_count :: nat
  gr_last_used_at :: "string option"

record acceptance_row =
  rk_id :: string
  rk_for :: string
  rk_action_type :: string
  rk_domain :: string
  rk_risk :: string
  rk_one_time :: string
  rk_expires_at :: "string option"
  rk_created_at :: string

record runtime_mode_row =
  rm_mode_name :: string
  rm_status :: string
  rm_created_at :: string

record managed_rule =
  mr_pattern :: string
  mr_effect :: string
  mr_reason :: string

record notice_row =
  nt_principal :: string
  nt_kind :: string
  nt_subject :: string
  nt_read :: bool

record api_session =
  as_revoked :: bool
  as_age_seconds :: "int option"

text \<open>
  \<open>principals\<close> and \<open>accounts\<close> are kept as lists in primary-key order, because \<^verbatim>\<open>account_scope\<close>
  counts the accounts one user delegated. An account row is its principal and its MFA flag.
\<close>

record store =
  clock :: string
  next_uuid :: nat
  events :: "event list"
  principals :: "(string \<times> Principal) list"
  accounts :: "(string \<times> bool) list"
  roles :: "(string \<times> string) list"
  users :: "(string \<times> bool) list"
  managed_policies :: "managed_rule list"
  gate_global :: "string \<rightharpoonup> string"
  gate_principal :: "string \<times> string \<rightharpoonup> string"
  mode_global :: "string \<rightharpoonup> string"
  mode_principal :: "string \<times> string \<rightharpoonup> string"
  runtime_mode_state :: "runtime_mode_row list"
  runtime_mode_principal :: "string \<rightharpoonup> runtime_mode_row"
  threat_model_acks :: "string list"
  environment_selection :: "string \<rightharpoonup> string"
  api_sessions :: "string \<rightharpoonup> api_session"
  user_settings :: "string \<rightharpoonup> pyval option"
  tool_actions :: "string \<rightharpoonup> tool_action_row"
  approvals :: "(string \<times> approval_row) list"
  standing_grants :: "grant_row list"
  risk_acceptances :: "acceptance_row list"
  notifications :: "notice_row list"

text \<open>A freshly migrated store, before any account exists.\<close>

definition empty_store :: store where
  "empty_store =
     \<lparr>clock = ''2026-01-01T00:00:00Z'', next_uuid = 0, events = [], principals = [], accounts = [],
      roles = [], users = [], managed_policies = [], gate_global = Map.empty,
      gate_principal = Map.empty, mode_global = Map.empty, mode_principal = Map.empty,
      runtime_mode_state = [], runtime_mode_principal = Map.empty, threat_model_acks = [],
      environment_selection = Map.empty, api_sessions = Map.empty, user_settings = Map.empty,
      tool_actions = Map.empty, approvals = [], standing_grants = [], risk_acceptances = [],
      notifications = []\<rparr>"

text \<open>A human owner and an agent the owner delegated, for concrete instances.\<close>

definition owner_principal :: Principal where
  "owner_principal =
     \<lparr>principal_id = ''own'', principal_type = HUMAN, delegated_by_user_id = Some ''usr'',
      role_ids = [''r1''], domain_scopes = [''coding''], pr_expires_at = None, is_active = True\<rparr>"

definition agent_principal :: Principal where
  "agent_principal =
     \<lparr>principal_id = ''agent'', principal_type = AI_AGENT, delegated_by_user_id = Some ''usr'',
      role_ids = [], domain_scopes = [''coding''], pr_expires_at = None, is_active = True\<rparr>"

definition owned_store :: store where
  "owned_store = empty_store
     \<lparr>principals := [(''own'', owner_principal), (''agent'', agent_principal)],
      accounts := [(''own'', False)], roles := [(''r1'', ''runtime_gate_manager'')]\<rparr>"

lemmas owned_store_unfold = owned_store_def empty_store_def owner_principal_def agent_principal_def

subsection \<open>Reads of the account tables\<close>

definition get_principal :: "store \<Rightarrow> string \<Rightarrow> Principal option" where
  "get_principal s pid = map_of (principals s) pid"

definition get_role_name :: "store \<Rightarrow> string \<Rightarrow> string option" where
  "get_role_name s rid = map_of (roles s) rid"

definition get_account :: "store \<Rightarrow> string \<Rightarrow> bool option" where
  "get_account s pid = map_of (accounts s) pid"

definition principal_mfa_enrolled :: "store \<Rightarrow> string \<Rightarrow> bool" where
  "principal_mfa_enrolled s pid = (map_of (accounts s) pid = Some True)"

definition load_api_session :: "store \<Rightarrow> string \<Rightarrow> api_session option" where
  "load_api_session s sid = (if sid = [] then None else api_sessions s sid)"

definition delegated_accounts :: "store \<Rightarrow> string \<Rightarrow> string list" where
  "delegated_accounts s uid =
     filter (\<lambda>pid. case get_principal s pid of
                     None \<Rightarrow> False
                   | Some p \<Rightarrow> delegated_by_user_id p = Some uid)
       (map fst (accounts s))"

definition account_scope :: "store \<Rightarrow> string option \<Rightarrow> string option" where
  "account_scope s pid =
     (case pid of
        None \<Rightarrow> None
      | Some i \<Rightarrow>
          if i = [] then None
          else if get_account s i \<noteq> None then Some i
          else (case get_principal s i of
                  None \<Rightarrow> None
                | Some p \<Rightarrow>
                    if principal_type p \<noteq> AI_AGENT then None
                    else (case delegated_by_user_id p of
                            None \<Rightarrow> None
                          | Some u \<Rightarrow>
                              if u = [] then None
                              else (case delegated_accounts s u of [a] \<Rightarrow> Some a | _ \<Rightarrow> None))))"

subsection \<open>Identifiers and the event log\<close>

definition append_event :: "string \<Rightarrow> string \<Rightarrow> pydict \<Rightarrow> string \<Rightarrow> string option \<Rightarrow> store \<Rightarrow> store" where
  "append_event typ actor payload session turn s =
     s\<lparr>events := events s @ [\<lparr>ev_session = session, ev_turn = turn, ev_type = typ,
                              ev_actor = actor, ev_payload = payload\<rparr>]\<rparr>"

text \<open>\<^verbatim>\<open>new_id\<close>: \<open>uuid n\<close> is the hex form of the n-th random identifier drawn.\<close>

definition new_id :: "(nat \<Rightarrow> string) \<Rightarrow> string \<Rightarrow> store \<Rightarrow> string \<times> store" where
  "new_id uuid prefix s = (prefix @ uuid (next_uuid s), s\<lparr>next_uuid := Suc (next_uuid s)\<rparr>)"

text \<open>\<^verbatim>\<open>RuntimeAuthority._event\<close>: an empty session is logged as \<open>authz\<close>.\<close>

definition authority_event :: "string \<Rightarrow> string \<Rightarrow> pydict \<Rightarrow> string \<Rightarrow> string option \<Rightarrow> store \<Rightarrow> store" where
  "authority_event typ actor payload session turn =
     append_event typ actor payload (if session = [] then ''authz'' else session) turn"

subsection \<open>Contracts between the components\<close>

record CriticalConfirmation =
  cc_approval_id :: string
  cc_confirmed_by :: string
  cc_step_up :: bool

record GovernedAction =
  action_id :: string
  ga_principal_id :: string
  action_type :: string
  tool_name :: string
  arguments :: pydict
  domain_scope :: string
  risk_level :: string
  requires_approval :: bool
  requires_risk_acceptance :: bool
  session_id :: string
  turn_id :: "string option"
  origin_session_id :: string
  critical_confirmation :: "CriticalConfirmation option"
  decision_mode_override :: "string option"
  authority_kind :: string
  authority_id :: string

record PolicyDecision =
  pd_decision :: string
  pd_reasons :: "string list"
  pd_requires_user_approval :: bool
  pd_version :: string
  pd_risk :: string

record GovernedActionResult =
  res_action_id :: string
  res_decision :: string
  res_policy :: "PolicyDecision option"
  res_message :: string
  res_error :: "string option"
  res_approval_id :: "string option"
  res_artifacts :: pydict

record ExecutionResult =
  er_ok :: bool
  er_capability :: string
  er_action_id :: string
  er_reason_code :: "string option"
  er_summary :: string
  er_artifacts :: pydict

datatype py_error = ContractValidationError string | JSONDecodeError | IntegrityError | Raised string

definition governed_result :: "GovernedAction \<Rightarrow> string \<Rightarrow> string \<Rightarrow> GovernedActionResult" where
  "governed_result a decision msg =
     \<lparr>res_action_id = action_id a, res_decision = decision, res_policy = None, res_message = msg,
      res_error = None, res_approval_id = None, res_artifacts = []\<rparr>"

lemma governed_result_simps [simp]:
  "res_decision (governed_result a d m) = d"
  "res_message (governed_result a d m) = m"
  "res_error (governed_result a d m) = None"
  by (simp_all add: governed_result_def)

lemma append_event_frame [frame_simps]:
  "approvals (append_event t a p se tu s) = approvals s"
  "tool_actions (append_event t a p se tu s) = tool_actions s"
  "standing_grants (append_event t a p se tu s) = standing_grants s"
  "gate_global (append_event t a p se tu s) = gate_global s"
  "gate_principal (append_event t a p se tu s) = gate_principal s"
  "mode_global (append_event t a p se tu s) = mode_global s"
  "mode_principal (append_event t a p se tu s) = mode_principal s"
  "runtime_mode_state (append_event t a p se tu s) = runtime_mode_state s"
  "runtime_mode_principal (append_event t a p se tu s) = runtime_mode_principal s"
  "risk_acceptances (append_event t a p se tu s) = risk_acceptances s"
  "principals (append_event t a p se tu s) = principals s"
  "accounts (append_event t a p se tu s) = accounts s"
  "roles (append_event t a p se tu s) = roles s"
  "clock (append_event t a p se tu s) = clock s"
  "api_sessions (append_event t a p se tu s) = api_sessions s"
  "notifications (append_event t a p se tu s) = notifications s"
  by (simp_all add: append_event_def)

lemma authority_event_frame [frame_simps]:
  "approvals (authority_event t a p se tu s) = approvals s"
  "tool_actions (authority_event t a p se tu s) = tool_actions s"
  "standing_grants (authority_event t a p se tu s) = standing_grants s"
  "gate_global (authority_event t a p se tu s) = gate_global s"
  "gate_principal (authority_event t a p se tu s) = gate_principal s"
  "mode_global (authority_event t a p se tu s) = mode_global s"
  "mode_principal (authority_event t a p se tu s) = mode_principal s"
  "runtime_mode_state (authority_event t a p se tu s) = runtime_mode_state s"
  "runtime_mode_principal (authority_event t a p se tu s) = runtime_mode_principal s"
  "risk_acceptances (authority_event t a p se tu s) = risk_acceptances s"
  "principals (authority_event t a p se tu s) = principals s"
  "accounts (authority_event t a p se tu s) = accounts s"
  "roles (authority_event t a p se tu s) = roles s"
  "clock (authority_event t a p se tu s) = clock s"
  "api_sessions (authority_event t a p se tu s) = api_sessions s"
  "notifications (authority_event t a p se tu s) = notifications s"
  by (simp_all add: authority_event_def append_event_frame)

text \<open>The control scope depends on the account tables only.\<close>

lemma account_scope_cong:
  "principals s = principals t \<Longrightarrow> accounts s = accounts t \<Longrightarrow> account_scope s pid = account_scope t pid"
  by (simp add: account_scope_def get_account_def get_principal_def delegated_accounts_def
           split: option.splits)

end
