(* ===== verification/Risk_Model.thy ===== *)
theory Risk_Model
  imports Raiker_Prelude
begin

text \<open>
  The risk model of \<^verbatim>\<open>raiker/policy/risk.py\<close>: the four bands and their ranks, the named signals
  and the floor each one raises, and \<^verbatim>\<open>assess\<close>, which derives the band of one action. The prose
  fields of a band or a signal (summary, definition, question) carry no behaviour and are left out.
\<close>

subsection \<open>Bands and signals\<close>

record RiskBand =
  band_name :: string
  band_rank :: nat

record RiskSignal =
  signal_name :: string
  signal_band :: string

definition BLOCKED :: string where
  "BLOCKED = ''blocked''"

definition RISK_BANDS :: "RiskBand list" where
  "RISK_BANDS =
     [\<lparr>band_name = ''low'', band_rank = 0\<rparr>,
      \<lparr>band_name = ''medium'', band_rank = 1\<rparr>,
      \<lparr>band_name = ''high'', band_rank = 2\<rparr>,
      \<lparr>band_name = ''critical'', band_rank = 3\<rparr>]"

definition RISK_SIGNALS :: "RiskSignal list" where
  "RISK_SIGNALS =
     [\<lparr>signal_name = ''changes_state'', signal_band = ''medium''\<rparr>,
      \<lparr>signal_name = ''not_covered_by_checkpoint'', signal_band = ''high''\<rparr>,
      \<lparr>signal_name = ''leaves_this_machine'', signal_band = ''high''\<rparr>,
      \<lparr>signal_name = ''crosses_sandbox_boundary'', signal_band = ''high''\<rparr>,
      \<lparr>signal_name = ''observable_by_others'', signal_band = ''high''\<rparr>,
      \<lparr>signal_name = ''spends_owner_credential'', signal_band = ''high''\<rparr>,
      \<lparr>signal_name = ''unbounded_target'', signal_band = ''critical''\<rparr>,
      \<lparr>signal_name = ''destroys_outside_workspace'', signal_band = ''critical''\<rparr>,
      \<lparr>signal_name = ''changes_authority'', signal_band = ''critical''\<rparr>,
      \<lparr>signal_name = ''changes_own_oversight'', signal_band = ''critical''\<rparr>]"

definition ranks :: "string \<rightharpoonup> nat" where
  "ranks = (map_of (map (\<lambda>b. (band_name b, band_rank b)) RISK_BANDS))(BLOCKED \<mapsto> 4)"

datatype risk_error = UnknownRiskBand string | UnknownRiskSignal string

fun risk_error_text :: "risk_error \<Rightarrow> string" where
  "risk_error_text (UnknownRiskBand n) = ''unknown_risk_band:'' @ n"
| "risk_error_text (UnknownRiskSignal n) = ''unknown_risk_signal:'' @ n"

definition band :: "string \<Rightarrow> risk_error + RiskBand" where
  "band name = (case List.find (\<lambda>b. band_name b = name) RISK_BANDS of
                  None \<Rightarrow> Inl (UnknownRiskBand name)
                | Some b \<Rightarrow> Inr b)"

definition rank :: "string \<Rightarrow> risk_error + nat" where
  "rank name = (case ranks name of None \<Rightarrow> Inl (UnknownRiskBand name) | Some r \<Rightarrow> Inr r)"

subsection \<open>The strictest band and the assessment\<close>

text \<open>
  The loop of \<^verbatim>\<open>strictest\<close>: \<open>chosen\<close> starts at \<open>low\<close> and is replaced by every name that ranks
  strictly higher; an unknown name raises.
\<close>

fun strictest_from :: "string \<Rightarrow> string list \<Rightarrow> risk_error + string" where
  "strictest_from chosen [] = Inr chosen"
| "strictest_from chosen (name # names) =
     (case rank name of
        Inl e \<Rightarrow> Inl e
      | Inr r \<Rightarrow>
          (case rank chosen of
             Inl e \<Rightarrow> Inl e
           | Inr c \<Rightarrow> strictest_from (if c < r then name else chosen) names))"

definition strictest :: "string list \<Rightarrow> risk_error + string" where
  "strictest names = strictest_from ''low'' names"

record RiskAssessment =
  ra_band :: string
  ra_signals :: "string list"
  ra_declared :: string
  ra_owner_floor :: "string option"

definition ra_reasons :: "RiskAssessment \<Rightarrow> string list" where
  "ra_reasons a =
     [''risk_declared:'' @ ra_declared a]
     @ map (\<lambda>n. ''risk_signal:'' @ n) (ra_signals a)
     @ (case ra_owner_floor a of None \<Rightarrow> [] | Some f \<Rightarrow> [''risk_owner_floor:'' @ f])
     @ [''risk_band:'' @ ra_band a]"

definition raised_signals :: "(string \<times> bool) list \<Rightarrow> RiskSignal list" where
  "raised_signals sigs = filter (\<lambda>s. map_of sigs (signal_name s) = Some True) RISK_SIGNALS"

definition known_signal :: "string \<Rightarrow> bool" where
  "known_signal n = list_ex (\<lambda>s. signal_name s = n) RISK_SIGNALS"

definition assess :: "string \<Rightarrow> (string \<times> bool) list \<Rightarrow> string option \<Rightarrow> risk_error + RiskAssessment" where
  "assess declared sigs owner_floor =
     (let raised = raised_signals sigs;
          floors = [declared] @ map signal_band raised
                     @ (case owner_floor of None \<Rightarrow> [] | Some f \<Rightarrow> [f])
      in case List.find (\<lambda>n. \<not> known_signal n) (map fst sigs) of
           Some n \<Rightarrow> Inl (UnknownRiskSignal n)
         | None \<Rightarrow>
             (case strictest floors of
                Inl e \<Rightarrow> Inl e
              | Inr b \<Rightarrow> Inr \<lparr>ra_band = b, ra_signals = map signal_name raised,
                             ra_declared = declared, ra_owner_floor = owner_floor\<rparr>))"

subsection \<open>The rank order and the strictest band\<close>

abbreviation band_known :: "string \<Rightarrow> bool" where
  "band_known n \<equiv> n \<in> dom ranks"

definition rank_of :: "string \<Rightarrow> nat" where
  "rank_of n = (case ranks n of None \<Rightarrow> 0 | Some r \<Rightarrow> r)"

lemma ranks_unfold:
  "ranks = [''low'' \<mapsto> 0, ''medium'' \<mapsto> 1, ''high'' \<mapsto> 2, ''critical'' \<mapsto> 3, ''blocked'' \<mapsto> 4]"
  by (rule ext) (simp add: ranks_def RISK_BANDS_def BLOCKED_def)

lemma dom_ranks: "dom ranks = {''low'', ''medium'', ''high'', ''critical'', ''blocked''}"
  by (auto simp: ranks_unfold)

lemma rank_of_simps [simp]:
  "rank_of ''low'' = 0" "rank_of ''medium'' = 1" "rank_of ''high'' = 2"
  "rank_of ''critical'' = 3" "rank_of ''blocked'' = 4"
  by (simp_all add: rank_of_def ranks_unfold)

lemma rank_of_inj: "band_known a \<Longrightarrow> band_known b \<Longrightarrow> rank_of a = rank_of b \<Longrightarrow> a = b"
  by (auto simp: dom_ranks)

lemma rank_eq: "rank n = (if band_known n then Inr (rank_of n) else Inl (UnknownRiskBand n))"
  by (auto simp: rank_def rank_of_def split: option.splits)

lemma strictest_from_error:
  "band_known c \<Longrightarrow> (\<exists>e. strictest_from c ns = Inl e) \<longleftrightarrow> (\<exists>n \<in> set ns. \<not> band_known n)"
  by (induction ns arbitrary: c) (auto simp: rank_eq)

text \<open>The chosen band is the least upper bound of the start and the names.\<close>

lemma strictest_from_lub:
  assumes "band_known c" and "\<forall>n \<in> set ns. band_known n"
  shows "\<exists>b. strictest_from c ns = Inr b \<and> b \<in> insert c (set ns) \<and>
           rank_of b = Max (rank_of ` insert c (set ns))"
  using assms
proof (induction ns arbitrary: c)
  case Nil
  then show ?case by simp
next
  case (Cons n ns)
  define d where "d = (if rank_of c < rank_of n then n else c)"
  have "band_known d" using Cons.prems by (simp add: d_def)
  with Cons obtain b where b: "strictest_from d ns = Inr b" "b \<in> insert d (set ns)"
    "rank_of b = Max (rank_of ` insert d (set ns))" by auto
  have "rank_of d = max (rank_of c) (rank_of n)" by (simp add: d_def)
  then have "Max (rank_of ` insert d (set ns)) = Max (rank_of ` insert c (set (n # ns)))"
    by (cases "ns = []") (auto simp: Max_insert max.assoc)
  with b Cons.prems show ?case by (auto simp: rank_eq d_def)
qed

lemma strictest_total:
  "(\<exists>b. strictest ns = Inr b) \<longleftrightarrow> (\<forall>n \<in> set ns. band_known n)"
proof -
  have "band_known ''low''" by (simp add: dom_ranks)
  then show ?thesis
    using strictest_from_error [of "''low''" ns] strictest_from_lub [of "''low''" ns]
    by (metis strictest_def sum.distinct(1))
qed

lemma strictest_rank:
  assumes "strictest ns = Inr b"
  shows "rank_of b = Max (rank_of ` insert ''low'' (set ns))" and "b \<in> insert ''low'' (set ns)"
proof -
  have "\<forall>n \<in> set ns. band_known n" using assms strictest_total by blast
  moreover have "band_known ''low''" by (simp add: dom_ranks)
  ultimately show "rank_of b = Max (rank_of ` insert ''low'' (set ns))" "b \<in> insert ''low'' (set ns)"
    using strictest_from_lub [of "''low''" ns] assms by (auto simp: strictest_def)
qed

lemma signal_bands_known: "s \<in> set RISK_SIGNALS \<Longrightarrow> band_known (signal_band s)"
  by (auto simp: RISK_SIGNALS_def dom_ranks)

lemma raised_signals_known: "s \<in> set (raised_signals sigs) \<Longrightarrow> band_known (signal_band s)"
  by (simp add: raised_signals_def signal_bands_known)

lemma assess_InrD:
  assumes "assess d sigs f = Inr a"
  shows "strictest ([d] @ map signal_band (raised_signals sigs)
           @ (case f of None \<Rightarrow> [] | Some f \<Rightarrow> [f])) = Inr (ra_band a)"
    and "ra_signals a = map signal_name (raised_signals sigs)"
    and "\<forall>n \<in> fst ` set sigs. known_signal n"
  using assms by (auto simp: assess_def Let_def split: option.splits sum.splits if_splits)

subsection \<open>Properties of the assessment\<close>

text \<open>The floors an action's derived band has to reach.\<close>

definition risk_floors :: "string \<Rightarrow> (string \<times> bool) list \<Rightarrow> string option \<Rightarrow> string set" where
  "risk_floors declared sigs owner_floor =
     insert declared (signal_band ` {s \<in> set RISK_SIGNALS. map_of sigs (signal_name s) = Some True}
                      \<union> set_option owner_floor)"

lemma risk_floors_list:
  "set ([d] @ map signal_band (raised_signals sigs) @ (case f of None \<Rightarrow> [] | Some f \<Rightarrow> [f])) =
     risk_floors d sigs f"
  by (auto simp: risk_floors_def raised_signals_def split: option.splits)

lemma risk_floors_known:
  "(\<forall>n \<in> risk_floors d sigs f. band_known n) \<longleftrightarrow> band_known d \<and> (\<forall>n \<in> set_option f. band_known n)"
  unfolding risk_floors_def using signal_bands_known by blast

lemma finite_risk_floors [simp]: "finite (risk_floors d sigs f)"
  by (simp add: risk_floors_def)

text \<open>
  An assessment is the least upper bound of its floors: the derived band is one of the declared
  band, the bands of the raised signals and the owner's floor (or \<open>low\<close>), and its rank is the
  maximum of theirs. A signal or an owner floor can therefore only raise risk, never lower it.
\<close>

theorem assess_least_upper_bound:
  assumes "assess declared sigs owner_floor = Inr a"
  shows "rank_of (ra_band a) = Max (rank_of ` insert ''low'' (risk_floors declared sigs owner_floor))
         \<and> ra_band a \<in> insert ''low'' (risk_floors declared sigs owner_floor)
         \<and> (\<forall>n \<in> risk_floors declared sigs owner_floor. rank_of n \<le> rank_of (ra_band a))"
  using strictest_rank [OF assess_InrD(1) [OF assms]] unfolding risk_floors_list by auto

theorem assess_least_upper_bound_witness:
  "rank_of ''critical'' = Max (rank_of ` insert ''low'' (risk_floors ''medium'' [(''unbounded_target'', True)] (Some ''high'')))"
proof -
  have "assess ''medium'' [(''unbounded_target'', True)] (Some ''high'') =
     Inr \<lparr>ra_band = ''critical'', ra_signals = [''unbounded_target''], ra_declared = ''medium'',
          ra_owner_floor = Some ''high''\<rparr>"
    by code_simp
  from assess_least_upper_bound [OF this] show ?thesis by simp
qed

text \<open>
  The assessment raises exactly on a signal name, a declared band or an owner floor outside the
  vocabulary; every other input has a band.
\<close>

theorem assess_defined_iff:
  "(\<exists>a. assess declared sigs owner_floor = Inr a) \<longleftrightarrow>
     list_all known_signal (map fst sigs) \<and> band_known declared \<and>
     pred_option band_known owner_floor"
proof -
  let ?fl = "[declared] @ map signal_band (raised_signals sigs)
               @ (case owner_floor of None \<Rightarrow> [] | Some f \<Rightarrow> [f])"
  have "(\<exists>b. strictest ?fl = Inr b) \<longleftrightarrow> band_known declared \<and> (\<forall>n \<in> set_option owner_floor. band_known n)"
    unfolding strictest_total risk_floors_list risk_floors_known ..
  moreover have "(\<exists>a. assess declared sigs owner_floor = Inr a) \<longleftrightarrow>
      list_all known_signal (map fst sigs) \<and> (\<exists>b. strictest ?fl = Inr b)"
  proof (cases "List.find (\<lambda>n. \<not> known_signal n) (map fst sigs)")
    case None
    then have "list_all known_signal (map fst sigs)" by (simp add: list_all_iff)
    then show ?thesis unfolding assess_def Let_def None by (cases "strictest ?fl") simp_all
  next
    case (Some n)
    then have "\<not> list_all known_signal (map fst sigs)"
      using find_SomeD [OF Some] by (auto simp: list_all_iff)
    then show ?thesis unfolding assess_def Let_def Some by simp
  qed
  ultimately show ?thesis by (simp add: option.pred_set)
qed

end
