(* ===== verification/Tool_Registry.thy ===== *)
theory Tool_Registry
  imports Risk_Model
begin

text \<open>
  The tool registry of \<^verbatim>\<open>raiker/models/tool_registry.py\<close>: every tool the model may propose, with
  the risk signals it declares, the capability gate it answers to and whether policy treats it as
  read-shaped, the constructor check \<^verbatim>\<open>ToolDefinition.__post_init__\<close>, and the tables derived from
  the registry. A description is kept as whether there is one; the JSON-Schema fragments of
  \<^verbatim>\<open>arg_schemas\<close> are left out, since no modelled decision reads them.
\<close>

subsection \<open>The definition of a tool and its construction check\<close>

record ToolDefinition =
  td_name :: string
  td_label :: string
  td_family :: string
  td_audit :: string
  td_risk :: string
  td_risk_signals :: "string list"
  td_requires_approval :: bool
  td_model_exposed :: bool
  td_contract_known :: bool
  td_capability :: "string option"
  td_source_kind :: "string option"
  td_delegable :: bool
  td_read_shaped :: bool
  td_required_args :: "string list"
  td_required_list_args :: "string list"
  td_optional_args :: "string list"
  td_described :: bool

definition mk_tool ::
  "string \<Rightarrow> string \<Rightarrow> string \<Rightarrow> string \<Rightarrow> string \<Rightarrow> string list \<Rightarrow> bool \<Rightarrow> bool \<Rightarrow> bool
   \<Rightarrow> string option \<Rightarrow> string option \<Rightarrow> bool \<Rightarrow> bool \<Rightarrow> string list \<Rightarrow> string list \<Rightarrow> string list
   \<Rightarrow> bool \<Rightarrow> ToolDefinition" where
  "mk_tool n l f a r sigs appr mexp ck cap src del rs ra rla oa dsc =
     \<lparr>td_name = n, td_label = l, td_family = f, td_audit = a, td_risk = r, td_risk_signals = sigs,
      td_requires_approval = appr, td_model_exposed = mexp, td_contract_known = ck,
      td_capability = cap, td_source_kind = src, td_delegable = del, td_read_shaped = rs,
      td_required_args = ra, td_required_list_args = rla, td_optional_args = oa,
      td_described = dsc\<rparr>"

definition TOOL_FAMILIES :: "string list" where
  "TOOL_FAMILIES =
     [''file-read'', ''file-write'', ''shell'', ''web'', ''repository'', ''connector'', ''memory'',
      ''subagent'', ''plan'', ''tool'']"

definition AUDIT_LEVELS :: "string list" where
  "AUDIT_LEVELS = [''full'', ''content_withheld'', ''metadata_only'']"

definition derived_risk :: "string \<Rightarrow> string list \<Rightarrow> string + string" where
  "derived_risk name sigs =
     (case assess ''low'' (map (\<lambda>s. (s, True)) sigs) None of
        Inl e \<Rightarrow> Inl (''tool_definition_risk_signal_unknown:'' @ name @ '':'' @ risk_error_text e)
      | Inr a \<Rightarrow> Inr (ra_band a))"

text \<open>The first failure of \<^verbatim>\<open>__post_init__\<close>, in the order of its checks, or \<open>None\<close>.\<close>

definition definition_error :: "ToolDefinition \<Rightarrow> string option" where
  "definition_error d =
     (if str_strip (td_name d) = [] then Some ''tool_definition_name_required''
      else if td_model_exposed d \<and> \<not> td_described d
      then Some (''tool_definition_description_required:'' @ td_name d)
      else if td_risk d \<notin> set [''low'', ''medium'', ''high'', ''critical'']
      then Some (''tool_definition_risk_invalid:'' @ td_name d)
      else if str_strip (td_label d) = [] then Some (''tool_definition_label_required:'' @ td_name d)
      else if td_family d \<notin> set TOOL_FAMILIES
      then Some (''tool_definition_family_invalid:'' @ td_name d)
      else if td_audit d \<notin> set AUDIT_LEVELS
      then Some (''tool_definition_audit_invalid:'' @ td_name d)
      else case derived_risk (td_name d) (td_risk_signals d) of
             Inl e \<Rightarrow> Some e
           | Inr derived \<Rightarrow>
               if derived \<noteq> td_risk d
               then Some (''tool_definition_risk_not_derived:'' @ td_name d @ '':declared='' @
                          td_risk d @ '':from_signals='' @ derived)
               else if \<exists>a \<in> set (td_required_args d). a \<in> set (td_required_list_args d)
               then Some (''tool_definition_argument_ambiguous:'' @ td_name d)
               else None)"

subsection \<open>The registry\<close>

definition tool_definitions_1 :: "ToolDefinition list" where
  "tool_definitions_1 =
     [mk_tool ''apply_patch'' ''Apply patch'' ''file-write'' ''full''
        ''medium'' [''changes_state''] True True True
        (Some ''patch_apply_execution'') None False False
        [''patch''] [] [] True,
      mk_tool ''assign_session_project'' ''Assign to project'' ''plan'' ''full''
        ''medium'' [''changes_state''] True True False
        (Some ''project_assignment_runtime'') None False False
        [''project_id''] [] [] True,
      mk_tool ''cloud_execute'' ''Run command in the cloud'' ''shell'' ''full''
        ''high'' [''changes_state'', ''leaves_this_machine'', ''crosses_sandbox_boundary'', ''not_covered_by_checkpoint'', ''spends_owner_credential''] True True False
        (Some ''cloud_execution_cap'') None False False
        [''command''] [] [] True,
      mk_tool ''code_map_references'' ''Find references'' ''repository'' ''full''
        ''low'' [] False True True
        (Some ''code_map_indexing'') (Some ''repository'') True True
        [''name''] [] [''max_results''] True,
      mk_tool ''code_map_search'' ''Search the code map'' ''repository'' ''full''
        ''low'' [] False True True
        (Some ''code_map_indexing'') (Some ''repository'') True True
        [''query''] [] [''max_results''] True]"

definition tool_definitions_2 :: "ToolDefinition list" where
  "tool_definitions_2 =
     [mk_tool ''document_symbols'' ''Outline a file'' ''repository'' ''full''
        ''low'' [] False True True
        (Some ''language_intelligence'') (Some ''repository'') True True
        [''path''] [] [] True,
      mk_tool ''find_definition'' ''Find where this is defined'' ''repository'' ''full''
        ''low'' [] False True True
        (Some ''language_intelligence'') (Some ''repository'') True True
        [''name''] [] [''from_path''] True,
      mk_tool ''diagnostics'' ''Check files for problems'' ''repository'' ''full''
        ''low'' [] False True True
        (Some ''language_intelligence'') (Some ''repository'') True True
        [] [''paths''] [] True,
      mk_tool ''connector_read'' ''Read connector'' ''connector'' ''content_withheld''
        ''high'' [''leaves_this_machine'', ''spends_owner_credential''] False True False
        None (Some ''connector'') False True
        [''connector_id'', ''operation_id''] [] [] True,
      mk_tool ''connector_write'' ''Write through connector'' ''connector'' ''full''
        ''high'' [''changes_state'', ''leaves_this_machine'', ''observable_by_others'', ''not_covered_by_checkpoint'', ''spends_owner_credential''] True True False
        None None False False
        [''connector_id'', ''operation_id''] [] [] True,
      mk_tool ''consult_advisor'' ''Consult the advisor model'' ''subagent'' ''metadata_only''
        ''high'' [''leaves_this_machine'', ''spends_owner_credential''] False True False
        None None False True
        [''question''] [] [] True]"

definition tool_definitions_3 :: "ToolDefinition list" where
  "tool_definitions_3 =
     [mk_tool ''conversation_search'' ''Search past conversations'' ''memory'' ''full''
        ''low'' [] False True True
        None (Some ''conversation'') True True
        [''query''] [] [''max_results'', ''session_id'', ''after'', ''before''] True,
      mk_tool ''create_document'' ''Create document'' ''file-write'' ''full''
        ''medium'' [''changes_state''] False True False
        (Some ''file_write_execution'') None False True
        [''path'', ''text''] [] [] True,
      mk_tool ''create_task'' ''Create task'' ''plan'' ''full''
        ''medium'' [''changes_state''] True True False
        (Some ''task_management_runtime'') None False False
        [''title''] [] [''surface''] True,
      mk_tool ''diff_files'' ''Compare files'' ''file-read'' ''full''
        ''low'' [] False True True
        None (Some ''file'') True True
        [''before_path'', ''after_path''] [] [] True,
      mk_tool ''edit_file'' ''Edit file'' ''file-write'' ''full''
        ''medium'' [''changes_state''] True True True
        (Some ''file_write_execution'') None False False
        [''path'', ''new_text''] [] [''old_text'', ''replace_all'', ''insert_line'', ''cell''] True]"

definition tool_definitions_4 :: "ToolDefinition list" where
  "tool_definitions_4 =
     [mk_tool ''gcal_read'' ''Read Calendar'' ''connector'' ''content_withheld''
        ''high'' [''leaves_this_machine'', ''spends_owner_credential''] False True False
        None (Some ''calendar'') False True
        [''resource'', ''calendar_id''] [] [] True,
      mk_tool ''git_branch'' ''Create branch'' ''repository'' ''full''
        ''medium'' [''changes_state''] True True False
        (Some ''git_write_execution'') None False False
        [''name''] [] [''base''] True,
      mk_tool ''git_commit'' ''Commit'' ''repository'' ''full''
        ''medium'' [''changes_state''] True True False
        (Some ''git_write_execution'') None False False
        [''message''] [] [''paths''] True,
      mk_tool ''git_diff'' ''Read repository changes'' ''repository'' ''full''
        ''low'' [] False True True
        None (Some ''repository'') True True
        [] [] [] True,
      mk_tool ''git_log'' ''Read repository history'' ''repository'' ''full''
        ''low'' [] False True True
        None (Some ''repository'') True True
        [] [] [] True,
      mk_tool ''git_push'' ''Push'' ''repository'' ''full''
        ''high'' [''changes_state'', ''leaves_this_machine'', ''observable_by_others'', ''not_covered_by_checkpoint'', ''spends_owner_credential''] True True False
        (Some ''git_push_execution'') None False False
        [] [] [''remote'', ''branch''] True]"

definition tool_definitions_5 :: "ToolDefinition list" where
  "tool_definitions_5 =
     [mk_tool ''git_fetch'' ''Fetch'' ''repository'' ''full''
        ''high'' [''leaves_this_machine'', ''spends_owner_credential''] True True False
        (Some ''git_fetch_execution'') None False False
        [] [] [''remote''] True,
      mk_tool ''git_clone'' ''Clone'' ''repository'' ''full''
        ''high'' [''leaves_this_machine'', ''changes_state'', ''spends_owner_credential''] True True False
        (Some ''git_fetch_execution'') None False False
        [''repository''] [] [''path''] True,
      mk_tool ''git_status'' ''Check repository status'' ''repository'' ''full''
        ''low'' [] False True True
        None (Some ''repository'') True True
        [] [] [] True,
      mk_tool ''github_read'' ''Read from GitHub'' ''repository'' ''content_withheld''
        ''high'' [''leaves_this_machine'', ''spends_owner_credential''] False True False
        None (Some ''repository'') False True
        [''resource'', ''repo''] [] [''number'', ''ref'', ''path'', ''query''] True]"

definition tool_definitions_6 :: "ToolDefinition list" where
  "tool_definitions_6 =
     [mk_tool ''github_write'' ''Write to GitHub'' ''repository'' ''full''
        ''high'' [''changes_state'', ''leaves_this_machine'', ''observable_by_others'', ''not_covered_by_checkpoint'', ''spends_owner_credential''] True True False
        (Some ''connector_github_runtime'') None False False
        [''operation'', ''repo''] [] [''number'', ''body'', ''title'', ''head'', ''base'', ''comment_id''] True,
      mk_tool ''glob'' ''Find files'' ''file-read'' ''full''
        ''low'' [] False True True
        None (Some ''file'') True True
        [''pattern''] [] [] True,
      mk_tool ''gmail_read'' ''Read Gmail'' ''connector'' ''content_withheld''
        ''high'' [''leaves_this_machine'', ''spends_owner_credential''] False True False
        None (Some ''email'') False True
        [''resource'', ''message_id''] [] [] True,
      mk_tool ''grep'' ''Search files'' ''file-read'' ''full''
        ''low'' [] False True True
        None (Some ''file'') True True
        [''query''] [] [''path'', ''include'', ''regex'', ''ignore_case'', ''context'', ''max_results''] True,
      mk_tool ''help_read'' ''Read Raiker help'' ''file-read'' ''full''
        ''low'' [] False True True
        None (Some ''help'') True True
        [] [] [''slug'', ''part'', ''query''] True]"

definition tool_definitions_7 :: "ToolDefinition list" where
  "tool_definitions_7 =
     [mk_tool ''list_directory'' ''List folder'' ''file-read'' ''full''
        ''low'' [] False True True
        None (Some ''file'') True True
        [] [] [] True,
      mk_tool ''memory_forget'' ''Forget memory'' ''memory'' ''full''
        ''high'' [''changes_state'', ''not_covered_by_checkpoint''] True True True
        (Some ''memory_forget_execution'') None False False
        [''memory_id''] [] [] True,
      mk_tool ''memory_get'' ''Open memory'' ''memory'' ''full''
        ''low'' [] False True True
        None (Some ''memory'') True True
        [''memory_id''] [] [] True,
      mk_tool ''memory_list'' ''List memory'' ''memory'' ''full''
        ''low'' [] False True True
        None (Some ''memory'') True True
        [] [] [] True,
      mk_tool ''knowledge_graph'' ''Explore related memories'' ''memory'' ''full''
        ''low'' [] False True False
        (Some ''graph_indexing_runtime'') (Some ''memory'') True True
        [''action''] [] [''query'', ''entity_id'', ''locator'', ''session_id'', ''scope'', ''max_results''] True]"

definition tool_definitions_8 :: "ToolDefinition list" where
  "tool_definitions_8 =
     [mk_tool ''memory_search'' ''Search memory'' ''memory'' ''full''
        ''low'' [] False True True
        None (Some ''memory'') True True
        [''query''] [] [''scope'', ''entity_id'', ''max_results''] True,
      mk_tool ''memory_write'' ''Save memory'' ''memory'' ''full''
        ''medium'' [''changes_state''] True True True
        (Some ''memory_write_execution'') None False False
        [''text''] [] [''scope'', ''memory_type'', ''tags''] True,
      mk_tool ''read_file'' ''Read file'' ''file-read'' ''full''
        ''low'' [] False True True
        None (Some ''file'') True True
        [''path''] [] [''offset'', ''limit'', ''pages''] True,
      mk_tool ''remote_execute'' ''Run command on the remote host'' ''shell'' ''full''
        ''high'' [''changes_state'', ''leaves_this_machine'', ''crosses_sandbox_boundary'', ''not_covered_by_checkpoint''] True True False
        (Some ''remote_execution_cap'') None False False
        [''command''] [] [] True,
      mk_tool ''run_command'' ''Run command'' ''shell'' ''content_withheld''
        ''high'' [''changes_state'', ''crosses_sandbox_boundary''] False True False
        None None False True
        [''command''] [] [''background'', ''cwd''] True]"

definition tool_definitions_9 :: "ToolDefinition list" where
  "tool_definitions_9 =
     [mk_tool ''background_run'' ''Check a background command'' ''shell'' ''content_withheld''
        ''high'' [''changes_state'', ''crosses_sandbox_boundary''] False True False
        None None False True
        [''action''] [] [''run_id'', ''after'', ''timeout_seconds'', ''input''] True,
      mk_tool ''shell'' ''Run command'' ''shell'' ''full''
        ''high'' [''changes_state'', ''crosses_sandbox_boundary''] True True True
        (Some ''shell_execution'') None False False
        [''command''] [] [] True,
      mk_tool ''skill_load'' ''Load skill'' ''file-read'' ''full''
        ''low'' [] False True True
        None (Some ''skill'') True True
        [''name''] [] [''file''] True,
      mk_tool ''skill_search'' ''Find a skill'' ''plan'' ''full''
        ''low'' [] False True True
        None None False True
        [] [] [''query''] True,
      mk_tool ''slack_read'' ''Read Slack'' ''connector'' ''content_withheld''
        ''high'' [''leaves_this_machine'', ''spends_owner_credential''] False True False
        None (Some ''chat_tool'') False True
        [''resource'', ''channel''] [] [] True]"

definition tool_definitions_10 :: "ToolDefinition list" where
  "tool_definitions_10 =
     [mk_tool ''spawn_subagent'' ''Delegate to a subagent'' ''subagent'' ''content_withheld''
        ''medium'' [''changes_state''] False True False
        (Some ''subagents'') (Some ''subagent'') False True
        [''objective''] [''steps''] [''name''] True,
      mk_tool ''suggest_connection'' ''Suggest a connection'' ''connector'' ''full''
        ''low'' [] False True True
        None None False True
        [''service'', ''reason''] [] [] True,
      mk_tool ''tool_search'' ''Look up a tool'' ''plan'' ''full''
        ''low'' [] False True True
        None None False True
        [''query''] [] [] True,
      mk_tool ''stat_path'' ''Inspect path'' ''file-read'' ''full''
        ''low'' [] False True True
        None None True True
        [''path''] [] [] True]"

definition tool_definitions_11 :: "ToolDefinition list" where
  "tool_definitions_11 =
     [mk_tool ''ask_owner_question'' ''Ask you a question'' ''plan'' ''full''
        ''low'' [] True True True
        None None False False
        [] [''questions''] [] True]"

definition tool_definitions_12 :: "ToolDefinition list" where
  "tool_definitions_12 =
     [mk_tool ''update_plan'' ''Update the plan'' ''plan'' ''full''
        ''medium'' [''changes_state''] False True False
        None None False True
        [] [''steps''] [] True,
      mk_tool ''vector_get'' ''Open vector'' ''file-read'' ''full''
        ''low'' [] False False False
        None None True True
        [] [] [] False,
      mk_tool ''web_fetch'' ''Fetch page'' ''web'' ''content_withheld''
        ''high'' [''leaves_this_machine''] False True False
        (Some ''web_fetch'') (Some ''web'') False True
        [''url''] [] [''max_chars'', ''pages'', ''question''] True,
      mk_tool ''web_search'' ''Search the web'' ''web'' ''content_withheld''
        ''high'' [''leaves_this_machine''] False True False
        (Some ''web_fetch'') (Some ''web'') False True
        [''query''] [] [''max_results'', ''allowed_domains'', ''blocked_domains'', ''depth''] True]"

definition tool_definitions_13 :: "ToolDefinition list" where
  "tool_definitions_13 =
     [mk_tool ''web_extract'' ''Read part of a page'' ''web'' ''content_withheld''
        ''high'' [''leaves_this_machine''] False True False
        (Some ''web_fetch'') (Some ''web'') False True
        [''url''] [] [''mode''] True,
      mk_tool ''weather_lookup'' ''Check the weather'' ''web'' ''content_withheld''
        ''high'' [''leaves_this_machine''] False True False
        (Some ''web_fetch'') (Some ''web'') False True
        [] [] [''location'', ''days''] True,
      mk_tool ''write_file'' ''Write file'' ''file-write'' ''full''
        ''medium'' [''changes_state''] True True True
        (Some ''file_write_execution'') None False False
        [''path'', ''text''] [] [] True]"

definition TOOL_DEFINITIONS :: "ToolDefinition list" where
  "TOOL_DEFINITIONS =
     tool_definitions_1 @ tool_definitions_2 @ tool_definitions_3 @ tool_definitions_4 @ tool_definitions_5 @ tool_definitions_6 @ tool_definitions_7 @ tool_definitions_8 @ tool_definitions_9 @ tool_definitions_10 @ tool_definitions_11 @ tool_definitions_12 @ tool_definitions_13"

subsection \<open>Derived tables\<close>

definition tool_definition :: "string \<Rightarrow> ToolDefinition option" where
  "tool_definition name = List.find (\<lambda>d. td_name d = name) TOOL_DEFINITIONS"

definition tool_risk_band :: "string \<Rightarrow> string + string" where
  "tool_risk_band name =
     (case tool_definition name of
        None \<Rightarrow> Inl (''unknown_tool_risk:'' @ name)
      | Some d \<Rightarrow> Inr (td_risk d))"

definition MCP_TOOL_RISK_SIGNALS :: "string list" where
  "MCP_TOOL_RISK_SIGNALS =
     [''leaves_this_machine'', ''crosses_sandbox_boundary'', ''spends_owner_credential'']"

definition mcp_tool_risk_band :: "string + string" where
  "mcp_tool_risk_band = derived_risk ''mcp__*'' MCP_TOOL_RISK_SIGNALS"

definition TOOL_CAPABILITY_BY_TOOL :: "(string \<times> string) list" where
  "TOOL_CAPABILITY_BY_TOOL =
     List.map_filter (\<lambda>d. map_option (\<lambda>c. (td_name d, c)) (td_capability d)) TOOL_DEFINITIONS"

definition READ_SHAPED_TOOL_NAMES :: "string list" where
  "READ_SHAPED_TOOL_NAMES = map td_name (filter td_read_shaped TOOL_DEFINITIONS)"

definition APPROVAL_TOOL_NAMES :: "string list" where
  "APPROVAL_TOOL_NAMES = map td_name (filter td_requires_approval TOOL_DEFINITIONS)"

definition DELEGABLE_TOOL_NAMES :: "string list" where
  "DELEGABLE_TOOL_NAMES = map td_name (filter td_delegable TOOL_DEFINITIONS)"

subsection \<open>Evaluation of the tables\<close>

lemma registry_checks_pass: "list_all (\<lambda>d. definition_error d = None) TOOL_DEFINITIONS"
  by code_simp

lemma registry_names_distinct: "distinct (map td_name TOOL_DEFINITIONS)"
  by code_simp

text \<open>The registry read as tables, for evaluation in the policy's theory.\<close>

lemma approval_table:
  "map (\<lambda>t. (td_name t, td_requires_approval t)) TOOL_DEFINITIONS =
     [(''apply_patch'', True), (''assign_session_project'', True), (''cloud_execute'', True),
      (''code_map_references'', False), (''code_map_search'', False),
      (''document_symbols'', False), (''find_definition'', False), (''diagnostics'', False),
      (''connector_read'', False), (''connector_write'', True), (''consult_advisor'', False),
      (''conversation_search'', False), (''create_document'', False), (''create_task'', True),
      (''diff_files'', False), (''edit_file'', True), (''gcal_read'', False),
      (''git_branch'', True), (''git_commit'', True), (''git_diff'', False),
      (''git_log'', False), (''git_push'', True), (''git_fetch'', True), (''git_clone'', True),
      (''git_status'', False), (''github_read'', False), (''github_write'', True),
      (''glob'', False), (''gmail_read'', False), (''grep'', False), (''help_read'', False),
      (''list_directory'', False), (''memory_forget'', True), (''memory_get'', False),
      (''memory_list'', False), (''knowledge_graph'', False), (''memory_search'', False),
      (''memory_write'', True), (''read_file'', False), (''remote_execute'', True),
      (''run_command'', False), (''background_run'', False), (''shell'', True),
      (''skill_load'', False), (''skill_search'', False), (''slack_read'', False),
      (''spawn_subagent'', False), (''suggest_connection'', False), (''tool_search'', False),
      (''stat_path'', False), (''ask_owner_question'', True), (''update_plan'', False),
      (''vector_get'', False), (''web_fetch'', False), (''web_search'', False),
      (''web_extract'', False), (''weather_lookup'', False), (''write_file'', True)]"
  by code_simp

lemma read_shaped_table:
  "READ_SHAPED_TOOL_NAMES =
     [''code_map_references'', ''code_map_search'', ''document_symbols'', ''find_definition'',
      ''diagnostics'', ''connector_read'', ''consult_advisor'', ''conversation_search'',
      ''create_document'', ''diff_files'', ''gcal_read'', ''git_diff'', ''git_log'',
      ''git_status'', ''github_read'', ''glob'', ''gmail_read'', ''grep'', ''help_read'',
      ''list_directory'', ''memory_get'', ''memory_list'', ''knowledge_graph'',
      ''memory_search'', ''read_file'', ''run_command'', ''background_run'', ''skill_load'',
      ''skill_search'', ''slack_read'', ''spawn_subagent'', ''suggest_connection'',
      ''tool_search'', ''stat_path'', ''update_plan'', ''vector_get'', ''web_fetch'',
      ''web_search'', ''web_extract'', ''weather_lookup'']"
  by code_simp

end
