(* ===== verification/Policy_Engine.thy ===== *)
theory Policy_Engine
  imports Governance_Store Tool_Registry
begin

text \<open>
  The policy engine: the static configuration (\<^verbatim>\<open>raiker/policy/config.py\<close>), the shape of projected
  MCP tool names (\<^verbatim>\<open>raiker/tools/mcp_tools.py\<close>), and \<^verbatim>\<open>PolicyEngine.review\<close> with its managed-policy,
  role and workspace checks (\<^verbatim>\<open>raiker/policy/engine.py\<close>).

  Two things the engine asks of other code are parameters: whether the path authority accepts a
  path argument (it resolves symbolic links on the file system), and the regular-expression
  classifier of memory text.
\<close>

subsection \<open>Projected MCP tool names\<close>

definition segment_char :: "char \<Rightarrow> bool" where
  "segment_char c =
     ((CHR ''A'' \<le> c \<and> c \<le> CHR ''Z'') \<or> (CHR ''a'' \<le> c \<and> c \<le> CHR ''z'') \<or>
      (CHR ''0'' \<le> c \<and> c \<le> CHR ''9'') \<or> c = CHR ''.'' \<or> c = CHR ''_'' \<or> c = CHR ''-'')"

text \<open>
  \<^verbatim>\<open>_SEGMENT.match\<close> with the pattern \<^verbatim>\<open>^[A-Za-z0-9._-]{1,64}$\<close>: \<^verbatim>\<open>$\<close> also matches before a final
  newline, so one newline at the end of the text is accepted.
\<close>

definition segment_match :: "string \<Rightarrow> bool" where
  "segment_match t =
     (let body = (if t \<noteq> [] \<and> last t = CHR 0x0A then butlast t else t)
      in 1 \<le> length body \<and> length body \<le> 64 \<and> list_all segment_char body)"

text \<open>\<^verbatim>\<open>str.partition("__")\<close>: what precedes the first separator, and what follows it if it occurs.\<close>

fun partition_sep :: "string \<Rightarrow> string \<times> string option" where
  "partition_sep [] = ([], None)"
| "partition_sep [c] = ([c], None)"
| "partition_sep (c # d # r) =
     (if c = CHR ''_'' \<and> d = CHR ''_'' then ([], Some r)
      else (case partition_sep (d # r) of (a, b) \<Rightarrow> (c # a, b)))"

definition mcp_tool_name :: "string \<Rightarrow> string \<Rightarrow> string" where
  "mcp_tool_name server tool = ''mcp__'' @ server @ ''__'' @ tool"

definition parse_mcp_tool_name :: "string \<Rightarrow> (string \<times> string) option" where
  "parse_mcp_tool_name name =
     (if \<not> starts_with name ''mcp__'' then None
      else (case partition_sep (drop 5 name) of
              (server, None) \<Rightarrow> None
            | (server, Some tool) \<Rightarrow>
                if \<not> segment_match server \<or> \<not> segment_match tool then None
                else Some (server, tool)))"

definition is_mcp_tool :: "string \<Rightarrow> bool" where
  "is_mcp_tool name = (parse_mcp_tool_name name \<noteq> None)"

subsection \<open>Configuration\<close>

record StaticPolicyConfig =
  policy_version :: string
  allowed_read_actions :: "string list"
  approval_required_actions :: "string list"

definition default_allowed_read_actions :: "string list" where
  "default_allowed_read_actions =
     READ_SHAPED_TOOL_NAMES @
     [''approval_execution_relay'', ''principal_create'', ''role_create'', ''role_grant'',
      ''role_revoke'', ''user_create'', ''user_deactivate'']"

definition default_approval_required_actions :: "string list" where
  "default_approval_required_actions =
     [''shell'', ''write_file'', ''edit_file'', ''apply_patch'', ''ask_owner_question'',
      ''git_branch'', ''git_commit'', ''git_write_execution'', ''github_write'',
      ''git_push'', ''git_push_execution'', ''git_fetch'', ''git_clone'', ''git_fetch_execution'',
      ''memory_write'', ''memory_forget'', ''checkpoint_restore'', ''checkpoint_restore_execution'',
      ''audit_export'', ''telemetry_export'', ''image_generation'', ''process'',
      ''graph_indexing'', ''semantic_memory'', ''vector_embedding'', ''model_provider'',
      ''plugin_install'', ''plugin_execution_cap'', ''plugin_revocation_cap'', ''plugin_runtime_cap'',
      ''external_channel_runtime'', ''channel_approval_relay'',
      ''remote_execution_cap'', ''cloud_execution_cap'',
      ''hosted_model_runtime'', ''private_network_model_runtime'', ''advisor_model_runtime'',
      ''connector_github_runtime'', ''connector_gmail_runtime'', ''connector_gcal_runtime'',
      ''connector_slack_runtime'', ''connector_write'', ''scheduled_routines'',
      ''mcp_server_create'', ''mcp_connect'', ''mcp_list_tools'', ''mcp_call_tool'',
      ''subagents'', ''multi_agent_teams'', ''create_task'', ''assign_session_project'',
      ''task_management_runtime'', ''project_assignment_runtime'', ''remote_execute'',
      ''cloud_execute'', ''email_runtime'', ''calendar_runtime'', ''reminder_runtime'',
      ''finance_runtime'', ''investment_runtime'', ''medical_runtime'', ''pregnancy_baby_runtime'',
      ''cctv_runtime'', ''home_security_runtime'', ''hardware_operator_runtime'']"

text \<open>\<^verbatim>\<open>__post_init__\<close> refuses a configuration that gives one action two verdicts.\<close>

definition config_conflicts :: "StaticPolicyConfig \<Rightarrow> string list" where
  "config_conflicts c = filter (\<lambda>a. a \<in> set (approval_required_actions c)) (allowed_read_actions c)"

definition default_policy_config :: StaticPolicyConfig where
  "default_policy_config =
     \<lparr>policy_version = ''phase1-static-v1'',
      allowed_read_actions = default_allowed_read_actions,
      approval_required_actions = default_approval_required_actions\<rparr>"

subsection \<open>The reviewed action\<close>

record ToolAction =
  tl_action_id :: string
  tl_tool_name :: string
  tl_arguments :: pydict
  tl_risk_level :: string
  tl_requires_approval :: bool
  tl_proposed_by :: string

definition RISK_LEVELS :: "string list" where
  "RISK_LEVELS = [''low'', ''medium'', ''high'', ''critical'', ''blocked'']"

text \<open>The constructor: \<^verbatim>\<open>ToolAction.__post_init__\<close> refuses empty identifiers and unknown risk levels.\<close>

definition tool_action :: "string \<Rightarrow> string \<Rightarrow> pydict \<Rightarrow> string \<Rightarrow> bool \<Rightarrow> string \<Rightarrow> py_error + ToolAction" where
  "tool_action aid tool args risk req by =
     (if aid = [] then Inl (ContractValidationError ''missing_required_field:action_id'')
      else if tool = [] then Inl (ContractValidationError ''missing_required_field:tool_name'')
      else if risk \<notin> set RISK_LEVELS then Inl (ContractValidationError (''invalid_risk_level:'' @ risk))
      else if by = [] then Inl (ContractValidationError ''missing_required_field:proposed_by'')
      else Inr \<lparr>tl_action_id = aid, tl_tool_name = tool, tl_arguments = args, tl_risk_level = risk,
                tl_requires_approval = req, tl_proposed_by = by\<rparr>)"

subsection \<open>Review\<close>

datatype MemorySensitivity =
  PUBLIC | PROJECT | PERSONAL | SECRET_LIKE | CREDENTIAL_LIKE | UNKNOWN

fun sensitivity_value :: "MemorySensitivity \<Rightarrow> string" where
  "sensitivity_value PUBLIC = ''public''"
| "sensitivity_value PROJECT = ''project''"
| "sensitivity_value PERSONAL = ''personal''"
| "sensitivity_value SECRET_LIKE = ''secret_like''"
| "sensitivity_value CREDENTIAL_LIKE = ''credential_like''"
| "sensitivity_value UNKNOWN = ''unknown''"

text \<open>
  \<open>inside_workspace\<close> is the answer of the path authority for one path argument; \<open>classify_memory\<close>
  the classifier. \<open>managed_rules\<close> is what the enabled managed policies read as: \<open>None\<close> when there is no
  store or reading it raised, which the engine treats alike; \<open>load_user\<close> likewise, its inner \<open>None\<close>
  being a user that does not exist.
\<close>

record policy_env =
  config :: StaticPolicyConfig
  inside_workspace :: "string \<Rightarrow> bool"
  classify_memory :: "string \<Rightarrow> MemorySensitivity"
  managed_rules :: "managed_rule list option"
  load_user :: "string \<Rightarrow> bool option option"

fun path_parts :: "string \<Rightarrow> string list" where
  "path_parts [] = [[]]"
| "path_parts (c # r) =
     (if c = CHR ''/'' then [] # path_parts r
      else (case path_parts r of [] \<Rightarrow> [[c]] | p # ps \<Rightarrow> (c # p) # ps))"

definition path_arguments_inside_workspace :: "policy_env \<Rightarrow> ToolAction \<Rightarrow> string list" where
  "path_arguments_inside_workspace e a =
     concat (map (\<lambda>key.
       (let v = dict_get (tl_arguments a) key
        in if v = PNone then []
           else if inside_workspace e (py_str v) then [] else [''outside_workspace:'' @ key]))
       [''path'', ''root''])
     @ (case dict_get (tl_arguments a) ''pattern'' of
          PStr pat \<Rightarrow>
            if tl_tool_name a = ''glob'' \<and> (starts_with pat ''/'' \<or> ''..'' \<in> set (path_parts pat))
            then [''outside_workspace:pattern''] else []
        | _ \<Rightarrow> [])"

definition policy_deny :: "string list \<Rightarrow> string \<Rightarrow> PolicyDecision" where
  "policy_deny reasons version =
     \<lparr>pd_decision = ''deny'', pd_reasons = reasons, pd_requires_user_approval = False,
      pd_version = version, pd_risk = ''blocked''\<rparr>"

definition policy_allow :: "string \<Rightarrow> string \<Rightarrow> string \<Rightarrow> PolicyDecision" where
  "policy_allow reason version risk =
     \<lparr>pd_decision = ''allow'', pd_reasons = [reason], pd_requires_user_approval = False,
      pd_version = version, pd_risk = risk\<rparr>"

definition check_managed_policy :: "policy_env \<Rightarrow> ToolAction \<Rightarrow> PolicyDecision option" where
  "check_managed_policy e a =
     (case managed_rules e of
        None \<Rightarrow> None
      | Some rules \<Rightarrow>
          map_option (\<lambda>r. policy_deny [''managed_policy_denied'', mr_reason r] ''phase5-managed-v1'')
            (List.find (\<lambda>r. fnmatch (tl_tool_name a) (mr_pattern r) \<and> mr_effect r = ''deny'') rules))"

definition check_role_policy :: "policy_env \<Rightarrow> string option \<Rightarrow> PolicyDecision option" where
  "check_role_policy e user_id =
     (case user_id of
        None \<Rightarrow> None
      | Some u \<Rightarrow>
          (case load_user e u of
             None \<Rightarrow> None
           | Some None \<Rightarrow> Some (policy_deny [''unknown_user:'' @ u] (policy_version (config e)))
           | Some (Some active) \<Rightarrow>
               if \<not> active then Some (policy_deny [''user_not_active:'' @ u] (policy_version (config e)))
               else None))"

definition check_memory_policy :: "policy_env \<Rightarrow> ToolAction \<Rightarrow> PolicyDecision option" where
  "check_memory_policy e a =
     (if tl_tool_name a = ''memory_write'' then
        (let v = map_of (tl_arguments a) ''text'';
             sens = classify_memory e (case v of None \<Rightarrow> [] | Some t \<Rightarrow> py_str t)
         in if sens \<in> {SECRET_LIKE, CREDENTIAL_LIKE}
            then Some (policy_deny [''secret_or_credential_like_memory_blocked'',
                                    ''sensitivity:'' @ sensitivity_value sens]
                                   (policy_version (config e)))
            else None)
      else None)"

definition read_reason :: "string \<Rightarrow> string" where
  "read_reason tool =
     (if tool = ''create_document'' then ''governed_document_creation_allowed''
      else if tool = ''run_command'' then ''session_command_grant_required''
      else ''workspace_read_allowed'')"

definition review :: "policy_env \<Rightarrow> ToolAction \<Rightarrow> string option \<Rightarrow> py_error + PolicyDecision" where
  "review e a user_id =
     (let tool = tl_tool_name a; version = policy_version (config e)
      in case check_managed_policy e a of
           Some d \<Rightarrow> Inr d
         | None \<Rightarrow>
        (case check_role_policy e user_id of
           Some d \<Rightarrow> Inr d
         | None \<Rightarrow>
        (case check_memory_policy e a of
           Some d \<Rightarrow> Inr d
         | None \<Rightarrow>
             if is_mcp_tool tool
             then Inr (policy_allow ''mcp_tool_call_governed_inside_tool'' version (tl_risk_level a))
             else if tool \<in> set (allowed_read_actions (config e)) then
               (let reasons = path_arguments_inside_workspace e a
                in if reasons \<noteq> []
                   then Inr (policy_deny (''workspace_boundary_denied'' # reasons) version)
                   else Inr (policy_allow (read_reason tool) version (tl_risk_level a)))
             else if tool \<in> set (approval_required_actions (config e)) then
               (case assess (tl_risk_level a) [] None of
                  Inl _ \<Rightarrow> Inl (Raised ''unknown_risk_band'')
                | Inr r \<Rightarrow>
                    Inr \<lparr>pd_decision = ''needs_approval'',
                         pd_reasons = [tool @ ''_requires_approval'',
                                       ''phase2_action_bound_approval_required''],
                         pd_requires_user_approval = True, pd_version = version,
                         pd_risk = ra_band r\<rparr>)
             else Inr (policy_deny [''unknown_or_denied_tool'', ''tool:'' @ tool] version))))"

subsection \<open>Lemmas about names\<close>

fun has_sep :: "string \<Rightarrow> bool" where
  "has_sep (c # d # r) = (c = CHR ''_'' \<and> d = CHR ''_'' \<or> has_sep (d # r))"
| "has_sep _ = False"

text \<open>\<^verbatim>\<open>partition\<close> splits at the first separator and at no other place.\<close>

lemma partition_sep_iff:
  "partition_sep x = (a, Some b) \<longleftrightarrow> x = a @ ''__'' @ b \<and> \<not> has_sep (a @ ''_'')"
proof (induction x arbitrary: a rule: partition_sep.induct)
  case (3 c d r)
  show ?case
  proof (cases "c = CHR ''_'' \<and> d = CHR ''_''")
    case True
    then show ?thesis by (cases a; cases "tl a") auto
  next
    case False
    then show ?thesis
      using "3.IH" [OF False]
      by (cases a; cases "tl a"; cases "partition_sep (d # r)") auto
  qed
qed (auto simp: append_eq_Cons_conv)

lemma band_known_RISK_LEVELS: "band_known r \<longleftrightarrow> r \<in> set RISK_LEVELS"
  by (auto simp: dom_ranks RISK_LEVELS_def)

lemma assess_declared_only:
  "r \<in> set RISK_LEVELS \<Longrightarrow> \<exists>a. assess r [] None = Inr a \<and> ra_band a = r"
proof -
  assume r: "r \<in> set RISK_LEVELS"
  then have "\<forall>n \<in> set [r]. band_known n" by (simp add: band_known_RISK_LEVELS)
  then obtain b where b: "strictest [r] = Inr b" using strictest_total by blast
  have "rank_of b = max 0 (rank_of r)" "b \<in> {''low'', r}"
    using strictest_rank [OF b] by auto
  moreover have "band_known b" "band_known r"
    using calculation(2) r by (auto simp: band_known_RISK_LEVELS RISK_LEVELS_def)
  ultimately have "b = r" by (auto intro: rank_of_inj)
  with b show ?thesis by (simp add: assess_def raised_signals_def)
qed

text \<open>A reviewed action of a valid contract never raises.\<close>

lemma review_total:
  "tool_action aid tool args risk req by = Inr a \<Longrightarrow> \<exists>d. review e a u = Inr d"
  using assess_declared_only [of risk]
  by (auto simp: tool_action_def review_def Let_def split: option.splits if_splits sum.splits)

lemma tool_action_InrD:
  "tool_action aid tool args risk req by = Inr a \<Longrightarrow>
     tl_tool_name a = tool \<and> tl_arguments a = args \<and> tl_risk_level a = risk \<and> risk \<in> set RISK_LEVELS"
  by (auto simp: tool_action_def split: if_splits)

lemma checks_deny:
  "check_managed_policy e a = Some d \<Longrightarrow> pd_decision d = ''deny''"
  "check_role_policy e user = Some d \<Longrightarrow> pd_decision d = ''deny''"
  "check_memory_policy e a = Some d \<Longrightarrow> pd_decision d = ''deny''"
  by (auto simp: check_managed_policy_def check_role_policy_def check_memory_policy_def Let_def
        policy_deny_def split: option.splits if_splits)

definition one_verdict :: "string list \<Rightarrow> string list \<Rightarrow> (string \<times> bool) list \<Rightarrow> bool" where
  "one_verdict reads asks table \<longleftrightarrow>
     filter (\<lambda>a. a \<in> set asks) reads = [] \<and>
     list_all (\<lambda>(n, req). (n \<in> set reads) = (n \<notin> set asks) \<and> req = (n \<in> set asks)) table"

lemma default_verdicts:
  "one_verdict default_allowed_read_actions default_approval_required_actions
     (map (\<lambda>t. (td_name t, td_requires_approval t)) TOOL_DEFINITIONS)"
  unfolding approval_table default_allowed_read_actions_def read_shaped_table
  by code_simp

subsection \<open>Properties of the static policy\<close>

text \<open>
  The names projected for MCP tools parse back to what they were printed from, and nothing else
  parses: a name reads as \<open>(server, tool)\<close> exactly when it is the projection of that pair, both halves
  have the bounded shape, and the server half neither holds nor ends in the separator.
\<close>

theorem mcp_tool_name_roundtrip:
  "parse_mcp_tool_name name = Some (server, tool) \<longleftrightarrow>
     name = mcp_tool_name server tool \<and> segment_match server \<and> segment_match tool
     \<and> \<not> has_sep (server @ ''_'')"
proof (cases "starts_with name ''mcp__''")
  case True
  then obtain r where r: "name = ''mcp__'' @ r" by (auto simp: starts_with_iff)
  have "parse_mcp_tool_name name = Some (server, tool) \<longleftrightarrow>
      partition_sep r = (server, Some tool) \<and> segment_match server \<and> segment_match tool"
    using True r by (auto simp: parse_mcp_tool_name_def split: prod.splits option.splits)
  then show ?thesis by (auto simp: partition_sep_iff mcp_tool_name_def r)
next
  case False
  then show ?thesis by (auto simp: parse_mcp_tool_name_def mcp_tool_name_def starts_with_def)
qed

text \<open>
  The static policy denies by default. A review allows an action exactly when no managed deny
  rule matches its tool, its owner (if the store answers) exists and is active, it does not write
  secret- or credential-like memory, and its tool is either a projected MCP tool or a read-shaped
  tool all of whose path arguments lie inside the workspace.
\<close>

theorem review_allows_iff:
  "(\<exists>d. review e a user = Inr d \<and> pd_decision d = ''allow'') \<longleftrightarrow>
     \<not> (\<exists>rules r. managed_rules e = Some rules \<and> r \<in> set rules \<and> mr_effect r = ''deny''
           \<and> fnmatch (tl_tool_name a) (mr_pattern r))
     \<and> \<not> (\<exists>u. user = Some u \<and> load_user e u \<in> {Some None, Some (Some False)})
     \<and> \<not> (tl_tool_name a = ''memory_write''
           \<and> classify_memory e (case map_of (tl_arguments a) ''text'' of None \<Rightarrow> [] | Some t \<Rightarrow> py_str t)
               \<in> {SECRET_LIKE, CREDENTIAL_LIKE})
     \<and> (is_mcp_tool (tl_tool_name a)
        \<or> tl_tool_name a \<in> set (allowed_read_actions (config e))
          \<and> path_arguments_inside_workspace e a = [])"
proof -
  have managed: "check_managed_policy e a = None \<longleftrightarrow>
      \<not> (\<exists>rules r. managed_rules e = Some rules \<and> r \<in> set rules \<and> mr_effect r = ''deny''
           \<and> fnmatch (tl_tool_name a) (mr_pattern r))"
    by (auto simp: check_managed_policy_def split: option.splits)
  have role: "check_role_policy e user = None \<longleftrightarrow>
      \<not> (\<exists>u. user = Some u \<and> load_user e u \<in> {Some None, Some (Some False)})"
    by (auto simp: check_role_policy_def split: option.splits if_splits)
  have memory: "check_memory_policy e a = None \<longleftrightarrow>
      \<not> (tl_tool_name a = ''memory_write''
         \<and> classify_memory e (case map_of (tl_arguments a) ''text'' of None \<Rightarrow> [] | Some t \<Rightarrow> py_str t)
             \<in> {SECRET_LIKE, CREDENTIAL_LIKE})"
    by (simp add: check_memory_policy_def Let_def)
  show ?thesis
    unfolding managed [symmetric] role [symmetric] memory [symmetric]
    by (auto simp: review_def Let_def policy_allow_def policy_deny_def dest!: checks_deny split: option.splits if_splits sum.splits)
qed

text \<open>
  The shipped configuration is unambiguous and total over the registry: no action is in both
  verdict lists, every registered tool is in exactly one of them, and it is in the approval list
  exactly when the registry says it needs approval.
\<close>

theorem registered_tools_have_one_verdict:
  "config_conflicts default_policy_config = [] \<and>
   list_all (\<lambda>t. (td_name t \<in> set (allowed_read_actions default_policy_config)) =
                 (td_name t \<notin> set (approval_required_actions default_policy_config))
               \<and> td_requires_approval t =
                 (td_name t \<in> set (approval_required_actions default_policy_config))) TOOL_DEFINITIONS"
  using default_verdicts
  by (simp add: one_verdict_def config_conflicts_def default_policy_config_def list_all_iff)

end
