(* ===== verification/Critical_Actions.thy ===== *)
theory Critical_Actions
  imports Governance_Store
begin

text \<open>
  The critical-risk table of \<^verbatim>\<open>raiker/runtime/authority/critical.py\<close>: the walk that finds every
  recipient in an argument tree, and \<^verbatim>\<open>classify_critical\<close>, which elevates an action to the
  human-confirmation floor.
\<close>

subsection \<open>The frozen sets\<close>

definition TIER2_CAPABILITIES :: "string list" where
  "TIER2_CAPABILITIES =
     [''shell_execution'', ''process_execution'', ''host_network_code_execution'', ''web_fetch'']"

definition TIER2_GATE_ACTIONS :: "string list" where
  "TIER2_GATE_ACTIONS =
     [''enable_runtime_gate'', ''capability_transition'', ''capability_enable'', ''threat_model_ack'',
      ''tier2_threat_ack'', ''confirmation_token_issue'', ''tier2_confirmation_token'']"

definition RELAXED_GATE_STATES :: "string list" where
  "RELAXED_GATE_STATES = [''enabled'', ''enabled_runtime'', ''allow'', ''auto'', ''ready'']"

definition EXTERNAL_SEND_ACTIONS :: "string list" where
  "EXTERNAL_SEND_ACTIONS =
     [''email_send'', ''email_send_execution'', ''calendar_invite'', ''calendar_sync'',
      ''calendar_sync_execution'']"

definition RECIPIENT_KEYS :: "string list" where
  "RECIPIENT_KEYS =
     [''to'', ''cc'', ''bcc'', ''recipient'', ''recipients'', ''attendee'', ''attendees'',
      ''torecipients'', ''ccrecipients'', ''bccrecipients'', ''to_recipients'',
      ''cc_recipients'', ''bcc_recipients'', ''guests'', ''invitees'', ''participants'',
      ''emails'', ''email_addresses'', ''destination'', ''destinations'']"

definition IDENTITY_KEYS :: "string list" where
  "IDENTITY_KEYS = [''email'', ''address'', ''emailaddress'', ''email_address'', ''id'', ''value'']"

definition MAX_RECIPIENT_DEPTH :: nat where
  "MAX_RECIPIENT_DEPTH = 8"

definition GRANT_MUTATION_ACTIONS :: "string list" where
  "GRANT_MUTATION_ACTIONS =
     [''standing_grant_create'', ''standing_grant_broaden'', ''grant_create'', ''grant_broaden'']"

definition VAULT_EGRESS_TOKENS :: "string list" where
  "VAULT_EGRESS_TOKENS =
     [''vault_write'', ''vault_delete'', ''vault_rotate'', ''vault_export'', ''credential_write'',
      ''credential_store'', ''credential_rotate'', ''credential_delete'', ''credential_export'',
      ''egress_allowlist_add'', ''egress_allowlist_remove'', ''egress_allowlist_update'',
      ''egress_allowlist_set'']"

subsection \<open>Identities\<close>

text \<open>\<^verbatim>\<open>re.split("[,;\n]", text)\<close>\<close>

fun split_on :: "(char \<Rightarrow> bool) \<Rightarrow> string \<Rightarrow> string list" where
  "split_on P [] = [[]]"
| "split_on P (c # r) =
     (if P c then [] # split_on P r
      else (case split_on P r of [] \<Rightarrow> [[c]] | p # ps \<Rightarrow> (c # p) # ps))"

text \<open>The first match of \<^verbatim>\<open><([^<>]+)>\<close>, as the text of its group.\<close>

fun address_in_angles :: "string \<Rightarrow> string option" where
  "address_in_angles [] = None"
| "address_in_angles (c # r) =
     (let body = takeWhile (\<lambda>x. x \<noteq> CHR ''<'' \<and> x \<noteq> CHR ''>'') r
      in if c = CHR ''<'' \<and> body \<noteq> [] \<and> (case drop (length body) r of x # _ \<Rightarrow> x = CHR ''>'' | [] \<Rightarrow> False)
         then Some body else address_in_angles r)"

definition split_identities :: "string \<Rightarrow> string list" where
  "split_identities text =
     filter (\<lambda>i. i \<noteq> [])
       (map (\<lambda>part. str_strip (case address_in_angles part of Some g \<Rightarrow> g | None \<Rightarrow> part))
         (filter (\<lambda>p. p \<noteq> [])
           (map str_strip (split_on (\<lambda>c. c = CHR '','' \<or> c = CHR '';'' \<or> c = CHR 0x0A) text))))"

text \<open>
  The lowered keys of a mapping; a key that lowers to the same text as a later one is overwritten,
  as in the dict comprehension.
\<close>

definition lowered :: "pydict \<Rightarrow> string \<Rightarrow> pyval option" where
  "lowered d = map_of (rev (map (\<lambda>(k, v). (str_lower k, v)) d))"

definition identity_field :: "pydict \<Rightarrow> pyval option" where
  "identity_field d =
     (case List.find (\<lambda>k. case lowered d k of None \<Rightarrow> False | Some v \<Rightarrow> v \<noteq> PNone \<and> v \<noteq> PStr [])
             IDENTITY_KEYS of
        None \<Rightarrow> None
      | Some k \<Rightarrow> lowered d k)"

function (sequential) identities :: "pyval \<Rightarrow> nat \<Rightarrow> string list \<times> nat" where
  "identities v d =
     (if d > MAX_RECIPIENT_DEPTH then ([], 1)
      else case v of
             PStr s \<Rightarrow> (split_identities s, 0)
           | PDict m \<Rightarrow>
               (case identity_field m of
                  Some w \<Rightarrow> identities w (Suc d)
                | None \<Rightarrow> ([], 1))
           | PList xs \<Rightarrow>
               (let rs = map (\<lambda>x. identities x (Suc d)) xs
                in (concat (map fst rs), sum_list (map snd rs)))
           | PNone \<Rightarrow> ([], 0)
           | _ \<Rightarrow> ([], 1))"
  by pat_completeness auto
termination
  by (relation "measure (\<lambda>(v, d). Suc MAX_RECIPIENT_DEPTH - d)") auto

declare identities.simps [simp del]

subsection \<open>The walk over the argument tree\<close>

fun vsize :: "pyval \<Rightarrow> nat"
  and vsize_elems :: "pyval list \<Rightarrow> nat"
  and vsize_items :: "(string \<times> pyval) list \<Rightarrow> nat" where
  "vsize (PList xs) = Suc (vsize_elems xs)"
| "vsize (PDict d) = Suc (vsize_items d)"
| "vsize _ = 1"
| "vsize_elems [] = 0"
| "vsize_elems (x # xs) = vsize x + vsize_elems xs"
| "vsize_items [] = 0"
| "vsize_items ((k, v) # xs) = vsize v + vsize_items xs"

definition is_container :: "pyval \<Rightarrow> bool" where
  "is_container v = (case v of PList _ \<Rightarrow> True | PDict _ \<Rightarrow> True | _ \<Rightarrow> False)"

definition recipient_key :: "string \<Rightarrow> bool" where
  "recipient_key k = (str_lower k \<in> set RECIPIENT_KEYS)"

record recipient_acc =
  rc_identities :: "string list"
  rc_unresolved :: nat
  rc_fields :: nat

definition note_field :: "pyval \<Rightarrow> nat \<Rightarrow> recipient_acc \<Rightarrow> recipient_acc" where
  "note_field v d acc =
     (case identities v d of (found, missing) \<Rightarrow>
        acc\<lparr>rc_fields := rc_fields acc + 1, rc_identities := rc_identities acc @ found,
            rc_unresolved := rc_unresolved acc + missing\<rparr>)"

text \<open>
  One mapping node: its recipient fields are noted in item order, its other containers are pushed,
  the last one on top of the stack.
\<close>

fun walk_items :: "pydict \<Rightarrow> nat \<Rightarrow> (pyval \<times> nat) list \<Rightarrow> recipient_acc \<Rightarrow> (pyval \<times> nat) list \<times> recipient_acc" where
  "walk_items [] d st acc = (st, acc)"
| "walk_items ((k, v) # items) d st acc =
     (if recipient_key k then walk_items items d st (note_field v (Suc d) acc)
      else if is_container v then walk_items items d ((v, Suc d) # st) acc
      else walk_items items d st acc)"

definition stack_size :: "(pyval \<times> nat) list \<Rightarrow> nat" where
  "stack_size st = sum_list (map (\<lambda>(v, d). vsize v) st)"

lemma stack_size_walk_items: "stack_size (fst (walk_items items d st acc)) \<le> stack_size st + vsize_items items"
  by (induction items d st acc rule: walk_items.induct) (auto simp: stack_size_def)

lemma vsize_elems_sum: "vsize_elems xs = sum_list (map vsize xs)"
  by (induction xs) auto

lemma stack_size_extend:
  "stack_size (rev (map (\<lambda>x. (x, d)) xs) @ st) = vsize_elems xs + stack_size st"
  by (induction xs arbitrary: st) (auto simp: stack_size_def vsize_elems_sum)

lemma vsize_pos [simp]: "0 < vsize v"
  by (cases v) auto

lemma stack_size_pop: "stack_size st < stack_size ((v, d) # st)"
  by (simp add: stack_size_def)

lemma stack_size_items_less:
  "stack_size (fst (walk_items items d st acc)) < stack_size ((PDict items, d') # st)"
  using stack_size_walk_items [of items d st acc] by (simp add: stack_size_def)

lemma stack_size_extend_less:
  "stack_size (rev (map (\<lambda>x. (x, d)) xs) @ st) < stack_size ((PList xs, d') # st)"
  unfolding stack_size_extend by (simp add: stack_size_def)

function (sequential) recipient_walk :: "(pyval \<times> nat) list \<Rightarrow> recipient_acc \<Rightarrow> recipient_acc" where
  "recipient_walk [] acc = acc"
| "recipient_walk ((node, d) # st) acc =
     (if d > MAX_RECIPIENT_DEPTH
      then recipient_walk st (acc\<lparr>rc_unresolved := rc_unresolved acc + 1\<rparr>)
      else case node of
             PDict items \<Rightarrow>
               recipient_walk (fst (walk_items items d st acc)) (snd (walk_items items d st acc))
           | PList xs \<Rightarrow> recipient_walk (rev (map (\<lambda>x. (x, Suc d)) xs) @ st) acc
           | _ \<Rightarrow> recipient_walk st acc)"
  by pat_completeness auto
termination
  by (relation "measure (\<lambda>(st, acc). stack_size st)")
    (auto simp: stack_size_pop stack_size_items_less stack_size_extend_less case_prod_beta)

definition recipient_fields :: "pydict \<Rightarrow> recipient_acc" where
  "recipient_fields args =
     recipient_walk [(PDict args, 0)] \<lparr>rc_identities = [], rc_unresolved = 0, rc_fields = 0\<rparr>"

definition on_allowlist :: "string \<Rightarrow> string list \<Rightarrow> bool" where
  "on_allowlist recipient allowlist =
     list_ex (\<lambda>pat. fnmatch (str_lower recipient) (str_lower pat)) allowlist"

subsection \<open>Classification\<close>

record CriticalMatch =
  cm_code :: string
  cm_zt_ref :: string
  cm_detail :: string

definition critical_match :: "string \<Rightarrow> string \<Rightarrow> CriticalMatch option" where
  "critical_match code detail = Some \<lparr>cm_code = code, cm_zt_ref = ''ZT-7'', cm_detail = detail\<rparr>"

definition classify_tier2 :: "string \<Rightarrow> string \<Rightarrow> pydict \<Rightarrow> CriticalMatch option" where
  "classify_tier2 atype tool args =
     (if atype \<in> set TIER2_GATE_ACTIONS then
        (let target = py_str (py_or (dict_get args ''capability'')
                        (py_or (dict_get args ''target_capability'')
                          (py_or (dict_get args ''gate'') (PStr tool))));
             target_state = str_lower (py_str (py_or (dict_get args ''target_state'')
                              (py_or (dict_get args ''state'') (PStr []))));
             relaxing = (atype \<notin> set [''enable_runtime_gate'', ''capability_transition'', ''capability_enable'']
                         \<or> target_state = [] \<or> target_state \<in> set RELAXED_GATE_STATES)
         in if target \<in> set TIER2_CAPABILITIES \<and> relaxing
            then critical_match ''tier2_execution_relaxation'' (''relaxes Tier-2 capability '' @ target)
            else None)
      else None)"

definition classify_send :: "string \<Rightarrow> pydict \<Rightarrow> string list \<Rightarrow> CriticalMatch option" where
  "classify_send atype args allowlist =
     (if atype \<in> set EXTERNAL_SEND_ACTIONS then
        (let r = recipient_fields args
         in if rc_identities r = []
            then critical_match ''external_send_with_unresolved_recipients''
                   ''external send whose recipients could not be resolved''
            else let unlisted = filter (\<lambda>i. \<not> on_allowlist i allowlist) (rc_identities r)
                 in if unlisted \<noteq> [] \<or> rc_unresolved r \<noteq> 0
                    then critical_match ''external_send_to_non_allowlisted_recipient''
                           (nat_dec (length unlisted + rc_unresolved r)
                            @ '' recipient(s) not on the account allowlist'')
                    else None)
      else None)"

definition classify_restore :: "string \<Rightarrow> pydict \<Rightarrow> CriticalMatch option" where
  "classify_restore atype args =
     (if atype \<in> set [''checkpoint_restore'', ''checkpoint_restore_execution'']
         \<and> list_ex (\<lambda>flag. truthy (dict_get args flag))
              [''touches_other_principal'', ''cross_principal'', ''overwrites_other_principal'']
      then critical_match ''cross_principal_checkpoint_restore''
             ''restore overwrites changes made by a different principal''
      else None)"

definition classify_critical :: "string \<Rightarrow> string \<Rightarrow> pydict \<Rightarrow> string list \<Rightarrow> CriticalMatch option" where
  "classify_critical atype tool args allowlist =
     (case classify_tier2 atype tool args of
        Some m \<Rightarrow> Some m
      | None \<Rightarrow>
     (case classify_send atype args allowlist of
        Some m \<Rightarrow> Some m
      | None \<Rightarrow>
     (case classify_restore atype args of
        Some m \<Rightarrow> Some m
      | None \<Rightarrow>
          if atype \<in> set GRANT_MUTATION_ACTIONS
          then critical_match ''standing_grant_creation_or_broadening''
                 ''creates or broadens a standing approval grant''
          else if atype \<in> set VAULT_EGRESS_TOKENS \<or> tool \<in> set VAULT_EGRESS_TOKENS
          then critical_match ''vault_credential_or_egress_allowlist_operation''
                 ''operates on vault/credential material or an egress allowlist''
          else None)))"

subsection \<open>What the walk finds\<close>

text \<open>
  \<open>recipient_at node d v e\<close>: below \<open>node\<close>, visited at depth \<open>d\<close>, a recipient-named key holds \<open>v\<close>,
  and \<open>e\<close> is the depth at which \<open>v\<close> is read. The path may cross any number of mappings and
  sequences; a recipient-named key ends it.
\<close>

inductive recipient_at :: "pyval \<Rightarrow> nat \<Rightarrow> pyval \<Rightarrow> nat \<Rightarrow> bool" where
  here: "(k, v) \<in> set items \<Longrightarrow> recipient_key k \<Longrightarrow> recipient_at (PDict items) d v (Suc d)"
| in_item: "(k, w) \<in> set items \<Longrightarrow> \<not> recipient_key k \<Longrightarrow> is_container w \<Longrightarrow>
     recipient_at w (Suc d) v e \<Longrightarrow> recipient_at (PDict items) d v e"
| in_elem: "w \<in> set xs \<Longrightarrow> recipient_at w (Suc d) v e \<Longrightarrow> recipient_at (PList xs) d v e"

inductive_cases recipient_at_PDictE: "recipient_at (PDict items) d v e"
inductive_cases recipient_at_PListE: "recipient_at (PList xs) d v e"

lemma recipient_at_container: "recipient_at w d v e \<Longrightarrow> is_container w"
  by (induction rule: recipient_at.induct) (auto simp: is_container_def)

definition acc_le :: "recipient_acc \<Rightarrow> recipient_acc \<Rightarrow> bool" where
  "acc_le a b \<longleftrightarrow> set (rc_identities a) \<subseteq> set (rc_identities b) \<and> rc_unresolved a \<le> rc_unresolved b"

definition noted :: "pyval \<Rightarrow> nat \<Rightarrow> recipient_acc \<Rightarrow> bool" where
  "noted v e r \<longleftrightarrow> set (fst (identities v e)) \<subseteq> set (rc_identities r)
                   \<and> snd (identities v e) \<le> rc_unresolved r"

lemma acc_le_refl [simp]: "acc_le a a"
  by (simp add: acc_le_def)

lemma acc_le_trans: "acc_le a b \<Longrightarrow> acc_le b c \<Longrightarrow> acc_le a c"
  by (auto simp: acc_le_def)

lemma noted_mono: "noted v e a \<Longrightarrow> acc_le a b \<Longrightarrow> noted v e b"
  by (auto simp: noted_def acc_le_def)

lemma note_field_le [simp]: "acc_le acc (note_field v d acc)"
  by (auto simp: acc_le_def note_field_def split: prod.splits)

lemma note_field_noted [simp]: "noted v d (note_field v d acc)"
  by (auto simp: noted_def note_field_def split: prod.splits)

lemma walk_items_spec:
  assumes "walk_items items d st acc = (st', acc')"
  shows "acc_le acc acc' \<and> set st \<subseteq> set st' \<and>
    (\<forall>(k, v) \<in> set items. if recipient_key k then noted v (Suc d) acc'
       else is_container v \<longrightarrow> (v, Suc d) \<in> set st')"
  using assms
proof (induction items d st acc rule: walk_items.induct)
  case (1 d st acc)
  then show ?case by simp
next
  case (2 k v items d st acc)
  show ?case
  proof (cases "recipient_key k")
    case True
    with "2.prems" "2.IH"(1) [OF True] show ?thesis
      by (auto intro: acc_le_trans [OF note_field_le] noted_mono [OF note_field_noted])
  next
    case False
    with "2.prems" "2.IH"(2,3) [OF False] show ?thesis by (auto split: if_splits)
  qed
qed

text \<open>Every recipient below a stacked node is noted, unless the walk gave up on some node.\<close>

lemma recipient_walk_complete:
  "acc_le acc (recipient_walk st acc) \<and>
   (\<forall>(n, d) \<in> set st. \<forall>v e. recipient_at n d v e \<longrightarrow>
      noted v e (recipient_walk st acc) \<or> 0 < rc_unresolved (recipient_walk st acc))"
proof (induction st acc rule: recipient_walk.induct)
  case (1 acc)
  then show ?case by simp
next
  case (2 node d st acc)
  let ?r = "recipient_walk ((node, d) # st) acc"
  show ?case
  proof (cases "d > MAX_RECIPIENT_DEPTH")
    case True
    let ?acc = "acc\<lparr>rc_unresolved := rc_unresolved acc + 1\<rparr>"
    have r: "?r = recipient_walk st ?acc" using True by simp
    have "acc_le ?acc ?r" and "acc_le acc ?acc"
      using "2.IH"(1) [OF True] unfolding r by (auto simp: acc_le_def)
    then have "acc_le acc ?r" and "0 < rc_unresolved ?r"
      by (auto intro: acc_le_trans simp: acc_le_def)
    then show ?thesis by auto
  next
    case False
    show ?thesis
    proof (cases node)
      case (PDict items)
      obtain st' acc' where w: "walk_items items d st acc = (st', acc')" by fastforce
      have r: "?r = recipient_walk st' acc'" using False PDict w by simp
      have ih: "acc_le acc' ?r" "\<forall>(n, d) \<in> set st'. \<forall>v e. recipient_at n d v e \<longrightarrow>
          noted v e ?r \<or> 0 < rc_unresolved ?r"
        using "2.IH"(8) [OF False PDict] unfolding r w by auto
      have le: "acc_le acc ?r" using walk_items_spec [OF w] ih(1) acc_le_trans by blast
      have "noted v e ?r \<or> 0 < rc_unresolved ?r" if "recipient_at node d v e" for v e
      proof (rule recipient_at_PDictE [OF that [unfolded PDict]])
        fix k assume "e = Suc d" and "(k, v) \<in> set items" and "recipient_key k"
        moreover from this walk_items_spec [OF w] have "noted v (Suc d) acc'" by fastforce
        ultimately show ?thesis using ih(1) by (auto intro: noted_mono)
      next
        fix k w' assume "(k, w') \<in> set items" and "\<not> recipient_key k" and "is_container w'"
          and at: "recipient_at w' (Suc d) v e"
        with walk_items_spec [OF w] have "(w', Suc d) \<in> set st'" by fastforce
        with at ih(2) show ?thesis by fastforce
      qed
      with le ih(2) walk_items_spec [OF w] show ?thesis by fastforce
    next
      case (PList xs)
      have r: "?r = recipient_walk (rev (map (\<lambda>x. (x, Suc d)) xs) @ st) acc" using False PList by simp
      show ?thesis using "2.IH"(7) [OF False PList] False unfolding r unfolding PList
        by (fastforce elim!: recipient_at_PListE)
    qed (use False "2.IH"(2-6) in \<open>auto dest: recipient_at_container simp: is_container_def\<close>)
  qed
qed

text \<open>
  An external send that is not held for a human names at least one recipient, and everything a
  recipient-named key holds anywhere in its arguments, at any depth, was resolved to addresses that
  are all on the account's allowlist: no nesting hides a destination.
\<close>

theorem unheld_send_recipients_allowlisted:
  assumes "classify_critical atype tool args allowlist = None"
    and "atype \<in> set EXTERNAL_SEND_ACTIONS"
  shows "rc_identities (recipient_fields args) \<noteq> [] \<and>
    (\<forall>v e. recipient_at (PDict args) 0 v e \<longrightarrow>
       snd (identities v e) = 0 \<and> list_all (\<lambda>i. on_allowlist i allowlist) (fst (identities v e)))"
proof -
  let ?r = "recipient_fields args"
  have "classify_send atype args allowlist = None"
    using assms(1) by (auto simp: classify_critical_def split: option.splits)
  then have ids: "rc_identities ?r \<noteq> []" and un: "rc_unresolved ?r = 0"
    and all: "\<forall>i \<in> set (rc_identities ?r). on_allowlist i allowlist"
    using assms(2)
    by (auto simp: classify_send_def Let_def critical_match_def filter_empty_conv split: if_splits)
  have "noted v e ?r" if "recipient_at (PDict args) 0 v e" for v e
    using recipient_walk_complete [of _ "[(PDict args, 0)]"] that un
    unfolding recipient_fields_def by fastforce
  with ids un all show ?thesis by (auto simp: noted_def list_all_iff)
qed

abbreviation listed_send :: pydict where
  "listed_send \<equiv> [(''message'', PDict [(''to'', PStr ''ann@x.io'')])]"

theorem unheld_send_recipients_allowlisted_witness:
  "recipient_at (PDict listed_send) 0 (PStr ''ann@x.io'') 2
   \<and> list_all (\<lambda>i. on_allowlist i [''*@x.io'']) (fst (identities (PStr ''ann@x.io'') 2))"
proof -
  have none: "classify_critical ''email_send'' ''gmail'' listed_send [''*@x.io''] = None"
    by code_simp
  have "\<not> recipient_key ''message''" and "recipient_key ''to''" by code_simp+
  then have at: "recipient_at (PDict listed_send) 0 (PStr ''ann@x.io'') (Suc (Suc 0))"
    by (auto intro!: recipient_at.intros simp: is_container_def)
  moreover have "''email_send'' \<in> set EXTERNAL_SEND_ACTIONS" by (simp add: EXTERNAL_SEND_ACTIONS_def)
  ultimately show ?thesis
    using unheld_send_recipients_allowlisted [OF none] by (metis numeral_2_eq_2)
qed

text \<open>
  The table elevates without looking at the recipient list: every action that mutates a
  standing grant or touches vault, credential or egress-allowlist material is critical, whatever
  its arguments and whatever the account allows.
\<close>

theorem grant_and_vault_actions_always_critical:
  "list_all (\<lambda>atype. classify_critical atype tool args allowlist \<noteq> None)
     (GRANT_MUTATION_ACTIONS @ VAULT_EGRESS_TOKENS)"
  by (auto simp: list_all_iff classify_critical_def critical_match_def split: option.splits)

end
