(* ===== verification/Standing_Grants.thy ===== *)
theory Standing_Grants
  imports Complex_Main Risk_Model Critical_Actions
begin

text \<open>
  Scoped standing approval grants: \<^verbatim>\<open>runtime/authority/grants.py\<close>, the grant table of
  \<^verbatim>\<open>storage/stores/approvals.py\<close> and the grant operations of \<^verbatim>\<open>runtime/authority/router.py\<close>. A grant
  lets a sub-critical action of one principal run without a fresh prompt until it expires or is
  revoked.

  \<open>plus_days\<close> is the timestamp arithmetic of \<^verbatim>\<open>datetime\<close>: the instant a number of days after a
  timestamp, printed as \<^verbatim>\<open>utc_now\<close> prints.
\<close>

subsection \<open>What a grant covers\<close>

definition RISK_ORDER :: "(string \<times> nat) list" where
  "RISK_ORDER = [(''low'', 0), (''medium'', 1), (''high'', 2)]"

definition GRANTABLE_RISK_CEILINGS :: "string list" where
  "GRANTABLE_RISK_CEILINGS = map fst RISK_ORDER"

definition risk_rank :: "string \<Rightarrow> nat option" where
  "risk_rank r = map_of RISK_ORDER r"

definition grant_expired :: "grant_row \<Rightarrow> string \<Rightarrow> bool" where
  "grant_expired g now = (gr_expires_at g = [] \<or> now > gr_expires_at g)"

definition grant_covers :: "grant_row \<Rightarrow> string \<Rightarrow> string \<Rightarrow> string \<Rightarrow> string \<Rightarrow> string \<Rightarrow> bool" where
  "grant_covers g atype tool scope risk now =
     (if gr_revoked g then False
      else if grant_expired g now then False
      else if gr_action_type g \<noteq> atype then False
      else if gr_tool g \<noteq> [] \<and> gr_tool g \<noteq> tool then False
      else case (risk_rank risk, risk_rank (gr_ceiling g)) of
             (Some a, Some c) \<Rightarrow>
               if a > c then False
               else fnmatch scope (if gr_scope g = [] then ''*'' else gr_scope g)
           | _ \<Rightarrow> False)"

record grant_request =
  rq_principal :: string
  rq_action_type :: string
  rq_tool :: string
  rq_scope :: string
  rq_ceiling :: string
  rq_reason :: string
  rq_ttl_days :: rat

definition build_grant_record ::
  "(nat \<Rightarrow> string) \<Rightarrow> (string \<Rightarrow> rat \<Rightarrow> string) \<Rightarrow> Principal \<Rightarrow> grant_request \<Rightarrow> store \<Rightarrow> (string + grant_row) \<times> store" where
  "build_grant_record uuid plus_days by rq s =
     (if \<not> human by then (Inl ''only_human_may_create_grant'', s)
      else if rq_action_type rq = [] then (Inl ''grant_action_type_required'', s)
      else if rq_ceiling rq = ''critical'' then (Inl ''grant_ceiling_cannot_be_critical'', s)
      else if rq_ceiling rq \<notin> set GRANTABLE_RISK_CEILINGS
      then (Inl (''invalid_grant_risk_ceiling:'' @ rq_ceiling rq), s)
      else if rq_ttl_days rq \<le> 0 then (Inl ''grant_ttl_must_be_positive'', s)
      else case new_id uuid ''grn_'' s of (gid, s1) \<Rightarrow>
        (Inr \<lparr>gr_id = gid, gr_principal = rq_principal rq, gr_granted_by = principal_id by,
              gr_action_type = rq_action_type rq, gr_tool = rq_tool rq,
              gr_scope = (if rq_scope rq = [] then ''*'' else rq_scope rq),
              gr_ceiling = rq_ceiling rq, gr_reason = rq_reason rq, gr_created_at = clock s,
              gr_expires_at = plus_days (clock s) (rq_ttl_days rq), gr_revoked = False,
              gr_revoked_at = None, gr_revoked_by = None, gr_use_count = 0,
              gr_last_used_at = None\<rparr>, s1))"

subsection \<open>The grant table\<close>

text \<open>\<^verbatim>\<open>grant_id\<close> is the primary key: a second row with the same id is refused by SQLite.\<close>

definition insert_standing_grant :: "grant_row \<Rightarrow> store \<Rightarrow> py_error + store" where
  "insert_standing_grant g s =
     (if gr_id g \<in> gr_id ` set (standing_grants s) then Inl IntegrityError
      else Inr (s\<lparr>standing_grants := standing_grants s @ [g]\<rparr>))"

definition load_standing_grant :: "store \<Rightarrow> string \<Rightarrow> grant_row option" where
  "load_standing_grant s gid = List.find (\<lambda>g. gr_id g = gid) (standing_grants s)"

text \<open>Newest first; rows of one second come in insertion order, which SQLite leaves open.\<close>

definition newest_first :: "grant_row list \<Rightarrow> grant_row list" where
  "newest_first gs = rev (sort_key gr_created_at (rev gs))"

definition find_active_standing_grants :: "store \<Rightarrow> string \<Rightarrow> string \<Rightarrow> grant_row list" where
  "find_active_standing_grants s pid atype =
     newest_first (filter (\<lambda>g. gr_principal g = pid \<and> gr_action_type g = atype
                            \<and> \<not> gr_revoked g \<and> gr_expires_at g > clock s) (standing_grants s))"

definition store_revoke_standing_grant :: "string \<Rightarrow> string \<Rightarrow> string option \<Rightarrow> store \<Rightarrow> bool \<times> store" where
  "store_revoke_standing_grant gid revoked_by granted_by s =
     (let hit = (\<lambda>g. gr_id g = gid \<and> \<not> gr_revoked g \<and>
                     (case granted_by of None \<Rightarrow> True | Some p \<Rightarrow> gr_granted_by g = p))
      in (length (filter hit (standing_grants s)) = 1,
          s\<lparr>standing_grants :=
             map (\<lambda>g. if hit g then g\<lparr>gr_revoked := True, gr_revoked_at := Some (clock s),
                                       gr_revoked_by := Some revoked_by\<rparr> else g)
               (standing_grants s)\<rparr>))"

definition record_standing_grant_use :: "string \<Rightarrow> store \<Rightarrow> store" where
  "record_standing_grant_use gid s =
     s\<lparr>standing_grants :=
        map (\<lambda>g. if gr_id g = gid
                  then g\<lparr>gr_use_count := gr_use_count g + 1, gr_last_used_at := Some (clock s)\<rparr> else g)
          (standing_grants s)\<rparr>"

subsection \<open>The grant operations of the authority\<close>

definition create_standing_grant ::
  "(nat \<Rightarrow> string) \<Rightarrow> (string \<Rightarrow> rat \<Rightarrow> string) \<Rightarrow> Principal \<Rightarrow> grant_request \<Rightarrow> store
   \<Rightarrow> (py_error + (string + grant_row)) \<times> store" where
  "create_standing_grant uuid plus_days by rq s =
     (case classify_critical (rq_action_type rq) (rq_tool rq) [] [] of
        Some m \<Rightarrow>
          (Inr (Inl ''grant_target_is_critical''),
           authority_event ''standing_grant_denied'' (principal_id by)
             [(''action_type'', PStr (rq_action_type rq)),
              (''reason'', PStr ''grant_target_is_critical''),
              (''criterion'', PStr (cm_code m))] [] None s)
      | None \<Rightarrow>
          (case build_grant_record uuid plus_days by rq s of
             (Inl reason, s1) \<Rightarrow>
               (Inr (Inl reason),
                authority_event ''standing_grant_denied'' (principal_id by)
                  [(''action_type'', PStr (rq_action_type rq)), (''reason'', PStr reason)] [] None s1)
           | (Inr g, s1) \<Rightarrow>
               (case insert_standing_grant g s1 of
                  Inl e \<Rightarrow> (Inl e, s1)
                | Inr s2 \<Rightarrow>
                    (Inr (Inr g),
                     authority_event ''standing_grant_created'' (principal_id by)
                       [(''grant_id'', PStr (gr_id g)), (''principal_id'', PStr (rq_principal rq)),
                        (''action_type'', PStr (rq_action_type rq)), (''tool_name'', PStr (rq_tool rq)),
                        (''scope_pattern'', PStr (rq_scope rq)), (''risk_ceiling'', PStr (rq_ceiling rq)),
                        (''expires_at'', PStr (gr_expires_at g)), (''reason'', PStr (rq_reason rq))]
                       [] None s2))))"

definition revoke_standing_grant :: "string \<Rightarrow> Principal \<Rightarrow> string option \<Rightarrow> store \<Rightarrow> string option \<times> store" where
  "revoke_standing_grant gid revoker granted_by s =
     (if \<not> human revoker then (Some ''only_human_may_revoke_grant'', s)
      else case store_revoke_standing_grant gid (principal_id revoker) granted_by s of
             (ok, s1) \<Rightarrow>
               if \<not> ok then (Some ''grant_not_found_or_already_revoked'', s1)
               else (None, authority_event ''standing_grant_revoked'' (principal_id revoker)
                             [(''grant_id'', PStr gid)] [] None s1))"

definition find_matching_standing_grant ::
  "Principal \<Rightarrow> GovernedAction \<Rightarrow> string \<Rightarrow> store \<Rightarrow> grant_row option" where
  "find_matching_standing_grant p a risk s =
     (if human p then None
      else if risk = ''critical'' then None
      else List.find (\<lambda>g. grant_covers g (action_type a) (tool_name a) (domain_scope a) risk (clock s))
             (find_active_standing_grants s (principal_id p) (action_type a)))"

subsection \<open>The grant ledger as a step system\<close>

text \<open>
  The operations that reach the grant table, and the passing of time. A grant is created by a
  principal as the store knows it: \<^verbatim>\<open>create_standing_grant\<close> is called with a loaded principal.
\<close>

inductive grant_step :: "(nat \<Rightarrow> string) \<Rightarrow> (string \<Rightarrow> rat \<Rightarrow> string) \<Rightarrow> store \<Rightarrow> store \<Rightarrow> bool"
  for uuid :: "nat \<Rightarrow> string" and plus_days :: "string \<Rightarrow> rat \<Rightarrow> string" where
  create: "get_principal s (principal_id by) = Some by \<Longrightarrow>
     create_standing_grant uuid plus_days by rq s = (r, t) \<Longrightarrow> grant_step uuid plus_days s t"
| revoke: "revoke_standing_grant gid p owner s = (r, t) \<Longrightarrow> grant_step uuid plus_days s t"
| use: "grant_step uuid plus_days s (record_standing_grant_use gid s)"
| tick: "clock s \<le> now \<Longrightarrow> grant_step uuid plus_days s (s\<lparr>clock := now\<rparr>)"

definition grant_ok :: "store \<Rightarrow> grant_row \<Rightarrow> bool" where
  "grant_ok s g \<longleftrightarrow>
     (\<exists>p. get_principal s (gr_granted_by g) = Some p \<and> human p)
     \<and> gr_ceiling g \<in> {''low'', ''medium'', ''high''} \<and> gr_action_type g \<noteq> []
     \<and> classify_critical (gr_action_type g) (gr_tool g) [] [] = None"

definition grants_inv :: "store \<Rightarrow> bool" where
  "grants_inv s \<longleftrightarrow> distinct (map gr_id (standing_grants s)) \<and> list_all (grant_ok s) (standing_grants s)"

definition grant_revoked :: "string \<Rightarrow> store \<Rightarrow> bool" where
  "grant_revoked gid s \<longleftrightarrow> gid \<in> gr_id ` set (standing_grants s)
     \<and> list_all (\<lambda>g. gr_id g = gid \<longrightarrow> gr_revoked g) (standing_grants s)"

subsubsection \<open>What each operation does to the table\<close>

lemma create_standing_grant_table:
  assumes "create_standing_grant uuid plus_days by rq s = (r, t)"
  shows "principals t = principals s \<and>
    (standing_grants t = standing_grants s
     \<or> (\<exists>g. r = Inr (Inr g) \<and> standing_grants t = standing_grants s @ [g] \<and> human by
          \<and> gr_id g \<notin> gr_id ` set (standing_grants s) \<and> gr_granted_by g = principal_id by
          \<and> gr_ceiling g \<in> {''low'', ''medium'', ''high''} \<and> gr_action_type g \<noteq> []
          \<and> classify_critical (gr_action_type g) (gr_tool g) [] [] = None))"
  using assms
  by (auto simp: create_standing_grant_def build_grant_record_def insert_standing_grant_def new_id_def
        GRANTABLE_RISK_CEILINGS_def RISK_ORDER_def frame_simps split: option.splits if_splits)

text \<open>Revoking and using rewrite rows in place and touch bookkeeping fields only.\<close>

definition rewrites_rows :: "(grant_row \<Rightarrow> grant_row) \<Rightarrow> bool" where
  "rewrites_rows f \<longleftrightarrow> (\<forall>g. gr_id (f g) = gr_id g \<and> gr_granted_by (f g) = gr_granted_by g
     \<and> gr_ceiling (f g) = gr_ceiling g \<and> gr_action_type (f g) = gr_action_type g
     \<and> gr_tool (f g) = gr_tool g \<and> (gr_revoked g \<longrightarrow> gr_revoked (f g)))"

lemma revoke_standing_grant_table:
  assumes "revoke_standing_grant gid p owner s = (r, t)"
  shows "\<exists>f. rewrites_rows f \<and> standing_grants t = map f (standing_grants s)
             \<and> principals t = principals s"
proof (cases "human p")
  case True
  let ?hit = "\<lambda>g. gr_id g = gid \<and> \<not> gr_revoked g \<and>
                  (case owner of None \<Rightarrow> True | Some q \<Rightarrow> gr_granted_by g = q)"
  let ?f = "\<lambda>g. if ?hit g then g\<lparr>gr_revoked := True, gr_revoked_at := Some (clock s),
                                    gr_revoked_by := Some (principal_id p)\<rparr> else g"
  have "standing_grants t = map ?f (standing_grants s) \<and> principals t = principals s"
    using assms True
    by (auto simp: revoke_standing_grant_def store_revoke_standing_grant_def Let_def frame_simps
          split: if_splits)
  moreover have "rewrites_rows ?f" by (auto simp: rewrites_rows_def)
  ultimately show ?thesis by blast
next
  case False
  with assms have "standing_grants t = map id (standing_grants s) \<and> principals t = principals s"
    by (simp add: revoke_standing_grant_def)
  moreover have "rewrites_rows id" by (simp add: rewrites_rows_def)
  ultimately show ?thesis by blast
qed

lemma record_use_table:
  "\<exists>f. rewrites_rows f \<and> standing_grants (record_standing_grant_use gid s) = map f (standing_grants s)
       \<and> principals (record_standing_grant_use gid s) = principals s"
  by (rule exI [of _ "\<lambda>g. if gr_id g = gid then g\<lparr>gr_use_count := gr_use_count g + 1,
        gr_last_used_at := Some (clock s)\<rparr> else g"])
    (auto simp: rewrites_rows_def record_standing_grant_use_def)

lemma grant_ok_cong: "principals t = principals s \<Longrightarrow> grant_ok t = grant_ok s"
  by (auto simp: grant_ok_def get_principal_def)

lemma grants_inv_map:
  "grants_inv s \<Longrightarrow> rewrites_rows f \<Longrightarrow> standing_grants t = map f (standing_grants s) \<Longrightarrow>
     principals t = principals s \<Longrightarrow> grants_inv t"
  by (auto simp: grants_inv_def grant_ok_cong [of t s] list_all_iff grant_ok_def rewrites_rows_def
        comp_def)

lemma grant_revoked_map:
  "grant_revoked gid s \<Longrightarrow> rewrites_rows f \<Longrightarrow> standing_grants t = map f (standing_grants s) \<Longrightarrow>
     grant_revoked gid t"
  unfolding grant_revoked_def rewrites_rows_def list_all_iff
  by (auto simp: image_image)

text \<open>
  One case rule for all steps: a step appends one valid grant with a fresh id, or rewrites the
  bookkeeping of the rows there are.
\<close>

lemma grant_step_cases:
  assumes "grant_step uuid plus_days s t"
  obtains (append) g where "principals t = principals s" "standing_grants t = standing_grants s @ [g]"
      "gr_id g \<notin> gr_id ` set (standing_grants s)" "grant_ok s g"
  | (rewrite) f where "rewrites_rows f" "standing_grants t = map f (standing_grants s)"
      "principals t = principals s"
  using assms
proof cases
  case (create grantor rq r)
  have same: "thesis" if "standing_grants t = standing_grants s" "principals t = principals s"
    using rewrite [of id] that by (simp add: rewrites_rows_def)
  show thesis
    using create_standing_grant_table [OF create(2)] create(1) same append
    by (auto simp: grant_ok_def)
next
  case (revoke gid p owner r)
  with rewrite revoke_standing_grant_table show thesis by blast
next
  case (use gid)
  with rewrite record_use_table show thesis by metis
next
  case (tick now)
  then show thesis using rewrite [of id] by (simp add: rewrites_rows_def)
qed

interpretation ledger: step_invariant "grant_step uuid plus_days" grants_inv
  for uuid plus_days
proof
  fix s t
  assume "grant_step uuid plus_days s t" and inv: "grants_inv s"
  then show "grants_inv t"
  proof (cases rule: grant_step_cases)
    case (append g)
    with inv show ?thesis by (auto simp: grants_inv_def grant_ok_cong [of t s])
  next
    case (rewrite f)
    with inv show ?thesis by (blast intro: grants_inv_map)
  qed
qed

interpretation revocation: step_invariant "grant_step uuid plus_days" "grant_revoked gid"
  for uuid plus_days gid
proof
  fix s t
  assume "grant_step uuid plus_days s t" and rev: "grant_revoked gid s"
  then show "grant_revoked gid t"
  proof (cases rule: grant_step_cases)
    case (append g)
    with rev show ?thesis by (auto simp: grant_revoked_def)
  next
    case (rewrite f)
    with rev show ?thesis by (blast intro: grant_revoked_map)
  qed
qed

subsection \<open>Properties of grants\<close>

lemma find_activeD:
  "g \<in> set (find_active_standing_grants s pid atype) \<longleftrightarrow>
     g \<in> set (standing_grants s) \<and> gr_principal g = pid \<and> gr_action_type g = atype
     \<and> \<not> gr_revoked g \<and> gr_expires_at g > clock s"
  by (auto simp: find_active_standing_grants_def newest_first_def)

lemma risk_rank_Some: "risk_rank r = Some n \<longleftrightarrow> r \<in> {''low'', ''medium'', ''high''} \<and> n = rank_of r"
  by (auto simp: risk_rank_def RISK_ORDER_def)

lemma grant_coversD:
  "grant_covers g atype tool scope risk now \<Longrightarrow>
     \<not> gr_revoked g \<and> now \<le> gr_expires_at g \<and> gr_action_type g = atype
     \<and> (gr_tool g = [] \<or> gr_tool g = tool) \<and> risk \<in> {''low'', ''medium'', ''high''}
     \<and> rank_of risk \<le> rank_of (gr_ceiling g)"
  by (auto simp: grant_covers_def grant_expired_def risk_rank_Some split: if_splits option.splits)

lemma find_matching_SomeD:
  assumes "find_matching_standing_grant p a risk s = Some g"
  shows "g \<in> set (standing_grants s)" and "\<not> human p" and "gr_principal g = principal_id p"
    and "\<not> gr_revoked g" and "clock s < gr_expires_at g"
    and "grant_covers g (action_type a) (tool_name a) (domain_scope a) risk (clock s)"
  using assms find_activeD find_SomeD
  by (fastforce simp: find_matching_standing_grant_def split: if_splits)+

text \<open>A store that holds one grant for the agent, made by the owner.\<close>

definition read_grant :: grant_row where
  "read_grant =
     \<lparr>gr_id = ''grn_1'', gr_principal = ''agent'', gr_granted_by = ''own'', gr_action_type = ''git_commit'',
      gr_tool = [], gr_scope = ''cod*'', gr_ceiling = ''medium'', gr_reason = [],
      gr_created_at = ''2026-01-01T00:00:00Z'', gr_expires_at = ''2026-01-08T00:00:00Z'',
      gr_revoked = False, gr_revoked_at = None, gr_revoked_by = None, gr_use_count = 0,
      gr_last_used_at = None\<rparr>"

definition commit_action :: GovernedAction where
  "commit_action =
     \<lparr>action_id = ''act_1'', ga_principal_id = ''agent'', action_type = ''git_commit'',
      tool_name = ''git_commit'', arguments = [], domain_scope = ''coding'', risk_level = ''medium'',
      requires_approval = False, requires_risk_acceptance = False, session_id = ''sess_1'',
      turn_id = None, origin_session_id = [], critical_confirmation = None,
      decision_mode_override = None, authority_kind = [], authority_id = []\<rparr>"

definition granted_store :: store where
  "granted_store = owned_store\<lparr>standing_grants := [read_grant]\<rparr>"

lemma granted_store_inv: "grants_inv granted_store"
proof -
  have "classify_critical ''git_commit'' [] [] [] = None" by code_simp
  then show ?thesis
    by (simp add: grants_inv_def granted_store_def grant_ok_def read_grant_def get_principal_def
          owned_store_unfold)
qed

text \<open>
  C38: A standing grant never carries an action past what its human grantor could decide in advance.
  In every store reached from a sound one by creating, revoking and using grants, a grant that
  matches an action was made by a human principal, belongs to the acting non-human principal, is
  neither revoked nor expired, names the action's type and its tool (or any), and the action's risk
  is at most the ceiling, which is below critical.
\<close>

theorem matching_grant_sound:
  assumes "grants_inv s" and "(grant_step uuid plus_days)\<^sup>*\<^sup>* s t"
    and "find_matching_standing_grant p a risk t = Some g"
  shows "(\<exists>h. get_principal t (gr_granted_by g) = Some h \<and> human h) \<and> \<not> human p
    \<and> gr_principal g = principal_id p \<and> \<not> gr_revoked g \<and> clock t < gr_expires_at g
    \<and> gr_action_type g = action_type a \<and> (gr_tool g = [] \<or> gr_tool g = tool_name a)
    \<and> rank_of risk \<le> rank_of (gr_ceiling g) \<and> rank_of (gr_ceiling g) < rank_of ''critical''
    \<and> risk \<in> {''low'', ''medium'', ''high''}"
proof -
  note match = find_matching_SomeD [OF assms(3)]
  have "grants_inv t" using ledger.keep_star assms(1,2) by blast
  then have "grant_ok t g" using match(1) by (simp add: grants_inv_def list_all_iff)
  then show ?thesis using match grant_coversD [OF match(6)] by (auto simp: grant_ok_def)
qed

theorem matching_grant_sound_witness:
  "find_matching_standing_grant agent_principal commit_action ''medium'' granted_store = Some read_grant
   \<and> rank_of ''medium'' \<le> rank_of (gr_ceiling read_grant)"
proof -
  have m: "find_matching_standing_grant agent_principal commit_action ''medium'' granted_store = Some read_grant"
    by code_simp
  then show ?thesis
    using matching_grant_sound [OF granted_store_inv rtranclp.rtrancl_refl m] by blast
qed

text \<open>
  Revocation is immediate and final: once a human's revoke of a grant succeeds, that grant
  matches no action of any principal in any later state of the ledger.
\<close>

theorem revoked_grant_never_matches:
  assumes "grants_inv s" and "revoke_standing_grant gid revoker owner s = (None, s')"
    and "(grant_step uuid plus_days)\<^sup>*\<^sup>* s' t"
  shows "human revoker \<and> (\<nexists>g. find_matching_standing_grant p a risk t = Some g \<and> gr_id g = gid)"
proof -
  let ?hit = "\<lambda>g. gr_id g = gid \<and> \<not> gr_revoked g \<and>
                  (case owner of None \<Rightarrow> True | Some q \<Rightarrow> gr_granted_by g = q)"
  have h: "human revoker" and one: "length (filter ?hit (standing_grants s)) = 1"
    and tab: "standing_grants s' = map (\<lambda>g. if ?hit g then g\<lparr>gr_revoked := True,
        gr_revoked_at := Some (clock s), gr_revoked_by := Some (principal_id revoker)\<rparr> else g)
        (standing_grants s)"
    using assms(2)
    by (auto simp: revoke_standing_grant_def store_revoke_standing_grant_def Let_def frame_simps
          split: if_splits)
  have dist: "distinct (map gr_id (standing_grants s))" using assms(1) by (simp add: grants_inv_def)
  have "filter ?hit (standing_grants s) \<noteq> []" using one by auto
  then obtain g0 where g0: "g0 \<in> set (standing_grants s)" "?hit g0"
    unfolding filter_empty_conv by blast
  have uniq: "g = g0" if "g \<in> set (standing_grants s)" "gr_id g = gid" for g
    using dist g0 that by (metis (no_types, lifting) distinct_map inj_on_def)
  have "map gr_id (standing_grants s') = map gr_id (standing_grants s)" unfolding tab by simp
  then have "gid \<in> gr_id ` set (standing_grants s')" using g0 by (metis imageI list.set_map)
  moreover have "list_all (\<lambda>g. gr_id g = gid \<longrightarrow> gr_revoked g) (standing_grants s')"
    using g0 uniq unfolding tab list_all_iff by auto
  ultimately have "grant_revoked gid s'" by (simp add: grant_revoked_def)
  then have "grant_revoked gid t" using revocation.keep_star assms(3) by blast
  then show ?thesis
    using h find_matching_SomeD(1,4) by (fastforce simp: grant_revoked_def list_all_iff)
qed

theorem revoked_grant_never_matches_witness:
  "fst (revoke_standing_grant ''grn_1'' owner_principal None granted_store) = None \<and>
   (\<nexists>g. find_matching_standing_grant agent_principal commit_action ''medium''
          (snd (revoke_standing_grant ''grn_1'' owner_principal None granted_store)) = Some g
        \<and> gr_id g = ''grn_1'')"
proof -
  have r: "fst (revoke_standing_grant ''grn_1'' owner_principal None granted_store) = None"
    by code_simp
  then have "revoke_standing_grant ''grn_1'' owner_principal None granted_store =
      (None, snd (revoke_standing_grant ''grn_1'' owner_principal None granted_store))"
    by (simp add: prod_eq_iff)
  from revoked_grant_never_matches [OF granted_store_inv this rtranclp.rtrancl_refl] r
  show ?thesis by blast
qed

text \<open>
  Creating a grant succeeds exactly for a human, a named action type that is not itself critical,
  a ceiling among low, medium and high and a positive lifetime (and a fresh identifier); otherwise it
  leaves the ledger as it was.
\<close>

theorem create_standing_grant_succeeds_iff:
  "((\<exists>g. fst (create_standing_grant uuid plus_days grantor rq s) = Inr (Inr g)) \<longleftrightarrow>
     human grantor \<and> rq_action_type rq \<noteq> []
     \<and> classify_critical (rq_action_type rq) (rq_tool rq) [] [] = None
     \<and> rq_ceiling rq \<in> {''low'', ''medium'', ''high''} \<and> 0 < rq_ttl_days rq
     \<and> ''grn_'' @ uuid (next_uuid s) \<notin> gr_id ` set (standing_grants s))
   \<and> ((\<exists>g. fst (create_standing_grant uuid plus_days grantor rq s) = Inr (Inr g))
      \<or> standing_grants (snd (create_standing_grant uuid plus_days grantor rq s)) = standing_grants s)"
  by (auto simp: create_standing_grant_def build_grant_record_def insert_standing_grant_def new_id_def
        GRANTABLE_RISK_CEILINGS_def RISK_ORDER_def frame_simps split: option.splits if_splits)

end
