(* ===== verification/Capability_Registry.thy ===== *)
theory Capability_Registry
  imports Tool_Registry
begin

text \<open>
  The static capability tables: the phase gates of \<^verbatim>\<open>phase_gates.py\<close> with their default states and
  readiness flags, the executor set of \<^verbatim>\<open>runtime/executors/__init__.py\<close>, the activation
  requirements of \<^verbatim>\<open>runtime/authority/activation.py\<close>, the tool-to-capability map of
  \<^verbatim>\<open>runtime/authority/router.py\<close> and the decision modes of \<^verbatim>\<open>runtime/authority/decision_modes.py\<close>.
  The prose notes of the entries are left out.
\<close>

subsection \<open>Capability names\<close>

definition PHASE_3_CAPABILITIES :: "string list" where
  "PHASE_3_CAPABILITIES =
     [''desktop_ui'', ''web_ui'', ''dashboard'', ''plugin_execution'', ''graph_codemap_indexing'',
      ''semantic_memory_writes'', ''graph_codemap_planning'', ''semantic_memory_review_queue'']"

definition PHASE_4_DISABLED_CAPABILITIES :: "string list" where
  "PHASE_4_DISABLED_CAPABILITIES =
     [''external_channels'', ''subagents'', ''multi_agent_teams'', ''remote_execution'']"

definition PHASE_3_DISABLED_CAPABILITIES :: "string list" where
  "PHASE_3_DISABLED_CAPABILITIES =
     [''plugin_execution'', ''graph_codemap_indexing'', ''semantic_memory_writes'',
      ''graph_codemap_planning'', ''semantic_memory_review_queue'']"

definition READ_ONLY_CONTRACT_CAPABILITIES :: "string list" where
  "READ_ONLY_CONTRACT_CAPABILITIES =
     [''desktop_ui'', ''web_ui'', ''dashboard'']"

definition PHASE_3_POLICY_READY_CAPABILITIES :: "string list" where
  "PHASE_3_POLICY_READY_CAPABILITIES =
     [''graph_codemap_planning'', ''semantic_memory_review_queue'']"

definition RUNTIME_DOMAIN_CAPABILITIES :: "string list" where
  "RUNTIME_DOMAIN_CAPABILITIES =
     [''shell_execution'', ''process_execution'', ''host_network_code_execution'', ''web_fetch'',
      ''file_write_execution'', ''patch_apply_execution'', ''git_write_execution'',
      ''git_push_execution'', ''git_fetch_execution'', ''memory_write_execution'',
      ''memory_forget_execution'', ''checkpoint_restore_execution'', ''task_management_runtime'',
      ''project_assignment_runtime'', ''approval_execution_relay'', ''admin_mutation'',
      ''role_mutation'', ''model_provider_runtime'', ''hosted_model_runtime'',
      ''private_network_model_runtime'', ''advisor_model_runtime'', ''connector_github_runtime'',
      ''connector_gmail_runtime'', ''connector_gcal_runtime'', ''connector_slack_runtime'',
      ''email_runtime'', ''calendar_runtime'', ''reminder_runtime'', ''finance_runtime'',
      ''investment_runtime'', ''medical_runtime'', ''pregnancy_baby_runtime'', ''cctv_runtime'',
      ''home_security_runtime'', ''hardware_operator_runtime'', ''plugin_execution_cap'',
      ''plugin_install'', ''plugin_revocation_cap'', ''plugin_runtime_cap'',
      ''external_channel_runtime'', ''channel_approval_relay'', ''remote_execution_cap'',
      ''cloud_execution_cap'', ''graph_indexing_runtime'', ''semantic_memory_runtime'',
      ''vector_embedding_runtime'', ''scheduled_routines'', ''mcp_builder_runtime'',
      ''mcp_connector_runtime'', ''audit_export'', ''telemetry_export'', ''image_generation'',
      ''code_map_indexing'', ''language_intelligence'']"

definition TIER1_EXECUTED_CAPS :: "string list" where
  "TIER1_EXECUTED_CAPS =
     [''approval_execution_relay'', ''file_write_execution'', ''patch_apply_execution'',
      ''memory_write_execution'', ''memory_forget_execution'', ''checkpoint_restore_execution'',
      ''task_management_runtime'', ''project_assignment_runtime'', ''git_write_execution'',
      ''audit_export'']"

definition TIER2_EXECUTED_CAPS :: "string list" where
  "TIER2_EXECUTED_CAPS =
     [''shell_execution'', ''process_execution'', ''web_fetch'', ''host_network_code_execution'',
      ''git_push_execution'', ''git_fetch_execution'', ''telemetry_export'', ''image_generation'']"

definition TIER3_EXECUTED_CAPS :: "string list" where
  "TIER3_EXECUTED_CAPS =
     [''graph_indexing_runtime'', ''semantic_memory_runtime'', ''vector_embedding_runtime'',
      ''model_provider_runtime'', ''code_map_indexing'']"

definition TIER4_EXECUTED_CAPS :: "string list" where
  "TIER4_EXECUTED_CAPS =
     [''plugin_install'', ''plugin_execution_cap'', ''plugin_revocation_cap'',
      ''plugin_runtime_cap'']"

definition TIER5_EXECUTED_CAPS :: "string list" where
  "TIER5_EXECUTED_CAPS =
     [''external_channel_runtime'', ''channel_approval_relay'', ''remote_execution_cap'',
      ''cloud_execution_cap'', ''hosted_model_runtime'', ''private_network_model_runtime'',
      ''advisor_model_runtime'', ''connector_github_runtime'', ''connector_gmail_runtime'',
      ''connector_gcal_runtime'', ''connector_slack_runtime'', ''scheduled_routines'',
      ''mcp_builder_runtime'', ''mcp_connector_runtime'']"

definition TIER6_EXECUTED_CAPS :: "string list" where
  "TIER6_EXECUTED_CAPS =
     [''email_runtime'', ''calendar_runtime'', ''reminder_runtime'', ''finance_runtime'',
      ''investment_runtime'', ''medical_runtime'', ''pregnancy_baby_runtime'', ''cctv_runtime'',
      ''home_security_runtime'', ''hardware_operator_runtime'']"

definition REAL_EXECUTOR_CAPABILITIES :: "string list" where
  "REAL_EXECUTOR_CAPABILITIES =
     [''approval_execution_relay'', ''file_write_execution'', ''patch_apply_execution'',
      ''git_write_execution'', ''memory_write_execution'', ''memory_forget_execution'',
      ''checkpoint_restore_execution'', ''audit_export'', ''telemetry_export'',
      ''task_management_runtime'', ''project_assignment_runtime'', ''shell_execution'',
      ''process_execution'', ''host_network_code_execution'', ''web_fetch'',
      ''git_push_execution'', ''git_fetch_execution'', ''image_generation'',
      ''graph_indexing_runtime'', ''code_map_indexing'', ''language_intelligence'',
      ''semantic_memory_runtime'', ''vector_embedding_runtime'', ''model_provider_runtime'',
      ''subagents'', ''multi_agent_teams'', ''external_channel_runtime'',
      ''channel_approval_relay'', ''remote_execution_cap'', ''cloud_execution_cap'',
      ''scheduled_routines'', ''mcp_builder_runtime'', ''mcp_connector_runtime'',
      ''hosted_model_runtime'', ''private_network_model_runtime'', ''advisor_model_runtime'',
      ''connector_github_runtime'', ''connector_gmail_runtime'', ''connector_gcal_runtime'',
      ''connector_slack_runtime'', ''plugin_install'', ''plugin_execution_cap'',
      ''plugin_revocation_cap'', ''plugin_runtime_cap'', ''reminder_runtime'',
      ''calendar_runtime'', ''email_runtime'']"

definition ALL_CAPABILITIES :: "string list" where
  "ALL_CAPABILITIES = PHASE_3_CAPABILITIES @ PHASE_4_DISABLED_CAPABILITIES @ RUNTIME_DOMAIN_CAPABILITIES"

subsection \<open>Gates\<close>

datatype CapabilityState =
    DISABLED | PLANNED | POLICY_READY | CONTRACT_READY | STORAGE_READY | EVENT_READY | TEST_READY
  | ENABLED_READ_ONLY | ENABLED_POLICY_GATED | ENABLED_RUNTIME

fun state_value :: "CapabilityState \<Rightarrow> string" where
  "state_value DISABLED = ''disabled''"
| "state_value PLANNED = ''planned''"
| "state_value POLICY_READY = ''policy_ready''"
| "state_value CONTRACT_READY = ''contract_ready''"
| "state_value STORAGE_READY = ''storage_ready''"
| "state_value EVENT_READY = ''event_ready''"
| "state_value TEST_READY = ''test_ready''"
| "state_value ENABLED_READ_ONLY = ''enabled_read_only''"
| "state_value ENABLED_POLICY_GATED = ''enabled_policy_gated''"
| "state_value ENABLED_RUNTIME = ''enabled_runtime''"

definition CAPABILITY_STATES :: "string list" where
  "CAPABILITY_STATES = map state_value
     [DISABLED, PLANNED, POLICY_READY, CONTRACT_READY, STORAGE_READY, EVENT_READY, TEST_READY,
      ENABLED_READ_ONLY, ENABLED_POLICY_GATED, ENABLED_RUNTIME]"

record CapabilityGate =
  cg_capability :: string
  cg_phase :: nat
  cg_state :: CapabilityState
  cg_routed :: bool
  cg_policy_ready :: bool
  cg_contract_ready :: bool
  cg_storage_ready :: bool
  cg_event_ready :: bool
  cg_test_ready :: bool

definition bare_gate :: "nat \<Rightarrow> string \<Rightarrow> CapabilityGate" where
  "bare_gate phase n =
     \<lparr>cg_capability = n, cg_phase = phase, cg_state = DISABLED, cg_routed = False,
      cg_policy_ready = False, cg_contract_ready = False, cg_storage_ready = False,
      cg_event_ready = False, cg_test_ready = False\<rparr>"

definition ready_gate :: "nat \<Rightarrow> string \<Rightarrow> CapabilityGate" where
  "ready_gate phase n =
     (bare_gate phase n)\<lparr>cg_policy_ready := True, cg_contract_ready := True,
        cg_storage_ready := True, cg_event_ready := True, cg_test_ready := True\<rparr>"

definition contract_gate :: "string \<Rightarrow> CapabilityGate" where
  "contract_gate n =
     (bare_gate 3 n)\<lparr>cg_state := CONTRACT_READY, cg_routed := True, cg_contract_ready := True\<rparr>"

definition policy_gate :: "string \<Rightarrow> CapabilityGate" where
  "policy_gate n =
     (bare_gate 3 n)\<lparr>cg_state := POLICY_READY, cg_policy_ready := True, cg_contract_ready := True,
        cg_event_ready := True, cg_test_ready := True\<rparr>"

definition phase_4_gate :: "string \<Rightarrow> CapabilityGate" where
  "phase_4_gate n = (if n \<in> set [''subagents'', ''multi_agent_teams''] then ready_gate 4 n else bare_gate 4 n)"

type_synonym gate_table = "string \<rightharpoonup> CapabilityGate"

definition put_gates :: "(string \<Rightarrow> CapabilityGate) \<Rightarrow> string list \<Rightarrow> gate_table \<Rightarrow> gate_table" where
  "put_gates mk names m = fold (\<lambda>n m. m(n \<mapsto> mk n)) names m"

definition EXECUTED_CAPS_ALL :: "string list" where
  "EXECUTED_CAPS_ALL = TIER1_EXECUTED_CAPS @ TIER2_EXECUTED_CAPS @ TIER3_EXECUTED_CAPS
     @ TIER4_EXECUTED_CAPS @ TIER5_EXECUTED_CAPS @ TIER6_EXECUTED_CAPS"

text \<open>The table before the capabilities with a real executor are switched on.\<close>

definition declared_capability_gates :: gate_table where
  "declared_capability_gates =
     (put_gates (bare_gate 5) (filter (\<lambda>n. n \<notin> set EXECUTED_CAPS_ALL) RUNTIME_DOMAIN_CAPABILITIES)
      \<circ> put_gates (ready_gate 6) TIER6_EXECUTED_CAPS
      \<circ> put_gates (ready_gate 5) TIER5_EXECUTED_CAPS
      \<circ> put_gates (ready_gate 4) TIER4_EXECUTED_CAPS
      \<circ> put_gates (ready_gate 3) TIER3_EXECUTED_CAPS
      \<circ> put_gates (ready_gate 2) TIER2_EXECUTED_CAPS
      \<circ> put_gates (ready_gate 1) TIER1_EXECUTED_CAPS
      \<circ> put_gates phase_4_gate PHASE_4_DISABLED_CAPABILITIES
      \<circ> put_gates policy_gate PHASE_3_POLICY_READY_CAPABILITIES
      \<circ> put_gates contract_gate READ_ONLY_CONTRACT_CAPABILITIES
      \<circ> put_gates (bare_gate 3) PHASE_3_DISABLED_CAPABILITIES) Map.empty"

definition default_capability_gates :: gate_table where
  "default_capability_gates n =
     (case declared_capability_gates n of
        None \<Rightarrow> None
      | Some g \<Rightarrow> Some (if n \<in> set REAL_EXECUTOR_CAPABILITIES then g\<lparr>cg_state := ENABLED_RUNTIME\<rparr> else g))"

definition transition_capability :: "CapabilityGate \<Rightarrow> CapabilityState \<Rightarrow> string + CapabilityGate" where
  "transition_capability g target =
     (if cg_capability g \<notin> set ALL_CAPABILITIES then Inl (''unknown_capability:'' @ cg_capability g)
      else if target = ENABLED_READ_ONLY then
        (if cg_capability g \<notin> set READ_ONLY_CONTRACT_CAPABILITIES \<or> \<not> cg_routed g
         then Inl (''read_only_requires_shared_contract:'' @ cg_capability g)
         else Inr (g\<lparr>cg_state := target\<rparr>))
      else if target = ENABLED_POLICY_GATED then
        (if \<not> (cg_policy_ready g \<and> cg_contract_ready g \<and> cg_event_ready g \<and> cg_test_ready g)
         then Inl (''policy_gated_requires_readiness:'' @ cg_capability g)
         else Inr (g\<lparr>cg_state := target\<rparr>))
      else if target = ENABLED_RUNTIME then
        (if \<not> (cg_policy_ready g \<and> cg_contract_ready g \<and> cg_storage_ready g \<and> cg_event_ready g
                 \<and> cg_test_ready g \<and> cg_state g = ENABLED_POLICY_GATED)
         then Inl (''runtime_requires_all_readiness_gates:'' @ cg_capability g)
         else Inr (g\<lparr>cg_state := target\<rparr>))
      else Inr (g\<lparr>cg_state := target\<rparr>))"

subsection \<open>Activation requirements\<close>

record ActivationRequirement =
  ar_capability :: string
  ar_risk_tier :: string
  ar_requires_executor :: bool
  ar_requires_threat_model_ack :: bool
  ar_requires_human_confirmation :: bool

definition activation_req :: "string \<Rightarrow> string \<Rightarrow> bool \<Rightarrow> bool \<Rightarrow> bool \<Rightarrow> ActivationRequirement" where
  "activation_req cap tier executor threat_ack human_confirm =
     \<lparr>ar_capability = cap, ar_risk_tier = tier, ar_requires_executor = executor,
      ar_requires_threat_model_ack = threat_ack, ar_requires_human_confirmation = human_confirm\<rparr>"

text \<open>The assignments of \<^verbatim>\<open>_build_registry\<close> in order; a later one for the same name overwrites.\<close>

definition activation_entries_1 :: "ActivationRequirement list" where
  "activation_entries_1 =
     [activation_req ''desktop_ui'' ''ui'' False False False,
      activation_req ''web_ui'' ''ui'' False False False,
      activation_req ''dashboard'' ''ui'' False False False,
      activation_req ''plugin_execution'' ''4'' True True True,
      activation_req ''graph_codemap_indexing'' ''3'' True False False,
      activation_req ''graph_codemap_planning'' ''3'' True False False,
      activation_req ''semantic_memory_writes'' ''3'' True False False,
      activation_req ''semantic_memory_review_queue'' ''3'' True False False,
      activation_req ''external_channels'' ''5'' True True True,
      activation_req ''subagents'' ''5'' True True True,
      activation_req ''multi_agent_teams'' ''5'' True True True,
      activation_req ''remote_execution'' ''5'' True True True,
      activation_req ''code_map_indexing'' ''1'' True False False,
      activation_req ''language_intelligence'' ''1'' True False False,
      activation_req ''approval_execution_relay'' ''1'' True False False,
      activation_req ''file_write_execution'' ''1'' True False False,
      activation_req ''patch_apply_execution'' ''1'' True False False,
      activation_req ''memory_write_execution'' ''1'' True False False,
      activation_req ''memory_forget_execution'' ''1'' True False False,
      activation_req ''checkpoint_restore_execution'' ''1'' True False False,
      activation_req ''task_management_runtime'' ''1'' True False False,
      activation_req ''project_assignment_runtime'' ''1'' True False False,
      activation_req ''audit_export'' ''1'' True False False,
      activation_req ''git_write_execution'' ''1'' True False False,
      activation_req ''shell_execution'' ''2'' True True True,
      activation_req ''process_execution'' ''2'' True True True,
      activation_req ''web_fetch'' ''2'' True True True,
      activation_req ''host_network_code_execution'' ''2'' True True True,
      activation_req ''git_push_execution'' ''2'' True True True,
      activation_req ''git_fetch_execution'' ''2'' True True True,
      activation_req ''telemetry_export'' ''2'' True True True]"

definition activation_entries_2 :: "ActivationRequirement list" where
  "activation_entries_2 =
     [activation_req ''image_generation'' ''2'' True True True,
      activation_req ''graph_indexing_runtime'' ''3'' True False False,
      activation_req ''semantic_memory_runtime'' ''3'' True False False,
      activation_req ''vector_embedding_runtime'' ''3'' True False False,
      activation_req ''model_provider_runtime'' ''3'' True True True,
      activation_req ''plugin_execution_cap'' ''4'' True True True,
      activation_req ''plugin_install'' ''4'' True True True,
      activation_req ''plugin_revocation_cap'' ''4'' True True True,
      activation_req ''plugin_runtime_cap'' ''4'' True True True,
      activation_req ''external_channel_runtime'' ''5'' True True True,
      activation_req ''channel_approval_relay'' ''5'' True True True,
      activation_req ''remote_execution_cap'' ''5'' True True True,
      activation_req ''cloud_execution_cap'' ''5'' True True True,
      activation_req ''hosted_model_runtime'' ''5'' True True True,
      activation_req ''private_network_model_runtime'' ''5'' True True True,
      activation_req ''advisor_model_runtime'' ''5'' True True True,
      activation_req ''connector_github_runtime'' ''5'' True True True,
      activation_req ''connector_gmail_runtime'' ''5'' True True True,
      activation_req ''connector_gcal_runtime'' ''5'' True True True,
      activation_req ''connector_slack_runtime'' ''5'' True True True,
      activation_req ''scheduled_routines'' ''5'' True True True,
      activation_req ''mcp_builder_runtime'' ''5'' True True True,
      activation_req ''mcp_connector_runtime'' ''5'' True True True,
      activation_req ''email_runtime'' ''6'' True True True,
      activation_req ''calendar_runtime'' ''6'' True True True,
      activation_req ''reminder_runtime'' ''6'' True True True,
      activation_req ''finance_runtime'' ''6'' True True True,
      activation_req ''investment_runtime'' ''6'' True True True,
      activation_req ''medical_runtime'' ''6'' True True True,
      activation_req ''pregnancy_baby_runtime'' ''6'' True True True,
      activation_req ''cctv_runtime'' ''6'' True True True,
      activation_req ''home_security_runtime'' ''6'' True True True,
      activation_req ''hardware_operator_runtime'' ''6'' True True True,
      activation_req ''admin_mutation'' ''gov'' False True False,
      activation_req ''role_mutation'' ''gov'' False True False,
      activation_req ''audit_export'' ''gov'' False False False]"

definition get_activation_requirement :: "string \<Rightarrow> ActivationRequirement option" where
  "get_activation_requirement cap =
     List.find (\<lambda>r. ar_capability r = cap) (rev (activation_entries_1 @ activation_entries_2))"

subsection \<open>Which capability an action answers to\<close>

definition capability_aliases :: "(string \<times> string) list" where
  "capability_aliases =
     [(''admin_mutation'', ''admin_mutation''), (''role_mutation'', ''role_mutation''),
      (''user_create'', ''admin_mutation''), (''user_deactivate'', ''admin_mutation''),
      (''role_create'', ''role_mutation''), (''role_grant'', ''role_mutation''),
      (''role_revoke'', ''role_mutation''),
      (''approval_execution_relay'', ''approval_execution_relay''),
      (''write_file'', ''file_write_execution''), (''create_document'', ''file_write_execution''),
      (''edit_file'', ''file_write_execution''),
      (''file_write_execution'', ''file_write_execution''),
      (''apply_patch'', ''patch_apply_execution''),
      (''patch_apply_execution'', ''patch_apply_execution''),
      (''memory_write'', ''memory_write_execution''),
      (''memory_forget'', ''memory_forget_execution''), (''audit_export'', ''audit_export''),
      (''telemetry_export'', ''telemetry_export''),
      (''checkpoint_restore'', ''checkpoint_restore_execution''),
      (''checkpoint_restore_execution'', ''checkpoint_restore_execution''),
      (''create_task'', ''task_management_runtime''),
      (''task_management_runtime'', ''task_management_runtime''),
      (''assign_session_project'', ''project_assignment_runtime''),
      (''project_assignment_runtime'', ''project_assignment_runtime''),
      (''git_branch'', ''git_write_execution''), (''git_commit'', ''git_write_execution''),
      (''git_write_execution'', ''git_write_execution''), (''git_push'', ''git_push_execution''),
      (''git_push_execution'', ''git_push_execution''), (''git_fetch'', ''git_fetch_execution''),
      (''git_clone'', ''git_fetch_execution''),
      (''git_fetch_execution'', ''git_fetch_execution''),
      (''github_write'', ''connector_github_runtime''), (''shell'', ''shell_execution''),
      (''host_network_code_execution'', ''host_network_code_execution''),
      (''remote_execute'', ''remote_execution_cap''),
      (''cloud_execute'', ''cloud_execution_cap''), (''process'', ''process_execution''),
      (''web_fetch'', ''web_fetch''), (''web_search'', ''web_fetch''),
      (''web_extract'', ''web_fetch''), (''weather_lookup'', ''web_fetch''),
      (''graph_indexing'', ''graph_indexing_runtime''),
      (''code_map_search'', ''code_map_indexing''),
      (''code_map_references'', ''code_map_indexing''),
      (''code_map_indexing'', ''code_map_indexing''),
      (''document_symbols'', ''language_intelligence''),
      (''find_definition'', ''language_intelligence''),
      (''diagnostics'', ''language_intelligence''),
      (''semantic_memory'', ''semantic_memory_runtime''),
      (''vector_embedding'', ''vector_embedding_runtime''),
      (''model_provider'', ''model_provider_runtime''),
      (''image_generation'', ''image_generation''), (''plugin_install'', ''plugin_install''),
      (''plugin_execution_cap'', ''plugin_execution_cap''),
      (''plugin_revocation_cap'', ''plugin_revocation_cap''),
      (''plugin_runtime_cap'', ''plugin_runtime_cap''),
      (''external_channel_runtime'', ''external_channel_runtime''),
      (''channel_approval_relay'', ''channel_approval_relay''),
      (''remote_execution_cap'', ''remote_execution_cap''),
      (''cloud_execution_cap'', ''cloud_execution_cap''),
      (''hosted_model_runtime'', ''hosted_model_runtime''),
      (''private_network_model_runtime'', ''private_network_model_runtime''),
      (''advisor_model_runtime'', ''advisor_model_runtime''),
      (''connector_github_runtime'', ''connector_github_runtime''),
      (''connector_gmail_runtime'', ''connector_gmail_runtime''),
      (''connector_gcal_runtime'', ''connector_gcal_runtime''),
      (''connector_slack_runtime'', ''connector_slack_runtime''),
      (''scheduled_routines'', ''scheduled_routines''),
      (''mcp_server_create'', ''mcp_builder_runtime''),
      (''mcp_builder_runtime'', ''mcp_builder_runtime''),
      (''mcp_connect'', ''mcp_connector_runtime''),
      (''mcp_list_tools'', ''mcp_connector_runtime''),
      (''mcp_call_tool'', ''mcp_connector_runtime''),
      (''mcp_connector_runtime'', ''mcp_connector_runtime''), (''subagents'', ''subagents''),
      (''spawn_subagent'', ''subagents''), (''multi_agent_teams'', ''multi_agent_teams''),
      (''email_runtime'', ''email_runtime''), (''calendar_runtime'', ''calendar_runtime''),
      (''reminder_runtime'', ''reminder_runtime''), (''finance_runtime'', ''finance_runtime''),
      (''investment_runtime'', ''investment_runtime''),
      (''medical_runtime'', ''medical_runtime''),
      (''pregnancy_baby_runtime'', ''pregnancy_baby_runtime''),
      (''cctv_runtime'', ''cctv_runtime''),
      (''home_security_runtime'', ''home_security_runtime''),
      (''hardware_operator_runtime'', ''hardware_operator_runtime'')]"

definition CAPABILITY_GATE_MAP :: "string \<Rightarrow> string option" where
  "CAPABILITY_GATE_MAP k =
     (case map_of capability_aliases k of
        Some c \<Rightarrow> Some c
      | None \<Rightarrow> map_of TOOL_CAPABILITY_BY_TOOL k)"

subsection \<open>Decision modes\<close>

datatype DecisionMode = ASK | DENY | ALWAYS_ALLOW | AUTO

fun mode_value :: "DecisionMode \<Rightarrow> string" where
  "mode_value ASK = ''ask''"
| "mode_value DENY = ''deny''"
| "mode_value ALWAYS_ALLOW = ''allow''"
| "mode_value AUTO = ''auto''"

definition PERMISSIVE_MODES :: "DecisionMode list" where
  "PERMISSIVE_MODES = [ALWAYS_ALLOW, AUTO]"

definition parse_decision_mode :: "string \<Rightarrow> DecisionMode option" where
  "parse_decision_mode v =
     (if v = ''ask'' then Some ASK
      else if v = ''deny'' then Some DENY
      else if v = ''allow'' \<or> v = ''always_allow'' then Some ALWAYS_ALLOW
      else if v = ''auto'' then Some AUTO
      else None)"

definition auto_requires_approval :: "string \<Rightarrow> bool" where
  "auto_requires_approval risk = (risk \<noteq> ''low'')"

lemma parse_mode_value [simp]: "parse_decision_mode (mode_value m) = Some m"
  by (cases m) (simp_all add: parse_decision_mode_def)

lemma state_value_inject [simp]: "state_value a = state_value b \<longleftrightarrow> a = b"
  by (cases a; cases b) simp_all

lemma state_value_disabled [simp]:
  "state_value a = ''disabled'' \<longleftrightarrow> a = DISABLED" "state_value a = ''planned'' \<longleftrightarrow> a = PLANNED"
  by (cases a; simp)+

subsection \<open>The default table\<close>

lemma put_gates_other: "n \<notin> set names \<Longrightarrow> put_gates mk names m n = m n"
  unfolding put_gates_def by (induction names arbitrary: m) auto

lemma put_gates_cases:
  "put_gates mk names m n = (if n \<in> set names then Some (mk n) else m n)"
proof (induction names arbitrary: m)
  case Nil
  then show ?case by (simp add: put_gates_def)
next
  case (Cons k names)
  have "put_gates mk (k # names) m = put_gates mk names (m(k \<mapsto> mk k))" by (simp add: put_gates_def)
  with Cons show ?case by auto
qed

lemma gate_states [simp]:
  "cg_state (bare_gate p n) = DISABLED" "cg_state (ready_gate p n) = DISABLED"
  "cg_state (contract_gate n) = CONTRACT_READY" "cg_state (policy_gate n) = POLICY_READY"
  "cg_state (phase_4_gate n) = DISABLED"
  by (simp_all add: bare_gate_def ready_gate_def contract_gate_def policy_gate_def phase_4_gate_def)

text \<open>No gate is declared in an enabled state: only the executor set switches one on.\<close>

lemma declared_not_enabled:
  "declared_capability_gates n = Some g \<Longrightarrow> cg_state g \<in> {DISABLED, CONTRACT_READY, POLICY_READY}"
  by (auto simp: declared_capability_gates_def put_gates_cases split: if_splits)

lemma dom_declared:
  "dom declared_capability_gates =
     set RUNTIME_DOMAIN_CAPABILITIES \<union> set EXECUTED_CAPS_ALL \<union> set PHASE_4_DISABLED_CAPABILITIES
     \<union> set PHASE_3_POLICY_READY_CAPABILITIES \<union> set READ_ONLY_CONTRACT_CAPABILITIES
     \<union> set PHASE_3_DISABLED_CAPABILITIES"
  by (auto simp: declared_capability_gates_def put_gates_cases EXECUTED_CAPS_ALL_def dom_def
        split: if_splits)

text \<open>
  The default gate of a capability is enabled exactly when the capability has a real executor;
  every other gate ships in a state that lets nothing run.
\<close>

theorem default_gate_enabled_iff_executor:
  "(\<exists>g. default_capability_gates n = Some g \<and> cg_state g = ENABLED_RUNTIME) \<longleftrightarrow>
     n \<in> set REAL_EXECUTOR_CAPABILITIES"
proof -
  have "list_all (\<lambda>n. n \<in> set (RUNTIME_DOMAIN_CAPABILITIES @ PHASE_4_DISABLED_CAPABILITIES))
          REAL_EXECUTOR_CAPABILITIES"
    by code_simp
  then have "set REAL_EXECUTOR_CAPABILITIES \<subseteq> dom declared_capability_gates"
    by (auto simp: list_all_iff dom_declared)
  then show ?thesis
    using declared_not_enabled [of n] by (auto simp: default_capability_gates_def split: option.splits)
qed

lemmas all_capabilities_list =
  ALL_CAPABILITIES_def PHASE_3_CAPABILITIES_def PHASE_4_DISABLED_CAPABILITIES_def
  RUNTIME_DOMAIN_CAPABILITIES_def append.simps

lemma activation_names:
  "map ar_capability (activation_entries_1 @ activation_entries_2) =
     map ar_capability activation_entries_1 @ map ar_capability activation_entries_2"
  by simp

text \<open>
  The capability tables fit together: every action or tool the router maps leads to a capability
  that has a gate, and every capability with a real executor has an activation requirement, so each
  one can be switched on and off.
\<close>

theorem capability_tables_closed:
  "list_all (\<lambda>(k, c). c \<in> set ALL_CAPABILITIES) (capability_aliases @ TOOL_CAPABILITY_BY_TOOL)
   \<and> list_all (\<lambda>c. get_activation_requirement c \<noteq> None) REAL_EXECUTOR_CAPABILITIES"
proof
  show "list_all (\<lambda>(k, c). c \<in> set ALL_CAPABILITIES) (capability_aliases @ TOOL_CAPABILITY_BY_TOOL)"
    unfolding all_capabilities_list by code_simp
  have "list_all (\<lambda>c. c \<in> set (map ar_capability (activation_entries_1 @ activation_entries_2)))
          REAL_EXECUTOR_CAPABILITIES"
    unfolding activation_names by code_simp
  then show "list_all (\<lambda>c. get_activation_requirement c \<noteq> None) REAL_EXECUTOR_CAPABILITIES"
    by (fastforce simp: list_all_iff get_activation_requirement_def)
qed

end
