(* ===== verification/Capability_Gates.thy ===== *)
theory Capability_Gates
  imports Governance_Store Capability_Registry
begin

text \<open>
  The owner's controls: capability gates, decision modes and the runtime switch, as the runtime
  authority reads and changes them (\<^verbatim>\<open>runtime/authority/router.py\<close>,
  \<^verbatim>\<open>runtime/authority/activation.py\<close> and the control tables of \<^verbatim>\<open>storage/stores/governance.py\<close>).
  A principal with an account has rows of its own; everyone else reads the global rows.

  The rows keep the columns a decision reads: the state, the mode, the status. \<open>registered\<close> is
  \<^verbatim>\<open>ExecutorRegistry.has\<close> of the live registry.
\<close>

subsection \<open>The control tables\<close>

definition get_capability_gate_state :: "store \<Rightarrow> string \<Rightarrow> string option" where
  "get_capability_gate_state s cap = gate_global s cap"

definition get_principal_capability_gate_state :: "store \<Rightarrow> string \<Rightarrow> string \<Rightarrow> string option" where
  "get_principal_capability_gate_state s pid cap = gate_principal s (pid, cap)"

definition upsert_capability_gate_state :: "string \<Rightarrow> string \<Rightarrow> store \<Rightarrow> store" where
  "upsert_capability_gate_state cap st s = s\<lparr>gate_global := (gate_global s)(cap \<mapsto> st)\<rparr>"

definition upsert_principal_capability_gate_state :: "string \<Rightarrow> string \<Rightarrow> string \<Rightarrow> store \<Rightarrow> store" where
  "upsert_principal_capability_gate_state pid cap st s =
     s\<lparr>gate_principal := (gate_principal s)((pid, cap) \<mapsto> st)\<rparr>"

definition upsert_capability_decision_mode :: "string \<Rightarrow> string \<Rightarrow> store \<Rightarrow> store" where
  "upsert_capability_decision_mode cap m s = s\<lparr>mode_global := (mode_global s)(cap \<mapsto> m)\<rparr>"

definition upsert_principal_capability_decision_mode :: "string \<Rightarrow> string \<Rightarrow> string \<Rightarrow> store \<Rightarrow> store" where
  "upsert_principal_capability_decision_mode pid cap m s =
     s\<lparr>mode_principal := (mode_principal s)((pid, cap) \<mapsto> m)\<rparr>"

text \<open>The newest row by \<^verbatim>\<open>created_at\<close>, the last inserted one among equals.\<close>

definition get_latest_runtime_mode :: "store \<Rightarrow> runtime_mode_row option" where
  "get_latest_runtime_mode s =
     (case sort_key rm_created_at (runtime_mode_state s) of [] \<Rightarrow> None | r # rs \<Rightarrow> Some (last (r # rs)))"

definition get_principal_runtime_mode :: "store \<Rightarrow> string \<Rightarrow> runtime_mode_row option" where
  "get_principal_runtime_mode s pid = runtime_mode_principal s pid"

definition upsert_principal_runtime_mode :: "string \<Rightarrow> runtime_mode_row \<Rightarrow> store \<Rightarrow> store" where
  "upsert_principal_runtime_mode pid r s =
     s\<lparr>runtime_mode_principal := (runtime_mode_principal s)(pid \<mapsto> r)\<rparr>"

definition insert_runtime_mode_state :: "runtime_mode_row \<Rightarrow> store \<Rightarrow> store" where
  "insert_runtime_mode_state r s = s\<lparr>runtime_mode_state := runtime_mode_state s @ [r]\<rparr>"

definition disable_all_runtime_modes :: "store \<Rightarrow> store" where
  "disable_all_runtime_modes s =
     s\<lparr>runtime_mode_state :=
        map (\<lambda>r. if rm_status r = ''active'' then r\<lparr>rm_status := ''disabled''\<rparr> else r)
          (runtime_mode_state s)\<rparr>"

subsection \<open>Reads\<close>

definition control_scope :: "store \<Rightarrow> string option \<Rightarrow> string option" where
  "control_scope s pid = account_scope s pid"

definition uses_principal_controls :: "store \<Rightarrow> string option \<Rightarrow> bool" where
  "uses_principal_controls s pid = (account_scope s pid \<noteq> None)"

definition scoped :: "string \<Rightarrow> string \<Rightarrow> string" where
  "scoped reason subject = reason @ '':'' @ subject"

definition is_gate_manager :: "store \<Rightarrow> Principal \<Rightarrow> bool" where
  "is_gate_manager s p = list_ex (\<lambda>rid. get_role_name s rid = Some ''runtime_gate_manager'') (role_ids p)"

definition check_human_runtime_gate_manager :: "store \<Rightarrow> Principal \<Rightarrow> string option" where
  "check_human_runtime_gate_manager s p =
     (if \<not> human p then Some ''ai_cannot_manage_runtime_gates''
      else if \<not> is_gate_manager s p then Some ''only_runtime_gate_manager_can_manage_gates''
      else None)"

definition check_runtime_gate_enable :: "store \<Rightarrow> Principal \<Rightarrow> string \<Rightarrow> string option" where
  "check_runtime_gate_enable s p atype =
     (if atype = ''enable_runtime_gate'' then
        (if \<not> human p then Some ''ai_cannot_enable_runtime_gate''
         else if \<not> is_gate_manager s p then Some ''only_runtime_gate_manager_can_enable_gates''
         else None)
      else None)"

definition get_persisted_capability_state :: "store \<Rightarrow> string \<Rightarrow> string option \<Rightarrow> string option" where
  "get_persisted_capability_state s cap pid =
     (case control_scope s pid of
        Some sc \<Rightarrow> get_principal_capability_gate_state s sc cap
      | None \<Rightarrow> get_capability_gate_state s cap)"

definition capability_of :: "string \<Rightarrow> string \<Rightarrow> string option" where
  "capability_of atype tool =
     (case CAPABILITY_GATE_MAP atype of Some c \<Rightarrow> Some c | None \<Rightarrow> CAPABILITY_GATE_MAP tool)"

definition check_capability_gate :: "store \<Rightarrow> string \<Rightarrow> string \<Rightarrow> string option \<Rightarrow> string option" where
  "check_capability_gate s atype tool pid =
     (case capability_of atype tool of
        None \<Rightarrow> None
      | Some cap \<Rightarrow>
          (case get_persisted_capability_state s cap pid of
             Some st \<Rightarrow>
               if st \<in> {''disabled'', ''planned''} then Some ''disabled_by_capability_gate'' else None
           | None \<Rightarrow>
               if cap \<noteq> ''image_generation'' \<and> uses_principal_controls s pid
               then Some ''disabled_by_capability_gate''
               else (case default_capability_gates cap of
                       None \<Rightarrow> Some ''unknown_capability_gate''
                     | Some g \<Rightarrow>
                         if cg_state g \<in> {DISABLED, PLANNED}
                         then Some ''disabled_by_capability_gate'' else None)))"

record effective_gate =
  eg_state :: string
  eg_source :: string

definition get_effective_capability_gate :: "store \<Rightarrow> string \<Rightarrow> string option \<Rightarrow> effective_gate" where
  "get_effective_capability_gate s cap pid =
     (case get_persisted_capability_state s cap pid of
        Some st \<Rightarrow> \<lparr>eg_state = st, eg_source = ''persisted''\<rparr>
      | None \<Rightarrow>
          if cap \<noteq> ''image_generation'' \<and> uses_principal_controls s pid
          then \<lparr>eg_state = ''disabled'', eg_source = ''principal_fail_closed''\<rparr>
          else (case default_capability_gates cap of
                  None \<Rightarrow> \<lparr>eg_state = ''disabled'', eg_source = ''unknown''\<rparr>
                | Some g \<Rightarrow> \<lparr>eg_state = state_value (cg_state g), eg_source = ''static_default''\<rparr>))"

definition resolve_decision_mode :: "store \<Rightarrow> string \<Rightarrow> string option \<Rightarrow> DecisionMode" where
  "resolve_decision_mode s cap pid =
     (let persisted = (case control_scope s pid of
                         Some sc \<Rightarrow> mode_principal s (sc, cap)
                       | None \<Rightarrow> mode_global s cap)
      in case persisted of
           None \<Rightarrow> ASK
         | Some v \<Rightarrow> (case parse_decision_mode v of None \<Rightarrow> ASK | Some m \<Rightarrow> m))"

definition LEGACY_RUNTIME_MODE_NAMES :: "string list" where
  "LEGACY_RUNTIME_MODE_NAMES =
     [''development_preview'', ''local_single_user_safe'', ''local_single_user_runtime'',
      ''multi_user_local_runtime'', ''hosted_or_networked_runtime'']"

definition normalize_runtime_mode :: "string \<Rightarrow> string option" where
  "normalize_runtime_mode name =
     (let c = str_strip name
      in if c = ''raiker_runtime'' \<or> c \<in> set LEGACY_RUNTIME_MODE_NAMES
         then Some ''raiker_runtime'' else None)"

definition get_runtime_mode :: "store \<Rightarrow> string option \<Rightarrow> runtime_mode_row" where
  "get_runtime_mode s pid =
     (case (case control_scope s pid of
              Some sc \<Rightarrow> get_principal_runtime_mode s sc
            | None \<Rightarrow> get_latest_runtime_mode s) of
        Some r \<Rightarrow> r\<lparr>rm_mode_name := (case normalize_runtime_mode (rm_mode_name r) of
                                       None \<Rightarrow> ''raiker_runtime'' | Some m \<Rightarrow> m)\<rparr>
      | None \<Rightarrow> \<lparr>rm_mode_name = ''raiker_runtime'', rm_status = ''active'', rm_created_at = clock s\<rparr>)"

subsection \<open>Activation\<close>

definition ENABLED_STATES :: "string list" where
  "ENABLED_STATES = [''enabled_read_only'', ''enabled_policy_gated'', ''enabled_runtime'']"

definition evaluate_activation_requirement ::
  "(string \<Rightarrow> bool) \<Rightarrow> store \<Rightarrow> string \<Rightarrow> string \<Rightarrow> Principal \<Rightarrow> string option \<Rightarrow> string option" where
  "evaluate_activation_requirement registered s cap target p token =
     (if target \<notin> set ENABLED_STATES then None
      else case get_activation_requirement cap of
        None \<Rightarrow> Some (''activation_blocked:no_requirement_entry:'' @ cap)
      | Some req \<Rightarrow>
          if \<not> human p then Some (''activation_blocked:needs_human_confirmation:'' @ cap)
          else if target = ''enabled_runtime'' \<and>
                  (case (if get_account s (principal_id p) \<noteq> None
                         then get_principal_runtime_mode s (principal_id p)
                         else get_latest_runtime_mode s) of
                     None \<Rightarrow> False | Some r \<Rightarrow> rm_status r \<noteq> ''active'')
          then Some (''activation_blocked:runtime_mode_not_active:'' @ cap
                     @ '' (the agent runtime is disabled)'')
          else if ar_requires_executor req \<and> \<not> registered cap
          then Some (''activation_blocked:no_executor:'' @ cap)
          else if ar_requires_threat_model_ack req \<and> cap \<notin> set (threat_model_acks s)
          then Some (''activation_blocked:no_threat_model_ack:'' @ cap)
          else if ar_requires_human_confirmation req \<and> (token = None \<or> token = Some [])
          then Some (''activation_blocked:needs_human_confirmation:'' @ cap
                     @ '' (confirmation_token required)'')
          else None)"

subsection \<open>Changes\<close>

definition set_capability_decision_mode ::
  "string \<Rightarrow> string \<Rightarrow> string \<Rightarrow> Principal \<Rightarrow> store \<Rightarrow> string option \<times> store" where
  "set_capability_decision_mode cap mode reason p s =
     (case check_human_runtime_gate_manager s p of
        Some r \<Rightarrow>
          (Some r, authority_event ''capability_decision_mode_set'' (principal_id p)
             [(''capability'', PStr cap), (''requested_mode'', PStr mode), (''status'', PStr ''denied''),
              (''reason'', PStr r)] [] None s)
      | None \<Rightarrow>
          if cap \<notin> set ALL_CAPABILITIES then (Some (scoped ''unknown_capability'' cap), s)
          else (case parse_decision_mode mode of
            None \<Rightarrow> (Some (scoped ''invalid_decision_mode'' mode), s)
          | Some m \<Rightarrow>
              if m \<in> set PERMISSIVE_MODES \<and> cap \<notin> set REAL_EXECUTOR_CAPABILITIES
              then (Some (scoped ''decision_mode_requires_executor'' cap),
                    authority_event ''capability_decision_mode_set'' (principal_id p)
                      [(''capability'', PStr cap), (''requested_mode'', PStr (mode_value m)),
                       (''status'', PStr ''denied''),
                       (''reason'', PStr ''decision_mode_requires_executor'')] [] None s)
              else (let s1 = (if uses_principal_controls s (Some (principal_id p))
                              then upsert_principal_capability_decision_mode (principal_id p) cap (mode_value m) s
                              else upsert_capability_decision_mode cap (mode_value m) s)
                    in (None, authority_event ''capability_decision_mode_set'' (principal_id p)
                                [(''capability'', PStr cap), (''decision_mode'', PStr (mode_value m)),
                                 (''reason'', PStr reason)] [] None s1))))"

definition record_runtime_mode :: "Principal \<Rightarrow> runtime_mode_row \<Rightarrow> store \<Rightarrow> store" where
  "record_runtime_mode p r s =
     (if uses_principal_controls s (Some (principal_id p))
      then upsert_principal_runtime_mode (principal_id p) r s
      else insert_runtime_mode_state r (disable_all_runtime_modes s))"

definition activate_runtime_mode ::
  "(nat \<Rightarrow> string) \<Rightarrow> string \<Rightarrow> string \<Rightarrow> Principal \<Rightarrow> store \<Rightarrow> string option \<times> store" where
  "activate_runtime_mode uuid mode_name reason p s =
     (case check_human_runtime_gate_manager s p of
        Some r \<Rightarrow>
          (Some r, authority_event ''runtime_mode_activation_requested'' (principal_id p)
             [(''mode_name'', PStr mode_name), (''status'', PStr ''denied''), (''reason'', PStr r)] [] None s)
      | None \<Rightarrow>
          (case normalize_runtime_mode mode_name of
             None \<Rightarrow> (Some (scoped ''unknown_runtime_mode'' mode_name), s)
           | Some m \<Rightarrow>
               (case new_id uuid ''rm_'' s of (rid, s1) \<Rightarrow>
                  (None, authority_event ''runtime_mode_activated'' (principal_id p)
                     [(''mode_name'', PStr m), (''runtime_mode_id'', PStr rid), (''reason'', PStr reason)]
                     [] None
                     (record_runtime_mode p
                        \<lparr>rm_mode_name = m, rm_status = ''active'', rm_created_at = clock s\<rparr> s1)))))"

definition disable_runtime_mode ::
  "(nat \<Rightarrow> string) \<Rightarrow> string \<Rightarrow> Principal \<Rightarrow> store \<Rightarrow> string option \<times> store" where
  "disable_runtime_mode uuid reason p s =
     (case check_human_runtime_gate_manager s p of
        Some r \<Rightarrow>
          (Some r, authority_event ''runtime_mode_disabled'' (principal_id p)
             [(''status'', PStr ''denied''), (''reason'', PStr r)] [] None s)
      | None \<Rightarrow>
          (case new_id uuid ''rm_'' s of (rid, s1) \<Rightarrow>
             (None, authority_event ''runtime_mode_disabled'' (principal_id p)
                [(''mode_name'', PStr ''raiker_runtime''), (''status'', PStr ''disabled''),
                 (''reason'', PStr reason)] [] None
                (record_runtime_mode p
                   \<lparr>rm_mode_name = ''raiker_runtime'', rm_status = ''disabled'', rm_created_at = clock s\<rparr> s1))))"

definition HOST_NETWORK_CODE_CAPABILITY :: string where
  "HOST_NETWORK_CODE_CAPABILITY = ''host_network_code_execution''"

definition COMMAND_CAPABILITIES :: "string list" where
  "COMMAND_CAPABILITIES = [''shell_execution'', ''process_execution'']"

definition put_gate_state :: "Principal \<Rightarrow> string \<Rightarrow> string \<Rightarrow> store \<Rightarrow> store" where
  "put_gate_state p cap st s =
     (if uses_principal_controls s (Some (principal_id p))
      then upsert_principal_capability_gate_state (principal_id p) cap st s
      else upsert_capability_gate_state cap st s)"

definition carry_command_enable_to_host_network_code :: "string \<Rightarrow> string \<Rightarrow> Principal \<Rightarrow> store \<Rightarrow> store" where
  "carry_command_enable_to_host_network_code cap target p s =
     (if cap \<notin> set COMMAND_CAPABILITIES \<or> target \<in> {''disabled'', ''planned''} then s
      else let existing = (if uses_principal_controls s (Some (principal_id p))
                           then get_principal_capability_gate_state s (principal_id p) HOST_NETWORK_CODE_CAPABILITY
                           else get_capability_gate_state s HOST_NETWORK_CODE_CAPABILITY)
           in if existing \<noteq> None then s
              else authority_event ''capability_enabled'' (principal_id p)
                     [(''capability'', PStr HOST_NETWORK_CODE_CAPABILITY), (''new_state'', PStr target),
                      (''reason'', PStr (''Turned on with '' @ cap @ '', so a script that ran before still ''
                                        @ ''runs - now under its own switch (BUG-308).''))]
                     [] None (put_gate_state p HOST_NETWORK_CODE_CAPABILITY target s))"

definition gate_event_type :: "string \<Rightarrow> string" where
  "gate_event_type target =
     (if target \<notin> {''disabled'', ''planned''} then ''capability_enabled'' else ''capability_disabled'')"

definition request_capability_transition ::
  "(string \<Rightarrow> bool) \<Rightarrow> string \<Rightarrow> string \<Rightarrow> string \<Rightarrow> string option \<Rightarrow> Principal \<Rightarrow> store \<Rightarrow> string option \<times> store" where
  "request_capability_transition registered cap target reason token p s =
     (case check_human_runtime_gate_manager s p of
        Some r \<Rightarrow>
          (Some r, authority_event ''capability_transition_requested'' (principal_id p)
             [(''capability'', PStr cap), (''target_state'', PStr target), (''status'', PStr ''denied''),
              (''reason'', PStr r)] [] None s)
      | None \<Rightarrow>
          if cap \<notin> set ALL_CAPABILITIES then (Some (scoped ''unknown_capability'' cap), s)
          else if target \<notin> set CAPABILITY_STATES then (Some (scoped ''invalid_target_state'' target), s)
          else (case evaluate_activation_requirement registered s cap target p token of
            Some r \<Rightarrow> (Some r, s)
          | None \<Rightarrow>
              (let s1 = authority_event ''capability_transition_requested'' (principal_id p)
                          [(''capability'', PStr cap), (''target_state'', PStr target),
                           (''reason'', PStr reason)] [] None s;
                   s2 = put_gate_state p cap target s1;
                   s3 = authority_event (gate_event_type target) (principal_id p)
                          [(''capability'', PStr cap), (''new_state'', PStr target),
                           (''reason'', PStr reason)] [] None s2
               in (None, carry_command_enable_to_host_network_code cap target p s3))))"

subsection \<open>The contract of a control operation\<close>

text \<open>Everything a control decision reads besides the account tables.\<close>

definition controls where
  "controls s = (gate_global s, gate_principal s, mode_global s, mode_principal s,
                 runtime_mode_state s, runtime_mode_principal s)"

text \<open>The rows one account reads.\<close>

definition own_controls where
  "own_controls s q = ((\<lambda>cap. gate_principal s (q, cap)), (\<lambda>cap. mode_principal s (q, cap)),
                       runtime_mode_principal s q)"

definition account_tables where
  "account_tables s = (principals s, accounts s, roles s, clock s)"

text \<open>
  What every operation of the control plane promises: it is refused to everyone but a human runtime
  gate manager, a refusal changes no control, and a change never touches the rows of another account.
\<close>

locale control_operation =
  fixes op :: "Principal \<Rightarrow> store \<Rightarrow> string option \<times> store"
  assumes guarded: "check_human_runtime_gate_manager s p = Some r \<Longrightarrow> fst (op p s) = Some r"
    and refusal_keeps: "fst (op p s) = Some r \<Longrightarrow> controls (snd (op p s)) = controls s"
    and other_rows: "q \<noteq> principal_id p \<Longrightarrow> own_controls (snd (op p s)) q = own_controls s q"
    and accounts_kept: "account_tables (snd (op p s)) = account_tables s"
begin

lemma change_needs_manager:
  assumes "controls (snd (op p s)) \<noteq> controls s"
  shows "human p \<and> is_gate_manager s p"
proof (rule ccontr)
  assume "\<not> (human p \<and> is_gate_manager s p)"
  then obtain r where "check_human_runtime_gate_manager s p = Some r"
    by (fastforce simp: check_human_runtime_gate_manager_def split: if_splits)
  with guarded refusal_keeps assms show False by blast
qed

end

lemma account_scope_tables:
  "account_tables t = account_tables s \<Longrightarrow> account_scope t pid = account_scope s pid"
  by (rule account_scope_cong) (simp_all add: account_tables_def)

lemmas control_tables =
  controls_def own_controls_def account_tables_def frame_simps
  upsert_capability_gate_state_def upsert_principal_capability_gate_state_def
  upsert_capability_decision_mode_def upsert_principal_capability_decision_mode_def
  upsert_principal_runtime_mode_def insert_runtime_mode_state_def disable_all_runtime_modes_def
  record_runtime_mode_def put_gate_state_def carry_command_enable_to_host_network_code_def
  new_id_def Let_def

interpretation set_mode: control_operation "set_capability_decision_mode cap mode reason"
  for cap mode reason
  by unfold_locales
    (auto simp: set_capability_decision_mode_def control_tables split: option.splits if_splits)

interpretation activate: control_operation "activate_runtime_mode uuid mode_name reason"
  for uuid mode_name reason
  by unfold_locales (auto simp: activate_runtime_mode_def control_tables split: option.splits)

interpretation disable: control_operation "disable_runtime_mode uuid reason"
  for uuid reason
  by unfold_locales (auto simp: disable_runtime_mode_def control_tables split: option.splits)

lemma event_keeps_controls [simp]:
  "controls (authority_event t a py se tu s) = controls s"
  "own_controls (authority_event t a py se tu s) = own_controls s"
  "account_tables (authority_event t a py se tu s) = account_tables s"
  by (simp_all add: controls_def own_controls_def account_tables_def frame_simps fun_eq_iff)

lemma put_gate_state_rows [simp]:
  "q \<noteq> principal_id p \<Longrightarrow> own_controls (put_gate_state p cap st s) q = own_controls s q"
  "account_tables (put_gate_state p cap st s) = account_tables s"
  by (simp_all add: put_gate_state_def own_controls_def account_tables_def
        upsert_capability_gate_state_def upsert_principal_capability_gate_state_def)

lemma carry_rows [simp]:
  "q \<noteq> principal_id p \<Longrightarrow>
     own_controls (carry_command_enable_to_host_network_code cap st p s) q = own_controls s q"
  "account_tables (carry_command_enable_to_host_network_code cap st p s) = account_tables s"
  by (simp_all add: carry_command_enable_to_host_network_code_def Let_def)

interpretation transit: control_operation "request_capability_transition registered cap target reason token"
  for registered cap target reason token
  by unfold_locales
    (auto simp: request_capability_transition_def Let_def split: option.splits if_splits)

subsection \<open>The control plane as a step system\<close>

inductive control_step :: "(string \<Rightarrow> bool) \<Rightarrow> (nat \<Rightarrow> string) \<Rightarrow> Principal \<Rightarrow> store \<Rightarrow> store \<Rightarrow> bool"
  for registered :: "string \<Rightarrow> bool" and uuid :: "nat \<Rightarrow> string" where
  set_mode: "control_step registered uuid p s (snd (set_capability_decision_mode cap mode reason p s))"
| activate: "control_step registered uuid p s (snd (activate_runtime_mode uuid mode_name reason p s))"
| disable: "control_step registered uuid p s (snd (disable_runtime_mode uuid reason p s))"
| transit: "control_step registered uuid p s
     (snd (request_capability_transition registered cap target reason token p s))"

lemma control_step_other_rows:
  "control_step registered uuid p s t \<Longrightarrow> q \<noteq> principal_id p \<Longrightarrow> own_controls t q = own_controls s q"
  by (auto elim!: control_step.cases
        simp: set_mode.other_rows activate.other_rows disable.other_rows transit.other_rows)

lemma control_step_accounts: "control_step registered uuid p s t \<Longrightarrow> account_tables t = account_tables s"
  by (auto elim!: control_step.cases
        simp: set_mode.accounts_kept activate.accounts_kept disable.accounts_kept transit.accounts_kept)

text \<open>A store in which the owner manages the gates.\<close>

lemma owner_manages: "check_human_runtime_gate_manager owned_store owner_principal = None"
  by (simp add: check_human_runtime_gate_manager_def is_gate_manager_def get_role_name_def
        owned_store_unfold)

text \<open>
  C39: The authority's control operations serve only a gate manager. Setting a decision mode, activating and
  disabling the runtime and requesting a capability transition change a gate, a mode or the runtime switch only
  when a human principal that holds the runtime gate manager role asks; by anyone else they leave all controls
  as they were. And they never change the rows of another account. (The seeding of a new account and the owner
  bootstrap of the command line write gates of their own, outside these operations.)
\<close>

theorem controls_change_only_by_gate_manager:
  assumes "control_step registered uuid p s t" and "controls t \<noteq> controls s"
  shows "human p \<and> is_gate_manager s p \<and> (\<forall>q. q \<noteq> principal_id p \<longrightarrow> own_controls t q = own_controls s q)"
proof -
  have "human p \<and> is_gate_manager s p"
    using assms by (cases rule: control_step.cases)
      (auto dest!: set_mode.change_needs_manager activate.change_needs_manager
         disable.change_needs_manager transit.change_needs_manager)
  then show ?thesis using control_step_other_rows [OF assms(1)] by blast
qed

theorem controls_change_only_by_gate_manager_witness:
  "controls (snd (set_capability_decision_mode ''web_fetch'' ''deny'' [] owner_principal owned_store))
     \<noteq> controls owned_store \<and> human owner_principal \<and> is_gate_manager owned_store owner_principal"
proof -
  let ?t = "snd (set_capability_decision_mode ''web_fetch'' ''deny'' [] owner_principal owned_store)"
  have "mode_principal ?t (''own'', ''web_fetch'') = Some ''deny''" by code_simp
  moreover have "mode_principal owned_store (''own'', ''web_fetch'') = None"
    by (simp add: owned_store_unfold)
  ultimately have "controls ?t \<noteq> controls owned_store" by (auto simp: controls_def)
  with controls_change_only_by_gate_manager [OF control_step.set_mode this] show ?thesis by blast
qed

lemma own_controls_eqD:
  "own_controls t q = own_controls s q \<Longrightarrow> gate_principal t (q, cap) = gate_principal s (q, cap)
     \<and> mode_principal t (q, cap) = mode_principal s (q, cap)
     \<and> runtime_mode_principal t q = runtime_mode_principal s q"
  by (auto simp: own_controls_def dest: fun_cong)

text \<open>
  Controls are isolated per account: whatever one principal does on the control plane, the
  effective gate, decision mode and runtime status that hold for a principal under another account
  are the same before and after.
\<close>

theorem controls_isolated_per_account:
  assumes "control_step registered uuid p s t" and "control_scope s (Some q) = Some acct"
    and "acct \<noteq> principal_id p"
  shows "get_effective_capability_gate t cap (Some q) = get_effective_capability_gate s cap (Some q)
    \<and> resolve_decision_mode t cap (Some q) = resolve_decision_mode s cap (Some q)
    \<and> get_runtime_mode t (Some q) = get_runtime_mode s (Some q)
    \<and> check_capability_gate t atype tool (Some q) = check_capability_gate s atype tool (Some q)"
proof -
  note acc = account_scope_tables [OF control_step_accounts [OF assms(1)]]
  note rows = own_controls_eqD [OF control_step_other_rows [OF assms(1,3)]]
  have "clock t = clock s" using control_step_accounts [OF assms(1)] by (simp add: account_tables_def)
  then show ?thesis
    using assms(2) rows unfolding get_effective_capability_gate_def check_capability_gate_def
      resolve_decision_mode_def get_runtime_mode_def get_persisted_capability_state_def
      uses_principal_controls_def control_scope_def acc get_principal_capability_gate_state_def
      get_principal_runtime_mode_def
    by (simp split: option.splits)
qed

theorem controls_isolated_per_account_witness:
  "control_scope (owned_store\<lparr>accounts := [(''own'', False), (''two'', False)]\<rparr>) (Some ''two'') = Some ''two''
   \<and> get_runtime_mode (snd (disable_runtime_mode (\<lambda>n. []) [] owner_principal
          (owned_store\<lparr>accounts := [(''own'', False), (''two'', False)]\<rparr>))) (Some ''two'') =
     get_runtime_mode (owned_store\<lparr>accounts := [(''own'', False), (''two'', False)]\<rparr>) (Some ''two'')"
proof -
  let ?s = "owned_store\<lparr>accounts := [(''own'', False), (''two'', False)]\<rparr>"
  have sc: "control_scope ?s (Some ''two'') = Some ''two''"
    by (simp add: control_scope_def account_scope_def get_account_def)
  moreover have "''two'' \<noteq> principal_id owner_principal" by (simp add: owner_principal_def)
  ultimately show ?thesis
    using controls_isolated_per_account [OF control_step.disable [where uuid = "\<lambda>n. []" and reason = "[]"
        and p = owner_principal and s = ?s] sc] by blast
qed

subsection \<open>Permissive modes need an executor\<close>

definition mode_row_ok :: "string \<Rightarrow> string \<Rightarrow> bool" where
  "mode_row_ok cap v \<longleftrightarrow>
     pred_option (\<lambda>m. m \<in> set PERMISSIVE_MODES \<longrightarrow> cap \<in> set REAL_EXECUTOR_CAPABILITIES)
       (parse_decision_mode v)"

definition modes_inv :: "store \<Rightarrow> bool" where
  "modes_inv s \<longleftrightarrow> (\<forall>cap v. mode_global s cap = Some v \<longrightarrow> mode_row_ok cap v)
     \<and> (\<forall>q cap v. mode_principal s (q, cap) = Some v \<longrightarrow> mode_row_ok cap v)"

lemma record_runtime_mode_modes [simp]:
  "mode_global (record_runtime_mode p r s) = mode_global s"
  "mode_principal (record_runtime_mode p r s) = mode_principal s"
  by (simp_all add: record_runtime_mode_def upsert_principal_runtime_mode_def
        insert_runtime_mode_state_def disable_all_runtime_modes_def)

lemma put_gate_state_modes [simp]:
  "mode_global (put_gate_state p cap st s) = mode_global s"
  "mode_principal (put_gate_state p cap st s) = mode_principal s"
  by (simp_all add: put_gate_state_def upsert_principal_capability_gate_state_def
        upsert_capability_gate_state_def)

lemma carry_modes [simp]:
  "mode_global (carry_command_enable_to_host_network_code cap st p s) = mode_global s"
  "mode_principal (carry_command_enable_to_host_network_code cap st p s) = mode_principal s"
  by (simp_all add: carry_command_enable_to_host_network_code_def Let_def frame_simps)

lemma modes_inv_cong:
  "mode_global t = mode_global s \<Longrightarrow> mode_principal t = mode_principal s \<Longrightarrow> modes_inv s \<Longrightarrow> modes_inv t"
  by (simp add: modes_inv_def)

lemma set_mode_keeps: "modes_inv s \<Longrightarrow> modes_inv (snd (set_capability_decision_mode cap mode reason p s))"
  by (auto simp: set_capability_decision_mode_def modes_inv_def frame_simps Let_def mode_row_ok_def
        upsert_capability_decision_mode_def upsert_principal_capability_decision_mode_def
        split: option.splits if_splits)

lemma activate_keeps: "modes_inv s \<Longrightarrow> modes_inv (snd (activate_runtime_mode uuid m reason p s))"
  by (rule modes_inv_cong [of _ s])
    (auto simp: activate_runtime_mode_def frame_simps new_id_def split: option.splits)

lemma disable_keeps: "modes_inv s \<Longrightarrow> modes_inv (snd (disable_runtime_mode uuid reason p s))"
  by (rule modes_inv_cong [of _ s])
    (auto simp: disable_runtime_mode_def frame_simps new_id_def split: option.splits)

lemma transit_keeps:
  "modes_inv s \<Longrightarrow> modes_inv (snd (request_capability_transition registered cap target reason token p s))"
  by (rule modes_inv_cong [of _ s])
    (auto simp: request_capability_transition_def frame_simps Let_def split: option.splits)

abbreviation any_control_step :: "(string \<Rightarrow> bool) \<Rightarrow> (nat \<Rightarrow> string) \<Rightarrow> store \<Rightarrow> store \<Rightarrow> bool" where
  "any_control_step registered uuid s t \<equiv> \<exists>p. control_step registered uuid p s t"

interpretation modes: step_invariant "any_control_step registered uuid" modes_inv
  for registered uuid
  by unfold_locales
    (auto elim!: control_step.cases intro: set_mode_keeps activate_keeps disable_keeps transit_keeps)

text \<open>
  However the controls are changed, a capability whose decision mode lets actions run unprompted
  (allow or auto) is one with a real executor: no sensitive domain without one can be relaxed into
  acting, for any principal.
\<close>

theorem permissive_mode_has_executor:
  assumes "modes_inv s" and "(any_control_step registered uuid)\<^sup>*\<^sup>* s t"
    and "resolve_decision_mode t cap pid \<in> {ALWAYS_ALLOW, AUTO}"
  shows "cap \<in> set REAL_EXECUTOR_CAPABILITIES"
proof -
  have inv: "modes_inv t" using modes.keep_star assms(1,2) by blast
  obtain v m where v: "(\<exists>sc. mode_principal t (sc, cap) = Some v) \<or> mode_global t cap = Some v"
    and m: "parse_decision_mode v = Some m" "m \<in> {ALWAYS_ALLOW, AUTO}"
    using assms(3) by (auto simp: resolve_decision_mode_def Let_def split: option.splits)
  have "mode_row_ok cap v" using inv v by (auto simp: modes_inv_def)
  with m show ?thesis by (auto simp: mode_row_ok_def PERMISSIVE_MODES_def)
qed

theorem permissive_mode_has_executor_witness:
  "resolve_decision_mode (snd (set_capability_decision_mode ''web_fetch'' ''auto'' [] owner_principal owned_store))
     ''web_fetch'' (Some ''own'') = AUTO \<and> ''web_fetch'' \<in> set REAL_EXECUTOR_CAPABILITIES"
proof -
  let ?t = "snd (set_capability_decision_mode ''web_fetch'' ''auto'' [] owner_principal owned_store)"
  have inv: "modes_inv owned_store" by (simp add: modes_inv_def owned_store_unfold)
  have auto: "resolve_decision_mode ?t ''web_fetch'' (Some ''own'') = AUTO" by code_simp
  have "any_control_step (\<lambda>c. True) (\<lambda>n. []) owned_store ?t" using control_step.set_mode by blast
  then have "(any_control_step (\<lambda>c. True) (\<lambda>n. []))\<^sup>*\<^sup>* owned_store ?t" by (rule r_into_rtranclp)
  from permissive_mode_has_executor [OF inv this, of "''web_fetch''" "Some ''own''"] auto
  show ?thesis by blast
qed

subsection \<open>Reading the gates\<close>

text \<open>
  The gate check that guards every action and the gate shown to the owner are the same decision:
  an action mapped to a capability is refused exactly when the effective gate of that capability is
  disabled or planned, and an unmapped action is never refused by a gate.
\<close>

theorem gate_check_agrees_with_effective_gate:
  "check_capability_gate s atype tool pid = None \<longleftrightarrow>
     (case capability_of atype tool of
        None \<Rightarrow> True
      | Some cap \<Rightarrow> eg_state (get_effective_capability_gate s cap pid) \<notin> {''disabled'', ''planned''})"
proof (cases "capability_of atype tool")
  case (Some cap)
  then show ?thesis
    by (cases "get_persisted_capability_state s cap pid"; cases "default_capability_gates cap")
      (auto simp: check_capability_gate_def get_effective_capability_gate_def)
qed (simp add: check_capability_gate_def)

lemma human_scope:
  "human p \<Longrightarrow> get_principal s (principal_id p) = Some p \<Longrightarrow>
     account_scope s (Some (principal_id p)) \<in> {None, Some (principal_id p)}"
  by (auto simp: account_scope_def split: option.splits)

lemma put_gate_state_persisted:
  assumes "account_scope s (Some (principal_id p)) \<in> {None, Some (principal_id p)}"
  shows "get_persisted_capability_state (put_gate_state p c st s) cap (Some (principal_id p)) =
    (if cap = c then Some st else get_persisted_capability_state s cap (Some (principal_id p)))"
proof -
  have "account_scope (put_gate_state p c st s) (Some (principal_id p)) = account_scope s (Some (principal_id p))"
    by (rule account_scope_tables) simp
  with assms show ?thesis
    by (auto simp: get_persisted_capability_state_def control_scope_def put_gate_state_def
          uses_principal_controls_def upsert_principal_capability_gate_state_def
          upsert_capability_gate_state_def get_capability_gate_state_def
          get_principal_capability_gate_state_def)
qed

lemma event_persisted [simp]:
  "get_persisted_capability_state (authority_event t a py se tu s) cap pid =
   get_persisted_capability_state s cap pid"
  using account_scope_tables [of "authority_event t a py se tu s" s]
  by (simp add: get_persisted_capability_state_def control_scope_def get_capability_gate_state_def
        get_principal_capability_gate_state_def frame_simps split: option.splits)

lemma carry_keeps_gate:
  assumes sc: "account_scope s (Some (principal_id p)) \<in> {None, Some (principal_id p)}"
    and "get_persisted_capability_state s cap (Some (principal_id p)) = Some st"
  shows "get_persisted_capability_state (carry_command_enable_to_host_network_code c st' p s) cap
           (Some (principal_id p)) = Some st"
proof -
  let ?host = "get_persisted_capability_state s HOST_NETWORK_CODE_CAPABILITY (Some (principal_id p))"
  have "carry_command_enable_to_host_network_code c st' p s = s \<or>
     ?host = None \<and> (\<exists>t a py. carry_command_enable_to_host_network_code c st' p s =
        authority_event t a py [] None (put_gate_state p HOST_NETWORK_CODE_CAPABILITY st' s))"
    using sc by (auto simp: carry_command_enable_to_host_network_code_def Let_def
        get_persisted_capability_state_def control_scope_def uses_principal_controls_def)
  then show ?thesis using assms by (auto simp: put_gate_state_persisted [OF sc])
qed

text \<open>
  A capability transition that reports success is the state the owner then reads: the effective
  gate is the requested state, from a stored row, and the enabling of a command capability carried
  over to code with host network does not disturb it.
\<close>

theorem transition_is_read_back:
  assumes "get_principal s (principal_id p) = Some p"
    and "request_capability_transition registered cap target reason token p s = (None, t)"
  shows "get_effective_capability_gate t cap (Some (principal_id p)) =
           \<lparr>eg_state = target, eg_source = ''persisted''\<rparr>"
proof -
  let ?pid = "Some (principal_id p)"
  have h: "human p"
    using assms(2) by (auto simp: request_capability_transition_def check_human_runtime_gate_manager_def
        split: if_splits)
  obtain e1 e2 where t: "t = carry_command_enable_to_host_network_code cap target p
      (authority_event (gate_event_type target) (principal_id p) e2 [] None
        (put_gate_state p cap target
          (authority_event ''capability_transition_requested'' (principal_id p) e1 [] None s)))"
    using assms(2) by (auto simp: request_capability_transition_def Let_def split: option.splits if_splits)
  let ?s1 = "authority_event ''capability_transition_requested'' (principal_id p) e1 [] None s"
  let ?s3 = "authority_event (gate_event_type target) (principal_id p) e2 [] None (put_gate_state p cap target ?s1)"
  have sc: "account_scope ?s3 ?pid = account_scope s ?pid" "account_scope ?s1 ?pid = account_scope s ?pid"
    by (rule account_scope_tables, simp)+
  have "get_persisted_capability_state ?s3 cap ?pid = Some target"
    using human_scope [OF h assms(1)] sc(2) by (simp add: put_gate_state_persisted)
  then have "get_persisted_capability_state t cap ?pid = Some target"
    unfolding t using human_scope [OF h assms(1)] sc(1) by (intro carry_keeps_gate) simp_all
  then show ?thesis by (simp add: get_effective_capability_gate_def)
qed

theorem transition_is_read_back_witness:
  "fst (request_capability_transition (\<lambda>c. False) ''web_fetch'' ''disabled'' [] None owner_principal owned_store) = None
   \<and> get_effective_capability_gate
       (snd (request_capability_transition (\<lambda>c. False) ''web_fetch'' ''disabled'' [] None owner_principal owned_store))
       ''web_fetch'' (Some ''own'') = \<lparr>eg_state = ''disabled'', eg_source = ''persisted''\<rparr>"
proof -
  let ?r = "request_capability_transition (\<lambda>c. False) ''web_fetch'' ''disabled'' [] None owner_principal owned_store"
  have ok: "fst ?r = None" by code_simp
  then have r: "?r = (None, snd ?r)" by (simp add: prod_eq_iff)
  have p: "get_principal owned_store (principal_id owner_principal) = Some owner_principal"
    by (simp add: get_principal_def owned_store_unfold)
  have "principal_id owner_principal = ''own''" by (simp add: owner_principal_def)
  with transition_is_read_back [OF p r] ok show ?thesis by simp
qed

text \<open>
  Activation is fail-closed: a transition into an enabled state succeeds only for a human runtime
  gate manager on a known capability with a requirement entry, whose executor is registered and whose
  threat model is acknowledged wherever the entry asks for them, with a confirmation token wherever
  the entry asks for one.
\<close>

theorem enabling_meets_requirements:
  assumes "fst (request_capability_transition registered cap target reason token p s) = None"
    and "target \<in> set ENABLED_STATES"
  shows "human p \<and> is_gate_manager s p \<and> cap \<in> set ALL_CAPABILITIES \<and>
    (\<exists>req. get_activation_requirement cap = Some req
       \<and> (\<not> ar_requires_executor req \<or> registered cap)
       \<and> (\<not> ar_requires_threat_model_ack req \<or> cap \<in> set (threat_model_acks s))
       \<and> (\<not> ar_requires_human_confirmation req \<or> token \<notin> {None, Some []}))"
proof -
  have ev: "evaluate_activation_requirement registered s cap target p token = None"
    and "human p" "is_gate_manager s p" "cap \<in> set ALL_CAPABILITIES"
    using assms(1)
    by (auto simp: request_capability_transition_def check_human_runtime_gate_manager_def Let_def
          split: option.splits if_splits)
  moreover have "\<exists>req. get_activation_requirement cap = Some req
       \<and> (\<not> ar_requires_executor req \<or> registered cap)
       \<and> (\<not> ar_requires_threat_model_ack req \<or> cap \<in> set (threat_model_acks s))
       \<and> (\<not> ar_requires_human_confirmation req \<or> token \<notin> {None, Some []})"
  proof (cases "get_activation_requirement cap")
    case None
    with ev assms(2) show ?thesis by (simp add: evaluate_activation_requirement_def)
  next
    case (Some req)
    with ev assms(2) show ?thesis
      by (auto simp: evaluate_activation_requirement_def split: if_splits)
  qed
  ultimately show ?thesis by blast
qed

theorem enabling_meets_requirements_witness:
  "is_gate_manager owned_store owner_principal \<and> get_activation_requirement ''audit_export'' \<noteq> None"
proof -
  have "fst (request_capability_transition (\<lambda>c. False) ''audit_export'' ''enabled_runtime'' [] None
      owner_principal owned_store) = None" by code_simp
  moreover have "''enabled_runtime'' \<in> set ENABLED_STATES" by (simp add: ENABLED_STATES_def)
  ultimately have "is_gate_manager owned_store owner_principal \<and>
      (\<exists>req. get_activation_requirement ''audit_export'' = Some req)"
    using enabling_meets_requirements by blast
  then show ?thesis by auto
qed

text \<open>
  The entry that governs the audit export is the last one written for it, which asks for no
  executor: its gate can be switched to runtime-enabled by the owner with no executor registered at
  all, although the documented rule is that a capability without a registered executor can never be
  activated.
\<close>

theorem audit_export_activates_without_executor:
  "fst (request_capability_transition (\<lambda>c. False) ''audit_export'' ''enabled_runtime'' []
          None owner_principal owned_store) = None"
  by code_simp

end
