(* ===== verification/Approval_Store.thy ===== *)
theory Approval_Store
  imports Complex_Main "HOL-Library.AList" Governance_Store Policy_Engine
begin

text \<open>
  The approval tables of \<^verbatim>\<open>storage/stores/approvals.py\<close> and \<^verbatim>\<open>storage/stores/conversations.py\<close>:
  proposed tool actions, approvals with their intent hash and lifetime, the conditional updates that
  move an approval through its life, risk acceptances, and the metadata-only inbox of
  \<^verbatim>\<open>approvals/__init__.py\<close>.

  \<open>sha256\<close> is the hex digest of \<^verbatim>\<open>hashlib\<close>, \<open>plus_hours\<close> the timestamp arithmetic of \<^verbatim>\<open>datetime\<close>.
\<close>

subsection \<open>Canonical JSON\<close>

text \<open>\<^verbatim>\<open>json.dumps(value, sort_keys=True, separators=(",", ":"))\<close> with ASCII escapes.\<close>

definition json_char :: "char \<Rightarrow> string" where
  "json_char c =
     (if c = CHR 0x22 \<or> c = CHR 0x5C then [CHR 0x5C, c]
      else if c = CHR 0x0A then [CHR 0x5C, CHR ''n'']
      else if c = CHR 0x0D then [CHR 0x5C, CHR ''r'']
      else if c = CHR 0x09 then [CHR 0x5C, CHR ''t'']
      else if c = CHR 0x08 then [CHR 0x5C, CHR ''b'']
      else if c = CHR 0x0C then [CHR 0x5C, CHR ''f'']
      else if of_char c < (32::nat) \<or> of_char c > (126::nat)
      then [CHR 0x5C, CHR ''u'', CHR ''0'', CHR ''0'',
            hex_digit (of_char c div 16), hex_digit (of_char c mod 16)]
      else [c])"

definition json_string :: "string \<Rightarrow> string" where
  "json_string s = [CHR 0x22] @ concat (map json_char s) @ [CHR 0x22]"

fun sort_value :: "pyval \<Rightarrow> pyval"
  and sort_elems :: "pyval list \<Rightarrow> pyval list"
  and sort_items :: "(string \<times> pyval) list \<Rightarrow> (string \<times> pyval) list" where
  "sort_value (PList xs) = PList (sort_elems xs)"
| "sort_value (PDict d) = PDict (sort_key fst (sort_items d))"
| "sort_value v = v"
| "sort_elems [] = []"
| "sort_elems (x # xs) = sort_value x # sort_elems xs"
| "sort_items [] = []"
| "sort_items ((k, v) # xs) = (k, sort_value v) # sort_items xs"

fun json_text :: "pyval \<Rightarrow> string"
  and json_elems :: "pyval list \<Rightarrow> string"
  and json_items :: "(string \<times> pyval) list \<Rightarrow> string" where
  "json_text PNone = ''null''"
| "json_text (PBool b) = (if b then ''true'' else ''false'')"
| "json_text (PInt i) = int_dec i"
| "json_text (PFloat r) = r"
| "json_text (PStr s) = json_string s"
| "json_text (PList xs) = ''['' @ json_elems xs @ '']''"
| "json_text (PDict d) = ''{'' @ json_items d @ ''}''"
| "json_elems [] = []"
| "json_elems [x] = json_text x"
| "json_elems (x # y # xs) = json_text x @ '','' @ json_elems (y # xs)"
| "json_items [] = []"
| "json_items [(k, v)] = json_string k @ '':'' @ json_text v"
| "json_items ((k, v) # e # xs) = json_string k @ '':'' @ json_text v @ '','' @ json_items (e # xs)"

text \<open>The stored text is parsed again before it is hashed; text that does not parse raises.\<close>

definition tool_action_payload_sha256 ::
  "(string \<Rightarrow> string) \<Rightarrow> string \<Rightarrow> pyval option \<Rightarrow> string \<Rightarrow> py_error + string" where
  "tool_action_payload_sha256 sha256 tool args risk =
     (case args of
        None \<Rightarrow> Inl JSONDecodeError
      | Some v \<Rightarrow> Inr (sha256 (json_text (sort_value
          (PDict [(''tool_name'', PStr tool), (''arguments'', v), (''risk_level'', PStr risk)])))))"

subsection \<open>Proposed actions\<close>

definition load_tool_action :: "store \<Rightarrow> string \<Rightarrow> tool_action_row option" where
  "load_tool_action s aid = tool_actions s aid"

text \<open>
  \<^verbatim>\<open>INSERT OR REPLACE\<close>: an existing row keeps when it was proposed and, unless one is given, its
  owner. The arguments are stored with sorted keys.
\<close>

definition insert_tool_action ::
  "ToolAction \<Rightarrow> string \<Rightarrow> string option \<Rightarrow> string \<Rightarrow> string option \<Rightarrow> store \<Rightarrow> store" where
  "insert_tool_action a session turn status owner s =
     (let old = tool_actions s (tl_action_id a)
      in s\<lparr>tool_actions := (tool_actions s)(tl_action_id a \<mapsto>
          \<lparr>ta_session = session, ta_turn = turn, ta_tool = tl_tool_name a,
           ta_args = Some (sort_value (PDict (tl_arguments a))), ta_risk = tl_risk_level a,
           ta_status = status,
           ta_proposed_at = (case old of None \<Rightarrow> clock s | Some r \<Rightarrow> ta_proposed_at r),
           ta_completed_at =
             (if status \<in> {''success'', ''failed'', ''denied'', ''approval_required''}
              then Some (clock s) else None),
           ta_proposed_by = tl_proposed_by a,
           ta_owner = (case owner of Some w \<Rightarrow> Some w
                                   | None \<Rightarrow> (case old of None \<Rightarrow> None | Some r \<Rightarrow> ta_owner r))\<rparr>)\<rparr>)"

subsection \<open>Creating an approval\<close>

definition approval :: "store \<Rightarrow> string \<Rightarrow> approval_row option" where
  "approval s aid = map_of (approvals s) aid"

definition put_approval :: "string \<Rightarrow> approval_row \<Rightarrow> store \<Rightarrow> store" where
  "put_approval aid r s = s\<lparr>approvals := AList.update aid r (approvals s)\<rparr>"

definition APPROVAL_TIMEOUT_CHOICES :: "int list" where
  "APPROVAL_TIMEOUT_CHOICES = [15, 30, 60, 240, 1440]"

definition approval_timeout_minutes :: "store \<Rightarrow> string \<Rightarrow> int" where
  "approval_timeout_minutes s pid =
     (if pid = [] then 30
      else case user_settings s pid of
        Some (Some (PDict settings)) \<Rightarrow>
          (case dict_get settings ''security.approval_timeout_minutes'' of
             PInt v \<Rightarrow> if v \<in> set APPROVAL_TIMEOUT_CHOICES then v else 30
           | _ \<Rightarrow> 30)
      | _ \<Rightarrow> 30)"

datatype approval_target = ByAction ToolAction | ById string

definition target_id :: "approval_target \<Rightarrow> string" where
  "target_id t = (case t of ByAction a \<Rightarrow> tl_action_id a | ById i \<Rightarrow> i)"

definition owner_approval_ttl_hours :: "store \<Rightarrow> approval_target \<Rightarrow> rat" where
  "owner_approval_ttl_hours s t =
     (let fallback = (case t of ByAction a \<Rightarrow> tl_proposed_by a | ById _ \<Rightarrow> []);
          own = (case load_tool_action s (target_id t) of
                   None \<Rightarrow> []
                 | Some r \<Rightarrow> (case ta_owner r of
                               Some w \<Rightarrow> if w \<noteq> [] then w else ta_proposed_by r
                             | None \<Rightarrow> ta_proposed_by r))
      in rat_of_int (approval_timeout_minutes s (if own \<noteq> [] then own else fallback)) / 60)"

definition OWNER_TIMEOUT :: rat where
  "OWNER_TIMEOUT = - 1"

definition insert_approval ::
  "(string \<Rightarrow> string) \<Rightarrow> (string \<Rightarrow> rat \<Rightarrow> string) \<Rightarrow> string \<Rightarrow> approval_target \<Rightarrow> string
   \<Rightarrow> rat option \<Rightarrow> bool \<Rightarrow> store \<Rightarrow> py_error + store" where
  "insert_approval sha256 plus_hours aid target status ttl critical s =
     (let ttl_hours = (if ttl = Some OWNER_TIMEOUT
                       then Some (if critical then 24 else owner_approval_ttl_hours s target) else ttl);
          hash = (case target of
                    ByAction a \<Rightarrow>
                      tool_action_payload_sha256 sha256 (tl_tool_name a)
                        (Some (sort_value (PDict (tl_arguments a)))) (tl_risk_level a)
                  | ById i \<Rightarrow>
                      (case load_tool_action s i of
                         None \<Rightarrow> Inl (Raised (''unknown_tool_action:'' @ i))
                       | Some r \<Rightarrow> tool_action_payload_sha256 sha256 (ta_tool r) (ta_args r) (ta_risk r)))
      in case hash of
           Inl e \<Rightarrow> Inl e
         | Inr h \<Rightarrow>
             if approval s aid \<noteq> None \<or> tool_actions s (target_id target) = None then Inl IntegrityError
             else Inr (put_approval aid
               \<lparr>ap_action = target_id target, ap_status = status,
                ap_scope = (if critical then ''critical'' else ''action''), ap_created_at = clock s,
                ap_expires_at = (case ttl_hours of
                                   Some t \<Rightarrow> if t > 0 then Some (plus_hours (clock s) t) else None
                                 | None \<Rightarrow> None),
                ap_sha256 = Some h, ap_critical = critical, ap_approved_by = None,
                ap_resolved_at = None, ap_answer = None, ap_decision_scope = None\<rparr> s))"

subsection \<open>The life of an approval\<close>

text \<open>\<^verbatim>\<open>UPDATE approvals SET ... WHERE approval_id = ? AND status = ?\<close> and whether it changed a row.\<close>

definition update_approval ::
  "string \<Rightarrow> string \<Rightarrow> (approval_row \<Rightarrow> approval_row) \<Rightarrow> store \<Rightarrow> bool \<times> store" where
  "update_approval aid status f s =
     (case approval s aid of
        None \<Rightarrow> (False, s)
      | Some r \<Rightarrow> if ap_status r = status then (True, put_approval aid (f r) s) else (False, s))"

definition SETTLED_ROW_STATUS :: "(string \<times> string) list" where
  "SETTLED_ROW_STATUS =
     [(''executed'', ''success''), (''execution_failed'', ''failed''), (''denied'', ''denied''),
      (''approved'', ''failed''), (''expired'', ''failed'')]"

definition settle_proposed_tool_action :: "string \<Rightarrow> string \<Rightarrow> store \<Rightarrow> store" where
  "settle_proposed_tool_action aid status s =
     (case map_of SETTLED_ROW_STATUS status of
        None \<Rightarrow> s
      | Some settled \<Rightarrow>
          (case approval s aid of
             None \<Rightarrow> s
           | Some r \<Rightarrow>
               (case tool_actions s (ap_action r) of
                  None \<Rightarrow> s
                | Some t \<Rightarrow>
                    if ta_status t = ''approval_required''
                    then s\<lparr>tool_actions := (tool_actions s)(ap_action r \<mapsto>
                            t\<lparr>ta_status := settled, ta_completed_at := Some (clock s)\<rparr>)\<rparr>
                    else s)))"

definition DECISION_NOTICE_KINDS :: "string list" where
  "DECISION_NOTICE_KINDS = [''approval_pending'', ''question_pending'', ''critical_approval_pending'']"

definition settle_approval_notices :: "string \<Rightarrow> store \<Rightarrow> store" where
  "settle_approval_notices aid s =
     s\<lparr>notifications :=
        map (\<lambda>n. if nt_subject n = aid \<and> \<not> nt_read n \<and> nt_kind n \<in> set DECISION_NOTICE_KINDS
                  then n\<lparr>nt_read := True\<rparr> else n) (notifications s)\<rparr>"

definition expire_approval :: "string \<Rightarrow> store \<Rightarrow> bool \<times> store" where
  "expire_approval aid s =
     (case update_approval aid ''pending''
             (\<lambda>r. r\<lparr>ap_status := ''expired'', ap_resolved_at := Some (clock s)\<rparr>) s of
        (changed, s1) \<Rightarrow>
          (changed, if changed
                    then settle_approval_notices aid (settle_proposed_tool_action aid ''expired'' s1)
                    else s1))"

definition due :: "string \<Rightarrow> approval_row \<Rightarrow> bool" where
  "due moment r = (ap_status r = ''pending'' \<and>
     (case ap_expires_at r of None \<Rightarrow> False | Some e \<Rightarrow> e \<noteq> [] \<and> e < moment))"

fun expire_each :: "string list \<Rightarrow> store \<Rightarrow> string list \<times> store" where
  "expire_each [] s = ([], s)"
| "expire_each (aid # aids) s =
     (case expire_approval aid s of (ok, s1) \<Rightarrow>
        (case expire_each aids s1 of (done, s2) \<Rightarrow> ((if ok then [aid] else []) @ done, s2)))"

definition expire_due_approvals :: "nat \<Rightarrow> store \<Rightarrow> string list \<times> store" where
  "expire_due_approvals limit s =
     expire_each (map fst (take limit
       (sort_key (\<lambda>(aid, r). the (ap_expires_at r)) (filter (\<lambda>(aid, r). due (clock s) r) (approvals s))))) s"

definition claim_approval_for_execution :: "string \<Rightarrow> store \<Rightarrow> bool \<times> store" where
  "claim_approval_for_execution aid s =
     (case update_approval aid ''pending'' (\<lambda>r. r\<lparr>ap_status := ''executing''\<rparr>) s of
        (changed, s1) \<Rightarrow> (changed, if changed then settle_approval_notices aid s1 else s1))"

definition finalize_approval_execution :: "string \<Rightarrow> string \<Rightarrow> string \<Rightarrow> store \<Rightarrow> bool \<times> store" where
  "finalize_approval_execution aid status resolved_by s =
     (case update_approval aid ''executing''
             (\<lambda>r. r\<lparr>ap_status := status, ap_approved_by := Some resolved_by,
                    ap_resolved_at := Some (clock s)\<rparr>) s of
        (changed, s1) \<Rightarrow> (changed, if changed then settle_proposed_tool_action aid status s1 else s1))"

definition release_approval_claim :: "string \<Rightarrow> store \<Rightarrow> bool \<times> store" where
  "release_approval_claim aid s =
     update_approval aid ''executing''
       (\<lambda>r. r\<lparr>ap_status := ''pending'', ap_approved_by := None, ap_resolved_at := None\<rparr>) s"

definition resolve_approval :: "string \<Rightarrow> string \<Rightarrow> string \<Rightarrow> store \<Rightarrow> store" where
  "resolve_approval aid status resolved_by s =
     (case update_approval aid ''pending''
             (\<lambda>r. r\<lparr>ap_status := status, ap_approved_by := Some resolved_by,
                    ap_resolved_at := Some (clock s)\<rparr>) s of
        (changed, s1) \<Rightarrow>
          if changed then settle_approval_notices aid (settle_proposed_tool_action aid status s1) else s1)"

definition answer_owner_question :: "string \<Rightarrow> string \<Rightarrow> string \<Rightarrow> store \<Rightarrow> bool \<times> store" where
  "answer_owner_question aid answers answered_by s =
     (case update_approval aid ''pending''
             (\<lambda>r. r\<lparr>ap_status := ''answered'', ap_answer := Some answers,
                    ap_approved_by := Some answered_by, ap_resolved_at := Some (clock s)\<rparr>) s of
        (answered, s1) \<Rightarrow> (answered, if answered then settle_approval_notices aid s1 else s1))"

definition save_approval_decision_scope :: "string \<Rightarrow> string list \<Rightarrow> store \<Rightarrow> store" where
  "save_approval_decision_scope aid hunks s =
     (case approval s aid of
        None \<Rightarrow> s
      | Some r \<Rightarrow> put_approval aid
          (r\<lparr>ap_decision_scope := Some (PDict [(''accepted_hunks'', PList (map PStr hunks))])\<rparr>) s)"

definition approval_accepted_hunks :: "approval_row \<Rightarrow> string list option" where
  "approval_accepted_hunks r =
     (case ap_decision_scope r of
        Some (PDict d) \<Rightarrow>
          (case map_of d ''accepted_hunks'' of
             Some (PList xs) \<Rightarrow> Some (map py_str xs)
           | _ \<Rightarrow> None)
      | _ \<Rightarrow> None)"

text \<open>The join with the proposed action, without an owner filter.\<close>

definition load_approval :: "store \<Rightarrow> string \<Rightarrow> (approval_row \<times> tool_action_row) option" where
  "load_approval s aid =
     (case approval s aid of
        None \<Rightarrow> None
      | Some r \<Rightarrow> (case tool_actions s (ap_action r) of None \<Rightarrow> None | Some t \<Rightarrow> Some (r, t)))"

subsection \<open>Risk acceptances\<close>

definition insert_risk_acceptance :: "acceptance_row \<Rightarrow> store \<Rightarrow> store" where
  "insert_risk_acceptance r s =
     s\<lparr>risk_acceptances := filter (\<lambda>x. rk_id x \<noteq> rk_id r) (risk_acceptances s) @ [r]\<rparr>"

definition find_valid_risk_acceptance ::
  "store \<Rightarrow> string \<Rightarrow> string \<Rightarrow> string \<Rightarrow> string \<Rightarrow> acceptance_row option" where
  "find_valid_risk_acceptance s pid atype domain risk =
     (case rev (sort_key rk_created_at (rev (filter (\<lambda>r.
             rk_for r = pid \<and> rk_action_type r = atype \<and> rk_domain r = domain \<and> rk_risk r = risk
             \<and> (case rk_expires_at r of None \<Rightarrow> True | Some e \<Rightarrow> e \<ge> clock s)) (risk_acceptances s)))) of
        [] \<Rightarrow> None
      | r # _ \<Rightarrow> Some r)"

definition consume_risk_acceptance :: "string \<Rightarrow> store \<Rightarrow> store" where
  "consume_risk_acceptance rid s =
     s\<lparr>risk_acceptances := filter (\<lambda>r. rk_id r \<noteq> rid) (risk_acceptances s)\<rparr>"

subsection \<open>The metadata-only inbox\<close>

record ApprovalResolution =
  rs_approval_id :: string
  rs_action_id :: string
  rs_status :: string
  rs_executes_action :: bool

definition approval_expired :: "approval_row \<Rightarrow> string \<Rightarrow> bool" where
  "approval_expired r now = (case ap_expires_at r of None \<Rightarrow> False | Some e \<Rightarrow> e \<noteq> [] \<and> now > e)"

text \<open>
  \<open>session_user\<close> reads the owner of a session; a given user sees only approvals of their sessions.
\<close>

definition inbox_resolve ::
  "(string \<Rightarrow> string) \<Rightarrow> (string \<Rightarrow> string option) \<Rightarrow> string \<Rightarrow> bool \<Rightarrow> string \<Rightarrow> string
   \<Rightarrow> string option \<Rightarrow> store \<Rightarrow> (py_error + ApprovalResolution) \<times> store" where
  "inbox_resolve sha256 session_user aid approve resolved_by reason user s =
     (case (case load_approval s aid of
              None \<Rightarrow> None
            | Some (r, t) \<Rightarrow>
                (case user of
                   None \<Rightarrow> Some (r, t)
                 | Some u \<Rightarrow> if session_user (ta_session t) = Some u then Some (r, t) else None)) of
        None \<Rightarrow> (Inl (Raised ''approval_not_found''), s)
      | Some (r, t) \<Rightarrow>
          if ap_critical r then (Inl (Raised ''critical_approval_requires_lifecycle''), s)
          else if ap_status r \<noteq> ''pending'' then (Inl (Raised ''approval_already_resolved''), s)
          else if approval_expired r (clock s)
          then (Inl (Raised ''approval_expired''), snd (expire_approval aid s))
          else (case tool_action_payload_sha256 sha256 (ta_tool t) (ta_args t) (ta_risk t) of
            Inl e \<Rightarrow> (Inl e, s)
          | Inr current \<Rightarrow>
              if (case ap_sha256 r of None \<Rightarrow> False | Some h \<Rightarrow> h \<noteq> current)
              then (Inl (Raised ''approval_payload_tampered''), s)
              else (let status = (if approve then ''approved'' else ''denied'');
                        s1 = resolve_approval aid status resolved_by s
                    in (Inr \<lparr>rs_approval_id = aid, rs_action_id = ap_action r, rs_status = status,
                             rs_executes_action = False\<rparr>,
                        append_event (if approve then ''approval_received'' else ''approval_denied'')
                          ''approval_inbox''
                          [(''approval_id'', PStr aid), (''action_id'', PStr (ap_action r)),
                           (''status'', PStr status), (''reason'', PStr reason),
                           (''executes_action'', PBool False)] (ta_session t) (ta_turn t) s1))))"

subsection \<open>What each operation does to an approval\<close>

lemma approval_put [store_simps]: "approval (put_approval aid r s) = (approval s)(aid \<mapsto> r)"
  by (rule ext) (simp add: approval_def put_approval_def update_conv')

lemma approval_settle [store_simps]:
  "approval (settle_proposed_tool_action aid status s) = approval s"
  "approval (settle_approval_notices aid s) = approval s"
  by (auto simp: approval_def settle_proposed_tool_action_def settle_approval_notices_def
        fun_eq_iff split: option.splits)

lemma approval_event_log [store_simps]:
  "approval (append_event ty ac py se tu s) = approval s"
  "approval (authority_event ty ac py se tu s) = approval s"
  by (simp_all add: approval_def fun_eq_iff frame_simps)

lemma approval_insert_tool_action [store_simps]:
  "approval (insert_tool_action a se tu st ow s) = approval s"
  by (simp add: approval_def insert_tool_action_def Let_def fun_eq_iff)

text \<open>The status an approval has, if it exists.\<close>

definition status_of :: "store \<Rightarrow> string \<Rightarrow> string option" where
  "status_of s aid = map_option ap_status (approval s aid)"

text \<open>One conditional update: the row changes exactly when its status is the expected one.\<close>

lemma update_approval_spec:
  "update_approval aid from f s =
     (status_of s aid = Some from,
      if status_of s aid = Some from then put_approval aid (f (the (approval s aid))) s else s)"
  by (auto simp: update_approval_def status_of_def split: option.splits)

lemma claim_spec:
  "fst (claim_approval_for_execution aid s) \<longleftrightarrow> status_of s aid = Some ''pending''"
  "approval (snd (claim_approval_for_execution aid s)) =
     (if status_of s aid = Some ''pending''
      then (approval s)(aid \<mapsto> (the (approval s aid))\<lparr>ap_status := ''executing''\<rparr>) else approval s)"
  by (simp_all add: claim_approval_for_execution_def update_approval_spec store_simps)

lemma finalize_spec:
  "fst (finalize_approval_execution aid st who s) \<longleftrightarrow> status_of s aid = Some ''executing''"
  "approval (snd (finalize_approval_execution aid st who s)) =
     (if status_of s aid = Some ''executing''
      then (approval s)(aid \<mapsto> (the (approval s aid))\<lparr>ap_status := st, ap_approved_by := Some who,
                                   ap_resolved_at := Some (clock s)\<rparr>) else approval s)"
  by (simp_all add: finalize_approval_execution_def update_approval_spec store_simps)

lemma release_spec:
  "fst (release_approval_claim aid s) \<longleftrightarrow> status_of s aid = Some ''executing''"
  "approval (snd (release_approval_claim aid s)) =
     (if status_of s aid = Some ''executing''
      then (approval s)(aid \<mapsto> (the (approval s aid))\<lparr>ap_status := ''pending'', ap_approved_by := None,
                                   ap_resolved_at := None\<rparr>) else approval s)"
  by (simp_all add: release_approval_claim_def update_approval_spec store_simps)

lemma resolve_spec:
  "approval (resolve_approval aid st who s) =
     (if status_of s aid = Some ''pending''
      then (approval s)(aid \<mapsto> (the (approval s aid))\<lparr>ap_status := st, ap_approved_by := Some who,
                                   ap_resolved_at := Some (clock s)\<rparr>) else approval s)"
  by (simp add: resolve_approval_def update_approval_spec store_simps)

lemma expire_spec:
  "fst (expire_approval aid s) \<longleftrightarrow> status_of s aid = Some ''pending''"
  "approval (snd (expire_approval aid s)) =
     (if status_of s aid = Some ''pending''
      then (approval s)(aid \<mapsto> (the (approval s aid))\<lparr>ap_status := ''expired'',
                                   ap_resolved_at := Some (clock s)\<rparr>) else approval s)"
  by (simp_all add: expire_approval_def update_approval_spec store_simps)

lemma answer_spec:
  "fst (answer_owner_question aid ans who s) \<longleftrightarrow> status_of s aid = Some ''pending''"
  "approval (snd (answer_owner_question aid ans who s)) =
     (if status_of s aid = Some ''pending''
      then (approval s)(aid \<mapsto> (the (approval s aid))\<lparr>ap_status := ''answered'', ap_answer := Some ans,
                                   ap_approved_by := Some who, ap_resolved_at := Some (clock s)\<rparr>)
      else approval s)"
  by (simp_all add: answer_owner_question_def update_approval_spec store_simps)

lemma scope_spec:
  "\<exists>f. approval (save_approval_decision_scope aid hunks s) b =
        map_option (\<lambda>r. r\<lparr>ap_decision_scope := f r\<rparr>) (approval s b)"
proof (cases "b = aid")
  case True
  then show ?thesis
    by (intro exI [of _ "\<lambda>r. Some (PDict [(''accepted_hunks'', PList (map PStr hunks))])"])
      (auto simp: save_approval_decision_scope_def store_simps split: option.splits)
next
  case False
  then show ?thesis
    by (intro exI [of _ ap_decision_scope])
      (auto simp: save_approval_decision_scope_def store_simps option.map_ident split: option.splits)
qed

lemma insert_approval_spec:
  assumes "insert_approval sha256 plus_hours aid target st ttl crit s = Inr t"
  shows "approval s aid = None
    \<and> (\<exists>r. approval t = (approval s)(aid \<mapsto> r) \<and> ap_status r = st \<and> ap_critical r = crit)"
  using assms
  by (auto simp: insert_approval_def Let_def store_simps split: sum.splits if_splits)

subsection \<open>The life cycle as a labelled step system\<close>

definition TERMINAL_STATUSES :: "string list" where
  "TERMINAL_STATUSES = [''executed'', ''execution_failed'', ''approved'', ''denied'', ''expired'', ''answered'']"

datatype approval_label = Created string | Claimed string | Released string | Closed string | Quiet

text \<open>
  The operations of the store that reach the approvals table, with what happened to which approval.
  The statuses with which the callers finalize and resolve are the terminal ones.
\<close>

inductive approval_step :: "(string \<Rightarrow> string) \<Rightarrow> (string \<Rightarrow> rat \<Rightarrow> string) \<Rightarrow> store \<Rightarrow> approval_label \<Rightarrow> store \<Rightarrow> bool"
  for sha256 :: "string \<Rightarrow> string" and plus_hours :: "string \<Rightarrow> rat \<Rightarrow> string" where
  create: "insert_approval sha256 plus_hours aid target ''pending'' ttl crit s = Inr t \<Longrightarrow>
     approval_step sha256 plus_hours s (Created aid) t"
| claim: "claim_approval_for_execution aid s = (True, t) \<Longrightarrow>
     approval_step sha256 plus_hours s (Claimed aid) t"
| release: "release_approval_claim aid s = (True, t) \<Longrightarrow>
     approval_step sha256 plus_hours s (Released aid) t"
| finalize: "finalize_approval_execution aid st who s = (True, t) \<Longrightarrow> st \<in> set TERMINAL_STATUSES \<Longrightarrow>
     approval_step sha256 plus_hours s (Closed aid) t"
| resolve: "resolve_approval aid st who s = t \<Longrightarrow> st \<in> set TERMINAL_STATUSES \<Longrightarrow>
     approval_step sha256 plus_hours s (Closed aid) t"
| expire: "expire_approval aid s = (ok, t) \<Longrightarrow> approval_step sha256 plus_hours s (Closed aid) t"
| answer: "answer_owner_question aid ans who s = (ok, t) \<Longrightarrow>
     approval_step sha256 plus_hours s (Closed aid) t"
| scope: "approval_step sha256 plus_hours s Quiet (save_approval_decision_scope aid hunks s)"
| propose: "approval_step sha256 plus_hours s Quiet (insert_tool_action a se tu st ow s)"
| tick: "clock s \<le> now \<Longrightarrow> approval_step sha256 plus_hours s Quiet (s\<lparr>clock := now\<rparr>)"

text \<open>The intent an approval was created with.\<close>

definition intent :: "approval_row \<Rightarrow> string \<times> string option \<times> bool \<times> string option \<times> string" where
  "intent r = (ap_action r, ap_sha256 r, ap_critical r, ap_expires_at r, ap_created_at r)"

text \<open>
  The effect of a step on one approval: it is unchanged but for its decision scope, or it moves along
  the life cycle; its intent never changes.
\<close>

definition moves :: "approval_label \<Rightarrow> string \<Rightarrow> approval_row \<Rightarrow> approval_row \<Rightarrow> bool" where
  "moves l b r r' \<longleftrightarrow> intent r' = intent r \<and>
     ((\<exists>d. r' = r\<lparr>ap_decision_scope := d\<rparr>)
      \<or> l = Claimed b \<and> ap_status r = ''pending'' \<and> ap_status r' = ''executing''
      \<or> l = Released b \<and> ap_status r = ''executing'' \<and> ap_status r' = ''pending''
      \<or> l = Closed b \<and> ap_status r \<in> {''pending'', ''executing''} \<and> ap_status r' \<in> set TERMINAL_STATUSES)"

lemma own_scope [simp]: "\<exists>d. r = r\<lparr>ap_decision_scope := d\<rparr>" for r :: approval_row
  by (intro exI [of _ "ap_decision_scope r"]) simp

lemma approval_step_moves:
  assumes "approval_step sha256 plus_hours s l t" and "approval s b = Some r"
  shows "\<exists>r'. approval t b = Some r' \<and> moves l b r r'"
  using assms
proof (cases rule: approval_step.cases)
  case (create aid target ttl crit)
  with assms(2) insert_approval_spec [OF create(2)] show ?thesis by (auto simp: moves_def)
next
  case (claim aid)
  then show ?thesis using assms(2) claim_spec [of aid s] by (auto simp: moves_def status_of_def intent_def)
next
  case (release aid)
  then show ?thesis using assms(2) release_spec [of aid s] by (auto simp: moves_def status_of_def intent_def)
next
  case (finalize aid st who)
  then show ?thesis using assms(2) finalize_spec [of aid st who s]
    by (auto simp: moves_def status_of_def intent_def)
next
  case (resolve aid st who)
  then show ?thesis using assms(2) resolve_spec [of aid st who s]
    by (auto simp: moves_def status_of_def intent_def)
next
  case (expire aid ok)
  then show ?thesis using assms(2) expire_spec [of aid s]
    by (auto simp: moves_def status_of_def intent_def TERMINAL_STATUSES_def)
next
  case (answer aid ans who ok)
  then show ?thesis using assms(2) answer_spec [of aid ans who s]
    by (auto simp: moves_def status_of_def intent_def TERMINAL_STATUSES_def)
next
  case (scope aid hunks)
  then show ?thesis using assms(2) scope_spec [of aid hunks s b]
    by (auto simp: moves_def intent_def)
next
  case (propose a se tu st ow)
  then show ?thesis using assms(2) by (simp add: moves_def store_simps)
next
  case (tick now)
  then show ?thesis using assms(2) by (simp add: moves_def approval_def)
qed

text \<open>Runs: a sequence of labelled steps.\<close>

inductive approval_run :: "(string \<Rightarrow> string) \<Rightarrow> (string \<Rightarrow> rat \<Rightarrow> string) \<Rightarrow> store \<Rightarrow> approval_label list \<Rightarrow> store \<Rightarrow> bool"
  for sha256 :: "string \<Rightarrow> string" and plus_hours :: "string \<Rightarrow> rat \<Rightarrow> string" where
  nil: "approval_run sha256 plus_hours s [] s"
| cons: "approval_step sha256 plus_hours s l t \<Longrightarrow> approval_run sha256 plus_hours t ls u \<Longrightarrow>
     approval_run sha256 plus_hours s (l # ls) u"

inductive_cases approval_run_NilE [elim!]: "approval_run sha256 plus_hours s [] t"
inductive_cases approval_run_ConsE [elim!]: "approval_run sha256 plus_hours s (l # ls) t"

lemma approval_run_append:
  "approval_run sha256 plus_hours s (xs @ ys) u \<longleftrightarrow>
     (\<exists>t. approval_run sha256 plus_hours s xs t \<and> approval_run sha256 plus_hours t ys u)"
proof (induction xs arbitrary: s)
  case Nil
  then show ?case by (auto intro: approval_run.intros)
next
  case (Cons x xs)
  then show ?case by (auto intro: approval_run.cons) (blast intro: approval_run.cons)
qed


lemma approval_run_steps:
  "approval_run sha256 plus_hours s ls t \<Longrightarrow> (\<lambda>s t. \<exists>l. approval_step sha256 plus_hours s l t)\<^sup>*\<^sup>* s t"
  by (induction rule: approval_run.induct) (auto intro: converse_rtranclp_into_rtranclp)

text \<open>Two facts every step keeps: the intent of an approval, and the row of a closed one but for its decision scope.\<close>

definition has_intent :: "string \<Rightarrow> string \<times> string option \<times> bool \<times> string option \<times> string \<Rightarrow> store \<Rightarrow> bool" where
  "has_intent aid i s \<longleftrightarrow> map_option intent (approval s aid) = Some i"

definition decided :: "string \<Rightarrow> approval_row \<Rightarrow> store \<Rightarrow> bool" where
  "decided aid r s \<longleftrightarrow> ap_status r \<in> set TERMINAL_STATUSES \<and>
     (\<exists>d. approval s aid = Some (r\<lparr>ap_decision_scope := d\<rparr>))"

interpretation intents: step_invariant "\<lambda>s t. \<exists>l. approval_step sha256 plus_hours s l t" "has_intent aid i"
  for sha256 plus_hours aid i
proof
  fix s t
  assume "\<exists>l. approval_step sha256 plus_hours s l t" and "has_intent aid i s"
  then obtain l r where "approval_step sha256 plus_hours s l t" "approval s aid = Some r" "intent r = i"
    by (auto simp: has_intent_def)
  then show "has_intent aid i t"
    using approval_step_moves by (fastforce simp: has_intent_def moves_def)
qed

interpretation decisions: step_invariant "\<lambda>s t. \<exists>l. approval_step sha256 plus_hours s l t" "decided aid r"
  for sha256 plus_hours aid r
proof
  fix s t
  assume "\<exists>l. approval_step sha256 plus_hours s l t" and "decided aid r s"
  then obtain l d where l: "approval_step sha256 plus_hours s l t" and r: "approval s aid = Some (r\<lparr>ap_decision_scope := d\<rparr>)"
    and ended: "ap_status r \<in> set TERMINAL_STATUSES"
    by (auto simp: decided_def)
  moreover have "''pending'' \<notin> set TERMINAL_STATUSES" "''executing'' \<notin> set TERMINAL_STATUSES"
    by (simp_all add: TERMINAL_STATUSES_def)
  ultimately show "decided aid r t"
    using approval_step_moves [OF l r] by (auto simp: decided_def moves_def)
qed

subsection \<open>Properties of approvals\<close>

text \<open>A store with one approval the agent's commit waits on.\<close>

definition pending_row :: approval_row where
  "pending_row =
     \<lparr>ap_action = ''act_1'', ap_status = ''pending'', ap_scope = ''action'',
      ap_created_at = ''2026-01-01T00:00:00Z'', ap_expires_at = Some ''2026-01-01T00:30:00Z'',
      ap_sha256 = Some ''h'', ap_critical = False, ap_approved_by = None, ap_resolved_at = None,
      ap_answer = None, ap_decision_scope = None\<rparr>"

definition pending_store :: store where
  "pending_store = owned_store\<lparr>approvals := [(''appr_1'', pending_row)]\<rparr>"

lemma pending_store_approval: "approval pending_store = [''appr_1'' \<mapsto> pending_row]"
  by (simp add: approval_def pending_store_def fun_eq_iff)

text \<open>
  C37: A decision is final. Once an approval is executed, failed, approved, denied, expired or answered, no
  sequence of store operations by anyone changes its row in any column but one: its status, who decided it, when,
  the answer, the action, the intent hash, the expiry and the critical flag stay. The exception is the record of
  accepted hunks, which \<^verbatim>\<open>save_approval_decision_scope\<close> writes whatever the status is.
\<close>

theorem decided_approval_is_final:
  assumes "approval_run sha256 plus_hours s ls t" and "approval s aid = Some r"
    and "ap_status r \<in> set TERMINAL_STATUSES"
  shows "\<exists>scope. approval t aid = Some (r\<lparr>ap_decision_scope := scope\<rparr>)"
proof -
  have "approval s aid = Some (r\<lparr>ap_decision_scope := ap_decision_scope r\<rparr>)" using assms(2) by simp
  then have "decided aid r s" using assms(3) unfolding decided_def by blast
  then have "decided aid r t" by (rule decisions.keep_star [OF approval_run_steps [OF assms(1)]])
  then show ?thesis by (auto simp: decided_def)
qed

text \<open>The one column a decided approval does not keep.\<close>

lemma decided_scope_rewritten:
  "approval s aid = Some r \<Longrightarrow> approval (save_approval_decision_scope aid hunks s) aid
     = Some (r\<lparr>ap_decision_scope := Some (PDict [(''accepted_hunks'', PList (map PStr hunks))])\<rparr>)"
  by (simp add: save_approval_decision_scope_def store_simps)

theorem decided_approval_is_final_witness:
  "\<exists>r'. approval (snd (expire_approval ''appr_1'' (resolve_approval ''appr_1'' ''denied'' ''own'' pending_store)))
          ''appr_1'' = Some r' \<and> ap_status r' = ''denied''"
proof -
  let ?s = "resolve_approval ''appr_1'' ''denied'' ''own'' pending_store"
  let ?r = "pending_row\<lparr>ap_status := ''denied'', ap_approved_by := Some ''own'',
              ap_resolved_at := Some ''2026-01-01T00:00:00Z''\<rparr>"
  have r: "approval ?s ''appr_1'' = Some ?r" by code_simp
  have "approval_run (\<lambda>x. x) (\<lambda>x y. x) ?s [Closed ''appr_1''] (snd (expire_approval ''appr_1'' ?s))"
    by (rule approval_run.cons [OF approval_step.expire [OF prod.collapse [symmetric]] approval_run.nil])
  from decided_approval_is_final [OF this r] show ?thesis by (auto simp: TERMINAL_STATUSES_def)
qed

text \<open>
  What is approved is what was proposed: no operation ever changes the action an approval is for,
  its intent hash, its critical flag or its expiry.
\<close>

theorem approval_intent_immutable:
  assumes "approval_run sha256 plus_hours s ls t" and "approval s aid = Some r"
  shows "\<exists>r'. approval t aid = Some r' \<and> ap_action r' = ap_action r \<and> ap_sha256 r' = ap_sha256 r
    \<and> ap_critical r' = ap_critical r \<and> ap_expires_at r' = ap_expires_at r"
proof -
  have "has_intent aid (intent r) s" using assms(2) by (simp add: has_intent_def)
  then have "has_intent aid (intent r) t" by (rule intents.keep_star [OF approval_run_steps [OF assms(1)]])
  then show ?thesis by (auto simp: has_intent_def intent_def)
qed

theorem approval_intent_immutable_witness:
  "\<exists>r'. approval (resolve_approval ''appr_1'' ''denied'' ''own'' pending_store) ''appr_1'' = Some r'
        \<and> ap_sha256 r' = Some ''h''"
proof -
  have run: "approval_run (\<lambda>x. x) (\<lambda>x y. x) pending_store [Closed ''appr_1'']
          (resolve_approval ''appr_1'' ''denied'' ''own'' pending_store)"
    by (rule approval_run.cons [OF approval_step.resolve [OF refl] approval_run.nil])
      (simp add: TERMINAL_STATUSES_def)
  have row: "approval pending_store ''appr_1'' = Some pending_row"
    by (simp add: pending_store_approval)
  obtain r' where "approval (resolve_approval ''appr_1'' ''denied'' ''own'' pending_store) ''appr_1'' = Some r'"
    and "ap_sha256 r' = ap_sha256 pending_row"
    using approval_intent_immutable [OF run row] by blast
  then show ?thesis by (simp add: pending_row_def)
qed

text \<open>An executing approval stays out of \<open>pending\<close> until its claim is released.\<close>

lemma not_pending_without_release:
  "approval_run sha256 plus_hours s ls t \<Longrightarrow> Released aid \<notin> set ls \<Longrightarrow>
     approval s aid = Some r \<Longrightarrow> ap_status r \<noteq> ''pending'' \<Longrightarrow> status_of t aid \<noteq> Some ''pending''"
proof (induction arbitrary: r rule: approval_run.induct)
  case (nil s)
  then show ?case by (simp add: status_of_def)
next
  case (cons s l t ls u)
  then obtain r' where "approval t aid = Some r'" "moves l aid r r'"
    using approval_step_moves by blast
  moreover have "ap_status r' \<noteq> ''pending''"
    using calculation(2) cons.prems by (auto simp: moves_def TERMINAL_STATUSES_def)
  ultimately show ?case using cons.IH cons.prems(1) by simp
qed

text \<open>
  C36: An approval is claimed for execution at most once: however store operations interleave, two
  successful claims of the same approval have a release of its claim between them.
\<close>

theorem approval_claimed_at_most_once:
  assumes "approval_run sha256 plus_hours s (xs @ Claimed aid # ys @ Claimed aid # zs) t"
  shows "Released aid \<in> set ys"
proof (rule ccontr)
  assume no: "Released aid \<notin> set ys"
  obtain s1 s2 s3 s4 where c1: "approval_step sha256 plus_hours s1 (Claimed aid) s2"
    and ys: "approval_run sha256 plus_hours s2 ys s3"
    and c2: "approval_step sha256 plus_hours s3 (Claimed aid) s4"
    using assms by (auto simp: approval_run_append)
  have "claim_approval_for_execution aid s1 = (True, s2)" using c1 by (auto elim: approval_step.cases)
  then obtain r where "approval s2 aid = Some r" "ap_status r = ''executing''"
    using claim_spec [of aid s1] by auto
  then have "status_of s3 aid \<noteq> Some ''pending''"
    using not_pending_without_release [OF ys no] by simp
  moreover have "claim_approval_for_execution aid s3 = (True, s4)" using c2 by (auto elim: approval_step.cases)
  ultimately show False using claim_spec(1) [of aid s3] by simp
qed

theorem approval_claimed_at_most_once_witness:
  "Released ''appr_1'' \<in> set [Released ''appr_1'']"
proof -
  let ?s1 = "snd (claim_approval_for_execution ''appr_1'' pending_store)"
  let ?s2 = "snd (release_approval_claim ''appr_1'' ?s1)"
  let ?s3 = "snd (claim_approval_for_execution ''appr_1'' ?s2)"
  have "claim_approval_for_execution ''appr_1'' pending_store = (True, ?s1)"
    "release_approval_claim ''appr_1'' ?s1 = (True, ?s2)"
    "claim_approval_for_execution ''appr_1'' ?s2 = (True, ?s3)"
    by (simp_all add: prod_eq_iff claim_spec release_spec status_of_def pending_store_approval
          pending_row_def)
  then have "approval_run (\<lambda>x. x) (\<lambda>x y. x) pending_store
      ([] @ Claimed ''appr_1'' # [Released ''appr_1''] @ Claimed ''appr_1'' # []) ?s3"
    by (auto intro!: approval_run.intros approval_step.claim approval_step.release)
  from approval_claimed_at_most_once [OF this] show ?thesis .
qed


subsubsection \<open>The expiry sweep\<close>

lemma expire_each_approval:
  "approval (snd (expire_each aids s)) b =
     (if b \<in> set aids \<and> status_of s b = Some ''pending''
      then Some ((the (approval s b))\<lparr>ap_status := ''expired'', ap_resolved_at := Some (clock s)\<rparr>)
      else approval s b)"
proof (induction aids arbitrary: s)
  case (Cons a aids)
  define s1 where "s1 = snd (expire_approval a s)"
  have ck: "clock s1 = clock s"
    by (auto simp: s1_def expire_approval_def update_approval_def put_approval_def
          settle_approval_notices_def settle_proposed_tool_action_def split: option.splits)
  have ap: "approval s1 b = (if b = a \<and> status_of s a = Some ''pending''
      then Some ((the (approval s a))\<lparr>ap_status := ''expired'', ap_resolved_at := Some (clock s)\<rparr>)
      else approval s b)"
    by (simp add: s1_def expire_spec)
  have "approval (snd (expire_each (a # aids) s)) b = approval (snd (expire_each aids s1)) b"
    by (simp add: s1_def split: prod.splits)
  also have "\<dots> = (if b \<in> set aids \<and> status_of s1 b = Some ''pending''
      then Some ((the (approval s1 b))\<lparr>ap_status := ''expired'', ap_resolved_at := Some (clock s)\<rparr>)
      else approval s1 b)"
    using Cons.IH [of s1] ck by simp
  also have "\<dots> = (if b \<in> set (a # aids) \<and> status_of s b = Some ''pending''
      then Some ((the (approval s b))\<lparr>ap_status := ''expired'', ap_resolved_at := Some (clock s)\<rparr>)
      else approval s b)"
    unfolding ap status_of_def by (auto simp: ap)
  finally show ?case .
qed simp

lemma due_pending: "due now r \<Longrightarrow> ap_status r = ''pending''"
  by (simp add: due_def)

text \<open>
  The expiry sweep is exact: with room for every overdue approval it expires each pending approval
  whose time limit has passed, leaves every other approval as it was, and afterwards none is overdue.
\<close>

theorem expiry_sweep_exact:
  assumes "distinct (map fst (approvals s))"
    and "length (filter (\<lambda>(aid, r). due (clock s) r) (approvals s)) \<le> limit"
  shows "approval (snd (expire_due_approvals limit s)) aid =
    map_option (\<lambda>r. if due (clock s) r
                      then r\<lparr>ap_status := ''expired'', ap_resolved_at := Some (clock s)\<rparr> else r)
      (approval s aid)"
proof -
  let ?rows = "filter (\<lambda>(aid, r). due (clock s) r) (approvals s)"
  let ?ids = "map fst (take limit (sort_key (\<lambda>(aid, r). the (ap_expires_at r)) ?rows))"
  have ids: "set ?ids = fst ` set ?rows" using assms(2) by (simp add: set_map)
  have mem: "aid \<in> set ?ids \<longleftrightarrow> (\<exists>r. approval s aid = Some r \<and> due (clock s) r)"
    unfolding ids approval_def using assms(1) by (force simp: image_iff)
  show ?thesis
    unfolding expire_due_approvals_def expire_each_approval
    using mem due_pending by (cases "approval s aid") (auto simp: status_of_def)
qed

theorem expiry_sweep_exact_witness:
  "approval (snd (expire_due_approvals 200 (pending_store\<lparr>clock := ''2026-01-01T01:00:00Z''\<rparr>))) ''appr_1''
   = Some (pending_row\<lparr>ap_status := ''expired'', ap_resolved_at := Some ''2026-01-01T01:00:00Z''\<rparr>)"
proof -
  let ?s = "pending_store\<lparr>clock := ''2026-01-01T01:00:00Z''\<rparr>"
  have d: "distinct (map fst (approvals ?s))" by (simp add: pending_store_def)
  have l: "length (filter (\<lambda>(aid, r). due (clock ?s) r) (approvals ?s)) \<le> 200"
    by (simp add: pending_store_def)
  have due: "due ''2026-01-01T01:00:00Z'' pending_row" by code_simp
  have "approval ?s ''appr_1'' = Some pending_row" by (simp add: approval_def pending_store_def)
  with expiry_sweep_exact [OF d l, of "''appr_1''"] due show ?thesis by simp
qed

subsubsection \<open>The intent hash\<close>

text \<open>
  An approval created for a proposed action carries the hash of that action as the store returns
  it: the tamper check passes on an untouched proposal, and fails as soon as the stored tool, arguments
  or risk hash to something else.
\<close>

theorem fresh_approval_verifies:
  assumes "insert_approval sha256 plus_hours aid (ByAction a) st ttl crit
             (insert_tool_action a session turn row_st owner s) = Inr t"
  shows "\<exists>r row h. load_approval t aid = Some (r, row) \<and> ap_sha256 r = Some h
    \<and> tool_action_payload_sha256 sha256 (ta_tool row) (ta_args row) (ta_risk row) = Inr h
    \<and> ta_tool row = tl_tool_name a \<and> ta_risk row = tl_risk_level a"
  using assms
  by (auto simp: insert_approval_def Let_def load_approval_def store_simps target_id_def
        insert_tool_action_def put_approval_def approval_def update_conv'
        split: sum.splits if_splits)

abbreviation commit_tool_action :: ToolAction where
  "commit_tool_action \<equiv> \<lparr>tl_action_id = ''act_1'', tl_tool_name = ''git_commit'',
     tl_arguments = [(''message'', PStr ''fix'')], tl_risk_level = ''medium'',
     tl_requires_approval = True, tl_proposed_by = ''agent''\<rparr>"

theorem fresh_approval_verifies_witness:
  "\<exists>t r row h. load_approval t ''appr_1'' = Some (r, row) \<and> ap_sha256 r = Some h
     \<and> tool_action_payload_sha256 (\<lambda>x. x) (ta_tool row) (ta_args row) (ta_risk row) = Inr h"
proof -
  obtain t where "insert_approval (\<lambda>x. x) (\<lambda>x y. x) ''appr_1'' (ByAction commit_tool_action) ''pending''
      None False (insert_tool_action commit_tool_action ''sess'' None ''approval_required'' None owned_store) = Inr t"
    by (simp add: insert_approval_def Let_def tool_action_payload_sha256_def approval_def
          insert_tool_action_def target_id_def owned_store_unfold)
  from fresh_approval_verifies [OF this] show ?thesis by blast
qed

text \<open>
  The ordinary inbox decides only ordinary approvals: when it returns a resolution, the approval
  was pending, not critical, not past its time limit and its proposal hashes to its intent; the
  approval then carries the decision, every other approval is untouched, and nothing is executed.
\<close>

theorem inbox_resolution_sound:
  assumes "inbox_resolve sha256 session_user aid approve who reason user s = (Inr res, t)"
  shows "\<exists>r row. load_approval s aid = Some (r, row) \<and> ap_status r = ''pending'' \<and> \<not> ap_critical r
    \<and> \<not> approval_expired r (clock s)
    \<and> (ap_sha256 r = None \<or> tool_action_payload_sha256 sha256 (ta_tool row) (ta_args row) (ta_risk row)
                              = Inr (the (ap_sha256 r)))
    \<and> status_of t aid = Some (if approve then ''approved'' else ''denied'')
    \<and> \<not> rs_executes_action res \<and> (\<forall>b. b = aid \<or> approval t b = approval s b)"
proof -
  obtain r row where load: "load_approval s aid = Some (r, row)"
    using assms by (auto simp: inbox_resolve_def split: option.splits)
  then have r: "approval s aid = Some r" by (auto simp: load_approval_def split: option.splits)
  then show ?thesis
    using assms load
    by (auto simp: inbox_resolve_def Let_def store_simps resolve_spec status_of_def
          split: option.splits if_splits sum.splits)
qed

theorem inbox_resolution_sound_witness:
  "\<exists>res t. inbox_resolve (\<lambda>x. ''h'') (\<lambda>x. None) ''appr_1'' True ''own'' [] None
      (insert_tool_action commit_tool_action ''sess'' None ''approval_required'' None pending_store) = (Inr res, t)
      \<and> status_of t ''appr_1'' = Some ''approved''"
proof -
  let ?s = "insert_tool_action commit_tool_action ''sess'' None ''approval_required'' None pending_store"
  have "\<not> isl (fst (inbox_resolve (\<lambda>x. ''h'') (\<lambda>x. None) ''appr_1'' True ''own'' [] None ?s))"
    by code_simp
  then obtain res where
    "inbox_resolve (\<lambda>x. ''h'') (\<lambda>x. None) ''appr_1'' True ''own'' [] None ?s =
       (Inr res, snd (inbox_resolve (\<lambda>x. ''h'') (\<lambda>x. None) ''appr_1'' True ''own'' [] None ?s))"
    by (metis prod.collapse sum.collapse(2))
  with inbox_resolution_sound [OF this] show ?thesis by auto
qed

end
