(* ===== verification/Code_Placement.thy ===== *)
theory Code_Placement
  imports Capability_Gates Policy_Engine
begin

text \<open>
  Which capability a command really exercises (\<^verbatim>\<open>execution/code_placement.py\<close>): the argv of a
  shell or process action, with the POSIX splitting of \<^verbatim>\<open>shlex\<close>, the programs that run code, and
  the rule that classifies them by the owner's environment and the sandbox of the host.
\<close>

subsection \<open>\<^verbatim>\<open>shlex.split(source, posix=True)\<close>\<close>

datatype lex_state = Between | Word | Quote char | Escape "char option"

definition lex_space :: "char \<Rightarrow> bool" where
  "lex_space c = (c \<in> {CHR '' '', CHR 0x09, CHR 0x0D, CHR 0x0A})"

definition lex_quote :: "char \<Rightarrow> bool" where
  "lex_quote c = (c = CHR 0x27 \<or> c = CHR 0x22)"

text \<open>
  One pass over the text with the token under way and whether it held a quotation. \<open>Escape (Some q)\<close>
  is an escape inside the quotation \<open>q\<close>. An open quotation or a trailing escape raises.
\<close>

fun shlex_run :: "lex_state \<Rightarrow> string \<Rightarrow> bool \<Rightarrow> string \<Rightarrow> string list option" where
  "shlex_run Between tok q [] = Some []"
| "shlex_run Between tok q (c # r) =
     (if lex_space c then shlex_run Between [] False r
      else if c = CHR 0x5C then shlex_run (Escape None) [] False r
      else if lex_quote c then shlex_run (Quote c) [] True r
      else shlex_run Word [c] False r)"
| "shlex_run Word tok q [] = Some [tok]"
| "shlex_run Word tok q (c # r) =
     (if lex_space c then map_option (\<lambda>ts. tok # ts) (shlex_run Between [] False r)
      else if lex_quote c then shlex_run (Quote c) tok True r
      else if c = CHR 0x5C then shlex_run (Escape None) tok q r
      else shlex_run Word (tok @ [c]) q r)"
| "shlex_run (Quote d) tok q [] = None"
| "shlex_run (Quote d) tok q (c # r) =
     (if c = d then shlex_run Word tok True r
      else if c = CHR 0x5C \<and> d = CHR 0x22 then shlex_run (Escape (Some d)) tok True r
      else shlex_run (Quote d) (tok @ [c]) True r)"
| "shlex_run (Escape e) tok q [] = None"
| "shlex_run (Escape None) tok q (c # r) = shlex_run Word (tok @ [c]) q r"
| "shlex_run (Escape (Some d)) tok q (c # r) =
     shlex_run (Quote d) (tok @ (if c \<noteq> CHR 0x5C \<and> c \<noteq> d then [CHR 0x5C, c] else [c])) q r"

definition shlex_split :: "string \<Rightarrow> string list option" where
  "shlex_split source = shlex_run Between [] False source"

subsection \<open>The program\<close>

definition CODE_RUNNERS :: "string list" where
  "CODE_RUNNERS = [''python'', ''python3'', ''pip'', ''pip3'', ''node'', ''npm'', ''npx'']"

text \<open>\<^verbatim>\<open>Path(text).name\<close> on a POSIX host.\<close>

definition path_name :: "string \<Rightarrow> string" where
  "path_name t =
     (case filter (\<lambda>p. p \<noteq> [] \<and> p \<noteq> ''.'') (path_parts t) of [] \<Rightarrow> [] | p # ps \<Rightarrow> last (p # ps))"

definition code_runner :: "string list \<Rightarrow> string option" where
  "code_runner argv =
     (case argv of
        [] \<Rightarrow> None
      | a # _ \<Rightarrow>
          (let low = str_lower (path_name a);
               binary = (if ends_with low ''.exe'' then take (length low - 4) low else low)
           in if binary \<in> set CODE_RUNNERS then Some binary else None))"

text \<open>Iterating a value, as the comprehension over \<^verbatim>\<open>args\<close> does; a scalar raises.\<close>

definition iterate :: "pyval \<Rightarrow> py_error + string list" where
  "iterate v =
     (case v of
        PList xs \<Rightarrow> Inr (map py_str xs)
      | PStr s \<Rightarrow> Inr (map (\<lambda>c. [c]) s)
      | PDict d \<Rightarrow> Inr (map fst d)
      | _ \<Rightarrow> Inl (Raised ''TypeError''))"

definition argv_of :: "string \<Rightarrow> pydict \<Rightarrow> py_error + string list" where
  "argv_of cap args =
     (if cap = ''process_execution'' then
        (let executable = str_strip (case map_of args ''executable'' of None \<Rightarrow> [] | Some v \<Rightarrow> py_str v)
         in if executable = [] then Inr []
            else (case iterate (case map_of args ''args'' of None \<Rightarrow> PList [] | Some v \<Rightarrow> v) of
                    Inl e \<Rightarrow> Inl e
                  | Inr parts \<Rightarrow> Inr (executable # parts)))
      else (case dict_get args ''command'' of
              PStr source \<Rightarrow> Inr (case shlex_split source of None \<Rightarrow> [] | Some ts \<Rightarrow> ts)
            | _ \<Rightarrow> Inr []))"

subsection \<open>The rule\<close>

record CodePlacement =
  pl_kind :: string
  pl_binary :: string
  pl_reason :: string
  pl_classification :: string
  pl_placement_reason :: string

definition needs_host_network_capability :: "CodePlacement \<Rightarrow> bool" where
  "needs_host_network_capability p = (pl_classification p = ''host_network'')"

definition execution_environment_was_chosen :: "store \<Rightarrow> string \<Rightarrow> bool" where
  "execution_environment_was_chosen s owner = (environment_selection s owner \<noteq> None)"

definition selected_execution_environment :: "store \<Rightarrow> string \<Rightarrow> string" where
  "selected_execution_environment s owner =
     (case environment_selection s owner of None \<Rightarrow> ''local_native'' | Some e \<Rightarrow> e)"

definition place_code :: "bool \<Rightarrow> store \<Rightarrow> string \<Rightarrow> string list \<Rightarrow> bool \<Rightarrow> bool \<Rightarrow> CodePlacement" where
  "place_code available s owner argv background interactive =
     (let binary = (case code_runner argv of None \<Rightarrow> [] | Some b \<Rightarrow> b);
          chosen = execution_environment_was_chosen s owner;
          selected = selected_execution_environment s owner;
          (classification, reason) =
            (if binary = [] then (''not_code'', [])
             else if chosen \<and> selected \<noteq> ''local_native''
             then (''owner_environment'', ''owner_chose:'' @ selected)
             else if chosen then (''host_network'', ''owner_chose_host'')
             else if background \<or> interactive
             then (''host_network'', ''sandbox_cannot_host_background_or_terminal'')
             else if available then (''sandbox'', ''native_sandbox_available'')
             else (''host_network'', ''no_sandbox_on_this_host''));
          (kind, placement_reason) =
            (if chosen \<and> selected \<notin> {''local_native'', ''native_sandbox''}
             then (''unavailable'', ''native_sandbox_required'')
             else if background \<or> interactive then (''unavailable'', ''native_sandbox_mode_unsupported'')
             else if \<not> available then (''unavailable'', ''native_sandbox_unavailable'')
             else (''sandbox'', ''native_sandbox_available''))
      in \<lparr>pl_kind = kind, pl_binary = binary, pl_reason = reason, pl_classification = classification,
          pl_placement_reason = placement_reason\<rparr>)"

subsection \<open>Properties\<close>

text \<open>A word without separators, quotes or escapes comes back whole.\<close>

definition plain_word :: "string \<Rightarrow> bool" where
  "plain_word w = (w \<noteq> [] \<and> list_all (\<lambda>c. \<not> lex_space c \<and> \<not> lex_quote c \<and> c \<noteq> CHR 0x5C) w)"

lemma shlex_word:
  "list_all (\<lambda>c. \<not> lex_space c \<and> \<not> lex_quote c \<and> c \<noteq> CHR 0x5C) w \<Longrightarrow>
     shlex_run Word tok q (w @ r) = shlex_run Word (tok @ w) q r"
  by (induction w arbitrary: tok) auto

lemma shlex_plain_cons:
  "plain_word w \<Longrightarrow> shlex_run Between [] False (w @ r) = shlex_run Word w False r"
  using shlex_word [of "tl w" "[hd w]" False r] by (cases w) (auto simp: plain_word_def)

fun join_words :: "string list \<Rightarrow> string" where
  "join_words [] = []"
| "join_words [w] = w"
| "join_words (w # v # ws) = w @ '' '' @ join_words (v # ws)"

text \<open>
  Splitting a command line returns exactly the words it was joined from, for words without
  blanks, quotes or backslashes: the program the placement rule sees is the first word.
\<close>

theorem shlex_split_joined_words:
  assumes "list_all plain_word ws"
  shows "shlex_split (join_words ws) = Some ws"
  using assms unfolding shlex_split_def
proof (induction ws rule: join_words.induct)
  case 1
  then show ?case by simp
next
  case (2 w)
  then show ?case using shlex_plain_cons [of w "[]"] by simp
next
  case (3 w v ws)
  then show ?case using shlex_plain_cons [of w "'' '' @ join_words (v # ws)"] by (simp add: lex_space_def)
qed

theorem shlex_split_joined_words_witness:
  "shlex_split ''git commit -m x'' = Some [''git'', ''commit'', ''-m'', ''x'']"
proof -
  have "list_all plain_word [''git'', ''commit'', ''-m'', ''x'']" by code_simp
  from shlex_split_joined_words [OF this] show ?thesis by simp
qed

text \<open>
  A code-running command is classified to need the host-network permission exactly when it would
  run outside the sandbox by default or by the owner's choice of the host: never when the program is no
  code runner, never in another environment the owner chose, and never when the native sandbox is
  available and nothing rules it out.
\<close>

theorem host_network_classification:
  "needs_host_network_capability (place_code available s owner argv background interactive) \<longleftrightarrow>
     code_runner argv \<noteq> None
     \<and> (environment_selection s owner = Some ''local_native''
        \<or> environment_selection s owner = None \<and> (background \<or> interactive \<or> available = False))"
proof -
  have "code_runner argv \<noteq> Some []"
    by (auto simp: code_runner_def Let_def CODE_RUNNERS_def split: list.splits)
  then show ?thesis
    by (cases "code_runner argv"; cases "environment_selection s owner")
      (auto simp: needs_host_network_capability_def place_code_def Let_def
         execution_environment_was_chosen_def selected_execution_environment_def)
qed

end
