(* ===== verification/Runtime_Authority.thy ===== *)
theory Runtime_Authority
  imports Approval_Store Standing_Grants Code_Placement
begin

text \<open>
  The runtime authority (\<^verbatim>\<open>runtime/authority/router.py\<close>): \<^verbatim>\<open>route_action\<close> from the placement of a
  command to the call of its executor, with every early return, and the posture snapshot of
  \<^verbatim>\<open>runtime/authority/posture.py\<close>. Each stage of the method is one definition; \<open>route_action\<close>
  composes them in the order of the code.

  The environment of the authority holds what the method calls and this development does not model:
  the executors behind the registry, the repository-target and delegation services, restore plans, the
  pre-image capture, the owner's notification, the host sandbox probe and the policy engine's
  classifiers. An executor may raise; it is the only parameter that changes the store.

  Events carry the payloads of the code; identifiers and timestamps of policy decisions are left out.
\<close>

subsection \<open>The environment\<close>

datatype snapshot =
    CaptureIneligible
  | SnapshotRaised string
  | NoPreImage
  | PreImages "(string \<times> string) list"

type_synonym outcome = "(py_error + GovernedActionResult) \<times> store"

record authority_env =
  env_uuid :: "nat \<Rightarrow> string"
  env_sha256 :: "string \<Rightarrow> string"
  env_plus_hours :: "string \<Rightarrow> rat \<Rightarrow> string"
  env_policy :: policy_env
  env_sandbox :: bool
  env_registered :: "string \<Rightarrow> bool"
  env_executor :: "string \<Rightarrow> GovernedAction \<Rightarrow> Principal \<Rightarrow> store \<Rightarrow> (py_error + ExecutionResult) \<times> store"
  env_repo_target :: "string \<Rightarrow> (GovernedAction \<Rightarrow> Principal \<Rightarrow> store \<Rightarrow> py_error + pydict option) option"
  env_delegation :: "GovernedAction \<Rightarrow> Principal \<Rightarrow> pydict \<Rightarrow> store \<Rightarrow> string option \<times> string list"
  env_restore_plan :: "string \<Rightarrow> string \<Rightarrow> store \<Rightarrow> bool option"
  env_snapshot :: "string \<Rightarrow> pydict \<Rightarrow> string \<Rightarrow> store \<Rightarrow> snapshot"
  env_commit :: "string \<times> string \<Rightarrow> string \<Rightarrow> GovernedAction \<Rightarrow> Principal \<Rightarrow> (string \<times> string) + pydict"
  env_display_path :: "string \<Rightarrow> string"
  env_notify :: "string \<Rightarrow> string \<Rightarrow> store \<Rightarrow> (string \<times> string) option"

definition result :: "GovernedAction \<Rightarrow> string \<Rightarrow> string \<Rightarrow> store \<Rightarrow> outcome" where
  "result a decision msg s = (Inr (governed_result a decision msg), s)"

subsection \<open>Posture\<close>

definition capture_posture :: "store \<Rightarrow> Principal \<Rightarrow> string \<Rightarrow> pydict" where
  "capture_posture s p sid =
     (let session = (if sid = [] then None else load_api_session s sid);
          mfa = principal_mfa_enrolled s (principal_id p)
      in [(''principal_id'', PStr (principal_id p)),
          (''principal_type'', PStr (principal_type_value (principal_type p))),
          (''session_id'', if sid = [] then PNone else PStr sid),
          (''interface'', PStr (if session \<noteq> None then ''web_api'' else ''local'')),
          (''mfa_enrolled'', PBool mfa),
          (''auth_strength'', PStr (if mfa then ''mfa'' else ''password'')),
          (''session_revoked'', PBool (case session of None \<Rightarrow> False | Some x \<Rightarrow> as_revoked x)),
          (''session_age_seconds'',
             case session of None \<Rightarrow> PNone
             | Some x \<Rightarrow> (case as_age_seconds x of None \<Rightarrow> PNone | Some n \<Rightarrow> PInt n)),
          (''captured_at'', PStr (clock s))])"

definition posture_degraded_reason :: "pydict \<Rightarrow> string option" where
  "posture_degraded_reason posture =
     (if truthy (dict_get posture ''session_revoked'') then Some ''posture_degraded:session_revoked''
      else None)"

definition capture_action_posture ::
  "store \<Rightarrow> Principal \<Rightarrow> GovernedAction \<Rightarrow> DecisionMode option \<Rightarrow> grant_row option \<Rightarrow> pydict" where
  "capture_action_posture s p a mode grant =
     capture_posture s p (session_id a)
     @ [(''decision_mode'', opt_str (map_option mode_value mode)),
        (''grant_id'', opt_str (map_option gr_id grant)),
        (''action_type'', PStr (action_type a))]"

subsection \<open>Checks on the principal\<close>

definition check_principal_active :: "store \<Rightarrow> Principal \<Rightarrow> string option" where
  "check_principal_active s p =
     (if \<not> is_active p then Some ''principal_not_active''
      else case pr_expires_at p of
             Some e \<Rightarrow> if e \<noteq> [] \<and> clock s > e then Some ''principal_expired'' else None
           | None \<Rightarrow> None)"

definition check_domain_scope :: "Principal \<Rightarrow> string \<Rightarrow> string option" where
  "check_domain_scope p required =
     (if required \<noteq> [] \<and> required \<notin> set (domain_scopes p)
      then Some (scoped ''domain_scope_denied'' required) else None)"

definition check_self_approval :: "Principal \<Rightarrow> GovernedAction \<Rightarrow> string option" where
  "check_self_approval p a =
     (if ga_principal_id a = principal_id p \<and> requires_approval a \<and> \<not> human p
      then Some ''ai_cannot_approve_own_action'' else None)"

definition check_self_grant :: "Principal \<Rightarrow> string \<Rightarrow> string option" where
  "check_self_grant p atype =
     (if atype \<in> {''role_grant'', ''role_assign''} \<and> \<not> human p
      then Some ''ai_cannot_grant_roles'' else None)"

text \<open>The six checks in the order of \<^verbatim>\<open>route_action\<close>: decision and message of the first that fails.\<close>

definition first_refusal :: "(string \<times> string option) list \<Rightarrow> (string \<times> string) option" where
  "first_refusal cs =
     (case List.find (\<lambda>(d, m). m \<noteq> None) cs of
        None \<Rightarrow> None
      | Some (d, m) \<Rightarrow> Some (d, the m))"

definition gate_decision :: "string option \<Rightarrow> string" where
  "gate_decision gate =
     (if gate = Some ''disabled_by_capability_gate'' then ''disabled_by_capability_gate'' else ''deny'')"

definition admission_refusal :: "GovernedAction \<Rightarrow> Principal \<Rightarrow> store \<Rightarrow> (string \<times> string) option" where
  "admission_refusal a p s =
     (let gate = check_capability_gate s (action_type a) (tool_name a) (Some (principal_id p))
      in first_refusal
           [(''deny'', check_principal_active s p),
            (''deny'', check_domain_scope p (domain_scope a)),
            (''deny'', check_self_approval p a),
            (''deny'', check_self_grant p (action_type a)),
            (''deny'', check_runtime_gate_enable s p (action_type a)),
            (gate_decision gate, gate)])"

subsection \<open>Placement of a command\<close>

definition place_action ::
  "authority_env \<Rightarrow> GovernedAction \<Rightarrow> Principal \<Rightarrow> store
   \<Rightarrow> (py_error + GovernedAction \<times> GovernedActionResult option) \<times> store" where
  "place_action e a p s =
     (case capability_of (action_type a) (tool_name a) of
        None \<Rightarrow> (Inr (a, None), s)
      | Some base \<Rightarrow>
          if base \<notin> set COMMAND_CAPABILITIES then (Inr (a, None), s)
          else (case argv_of base (arguments a) of
            Inl err \<Rightarrow> (Inl err, s)
          | Inr argv \<Rightarrow>
              (let placement = place_code (env_sandbox e) s (principal_id p) argv False False
               in if \<not> needs_host_network_capability placement then (Inr (a, None), s)
                  else (let gate = check_capability_gate s (action_type a) (tool_name a) (Some (principal_id p))
                        in if gate \<noteq> None
                           then (Inr (a, Some (governed_result a (gate_decision gate) (the gate))), s)
                           else if resolve_decision_mode s base (Some (principal_id p)) = DENY
                           then (Inr (a, Some (governed_result a ''deny'' ''denied_by_decision_mode'')), s)
                           else (Inr (a\<lparr>action_type := HOST_NETWORK_CODE_CAPABILITY\<rparr>, None),
                                 authority_event ''code_placement_classified'' ''runtime_authority''
                                   [(''action_id'', PStr (action_id a)), (''base_capability'', PStr base),
                                    (''capability'', PStr HOST_NETWORK_CODE_CAPABILITY),
                                    (''program'', PStr (pl_binary placement)),
                                    (''reason'', PStr (pl_reason placement))]
                                   (session_id a) (turn_id a) s)))))"

subsection \<open>The critical floor\<close>

definition restore_risk :: "authority_env \<Rightarrow> GovernedAction \<Rightarrow> Principal \<Rightarrow> store \<Rightarrow> GovernedAction" where
  "restore_risk e a p s =
     (if action_type a \<in> {''checkpoint_restore'', ''checkpoint_restore_execution''} then
        (let cid = (case map_of (arguments a) ''checkpoint_id'' of None \<Rightarrow> [] | Some v \<Rightarrow> py_str v)
         in if cid = [] then a
            else (case env_restore_plan e cid (principal_id p) s of
                    Some touches \<Rightarrow>
                      a\<lparr>arguments := dict_set (arguments a) ''touches_other_principal'' (PBool touches),
                        risk_level := ''medium''\<rparr>
                  | None \<Rightarrow> a\<lparr>risk_level := ''medium''\<rparr>))
      else a)"

definition critical_confirmation_valid :: "GovernedAction \<Rightarrow> Principal \<Rightarrow> store \<Rightarrow> bool" where
  "critical_confirmation_valid a p s =
     (case critical_confirmation a of
        None \<Rightarrow> False
      | Some c \<Rightarrow>
          if \<not> human p then False
          else if cc_confirmed_by c \<noteq> principal_id p then False
          else (case load_approval s (cc_approval_id c) of
                  None \<Rightarrow> False
                | Some (r, t) \<Rightarrow> if \<not> ap_critical r then False else ap_status r = ''executing''))"

fun error_name :: "py_error \<Rightarrow> string" where
  "error_name (ContractValidationError m) = ''ContractValidationError''"
| "error_name JSONDecodeError = ''JSONDecodeError''"
| "error_name IntegrityError = ''IntegrityError''"
| "error_name (Raised m) = ''ValueError''"

definition park_critical_action ::
  "authority_env \<Rightarrow> GovernedAction \<Rightarrow> Principal \<Rightarrow> CriticalMatch option \<Rightarrow> store \<Rightarrow> outcome" where
  "park_critical_action e a p m s =
     (case new_id (env_uuid e) ''appr_'' s of (aid, s1) \<Rightarrow>
       (case tool_action (action_id a) (tool_name a) (arguments a) (risk_level a) True (principal_id p) of
          Inl err \<Rightarrow> (Inl err, s1)
        | Inr ta \<Rightarrow>
            (let posture = capture_action_posture s1 p a None None;
                 criterion = (case m of None \<Rightarrow> ''declared_critical'' | Some x \<Rightarrow> cm_code x);
                 s2 = insert_tool_action ta (if session_id a = [] then ''critical'' else session_id a)
                        (turn_id a) ''critical_pending'' None s1
             in case insert_approval (env_sha256 e) (env_plus_hours e) aid (ByAction ta) ''pending''
                       (Some OWNER_TIMEOUT) True s2 of
                  Inl err \<Rightarrow> result a ''deny'' (''critical_park_failed:'' @ error_name err) s2
                | Inr s3 \<Rightarrow>
                    (let s4 = authority_event ''critical_approval_created'' ''runtime_authority''
                                [(''approval_id'', PStr aid), (''action_id'', PStr (action_id a)),
                                 (''action_type'', PStr (action_type a)), (''criterion'', PStr criterion),
                                 (''proposed_by'', PStr (principal_id p)), (''posture'', PDict posture)]
                                (session_id a) (turn_id a) s3;
                         notice = env_notify e (principal_id p) aid s4;
                         s5 = (case notice of
                                 None \<Rightarrow> s4
                               | Some (owner, nid) \<Rightarrow>
                                   s4\<lparr>notifications := notifications s4 @
                                      [\<lparr>nt_principal = owner, nt_kind = ''critical_approval_pending'',
                                        nt_subject = aid, nt_read = False\<rparr>]\<rparr>);
                         s6 = authority_event ''critical_approval_notified'' ''runtime_authority''
                                [(''approval_id'', PStr aid),
                                 (''notification_id'', opt_str (map_option snd notice)),
                                 (''delivered'', PBool (notice \<noteq> None)), (''posture'', PDict posture)]
                                (session_id a) (turn_id a) s5
                     in (Inr ((governed_result a ''needs_human_confirmation''
                                 ''critical_action_parked_for_human'')\<lparr>res_approval_id := Some aid\<rparr>), s6)))))"

subsection \<open>Decision mode, grants and delegations\<close>

definition action_mode :: "GovernedAction \<Rightarrow> Principal \<Rightarrow> store \<Rightarrow> DecisionMode option" where
  "action_mode a p s =
     (case decision_mode_override a of
        Some m \<Rightarrow> parse_decision_mode m
      | None \<Rightarrow>
          (case capability_of (action_type a) (tool_name a) of
             None \<Rightarrow> None
           | Some cap \<Rightarrow> Some (resolve_decision_mode s cap (Some (principal_id p)))))"

definition mode_needs_approval :: "DecisionMode option \<Rightarrow> GovernedAction \<Rightarrow> PolicyDecision \<Rightarrow> bool" where
  "mode_needs_approval mode a d =
     (case mode of
        None \<Rightarrow> requires_approval a \<or> pd_decision d = ''needs_approval''
      | Some ALWAYS_ALLOW \<Rightarrow> False
      | Some AUTO \<Rightarrow> auto_requires_approval (risk_level a)
      | Some _ \<Rightarrow> True)"

definition repository_write_target ::
  "authority_env \<Rightarrow> GovernedAction \<Rightarrow> Principal \<Rightarrow> store \<Rightarrow> pydict option" where
  "repository_write_target e a p s =
     (let cap = (case CAPABILITY_GATE_MAP (action_type a) of Some c \<Rightarrow> c | None \<Rightarrow> action_type a)
      in case env_repo_target e cap of
           None \<Rightarrow> None
         | Some resolve \<Rightarrow>
             (case resolve a p s of
                Inl _ \<Rightarrow> Some [(''repository'', PStr []), (''operation'', PStr ''unresolved''), (''branch'', PNone)]
              | Inr None \<Rightarrow> None
              | Inr (Some target) \<Rightarrow> if target = [] then None else Some target))"

record authorisation =
  au_action :: GovernedAction
  au_needs_approval :: bool
  au_grant :: "grant_row option"

definition authorise ::
  "authority_env \<Rightarrow> GovernedAction \<Rightarrow> Principal \<Rightarrow> DecisionMode option \<Rightarrow> PolicyDecision \<Rightarrow> store
   \<Rightarrow> authorisation \<times> store" where
  "authorise e a p mode d s =
     (let needs = mode_needs_approval mode a d;
          grant = (if needs \<and> \<not> human p then find_matching_standing_grant p a (risk_level a) s else None);
          needs1 = (needs \<and> grant = None);
          target = (if \<not> human p \<and> authority_kind a \<noteq> ''approval''
                    then repository_write_target e a p s else None)
      in case target of
           None \<Rightarrow> (\<lparr>au_action = a, au_needs_approval = needs1, au_grant = grant\<rparr>, s)
         | Some t \<Rightarrow>
             (case env_delegation e a p t s of
                (None, problems) \<Rightarrow>
                  (\<lparr>au_action = a, au_needs_approval = True, au_grant = None\<rparr>,
                   authority_event ''repository_delegation_refused'' ''runtime_authority''
                     [(''action_id'', PStr (action_id a)), (''action_type'', PStr (action_type a)),
                      (''repository'', dict_get t ''repository''), (''operation'', dict_get t ''operation''),
                      (''branch'', dict_get t ''branch''), (''problems'', PList (map PStr problems))]
                     (session_id a) (turn_id a) s)
              | (Some did, _) \<Rightarrow>
                  (\<lparr>au_action = a\<lparr>authority_kind := ''delegation'', authority_id := did\<rparr>,
                    au_needs_approval = False, au_grant = None\<rparr>, s)))"

subsection \<open>Execution\<close>

text \<open>
  \<^verbatim>\<open>RoutedExecutor.execute\<close>: the executor is entered only while the authority dispatches this action
  for this capability. \<open>token\<close> is the live dispatch, capability and action.
\<close>

definition routed_execute ::
  "(string \<times> string) option
   \<Rightarrow> (string \<Rightarrow> GovernedAction \<Rightarrow> Principal \<Rightarrow> store \<Rightarrow> (py_error + ExecutionResult) \<times> store)
   \<Rightarrow> string \<Rightarrow> GovernedAction \<Rightarrow> Principal \<Rightarrow> store \<Rightarrow> (py_error + ExecutionResult) \<times> store" where
  "routed_execute token executor cap a p s =
     (if token = Some (cap, action_id a) then executor cap a p s
      else (Inr \<lparr>er_ok = False, er_capability = cap, er_action_id = action_id a,
                 er_reason_code = Some ''executor_not_routed'',
                 er_summary = cap @ '' refused: it runs only when the runtime ''
                                  @ ''authority dispatches it, and nothing did.'',
                 er_artifacts = []\<rparr>, s))"

definition checkpoint_remediation :: "string \<Rightarrow> string" where
  "checkpoint_remediation code =
     (if ends_with code ''_os_error''
      then ''Check workspace permissions and enable Windows long-path support.''
      else if ends_with code ''_invalid_path'' then ''Choose a valid file path inside the workspace.''
      else ''Open Diagnostics and retry after repairing checkpoint storage.'')"

definition capture_outcome :: "authority_env \<Rightarrow> bool \<Rightarrow> string \<Rightarrow> string \<Rightarrow> string option \<Rightarrow> string \<Rightarrow> string \<Rightarrow> pyval" where
  "capture_outcome e ok stage reason path now remediation =
     PDict [(''ok'', PBool ok), (''stage'', PStr stage), (''reason_code'', PStr reason),
            (''display_path'', opt_str (map_option (\<lambda>p. take 512 (env_display_path e p)) path)),
            (''checked_at'', PStr now), (''remediation'', PStr remediation)]"

definition snapshot_pre_image ::
  "authority_env \<Rightarrow> string \<Rightarrow> pydict \<Rightarrow> string \<Rightarrow> store \<Rightarrow> (string \<times> string) list option \<times> pyval option" where
  "snapshot_pre_image e cap args sid s =
     (let v = dict_get args ''path'';
          path = (if truthy v then Some (py_str v) else None)
      in case env_snapshot e cap args sid s of
           CaptureIneligible \<Rightarrow> (None, None)
         | SnapshotRaised kind \<Rightarrow>
             (let reason = ''checkpoint_snapshot_'' @ kind
              in (None, Some (capture_outcome e False ''snapshot'' reason path (clock s)
                                (checkpoint_remediation reason))))
         | NoPreImage \<Rightarrow>
             (None, Some (capture_outcome e False ''ineligible'' ''checkpoint_capture_ineligible'' path (clock s)
                            ''Choose a valid file path inside the workspace.''))
         | PreImages items \<Rightarrow>
             (Some items, Some (capture_outcome e True ''snapshot_ready'' ''checkpoint_snapshot_ready'' path
                                  (clock s) [])))"

text \<open>
  The loop of \<^verbatim>\<open>_commit_pre_image\<close>: one event per committed item, and the kind and name of the exception
  that ends it, if any. An empty list has no first path, which raises \<^verbatim>\<open>AttributeError\<close>.
\<close>

fun commit_items ::
  "authority_env \<Rightarrow> (string \<times> string) list \<Rightarrow> string \<Rightarrow> GovernedAction \<Rightarrow> Principal \<Rightarrow> store
   \<Rightarrow> (string \<times> string) option \<times> store" where
  "commit_items e [] sid a p s = (None, s)"
| "commit_items e (i # is) sid a p s =
     (case env_commit e i sid a p of
        Inl err \<Rightarrow> (Some err, s)
      | Inr meta \<Rightarrow> commit_items e is sid a p
                      (authority_event ''checkpoint_captured'' ''checkpoint_capture'' meta sid (turn_id a) s))"

definition commit_pre_image ::
  "authority_env \<Rightarrow> (string \<times> string) list \<Rightarrow> GovernedAction \<Rightarrow> Principal \<Rightarrow> store \<Rightarrow> pyval \<times> store" where
  "commit_pre_image e items a p s =
     (let sid = (if origin_session_id a \<noteq> [] then origin_session_id a else session_id a);
          path = (case items of [] \<Rightarrow> None | (w, c) # _ \<Rightarrow> Some w)
      in case commit_items e items sid a p s of
           (err, s1) \<Rightarrow>
             (case (if err = None \<and> items = [] then Some (''internal_error'', ''AttributeError'') else err) of
                None \<Rightarrow>
                  (capture_outcome e True ''commit'' ''checkpoint_capture_ok'' path (clock s) [], s1)
              | Some (kind, name) \<Rightarrow>
                  (let reason = ''checkpoint_commit_'' @ kind
                   in (capture_outcome e False ''commit'' reason path (clock s) (checkpoint_remediation reason),
                       authority_event ''checkpoint_capture_failed'' ''checkpoint_capture''
                         [(''action_id'', PStr (action_id a)),
                          (''capability'', case items of [] \<Rightarrow> PNone | (w, c) # _ \<Rightarrow> PStr c),
                          (''reason'', PStr name)] (session_id a) (turn_id a) s1))))"

definition execute_action ::
  "authority_env \<Rightarrow> GovernedAction \<Rightarrow> Principal \<Rightarrow> PolicyDecision \<Rightarrow> pydict \<Rightarrow> store \<Rightarrow> outcome" where
  "execute_action e a p d posture s =
     (let cap = (case CAPABILITY_GATE_MAP (action_type a) of Some c \<Rightarrow> c | None \<Rightarrow> action_type a)
      in if \<not> env_registered e cap
         then (Inr ((governed_result a ''allow'' ''allowed'')
                      \<lparr>res_policy := Some d, res_error := Some ''execution_unavailable:no_executor''\<rparr>), s)
         else (case snapshot_pre_image e cap (arguments a)
                      (if origin_session_id a \<noteq> [] then origin_session_id a else session_id a) s of
           (pre, capture) \<Rightarrow>
             (case routed_execute (Some (cap, action_id a)) (env_executor e) cap a p s of
                (Inl err, s1) \<Rightarrow> (Inl err, s1)
              | (Inr r, s1) \<Rightarrow>
                  (let (capture1, s2) =
                         (case pre of
                            Some items \<Rightarrow>
                              if er_ok r then (case commit_pre_image e items a p s1 of (c, s') \<Rightarrow> (Some c, s'))
                              else (capture, s1)
                          | None \<Rightarrow> (capture, s1));
                       artifacts = (case capture1 of
                                      Some c \<Rightarrow> if er_ok r then dict_set (er_artifacts r) ''checkpoint_capture'' c
                                                else er_artifacts r
                                    | None \<Rightarrow> er_artifacts r);
                       s3 = authority_event (if er_ok r then ''action_executed'' else ''action_failed'') ''executor''
                              [(''action_id'', PStr (er_action_id r)), (''capability'', PStr (er_capability r)),
                               (''ok'', PBool (er_ok r)), (''reason_code'', opt_str (er_reason_code r)),
                               (''summary'', PStr (er_summary r)), (''artifacts'', PDict artifacts),
                               (''posture'', PDict posture)] (session_id a) (turn_id a) s2
                   in (Inr \<lparr>res_action_id = action_id a, res_decision = ''allow'', res_policy = Some d,
                            res_message = (if er_ok r then ''executed''
                                           else ''execution_failed:'' @ py_str (opt_str (er_reason_code r))),
                            res_error = (if er_ok r then None else er_reason_code r),
                            res_approval_id = None, res_artifacts = artifacts\<rparr>, s3)))))"

subsection \<open>Routing\<close>

definition decision_payload :: "PolicyDecision \<Rightarrow> pydict" where
  "decision_payload d =
     [(''decision'', PStr (pd_decision d)), (''reasons'', PList (map PStr (pd_reasons d))),
      (''requires_user_approval'', PBool (pd_requires_user_approval d)),
      (''policy_version'', PStr (pd_version d)), (''risk_level'', PStr (pd_risk d))]"

definition engine :: "authority_env \<Rightarrow> store \<Rightarrow> policy_env" where
  "engine e s = (env_policy e)\<lparr>managed_rules := Some (managed_policies s)\<rparr>"

definition with_policy :: "PolicyDecision \<Rightarrow> GovernedAction \<Rightarrow> string \<Rightarrow> string \<Rightarrow> store \<Rightarrow> outcome" where
  "with_policy d a decision msg s = (Inr ((governed_result a decision msg)\<lparr>res_policy := Some d\<rparr>), s)"

text \<open>From the risk acceptance to the executor.\<close>

definition settle_and_execute ::
  "authority_env \<Rightarrow> GovernedAction \<Rightarrow> Principal \<Rightarrow> PolicyDecision \<Rightarrow> DecisionMode option \<Rightarrow> grant_row option
   \<Rightarrow> store \<Rightarrow> outcome" where
  "settle_and_execute e a p d mode grant s =
     (let accepted = (if requires_risk_acceptance a
                      then find_valid_risk_acceptance s (principal_id p) (action_type a) (domain_scope a) (risk_level a)
                      else None)
      in if requires_risk_acceptance a \<and> accepted = None
         then with_policy d a ''needs_risk_acceptance'' ''risk_acceptance_required'' s
         else (let s1 = (case accepted of
                           Some r \<Rightarrow> if rk_one_time r = ''one_time'' then consume_risk_acceptance (rk_id r) s else s
                         | None \<Rightarrow> s);
                   posture = capture_action_posture s1 p a mode grant;
                   s2 = (case grant of
                           None \<Rightarrow> s1
                         | Some g \<Rightarrow>
                             authority_event ''standing_grant_applied'' ''runtime_authority''
                               [(''grant_id'', PStr (gr_id g)), (''action_id'', PStr (action_id a)),
                                (''action_type'', PStr (action_type a)), (''risk_level'', PStr (risk_level a)),
                                (''posture'', PDict posture)] (session_id a) (turn_id a)
                               (record_standing_grant_use (gr_id g) s1))
               in execute_action e a p d posture s2))"

text \<open>From the policy review on.\<close>

definition review_and_execute :: "authority_env \<Rightarrow> GovernedAction \<Rightarrow> Principal \<Rightarrow> store \<Rightarrow> outcome" where
  "review_and_execute e a p s =
     (case tool_action (action_id a) (tool_name a) (arguments a) (risk_level a) (requires_approval a)
             (principal_id p) of
        Inl err \<Rightarrow> (Inl err, s)
      | Inr ta \<Rightarrow>
     (case review (engine e s) ta None of
        Inl err \<Rightarrow> (Inl err, s)
      | Inr d \<Rightarrow>
          (let s1 = authority_event ''policy_decision'' ''policy_engine'' (decision_payload d)
                      (session_id a) (turn_id a) s;
               mode = action_mode a p s1
           in if pd_decision d = ''deny'' then with_policy d a ''deny'' ''denied_by_policy'' s1
              else if mode = Some DENY then with_policy d a ''deny'' ''denied_by_decision_mode'' s1
              else (case authorise e a p mode d s1 of
                (au, s2) \<Rightarrow>
                  if au_needs_approval au \<and> \<not> human p
                  then with_policy d (au_action au) ''needs_approval'' ''approval_required'' s2
                  else settle_and_execute e (au_action au) p d mode (au_grant au) s2))))"

definition critical_stage :: "authority_env \<Rightarrow> GovernedAction \<Rightarrow> Principal \<Rightarrow> store \<Rightarrow> outcome" where
  "critical_stage e a p s =
     (let m = classify_critical (action_type a) (tool_name a) (arguments a) []
      in if m \<noteq> None \<or> risk_level a = ''critical'' then
           (let s1 = (case m of
                        None \<Rightarrow> s
                      | Some x \<Rightarrow>
                          authority_event ''critical_action_classified'' ''runtime_authority''
                            [(''action_id'', PStr (action_id a)), (''action_type'', PStr (action_type a)),
                             (''criterion'', PStr (cm_code x)), (''zt_ref'', PStr (cm_zt_ref x)),
                             (''detail'', PStr (cm_detail x)), (''declared_risk'', PStr (risk_level a))]
                            (session_id a) (turn_id a) s)
            in if critical_confirmation_valid a p s1 then review_and_execute e a p s1
               else park_critical_action e a p m s1)
         else review_and_execute e a p s)"

definition route_action :: "authority_env \<Rightarrow> GovernedAction \<Rightarrow> Principal \<Rightarrow> store \<Rightarrow> outcome" where
  "route_action e a0 p s0 =
     (case place_action e a0 p s0 of
        (Inl err, s) \<Rightarrow> (Inl err, s)
      | (Inr (a, Some refusal), s) \<Rightarrow> (Inr refusal, s)
      | (Inr (a, None), s) \<Rightarrow>
          (let s1 = authority_event ''action_proposed'' ''runtime_authority''
                      [(''action_id'', PStr (action_id a)), (''action_type'', PStr (action_type a)),
                       (''principal_id'', PStr (ga_principal_id a)), (''domain_scope'', PStr (domain_scope a)),
                       (''risk_level'', PStr (risk_level a))] (session_id a) (turn_id a) s
           in case admission_refusal a p s1 of
                Some (decision, msg) \<Rightarrow> result a decision msg s1
              | None \<Rightarrow> critical_stage e (restore_risk e a p s1) p s1))"

text \<open>
  The action the checks of \<^verbatim>\<open>route_action\<close> are made on, and the state they start in: the proposed action as
  placed (a command that needs the host's network takes the capability for that) and, for a restore,
  as graded from its plan. \<open>None\<close> when the placement ends the routing.
\<close>

definition graded_action ::
  "authority_env \<Rightarrow> GovernedAction \<Rightarrow> Principal \<Rightarrow> store \<Rightarrow> (GovernedAction \<times> store) option" where
  "graded_action e a0 p s0 =
     (case place_action e a0 p s0 of
        (Inr (a, None), s) \<Rightarrow>
          (let s1 = authority_event ''action_proposed'' ''runtime_authority''
                      [(''action_id'', PStr (action_id a)), (''action_type'', PStr (action_type a)),
                       (''principal_id'', PStr (ga_principal_id a)), (''domain_scope'', PStr (domain_scope a)),
                       (''risk_level'', PStr (risk_level a))] (session_id a) (turn_id a) s
           in Some (restore_risk e a p s1, s1))
      | _ \<Rightarrow> None)"

text \<open>\<^verbatim>\<open>ActionRouter.route\<close>: the same, on a fresh action of the principal.\<close>

definition action_router_route ::
  "authority_env \<Rightarrow> GovernedAction \<Rightarrow> Principal \<Rightarrow> store \<Rightarrow> outcome" where
  "action_router_route e proposal p s =
     (case new_id (env_uuid e) ''act_'' s of (aid, s1) \<Rightarrow>
        route_action e (proposal\<lparr>action_id := aid, ga_principal_id := principal_id p,
                          origin_session_id := [], critical_confirmation := None,
                          decision_mode_override := None, authority_kind := [], authority_id := []\<rparr>) p s1)"

subsection \<open>What decisions read\<close>

text \<open>
  The tables the checks of \<^verbatim>\<open>route_action\<close> read; grants without their use counters. Logging, notices,
  the consumption of a risk acceptance and the counting of a grant's use leave them alone, so a check
  passed on the way still holds when the executor is entered.
\<close>

definition grant_core :: "grant_row \<Rightarrow> grant_row" where
  "grant_core g = g\<lparr>gr_use_count := 0, gr_last_used_at := None\<rparr>"

definition decision_state where
  "decision_state s = ((clock s, principals s, accounts s, roles s, managed_policies s),
     (gate_global s, gate_principal s, mode_global s, mode_principal s),
     (approvals s, tool_actions s, map grant_core (standing_grants s)))"

lemma decision_state_event [simp]:
  "decision_state (authority_event t a py se tu s) = decision_state s"
  by (simp add: decision_state_def authority_event_def append_event_def)

lemma decision_state_consume [simp]: "decision_state (consume_risk_acceptance rid s) = decision_state s"
  by (simp add: decision_state_def consume_risk_acceptance_def)

lemma decision_state_use [simp]: "decision_state (record_standing_grant_use gid s) = decision_state s"
  by (simp add: decision_state_def record_standing_grant_use_def grant_core_def comp_def)

lemma decision_stateD:
  assumes "decision_state t = decision_state s"
  shows "clock t = clock s" "principals t = principals s" "accounts t = accounts s" "roles t = roles s"
    "managed_policies t = managed_policies s" "gate_global t = gate_global s"
    "gate_principal t = gate_principal s" "mode_global t = mode_global s"
    "mode_principal t = mode_principal s" "approvals t = approvals s" "tool_actions t = tool_actions s"
    "map grant_core (standing_grants t) = map grant_core (standing_grants s)"
  using assms by (simp_all add: decision_state_def)

lemma same_scope: "decision_state t = decision_state s \<Longrightarrow> account_scope t pid = account_scope s pid"
  by (intro account_scope_cong) (auto dest: decision_stateD)

lemma same_persisted:
  assumes "decision_state t = decision_state s"
  shows "get_persisted_capability_state t cap pid = get_persisted_capability_state s cap pid"
  unfolding get_persisted_capability_state_def control_scope_def same_scope [OF assms]
    get_principal_capability_gate_state_def get_capability_gate_state_def decision_stateD [OF assms] ..

lemma same_gate:
  assumes "decision_state t = decision_state s"
  shows "check_capability_gate t atype tool pid = check_capability_gate s atype tool pid"
  unfolding check_capability_gate_def same_persisted [OF assms] uses_principal_controls_def
    same_scope [OF assms] ..

lemma same_admission:
  assumes "decision_state t = decision_state s"
  shows "admission_refusal a p t = admission_refusal a p s"
  unfolding admission_refusal_def check_principal_active_def check_runtime_gate_enable_def
    is_gate_manager_def get_role_name_def same_gate [OF assms] decision_stateD [OF assms] ..

lemma same_mode:
  assumes "decision_state t = decision_state s"
  shows "action_mode a p t = action_mode a p s"
  unfolding action_mode_def resolve_decision_mode_def control_scope_def same_scope [OF assms]
    decision_stateD [OF assms] ..

lemma same_confirmation:
  assumes "decision_state t = decision_state s"
  shows "critical_confirmation_valid a p t = critical_confirmation_valid a p s"
  unfolding critical_confirmation_valid_def load_approval_def approval_def decision_stateD [OF assms] ..

lemma same_engine: "decision_state t = decision_state s \<Longrightarrow> engine e t = engine e s"
  unfolding engine_def by (drule decision_stateD(5)) simp
text \<open>The authority stamped by a delegation is read by no check.\<close>

lemma stamp_fields:
  fixes a :: GovernedAction and k i :: string
  defines "b \<equiv> a\<lparr>authority_kind := k, authority_id := i\<rparr>"
  shows "action_type b = action_type a" "tool_name b = tool_name a" "domain_scope b = domain_scope a"
    "requires_approval b = requires_approval a" "ga_principal_id b = ga_principal_id a"
    "decision_mode_override b = decision_mode_override a"
    "critical_confirmation b = critical_confirmation a" "risk_level b = risk_level a"
    "arguments b = arguments a" "action_id b = action_id a"
  by (simp_all add: b_def)

lemma stamp_checks [simp]:
  "admission_refusal (a\<lparr>authority_kind := k, authority_id := i\<rparr>) p s = admission_refusal a p s"
  "action_mode (a\<lparr>authority_kind := k, authority_id := i\<rparr>) p s = action_mode a p s"
  "critical_confirmation_valid (a\<lparr>authority_kind := k, authority_id := i\<rparr>) p s =
     critical_confirmation_valid a p s"
  unfolding admission_refusal_def check_self_approval_def action_mode_def
    critical_confirmation_valid_def stamp_fields by (rule refl)+

subsection \<open>When an executor may be entered\<close>

definition not_critical :: "GovernedAction \<Rightarrow> bool" where
  "not_critical a \<longleftrightarrow>
     classify_critical (action_type a) (tool_name a) (arguments a) [] = None \<and> risk_level a \<noteq> ''critical''"

definition covered_by_grant :: "GovernedAction \<Rightarrow> Principal \<Rightarrow> store \<Rightarrow> bool" where
  "covered_by_grant a p s \<longleftrightarrow> (\<exists>g \<in> set (standing_grants s). gr_principal g = principal_id p
     \<and> clock s < gr_expires_at g
     \<and> grant_covers g (action_type a) (tool_name a) (domain_scope a) (risk_level a) (clock s))"

text \<open>
  Nobody needs to be asked: a human acts; or a delegation of the owner covers the repository write; or
  the action is no repository write (or runs under an approval) and its mode does not ask or a standing
  grant covers it. The repository services are asked in a state that agrees on everything decisions read.
\<close>

definition approval_satisfied ::
  "authority_env \<Rightarrow> GovernedAction \<Rightarrow> Principal \<Rightarrow> PolicyDecision \<Rightarrow> store \<Rightarrow> bool" where
  "approval_satisfied e a p d s \<longleftrightarrow> human p
     \<or> (\<exists>a0 s0 t did. decision_state s0 = decision_state s \<and> repository_write_target e a0 p s0 = Some t
          \<and> fst (env_delegation e a0 p t s0) = Some did
          \<and> a = a0\<lparr>authority_kind := ''delegation'', authority_id := did\<rparr>)
     \<or> ((authority_kind a = ''approval''
          \<or> (\<exists>s0. decision_state s0 = decision_state s \<and> repository_write_target e a p s0 = None))
        \<and> (\<not> mode_needs_approval (action_mode a p s) a d \<or> covered_by_grant a p s))"

definition may_run :: "authority_env \<Rightarrow> GovernedAction \<Rightarrow> Principal \<Rightarrow> store \<Rightarrow> bool" where
  "may_run e a p s \<longleftrightarrow>
     admission_refusal a p s = None
     \<and> (not_critical a \<or> critical_confirmation_valid a p s)
     \<and> action_mode a p s \<noteq> Some DENY
     \<and> (\<exists>ta d. tool_action (action_id a) (tool_name a) (arguments a) (risk_level a) (requires_approval a)
                 (principal_id p) = Inr ta
          \<and> review (engine e s) ta None = Inr d \<and> pd_decision d \<noteq> ''deny'' \<and> approval_satisfied e a p d s)"

lemma covered_by_grant_cong:
  assumes "decision_state t = decision_state s" and "covered_by_grant a p s"
  shows "covered_by_grant a p t"
proof -
  obtain g where g: "g \<in> set (standing_grants s)" "gr_principal g = principal_id p"
    "clock s < gr_expires_at g"
    "grant_covers g (action_type a) (tool_name a) (domain_scope a) (risk_level a) (clock s)"
    using assms(2) by (auto simp: covered_by_grant_def)
  have "grant_core g \<in> set (map grant_core (standing_grants t))"
    unfolding decision_stateD(12) [OF assms(1)] using g(1) by simp
  then obtain g' where g': "g' \<in> set (standing_grants t)" "grant_core g' = grant_core g" by auto
  from g'(2) have "gr_principal g' = gr_principal g" "gr_expires_at g' = gr_expires_at g"
    "gr_revoked g' = gr_revoked g" "gr_action_type g' = gr_action_type g" "gr_tool g' = gr_tool g"
    "gr_ceiling g' = gr_ceiling g" "gr_scope g' = gr_scope g"
    by (cases g; cases g'; simp add: grant_core_def)+
  note same = this
  have "grant_covers g' = grant_covers g"
    by (intro ext) (simp only: grant_covers_def grant_expired_def same)
  then show ?thesis
    using g g'(1) same(1,2) decision_stateD(1) [OF assms(1)]
    unfolding covered_by_grant_def by (intro bexI [of _ g']) simp_all
qed

lemma approval_satisfied_cong:
  assumes "decision_state t = decision_state s" and "approval_satisfied e a p d s"
  shows "approval_satisfied e a p d t"
  using assms(2) covered_by_grant_cong [OF assms(1)]
  unfolding approval_satisfied_def same_mode [OF assms(1)] assms(1) by blast

subsection \<open>The two ways a routing ends\<close>

text \<open>
  \<open>refused e f\<close>: the outcome is the same whatever the executors do, and it is not an allow;
  \<open>runs e p b s0 f\<close>: the outcome is that of entering the executor with the action \<open>b\<close>, but for the
  authority stamped on it, in a state that agrees with \<open>s0\<close> on all that decisions read, and in which
  the action may run.
\<close>

abbreviation with_executor where
  "with_executor e ex \<equiv> e\<lparr>env_executor := ex\<rparr>"

definition not_allow :: "outcome \<Rightarrow> bool" where
  "not_allow o1 \<longleftrightarrow> (\<forall>r. fst o1 = Inr r \<longrightarrow> res_decision r \<noteq> ''allow'')"

definition refused :: "authority_env \<Rightarrow> (authority_env \<Rightarrow> outcome) \<Rightarrow> bool" where
  "refused e f \<longleftrightarrow> (\<exists>o1. not_allow o1 \<and> (\<forall>ex. f (with_executor e ex) = o1))"

definition same_action :: "GovernedAction \<Rightarrow> GovernedAction \<Rightarrow> bool" where
  "same_action b a \<longleftrightarrow> a = b \<or> (\<exists>k i. a = b\<lparr>authority_kind := k, authority_id := i\<rparr>)"

definition runs ::
  "authority_env \<Rightarrow> Principal \<Rightarrow> GovernedAction \<Rightarrow> store \<Rightarrow> (authority_env \<Rightarrow> outcome) \<Rightarrow> bool" where
  "runs e p b s0 f \<longleftrightarrow> (\<exists>a d posture s. same_action b a \<and> decision_state s = decision_state s0
     \<and> may_run e a p s
     \<and> (\<forall>ex. f (with_executor e ex) = execute_action (with_executor e ex) a p d posture s))"

definition mediated ::
  "authority_env \<Rightarrow> Principal \<Rightarrow> GovernedAction \<Rightarrow> store \<Rightarrow> (authority_env \<Rightarrow> outcome) \<Rightarrow> bool" where
  "mediated e p b s0 f \<longleftrightarrow> refused e f \<or> runs e p b s0 f"

lemma refusedI: "not_allow o1 \<Longrightarrow> (\<And>ex. f (with_executor e ex) = o1) \<Longrightarrow> mediated e p b s0 f"
  unfolding mediated_def refused_def by blast

lemma runsI:
  "may_run e a p s \<Longrightarrow> decision_state s = decision_state s0 \<Longrightarrow> same_action b a \<Longrightarrow>
   (\<And>ex. f (with_executor e ex) = execute_action (with_executor e ex) a p d posture s)
     \<Longrightarrow> mediated e p b s0 f"
  unfolding mediated_def runs_def by blast

lemma mediated_cong:
  "(\<And>ex. f (with_executor e ex) = g (with_executor e ex)) \<Longrightarrow> mediated e p b s0 g \<Longrightarrow> mediated e p b s0 f"
  unfolding mediated_def refused_def runs_def by simp

lemma same_action_trans: "same_action c b \<Longrightarrow> same_action b a \<Longrightarrow> same_action c a"
  unfolding same_action_def
proof (elim disjE exE)
  fix k i k' i'
  assume "b = c\<lparr>authority_kind := k, authority_id := i\<rparr>"
    and "a = b\<lparr>authority_kind := k', authority_id := i'\<rparr>"
  then have "a = c\<lparr>authority_kind := k', authority_id := i'\<rparr>" by simp
  then show "a = c \<or> (\<exists>k i. a = c\<lparr>authority_kind := k, authority_id := i\<rparr>)" by blast
qed blast+

lemma mediated_weaken:
  assumes "mediated e p b1 s1 f" and "decision_state s1 = decision_state s0" and "same_action b b1"
  shows "mediated e p b s0 f"
  using assms same_action_trans [OF assms(3)] unfolding mediated_def runs_def by metis

lemma env_fields:
  "env_uuid (with_executor e ex) = env_uuid e" "env_sha256 (with_executor e ex) = env_sha256 e"
  "env_plus_hours (with_executor e ex) = env_plus_hours e" "env_policy (with_executor e ex) = env_policy e"
  "env_sandbox (with_executor e ex) = env_sandbox e"
  "env_registered (with_executor e ex) = env_registered e"
  "env_repo_target (with_executor e ex) = env_repo_target e"
  "env_delegation (with_executor e ex) = env_delegation e"
  "env_restore_plan (with_executor e ex) = env_restore_plan e"
  "env_snapshot (with_executor e ex) = env_snapshot e" "env_commit (with_executor e ex) = env_commit e"
  "env_display_path (with_executor e ex) = env_display_path e"
  "env_notify (with_executor e ex) = env_notify e"
  by simp_all

lemma env_free [simp]:
  "place_action (with_executor e ex) = place_action e"
  "restore_risk (with_executor e ex) = restore_risk e"
  "park_critical_action (with_executor e ex) = park_critical_action e"
  "repository_write_target (with_executor e ex) = repository_write_target e"
  "authorise (with_executor e ex) = authorise e"
  "engine (with_executor e ex) = engine e"
  unfolding fun_eq_iff place_action_def restore_risk_def park_critical_action_def authorise_def
    repository_write_target_def engine_def env_fields by (rule allI refl)+

lemma not_allow_simps [simp]:
  "not_allow (Inl err, s)"
  "not_allow (with_policy d a decision msg s) \<longleftrightarrow> decision \<noteq> ''allow''"
  "not_allow (result a decision msg s) \<longleftrightarrow> decision \<noteq> ''allow''"
  by (simp_all add: not_allow_def with_policy_def result_def governed_result_def)

lemma may_run_cong:
  assumes "decision_state t = decision_state s" and "may_run e a p s"
  shows "may_run e a p t"
  using assms(2) approval_satisfied_cong [OF assms(1)]
  unfolding may_run_def same_admission [OF assms(1)] same_confirmation [OF assms(1)]
    same_mode [OF assms(1)] same_engine [OF assms(1)] by blast

lemma execute_action_allows:
  assumes "fst (execute_action e a p d posture s) = Inr r"
  shows "res_decision r = ''allow''"
  using assms by (auto simp: execute_action_def Let_def governed_result_def
      split: prod.splits sum.splits if_splits)

lemma settle_mediated:
  assumes "may_run e a p s"
  shows "mediated e p a s (\<lambda>e'. settle_and_execute e' a p d mode grant s)"
proof (cases "requires_risk_acceptance a \<and>
    find_valid_risk_acceptance s (principal_id p) (action_type a) (domain_scope a) (risk_level a) = None")
  case True
  then show ?thesis
    by (intro refusedI [of "with_policy d a ''needs_risk_acceptance'' ''risk_acceptance_required'' s"])
      (simp_all add: settle_and_execute_def)
next
  case False
  define accepted where "accepted = (if requires_risk_acceptance a then find_valid_risk_acceptance s
      (principal_id p) (action_type a) (domain_scope a) (risk_level a) else None)"
  define s1 where "s1 = (case accepted of
      Some r \<Rightarrow> if rk_one_time r = ''one_time'' then consume_risk_acceptance (rk_id r) s else s
    | None \<Rightarrow> s)"
  define posture where "posture = capture_action_posture s1 p a mode grant"
  define s2 where "s2 = (case grant of None \<Rightarrow> s1 | Some g \<Rightarrow>
      authority_event ''standing_grant_applied'' ''runtime_authority''
        [(''grant_id'', PStr (gr_id g)), (''action_id'', PStr (action_id a)),
         (''action_type'', PStr (action_type a)), (''risk_level'', PStr (risk_level a)),
         (''posture'', PDict posture)] (session_id a) (turn_id a) (record_standing_grant_use (gr_id g) s1))"
  have "\<not> (requires_risk_acceptance a \<and> accepted = None)" using False by (auto simp: accepted_def)
  then have eq: "settle_and_execute e' a p d mode grant s = execute_action e' a p d posture s2" for e'
    unfolding settle_and_execute_def Let_def accepted_def [symmetric] s1_def [symmetric]
      posture_def [symmetric] s2_def [symmetric] by auto
  have "decision_state s2 = decision_state s"
    by (simp add: s2_def s1_def split: option.splits)
  from may_run_cong [OF this assms] this show ?thesis
    by (rule runsI) (simp_all add: same_action_def eq)
qed

lemma matching_grant_covers:
  "find_matching_standing_grant p a (risk_level a) s = Some g \<Longrightarrow> covered_by_grant a p s"
  unfolding covered_by_grant_def by (auto dest: find_matching_SomeD)

text \<open>What the authorisation stage establishes when it lets an action through.\<close>

lemma authorise_spec:
  assumes "authorise e a p (action_mode a p s) d s = (au, t)"
  shows "decision_state t = decision_state s"
    and "au_action au = a \<or> (\<exists>k i. au_action au = a\<lparr>authority_kind := k, authority_id := i\<rparr>)"
    and "\<not> (au_needs_approval au \<and> \<not> human p) \<Longrightarrow> approval_satisfied e (au_action au) p d s"
proof -
  let ?target = "if \<not> human p \<and> authority_kind a \<noteq> ''approval'' then repository_write_target e a p s else None"
  show "decision_state t = decision_state s"
    using assms by (auto simp: authorise_def Let_def split: option.splits prod.splits)
  show "au_action au = a \<or> (\<exists>k i. au_action au = a\<lparr>authority_kind := k, authority_id := i\<rparr>)"
    using assms by (auto simp: authorise_def Let_def split: option.splits prod.splits) blast
  assume go: "\<not> (au_needs_approval au \<and> \<not> human p)"
  show "approval_satisfied e (au_action au) p d s"
  proof (cases "human p")
    case False
    show ?thesis
    proof (cases ?target)
      case None
      then have "au_action au = a" and "\<not> mode_needs_approval (action_mode a p s) a d \<or> covered_by_grant a p s"
        using assms go False
        by (auto simp: authorise_def Let_def split: if_splits option.splits dest: matching_grant_covers)
      moreover have "authority_kind a = ''approval'' \<or> repository_write_target e a p s = None"
        using None False by (auto split: if_splits)
      ultimately show ?thesis unfolding approval_satisfied_def by metis
    next
      case (Some tg)
      then have tg: "repository_write_target e a p s = Some tg" by (auto split: if_splits)
      obtain del problems where del: "env_delegation e a p tg s = (del, problems)" by fastforce
      have au: "authorise e a p (action_mode a p s) d s = (case env_delegation e a p tg s of
          (None, problems) \<Rightarrow> (\<lparr>au_action = a, au_needs_approval = True, au_grant = None\<rparr>,
                   authority_event ''repository_delegation_refused'' ''runtime_authority''
                     [(''action_id'', PStr (action_id a)), (''action_type'', PStr (action_type a)),
                      (''repository'', dict_get tg ''repository''), (''operation'', dict_get tg ''operation''),
                      (''branch'', dict_get tg ''branch''), (''problems'', PList (map PStr problems))]
                     (session_id a) (turn_id a) s)
        | (Some did, _) \<Rightarrow> (\<lparr>au_action = a\<lparr>authority_kind := ''delegation'', authority_id := did\<rparr>,
                    au_needs_approval = False, au_grant = None\<rparr>, s))"
        unfolding authorise_def Let_def Some by simp
      then obtain did where "del = Some did"
        and "au_action au = a\<lparr>authority_kind := ''delegation'', authority_id := did\<rparr>"
        using assms go False del by (cases del) auto
      with tg del show ?thesis unfolding approval_satisfied_def
        by (intro disjI2 disjI1 exI [of _ a] exI [of _ s] exI [of _ tg] exI [of _ did]) simp
    qed
  qed (simp add: approval_satisfied_def)
qed

lemma review_mediated:
  assumes adm: "admission_refusal a p s = None"
    and crit: "not_critical a \<or> critical_confirmation_valid a p s"
  shows "mediated e p a s (\<lambda>e'. review_and_execute e' a p s)"
proof (cases "tool_action (action_id a) (tool_name a) (arguments a) (risk_level a) (requires_approval a)
    (principal_id p)")
  case (Inl err)
  then show ?thesis by (intro refusedI [of "(Inl err, s)"]) (simp_all add: review_and_execute_def)
next
  case (Inr ta)
  then obtain d where d: "review (engine e s) ta None = Inr d" using review_total by blast
  define s1 where "s1 = authority_event ''policy_decision'' ''policy_engine'' (decision_payload d)
      (session_id a) (turn_id a) s"
  have ds1: "decision_state s1 = decision_state s" by (simp add: s1_def)
  define mode where "mode = action_mode a p s1"
  obtain au s2 where au: "authorise e a p mode d s1 = (au, s2)" by fastforce
  have unfold: "review_and_execute (with_executor e ex) a p s =
      (if pd_decision d = ''deny'' then with_policy d a ''deny'' ''denied_by_policy'' s1
       else if mode = Some DENY then with_policy d a ''deny'' ''denied_by_decision_mode'' s1
       else if au_needs_approval au \<and> \<not> human p
       then with_policy d (au_action au) ''needs_approval'' ''approval_required'' s2
       else settle_and_execute (with_executor e ex) (au_action au) p d mode (au_grant au) s2)" for ex
    using Inr d au by (simp add: review_and_execute_def Let_def s1_def mode_def)
  note spec = authorise_spec [OF au [unfolded mode_def]]
  consider (refuse) "pd_decision d = ''deny'' \<or> mode = Some DENY \<or> au_needs_approval au \<and> \<not> human p"
    | (go) "pd_decision d \<noteq> ''deny''" "mode \<noteq> Some DENY" "\<not> (au_needs_approval au \<and> \<not> human p)"
    by blast
  then show ?thesis
  proof cases
    case refuse
    then show ?thesis
      by (intro refusedI [of "if pd_decision d = ''deny'' then with_policy d a ''deny'' ''denied_by_policy'' s1
         else if mode = Some DENY then with_policy d a ''deny'' ''denied_by_decision_mode'' s1
         else with_policy d (au_action au) ''needs_approval'' ''approval_required'' s2"])
        (auto simp: unfold)
  next
    case go
    have ds2: "decision_state s2 = decision_state s1" by (rule spec(1))
    have "approval_satisfied e (au_action au) p d s1" by (rule spec(3) [OF go(3)])
    moreover have "action_mode a p s1 \<noteq> Some DENY" using go(2) by (simp add: mode_def)
    moreover have "admission_refusal a p s1 = None" using adm same_admission [OF ds1] by simp
    moreover have "not_critical a \<or> critical_confirmation_valid a p s1"
      using crit same_confirmation [OF ds1] by simp
    moreover have "review (engine e s1) ta None = Inr d" using d same_engine [OF ds1] by simp
    ultimately have "may_run e (au_action au) p s1"
      using spec(2) Inr go(1) unfolding may_run_def not_critical_def by (auto simp: stamp_fields)
    then have "may_run e (au_action au) p s2" using may_run_cong [OF ds2] by blast
    from settle_mediated [OF this]
    have "mediated e p (au_action au) s2 (\<lambda>e'. review_and_execute e' a p s)"
      by (rule mediated_cong [rotated]) (use go in \<open>auto simp: unfold\<close>)
    then show ?thesis
      by (rule mediated_weaken) (use ds1 ds2 spec(2) in \<open>simp_all add: same_action_def\<close>)
  qed
qed

lemma park_not_allow: "not_allow (park_critical_action e a p m s)"
  by (auto simp: park_critical_action_def not_allow_def Let_def result_def governed_result_def
        split: prod.splits sum.splits)

lemma critical_mediated:
  assumes "admission_refusal a p s = None"
  shows "mediated e p a s (\<lambda>e'. critical_stage e' a p s)"
proof -
  let ?m = "classify_critical (action_type a) (tool_name a) (arguments a) []"
  define s1 where "s1 = (case ?m of None \<Rightarrow> s | Some x \<Rightarrow>
      authority_event ''critical_action_classified'' ''runtime_authority''
        [(''action_id'', PStr (action_id a)), (''action_type'', PStr (action_type a)),
         (''criterion'', PStr (cm_code x)), (''zt_ref'', PStr (cm_zt_ref x)),
         (''detail'', PStr (cm_detail x)), (''declared_risk'', PStr (risk_level a))]
        (session_id a) (turn_id a) s)"
  have ds1: "decision_state s1 = decision_state s" by (simp add: s1_def split: option.splits)
  have unfold: "critical_stage e' a p s =
      (if not_critical a then review_and_execute e' a p s
       else if critical_confirmation_valid a p s1 then review_and_execute e' a p s1
       else park_critical_action e' a p ?m s1)" for e'
    unfolding critical_stage_def Let_def not_critical_def s1_def by simp
  consider (plain) "not_critical a" | (confirmed) "\<not> not_critical a" "critical_confirmation_valid a p s1"
    | (parked) "\<not> not_critical a" "\<not> critical_confirmation_valid a p s1" by blast
  then show ?thesis
  proof cases
    case plain
    then show ?thesis using review_mediated [of a p s e] assms by (simp add: unfold)
  next
    case confirmed
    then have "mediated e p a s1 (\<lambda>e'. critical_stage e' a p s)"
      using review_mediated [of a p s1 e] assms same_admission [OF ds1] by (simp add: unfold)
    then show ?thesis by (rule mediated_weaken) (simp_all add: ds1 same_action_def)
  next
    case parked
    then show ?thesis
      by (intro refusedI [of "park_critical_action e a p ?m s1"]) (simp_all add: unfold park_not_allow)
  qed
qed

lemma first_refusal_not_allow:
  "first_refusal cs = Some (d, m) \<Longrightarrow> \<forall>c \<in> set cs. fst c \<noteq> ''allow'' \<Longrightarrow> d \<noteq> ''allow''"
  by (auto simp: first_refusal_def split: option.splits dest!: find_SomeD)

lemma gate_decision_not_allow [simp]: "gate_decision g \<noteq> ''allow''" "''allow'' \<noteq> gate_decision g"
  by (simp_all add: gate_decision_def)

lemma admission_refusal_not_allow: "admission_refusal a p s = Some (d, m) \<Longrightarrow> d \<noteq> ''allow''"
  unfolding admission_refusal_def Let_def by (rule first_refusal_not_allow) auto

lemma place_action_state: "decision_state (snd (place_action e a p s)) = decision_state s"
  by (simp add: place_action_def Let_def split: option.splits sum.splits)

lemma place_action_refusal:
  "fst (place_action e a p s) = Inr (a', Some r) \<Longrightarrow> res_decision r \<noteq> ''allow''"
  by (auto simp: place_action_def Let_def governed_result_def split: option.splits sum.splits if_splits)

lemma restore_risk_admission [simp]:
  "admission_refusal (restore_risk e a p t) p s = admission_refusal a p s"
proof -
  have "action_type (restore_risk e a p t) = action_type a" "tool_name (restore_risk e a p t) = tool_name a"
    "domain_scope (restore_risk e a p t) = domain_scope a"
    "requires_approval (restore_risk e a p t) = requires_approval a"
    "ga_principal_id (restore_risk e a p t) = ga_principal_id a"
    by (simp_all add: restore_risk_def Let_def split: option.splits)
  then show ?thesis unfolding admission_refusal_def check_self_approval_def by simp
qed

lemma graded_action_state: "graded_action e a p s = Some (c, t) \<Longrightarrow> decision_state t = decision_state s"
  using place_action_state [of e a p s] by (auto simp: graded_action_def Let_def split: prod.splits sum.splits option.splits)

lemma graded_action_placed:
  "graded_action e a p s = Some (c, t) \<Longrightarrow> \<exists>b. fst (place_action e a p s) = Inr (b, None) \<and> c = restore_risk e b p t"
  by (auto simp: graded_action_def Let_def split: prod.splits sum.splits option.splits)

text \<open>A routing that reaches the checks: admission of the graded action, then the critical stage.\<close>

lemma route_graded:
  assumes "graded_action e a p s = Some (c, t)"
  shows "\<exists>b. \<forall>ex. route_action (with_executor e ex) a p s =
    (case admission_refusal c p t of
       Some (d, m) \<Rightarrow> result b d m t
     | None \<Rightarrow> critical_stage (with_executor e ex) c p t)"
proof -
  from assms obtain b s1 where "place_action e a p s = (Inr (b, None), s1)"
    by (auto simp: graded_action_def split: prod.splits sum.splits option.splits)
  with assms show ?thesis by (intro exI [of _ b]) (auto simp: graded_action_def route_action_def Let_def split: option.splits)
qed

lemma route_ungraded:
  assumes "graded_action e a p s = None"
  shows "refused e (\<lambda>e'. route_action e' a p s)"
proof (cases "place_action e a p s")
  case (Pair placed s1)
  show ?thesis
  proof (cases placed)
    case (Inl err)
    then have "route_action (with_executor e ex) a p s = (Inl err, s1)" for ex
      by (simp add: route_action_def Pair)
    then show ?thesis unfolding refused_def by (metis not_allow_simps(1))
  next
    case (Inr br)
    then obtain b r where br: "placed = Inr (b, Some r)"
      using assms Pair by (cases br; cases "snd br") (auto simp: graded_action_def Let_def)
    then have "route_action (with_executor e ex) a p s = (Inr r, s1)" for ex
      by (simp add: route_action_def Pair)
    moreover have "not_allow (Inr r, s1)"
      using place_action_refusal [of e a p s b r] Pair br by (simp add: not_allow_def)
    ultimately show ?thesis unfolding refused_def by blast
  qed
qed

text \<open>
  The whole method: it refuses, or it enters the executor with the graded action.
\<close>

lemma route_mediated_graded:
  "refused e (\<lambda>e'. route_action e' a p s) \<or>
   (\<exists>c t. graded_action e a p s = Some (c, t) \<and> runs e p c s (\<lambda>e'. route_action e' a p s))"
proof (cases "graded_action e a p s")
  case (Some ct)
  obtain c t where c: "graded_action e a p s = Some (c, t)" using Some by (cases ct) simp
  obtain b where route: "\<And>ex. route_action (with_executor e ex) a p s =
    (case admission_refusal c p t of
       Some (d, m) \<Rightarrow> result b d m t
     | None \<Rightarrow> critical_stage (with_executor e ex) c p t)" using route_graded [OF c] by blast
  have "mediated e p c t (\<lambda>e'. route_action e' a p s)"
  proof (cases "admission_refusal c p t")
    case (Some dm)
    obtain d m where dm: "dm = (d, m)" by fastforce
    then show ?thesis using Some route
      by (intro refusedI [of "result b d m t"]) (auto dest: admission_refusal_not_allow)
  next
    case None
    have "mediated e p c t (\<lambda>e'. critical_stage e' c p t)" by (rule critical_mediated [OF None])
    then show ?thesis by (rule mediated_cong [rotated]) (simp add: route None)
  qed
  then have "mediated e p c s (\<lambda>e'. route_action e' a p s)"
    by (rule mediated_weaken) (simp_all add: graded_action_state [OF c] same_action_def)
  then show ?thesis unfolding mediated_def using c by blast
qed (simp add: route_ungraded)

lemma route_mediated:
  "refused e (\<lambda>e'. route_action e' a p s) \<or>
   (\<exists>b t. fst (place_action e a p s) = Inr (b, None) \<and>
          runs e p (restore_risk e b p t) s (\<lambda>e'. route_action e' a p s))"
  using route_mediated_graded [of e a p s] graded_action_placed by metis

end
