(* ===== verification/Authority_Properties.thy ===== *)
theory Authority_Properties
  imports Runtime_Authority "HOL-Library.Sublist"
begin

text \<open>
  What the stages of \<^verbatim>\<open>route_action\<close> add up to: allow needs every check, a refusal enters no executor,
  a closed gate and a missing human confirmation cannot be passed, a critical action is parked as an
  approval that verifies, an agent without standing authority asks, and the log only grows.
\<close>

subsection \<open>Properties of the routing\<close>

lemma not_refused_may_run:
  assumes "\<not> refused e (\<lambda>e'. route_action e' a p s)"
  obtains b t c where "fst (place_action e a p s) = Inr (b, None)"
    and "same_action (restore_risk e b p t) c" and "may_run e c p s"
  using assms route_mediated [of e a p s] may_run_cong unfolding runs_def by metis

lemma place_action_cases:
  assumes "fst (place_action e a p s) = Inr (b, None)"
  shows "b = a \<or> (check_capability_gate s (action_type a) (tool_name a) (Some (principal_id p)) = None
    \<and> b = a\<lparr>action_type := HOST_NETWORK_CODE_CAPABILITY\<rparr>)"
  using assms by (auto simp: place_action_def Let_def split: option.splits sum.splits if_splits)

abbreviation command_action :: "GovernedAction \<Rightarrow> bool" where
  "command_action a \<equiv> capability_of (action_type a) (tool_name a) \<in> Some ` set COMMAND_CAPABILITIES"

abbreviation restore_action :: "GovernedAction \<Rightarrow> bool" where
  "restore_action a \<equiv> action_type a \<in> {''checkpoint_restore'', ''checkpoint_restore_execution''}"

lemma place_action_plain [simp]: "\<not> command_action a \<Longrightarrow> place_action e a p s = (Inr (a, None), s)"
  by (auto simp: place_action_def split: option.splits)

lemma restore_risk_plain [simp]: "\<not> restore_action a \<Longrightarrow> restore_risk e a p s = a"
  by (simp add: restore_risk_def)

lemma same_action_admission: "same_action b a \<Longrightarrow> admission_refusal a p s = admission_refusal b p s"
  by (auto simp: same_action_def)

lemma first_refusal_None: "first_refusal cs = None \<longleftrightarrow> (\<forall>c \<in> set cs. snd c = None)"
  by (induction cs) (auto simp: first_refusal_def split: if_splits)

lemma admission_None:
  "admission_refusal a p s = None \<longleftrightarrow>
     check_principal_active s p = None \<and> check_domain_scope p (domain_scope a) = None
     \<and> check_self_approval p a = None \<and> check_self_grant p (action_type a) = None
     \<and> check_runtime_gate_enable s p (action_type a) = None
     \<and> check_capability_gate s (action_type a) (tool_name a) (Some (principal_id p)) = None"
  by (simp add: admission_refusal_def Let_def first_refusal_None)

lemma graded_may_run:
  assumes "\<not> refused e (\<lambda>e'. route_action e' a p s)"
  obtains b t c where "graded_action e a p s = Some (b, t)" and "same_action b c" and "may_run e c p s"
  using assms route_mediated_graded [of e a p s] may_run_cong unfolding runs_def by metis

text \<open>What placement and grading leave alone: all of a plain action, and the declared risk of all but a restore.\<close>

lemma graded_plain:
  assumes "graded_action e a p s = Some (b, t)"
  shows "\<not> command_action a \<Longrightarrow> \<not> restore_action a \<Longrightarrow> b = a"
    and "\<not> restore_action b \<Longrightarrow> risk_level b = risk_level a"
proof -
  obtain c where c: "fst (place_action e a p s) = Inr (c, None)" "b = restore_risk e c p t"
    using graded_action_placed [OF assms] by blast
  show "b = a" if "\<not> command_action a" "\<not> restore_action a" using c that by simp
  have "action_type b = action_type c" by (simp add: c(2) restore_risk_def Let_def split: option.splits)
  then show "risk_level b = risk_level a" if "\<not> restore_action b"
    using place_action_cases [OF c(1)] c(2) that by (auto simp: restore_risk_def)
qed

lemma refusedD:
  assumes "refused e f"
  shows "(\<exists>r. fst (f e) = Inr r \<and> res_decision r = ''allow'') = False"
    and "f (with_executor e ex) = f e"
proof -
  obtain o1 where "not_allow o1" and o1: "\<And>ex. f (with_executor e ex) = o1"
    using assms by (auto simp: refused_def)
  moreover have "f e = o1" using o1 [of "env_executor e"] by simp
  ultimately show "(\<exists>r. fst (f e) = Inr r \<and> res_decision r = ''allow'') = False"
    and "f (with_executor e ex) = f e" by (auto simp: not_allow_def)
qed

lemma not_refused_runs:
  assumes "\<not> refused e (\<lambda>e'. route_action e' a p s)"
  shows "\<exists>c d posture t. \<forall>ex. route_action (with_executor e ex) a p s =
    execute_action (with_executor e ex) c p d posture t"
  using assms route_mediated [of e a p s] unfolding runs_def by blast

lemma non_allow_refused:
  assumes "fst (route_action e a p s) = Inr r" and "res_decision r \<noteq> ''allow''"
  shows "refused e (\<lambda>e'. route_action e' a p s)"
proof (rule ccontr)
  assume "\<not> refused e (\<lambda>e'. route_action e' a p s)"
  then obtain c d posture t where "route_action (with_executor e (env_executor e)) a p s =
      execute_action (with_executor e (env_executor e)) c p d posture t"
    using not_refused_runs by blast
  then show False using assms execute_action_allows by force
qed

text \<open>An environment for concrete instances: every executor is registered and succeeds.\<close>

definition local_env :: authority_env where
  "local_env =
     \<lparr>env_uuid = (\<lambda>n. replicate n CHR ''0''), env_sha256 = (\<lambda>x. x), env_plus_hours = (\<lambda>t h. t @ ''+''),
      env_policy = \<lparr>config = default_policy_config, inside_workspace = (\<lambda>w. True),
                    classify_memory = (\<lambda>m. PUBLIC), managed_rules = None, load_user = (\<lambda>u. None)\<rparr>,
      env_sandbox = False, env_registered = (\<lambda>c. True),
      env_executor = (\<lambda>c a p s. (Inr \<lparr>er_ok = True, er_capability = c, er_action_id = action_id a,
                        er_reason_code = None, er_summary = ''ok'', er_artifacts = []\<rparr>, s)),
      env_repo_target = (\<lambda>c. None), env_delegation = (\<lambda>a p t s. (None, [])),
      env_restore_plan = (\<lambda>c p s. None), env_snapshot = (\<lambda>c a i s. CaptureIneligible),
      env_commit = (\<lambda>i sid a p. Inr []), env_display_path = (\<lambda>q. q), env_notify = (\<lambda>o1 aid s. None)\<rparr>"

definition fetch_action :: GovernedAction where
  "fetch_action = commit_action\<lparr>action_type := ''web_fetch'', tool_name := ''web_fetch'',
     arguments := [(''url'', PStr ''https://example.org'')]\<rparr>"

definition opened_store :: store where
  "opened_store = owned_store\<lparr>gate_principal := [(''own'', ''web_fetch'') \<mapsto> ''enabled_runtime'']\<rparr>"

text \<open>
  C1: An allow is never an accident of one check. When the authority answers allow, the action it acted
  on is the proposed one (its capability replaced when a command was placed on the host, its risk when it
  is a restore, its authority stamped when a delegation covers it), and for that action every check held
  in the state of the proposal: the principal was active and in scope, approved nothing of its own, granted
  itself no role, and the capability's gate was open; the action was not critical, or a human's claimed
  confirmation covered it; the decision mode was not deny; the policy engine did not deny it; and either
  a human acted, or a delegation or a standing grant covered it, or its mode did not ask.
\<close>

theorem allow_needs_every_check:
  assumes "fst (route_action e a p s) = Inr r" and "res_decision r = ''allow''"
  shows "\<exists>b t c. fst (place_action e a p s) = Inr (b, None) \<and> same_action (restore_risk e b p t) c
    \<and> check_principal_active s p = None \<and> check_domain_scope p (domain_scope c) = None
    \<and> check_self_approval p c = None \<and> check_self_grant p (action_type c) = None
    \<and> check_runtime_gate_enable s p (action_type c) = None
    \<and> check_capability_gate s (action_type c) (tool_name c) (Some (principal_id p)) = None
    \<and> (not_critical c \<or> critical_confirmation_valid c p s) \<and> action_mode c p s \<noteq> Some DENY
    \<and> (\<exists>ta d. tool_action (action_id c) (tool_name c) (arguments c) (risk_level c) (requires_approval c)
                (principal_id p) = Inr ta
         \<and> review (engine e s) ta None = Inr d \<and> pd_decision d \<noteq> ''deny'' \<and> approval_satisfied e c p d s)"
proof -
  have "\<not> refused e (\<lambda>e'. route_action e' a p s)" using refusedD(1) assms by blast
  then obtain b t c where "fst (place_action e a p s) = Inr (b, None)"
    and "same_action (restore_risk e b p t) c" and "may_run e c p s"
    by (rule not_refused_may_run)
  then show ?thesis unfolding may_run_def admission_None by blast
qed

theorem allow_needs_every_check_witness:
  "\<exists>r c. fst (route_action local_env fetch_action owner_principal opened_store) = Inr r
     \<and> res_message r = ''executed'' \<and> action_mode c owner_principal opened_store \<noteq> Some DENY"
proof -
  let ?o = "route_action local_env fetch_action owner_principal opened_store"
  have r: "(case fst ?o of Inr r \<Rightarrow> res_decision r = ''allow'' \<and> res_message r = ''executed'' | Inl _ \<Rightarrow> False)"
    by code_simp
  then obtain r where r: "fst ?o = Inr r" "res_decision r = ''allow''" "res_message r = ''executed''"
    by (auto split: sum.splits)
  from allow_needs_every_check [OF r(1,2)] r show ?thesis by blast
qed

text \<open>
  C2: Mediation is complete. Whatever the authority answers other than allow, no executor was entered:
  replacing every executor of the registry by any other gives the same answer and the same store.
\<close>

theorem refusal_never_enters_executor:
  assumes "fst (route_action e a p s) = Inr r" and "res_decision r \<noteq> ''allow''"
  shows "\<forall>ex. route_action (e\<lparr>env_executor := ex\<rparr>) a p s = route_action e a p s"
  using refusedD(2) [OF non_allow_refused [OF assms]] by blast

theorem refusal_never_enters_executor_witness:
  "\<forall>ex. route_action (local_env\<lparr>env_executor := ex\<rparr>) fetch_action agent_principal opened_store
        = route_action local_env fetch_action agent_principal opened_store"
proof -
  let ?o = "route_action local_env fetch_action agent_principal opened_store"
  have "(case fst ?o of Inr r \<Rightarrow> res_decision r = ''needs_approval'' | Inl _ \<Rightarrow> False)" by code_simp
  then obtain r where r: "fst ?o = Inr r" "res_decision r \<noteq> ''allow''" by (auto split: sum.splits)
  from refusal_never_enters_executor [OF r] show ?thesis .
qed

lemma graded_confirmation:
  assumes "graded_action e a p s = Some (b, t)"
  shows "critical_confirmation b = critical_confirmation a"
proof -
  obtain c where c: "fst (place_action e a p s) = Inr (c, None)" "b = restore_risk e c p t"
    using graded_action_placed [OF assms] by blast
  have "critical_confirmation b = critical_confirmation c"
    by (simp add: c(2) restore_risk_def Let_def split: option.splits)
  then show ?thesis using place_action_cases [OF c(1)] by auto
qed

lemma place_action_keeps:
  assumes "fst (place_action e a p s) = Inr (b, None)"
  shows "tool_name b = tool_name a" "arguments b = arguments a" "risk_level b = risk_level a"
    "critical_confirmation b = critical_confirmation a"
  using place_action_cases [OF assms] by auto

lemma same_action_fields:
  assumes "same_action b a"
  shows "action_type a = action_type b" "tool_name a = tool_name b" "arguments a = arguments b"
    "risk_level a = risk_level b" "critical_confirmation a = critical_confirmation b"
    "action_mode a p s = action_mode b p s"
  using assms by (auto simp: same_action_def stamp_fields)

lemma restore_risk_type [simp]: "action_type (restore_risk e a p s) = action_type a"
  "tool_name (restore_risk e a p s) = tool_name a"
  by (simp_all add: restore_risk_def Let_def split: option.splits)

text \<open>
  A closed gate cannot be passed. If the capability gate of an action is not open for the principal's
  account, no routing of that action is allowed, whoever acts, whatever approval, grant, delegation or
  mode is in place and wherever a command would be placed; no executor is entered.
\<close>

theorem closed_gate_refuses:
  assumes "check_capability_gate s (action_type a) (tool_name a) (Some (principal_id p)) \<noteq> None"
  shows "(\<nexists>r. fst (route_action e a p s) = Inr r \<and> res_decision r = ''allow'')
    \<and> (\<forall>ex. route_action (e\<lparr>env_executor := ex\<rparr>) a p s = route_action e a p s)"
proof -
  have "refused e (\<lambda>e'. route_action e' a p s)"
  proof (rule ccontr)
    assume "\<not> refused e (\<lambda>e'. route_action e' a p s)"
    then obtain b t c where b: "fst (place_action e a p s) = Inr (b, None)"
      and c: "same_action (restore_risk e b p t) c" "may_run e c p s"
      by (rule not_refused_may_run)
    have "check_capability_gate s (action_type b) (tool_name b) (Some (principal_id p)) = None"
      using c(2) same_action_fields(1,2) [OF c(1)] unfolding may_run_def admission_None by simp
    with assms place_action_cases [OF b] show False by auto
  qed
  from refusedD [OF this] show ?thesis by blast
qed

theorem closed_gate_refuses_witness:
  "\<nexists>r. fst (route_action local_env commit_action owner_principal opened_store) = Inr r
        \<and> res_decision r = ''allow''"
proof -
  have "check_capability_gate opened_store (action_type commit_action) (tool_name commit_action)
      (Some (principal_id owner_principal)) \<noteq> None" by code_simp
  from closed_gate_refuses [OF this] show ?thesis by blast
qed

text \<open>
  C3: A critical action runs only on a human's confirmation. Take the action as it reaches the checks, a command
  under the capability its placement gives it and a restore at the risk its plan gives it. If it is declared
  critical or classified so, then without a confirmation that names a human principal as its own confirmer and a
  critical approval that is claimed for execution it is never allowed and no executor is entered; no mode, grant,
  delegation or ordinary approval substitutes for it. (A restore with a checkpoint is graded medium, whatever it declared.)
\<close>

theorem critical_action_needs_confirmation:
  assumes "\<And>b t. graded_action e a p s = Some (b, t) \<Longrightarrow>
      classify_critical (action_type b) (tool_name b) (arguments b) [] \<noteq> None \<or> risk_level b = ''critical''"
    and "\<not> (human p \<and> (\<exists>c r row. critical_confirmation a = Some c \<and> cc_confirmed_by c = principal_id p
              \<and> load_approval s (cc_approval_id c) = Some (r, row) \<and> ap_critical r \<and> ap_status r = ''executing''))"
  shows "(\<nexists>r. fst (route_action e a p s) = Inr r \<and> res_decision r = ''allow'')
    \<and> (\<forall>ex. route_action (e\<lparr>env_executor := ex\<rparr>) a p s = route_action e a p s)"
proof -
  have "refused e (\<lambda>e'. route_action e' a p s)"
  proof (rule ccontr)
    assume "\<not> refused e (\<lambda>e'. route_action e' a p s)"
    then obtain b t c where b: "graded_action e a p s = Some (b, t)" and c: "same_action b c" "may_run e c p s"
      by (rule graded_may_run)
    have "\<not> not_critical c" using assms(1) [OF b] unfolding not_critical_def same_action_fields(1-4) [OF c(1)] by blast
    with c(2) have "critical_confirmation_valid c p s" by (simp add: may_run_def)
    moreover have "critical_confirmation c = critical_confirmation a"
      using same_action_fields(5) [OF c(1)] graded_confirmation [OF b] by simp
    ultimately have "critical_confirmation_valid a p s" unfolding critical_confirmation_valid_def by simp
    with assms(2) show False
      by (auto simp: critical_confirmation_valid_def split: option.splits if_splits)
  qed
  from refusedD [OF this] show ?thesis by blast
qed

theorem critical_action_needs_confirmation_witness:
  "\<nexists>r. fst (route_action local_env (fetch_action\<lparr>risk_level := ''critical''\<rparr>) owner_principal opened_store) = Inr r
        \<and> res_decision r = ''allow''"
proof -
  let ?a = "fetch_action\<lparr>risk_level := ''critical''\<rparr>"
  have "capability_of (action_type ?a) (tool_name ?a) = Some ''web_fetch''" by code_simp
  then have "\<not> command_action ?a" by (auto simp: COMMAND_CAPABILITIES_def)
  moreover have "\<not> restore_action ?a" "critical_confirmation ?a = None" "risk_level ?a = ''critical''"
    by (simp_all add: fetch_action_def commit_action_def)
  ultimately show ?thesis using critical_action_needs_confirmation [of local_env ?a owner_principal opened_store]
      graded_plain(1) [of local_env ?a owner_principal opened_store] by fastforce
qed

text \<open>
  C4: An agent without standing authority asks. Take the action as it reaches the checks, a command under the
  capability its placement gives it and a restore as graded from its plan. When the owner's mode for that action
  is ask, no standing grant of the agent covers it and no repository delegation is given, a non-human
  principal's action is never allowed and enters no executor.
\<close>

theorem agent_asks_without_standing_authority:
  assumes "\<not> human p"
    and "\<And>b t. graded_action e a p s = Some (b, t) \<Longrightarrow> action_mode b p s = Some ASK \<and> \<not> covered_by_grant b p s"
    and "\<forall>b t s'. fst (env_delegation e b p t s') = None"
  shows "(\<nexists>r. fst (route_action e a p s) = Inr r \<and> res_decision r = ''allow'')
    \<and> (\<forall>ex. route_action (e\<lparr>env_executor := ex\<rparr>) a p s = route_action e a p s)"
proof -
  have "refused e (\<lambda>e'. route_action e' a p s)"
  proof (rule ccontr)
    assume "\<not> refused e (\<lambda>e'. route_action e' a p s)"
    then obtain b t c where b: "graded_action e a p s = Some (b, t)" and c: "same_action b c" "may_run e c p s"
      by (rule graded_may_run)
    note ask = assms(2) [OF b]
    from c(2) obtain d where "approval_satisfied e c p d s" by (auto simp: may_run_def)
    moreover have "mode_needs_approval (action_mode c p s) c d"
      using ask same_action_fields(6) [OF c(1)] by (simp add: mode_needs_approval_def)
    ultimately have "covered_by_grant c p s" using assms(1,3) by (auto simp: approval_satisfied_def)
    moreover have "domain_scope c = domain_scope b" using c(1) by (auto simp: same_action_def)
    ultimately have "covered_by_grant b p s"
      unfolding covered_by_grant_def same_action_fields(1-4) [OF c(1)] by simp
    with ask show False by blast
  qed
  from refusedD [OF this] show ?thesis by blast
qed

theorem agent_asks_without_standing_authority_witness:
  "action_mode fetch_action agent_principal opened_store = Some ASK \<and>
   (\<nexists>r. fst (route_action local_env fetch_action agent_principal opened_store) = Inr r
        \<and> res_decision r = ''allow'')"
proof -
  have cap: "capability_of (action_type fetch_action) (tool_name fetch_action) = Some ''web_fetch''" by code_simp
  then have "\<not> command_action fetch_action" by (auto simp: COMMAND_CAPABILITIES_def)
  moreover have "\<not> restore_action fetch_action" by (simp add: fetch_action_def commit_action_def)
  moreover have m: "action_mode fetch_action agent_principal opened_store = Some ASK" by code_simp
  moreover have "\<not> covered_by_grant fetch_action agent_principal opened_store" "\<not> human agent_principal"
    "\<forall>b t s'. fst (env_delegation local_env b agent_principal t s') = None"
    by (simp_all add: covered_by_grant_def opened_store_def owned_store_unfold local_env_def)
  ultimately show ?thesis
    using agent_asks_without_standing_authority [of agent_principal local_env fetch_action opened_store]
      graded_plain(1) [of local_env fetch_action agent_principal opened_store] by blast
qed

lemma insert_proposal_spec:
  assumes "approval s aid = None"
  obtains t r row where
    "insert_approval sha256 plus_hours aid (ByAction ta) st ttl crit
       (insert_tool_action ta se tu rst ow s) = Inr t"
    "approval t aid = Some r" "tool_actions t (ap_action r) = Some row"
    "ap_status r = st" "ap_critical r = crit" "ta_tool row = tl_tool_name ta" "ta_risk row = tl_risk_level ta"
    "map_option Inr (ap_sha256 r) =
       Some (tool_action_payload_sha256 sha256 (ta_tool row) (ta_args row) (ta_risk row))"
  using assms
  by (auto simp: insert_approval_def Let_def store_simps target_id_def insert_tool_action_def
        put_approval_def approval_def update_conv' tool_action_payload_sha256_def)

lemma load_approval_cong:
  assumes "approvals t = approvals s" and "tool_actions t = tool_actions s"
  shows "load_approval t aid = load_approval s aid"
  unfolding load_approval_def approval_def assms ..

lemma park_spec:
  fixes e s defines "aid \<equiv> ''appr_'' @ env_uuid e (next_uuid s)"
  assumes ta: "tool_action (action_id a) (tool_name a) (arguments a) (risk_level a) True (principal_id p) = Inr ta"
    and fresh: "approval s aid = None"
  shows "\<exists>r t row tr. park_critical_action e a p m s = (Inr r, t)
    \<and> res_decision r = ''needs_human_confirmation'' \<and> res_approval_id r = Some aid
    \<and> load_approval t aid = Some (row, tr) \<and> ap_status row = ''pending'' \<and> ap_critical row
    \<and> ta_tool tr = tool_name a \<and> ta_risk tr = risk_level a
    \<and> map_option Inr (ap_sha256 row) =
        Some (tool_action_payload_sha256 (env_sha256 e) (ta_tool tr) (ta_args tr) (ta_risk tr))"
proof -
  let ?s1 = "s\<lparr>next_uuid := Suc (next_uuid s)\<rparr>"
  let ?se = "if session_id a = [] then ''critical'' else session_id a"
  have "approval ?s1 aid = None" using fresh by (simp add: approval_def)
  then obtain s3 row tr where ins: "insert_approval (env_sha256 e) (env_plus_hours e) aid (ByAction ta)
      ''pending'' (Some OWNER_TIMEOUT) True (insert_tool_action ta ?se (turn_id a) ''critical_pending'' None ?s1)
      = Inr s3"
    and row: "approval s3 aid = Some row" "tool_actions s3 (ap_action row) = Some tr"
      "ap_status row = ''pending''" "ap_critical row = True" "ta_tool tr = tl_tool_name ta"
      "ta_risk tr = tl_risk_level ta"
      "map_option Inr (ap_sha256 row) =
        Some (tool_action_payload_sha256 (env_sha256 e) (ta_tool tr) (ta_args tr) (ta_risk tr))"
    by (rule insert_proposal_spec)
  have ld: "load_approval s3 aid = Some (row, tr)" using row by (simp add: load_approval_def)
  have "\<exists>r t. park_critical_action e a p m s = (Inr r, t) \<and> res_decision r = ''needs_human_confirmation''
      \<and> res_approval_id r = Some aid \<and> approvals t = approvals s3 \<and> tool_actions t = tool_actions s3"
    using ta ins unfolding park_critical_action_def new_id_def aid_def [symmetric]
    by (auto simp: Let_def governed_result_def frame_simps split: option.splits)
  moreover have "tl_tool_name ta = tool_name a" "tl_risk_level ta = risk_level a"
    using ta by (auto simp: tool_action_def split: if_splits)
  ultimately show ?thesis using row ld load_approval_cong by metis
qed

lemma with_own_executor: "with_executor e (env_executor e) = e"
  by simp

lemma graded_frame:
  "graded_action e a p s = Some (b, t) \<Longrightarrow> next_uuid t = next_uuid s \<and> approval t = approval s"
  by (auto simp: graded_action_def place_action_def authority_event_def append_event_def approval_def fun_eq_iff Let_def
        split: option.splits sum.splits if_splits)

text \<open>
  C5: A critical action without a valid confirmation is parked, not lost. Take the action as it reaches the
  checks (placed, and graded if it is a restore). If it passes the admission checks, is critical, forms a tool
  action, and the drawn approval identifier is unused, the answer asks for a human, names a pending critical
  approval whose stored tool and risk are the action's, and whose intent hash verifies against the
  stored proposal, so that the later confirmation can be bound to what was proposed.
\<close>

theorem critical_action_is_parked:
  assumes "graded_action e a p s = Some (b, t0)" and "admission_refusal b p s = None"
    and "\<not> not_critical b" and "\<not> critical_confirmation_valid b p s"
    and "tool_action (action_id b) (tool_name b) (arguments b) (risk_level b) True (principal_id p) = Inr ta"
    and "approval s (''appr_'' @ env_uuid e (next_uuid s)) = None"
  shows "\<exists>r t row tr. route_action e a p s = (Inr r, t) \<and> res_decision r = ''needs_human_confirmation''
    \<and> res_approval_id r = Some (''appr_'' @ env_uuid e (next_uuid s))
    \<and> load_approval t (''appr_'' @ env_uuid e (next_uuid s)) = Some (row, tr)
    \<and> ap_status row = ''pending'' \<and> ap_critical row
    \<and> ta_tool tr = tool_name b \<and> ta_risk tr = risk_level b
    \<and> map_option Inr (ap_sha256 row) =
        Some (tool_action_payload_sha256 (env_sha256 e) (ta_tool tr) (ta_args tr) (ta_risk tr))"
proof -
  let ?m = "classify_critical (action_type b) (tool_name b) (arguments b) []"
  define s2 where "s2 = (case ?m of None \<Rightarrow> t0 | Some x \<Rightarrow>
      authority_event ''critical_action_classified'' ''runtime_authority''
        [(''action_id'', PStr (action_id b)), (''action_type'', PStr (action_type b)),
         (''criterion'', PStr (cm_code x)), (''zt_ref'', PStr (cm_zt_ref x)),
         (''detail'', PStr (cm_detail x)), (''declared_risk'', PStr (risk_level b))]
        (session_id b) (turn_id b) t0)"
  have ds: "decision_state t0 = decision_state s" "decision_state s2 = decision_state s"
    using graded_action_state [OF assms(1)] by (simp_all add: s2_def split: option.splits)
  have "next_uuid t0 = next_uuid s \<and> approval t0 = approval s" by (rule graded_frame [OF assms(1)])
  then have frame: "next_uuid s2 = next_uuid s" "approval s2 = approval s"
    by (simp_all add: s2_def authority_event_def append_event_def approval_def fun_eq_iff split: option.splits)
  have "admission_refusal b p t0 = None" using assms(2) same_admission [OF ds(1)] by simp
  then have "route_action e a p s = critical_stage e b p t0"
    using route_graded [OF assms(1)] by (metis (no_types) option.simps(4) with_own_executor)
  also have "\<dots> = park_critical_action e b p ?m s2"
    using assms(3,4) same_confirmation [OF ds(2), of b p]
    unfolding critical_stage_def Let_def not_critical_def s2_def by auto
  finally show ?thesis using park_spec [where e = e and s = s2, OF assms(5)] assms(6) by (simp add: frame)
qed

theorem critical_action_is_parked_witness:
  "\<exists>r t row tr. route_action local_env (fetch_action\<lparr>risk_level := ''critical''\<rparr>) agent_principal opened_store = (Inr r, t)
     \<and> load_approval t ''appr_'' = Some (row, tr) \<and> ap_critical row \<and> ta_tool tr = ''web_fetch''"
proof -
  let ?a = "fetch_action\<lparr>risk_level := ''critical''\<rparr>"
  have "capability_of (action_type ?a) (tool_name ?a) = Some ''web_fetch''" by code_simp
  then have "\<not> command_action ?a" by (auto simp: COMMAND_CAPABILITIES_def)
  moreover have fields: "\<not> restore_action ?a" "critical_confirmation ?a = None" "risk_level ?a = ''critical''"
    "tool_name ?a = ''web_fetch''" by (simp_all add: fetch_action_def commit_action_def)
  moreover obtain t0 where graded: "graded_action local_env ?a agent_principal opened_store = Some (?a, t0)"
    using calculation by (simp add: graded_action_def)
  moreover have "admission_refusal ?a agent_principal opened_store = None" by code_simp
  moreover have "\<not> not_critical ?a" "\<not> critical_confirmation_valid ?a agent_principal opened_store"
    by (simp_all add: not_critical_def critical_confirmation_valid_def fields)
  moreover obtain ta where "tool_action (action_id ?a) (tool_name ?a) (arguments ?a) (risk_level ?a) True
      (principal_id agent_principal) = Inr ta"
    by (simp add: tool_action_def fetch_action_def commit_action_def agent_principal_def RISK_LEVELS_def)
  moreover have "env_uuid local_env (next_uuid opened_store) = []" "approval opened_store ''appr_'' = None"
    by (simp_all add: local_env_def opened_store_def owned_store_unfold approval_def)
  ultimately show ?thesis
    using critical_action_is_parked [of local_env ?a agent_principal opened_store ?a _ ta] graded by fastforce
qed

subsection \<open>What a routing preserves\<close>

text \<open>
  The updates the authority itself makes are few. An invariant that each of them keeps, and that the
  executors keep, is kept by every routing, however it ends.
\<close>

definition authority_invariant :: "authority_env \<Rightarrow> (store \<Rightarrow> bool) \<Rightarrow> bool" where
  "authority_invariant e I \<longleftrightarrow>
     (\<forall>s ty ac py se tu. I s \<longrightarrow> I (authority_event ty ac py se tu s))
     \<and> (\<forall>s ta se tu st ow. I s \<longrightarrow> I (insert_tool_action ta se tu st ow s))
     \<and> (\<forall>s h ph aid tgt st ttl cr t. I s \<longrightarrow> insert_approval h ph aid tgt st ttl cr s = Inr t \<longrightarrow> I t)
     \<and> (\<forall>s rid. I s \<longrightarrow> I (consume_risk_acceptance rid s))
     \<and> (\<forall>s gid. I s \<longrightarrow> I (record_standing_grant_use gid s))
     \<and> (\<forall>s ns. I s \<longrightarrow> I (s\<lparr>notifications := ns\<rparr>))
     \<and> (\<forall>s n. I s \<longrightarrow> I (s\<lparr>next_uuid := n\<rparr>))
     \<and> (\<forall>s c a p. I s \<longrightarrow> I (snd (env_executor e c a p s)))"

lemma authority_invariantD:
  assumes "authority_invariant e I" and "I s"
  shows "I (authority_event ty ac py se tu s)" "I (insert_tool_action ta se tu st ow s)"
    "insert_approval h ph aid tgt st ttl cr s = Inr t \<Longrightarrow> I t" "I (consume_risk_acceptance rid s)"
    "I (record_standing_grant_use gid s)" "I (s\<lparr>notifications := ns\<rparr>)" "I (s\<lparr>next_uuid := n\<rparr>)"
    "env_executor e c a p s = (r, u) \<Longrightarrow> I u"
proof -
  note laws = assms(1) [unfolded authority_invariant_def]
  show "I (authority_event ty ac py se tu s)"
    by (rule laws [THEN conjunct1, rule_format, OF assms(2)])
  show "I (insert_tool_action ta se tu st ow s)"
    by (rule laws [THEN conjunct2, THEN conjunct1, rule_format, OF assms(2)])
  show "insert_approval h ph aid tgt st ttl cr s = Inr t \<Longrightarrow> I t"
    by (rule laws [THEN conjunct2, THEN conjunct2, THEN conjunct1, rule_format, OF assms(2)])
  show "I (consume_risk_acceptance rid s)"
    by (rule laws [THEN conjunct2, THEN conjunct2, THEN conjunct2, THEN conjunct1, rule_format, OF assms(2)])
  show "I (record_standing_grant_use gid s)"
    by (rule laws [THEN conjunct2, THEN conjunct2, THEN conjunct2, THEN conjunct2, THEN conjunct1, rule_format, OF assms(2)])
  show "I (s\<lparr>notifications := ns\<rparr>)"
    by (rule laws [THEN conjunct2, THEN conjunct2, THEN conjunct2, THEN conjunct2, THEN conjunct2, THEN conjunct1, rule_format, OF assms(2)])
  show "I (s\<lparr>next_uuid := n\<rparr>)"
    by (rule laws [THEN conjunct2, THEN conjunct2, THEN conjunct2, THEN conjunct2, THEN conjunct2, THEN conjunct2, THEN conjunct1, rule_format, OF assms(2)])
  show "env_executor e c a p s = (r, u) \<Longrightarrow> I u"
    using laws [THEN conjunct2, THEN conjunct2, THEN conjunct2, THEN conjunct2, THEN conjunct2, THEN conjunct2, THEN conjunct2, rule_format, OF assms(2), of c a p] by simp
qed

lemma commit_items_keeps:
  "authority_invariant e I \<Longrightarrow> commit_items e items sid a p t = (r, u) \<Longrightarrow> I t \<Longrightarrow> I u"
  by (induction items arbitrary: t) (auto split: sum.splits dest: authority_invariantD)

lemma commit_pre_image_keeps:
  assumes "authority_invariant e I" and "commit_pre_image e items a p t = (v, u)" and "I t"
  shows "I u"
proof -
  let ?sid = "if origin_session_id a \<noteq> [] then origin_session_id a else session_id a"
  obtain err t1 where c: "commit_items e items ?sid a p t = (err, t1)" by fastforce
  show ?thesis
    using assms(2) authority_invariantD(1) [OF assms(1) commit_items_keeps [OF assms(1) c assms(3)]]
      commit_items_keeps [OF assms(1) c assms(3)] unfolding commit_pre_image_def Let_def c
    by (auto split: option.splits if_splits)
qed

lemma routed_execute_keeps:
  "authority_invariant e I \<Longrightarrow> routed_execute tok (env_executor e) c a p t = (r, u) \<Longrightarrow> I t \<Longrightarrow> I u"
  by (auto simp: routed_execute_def dest: authority_invariantD split: if_splits)

text \<open>The run of an executor closes with one event: executed or failed, as the message says.\<close>

definition closing_event :: "GovernedActionResult \<Rightarrow> store \<Rightarrow> bool" where
  "closing_event r t \<longleftrightarrow> res_message r = ''allowed'' \<or>
     (events t \<noteq> [] \<and> ev_actor (last (events t)) = ''executor'' \<and>
      ev_type (last (events t)) = (if res_message r = ''executed'' then ''action_executed'' else ''action_failed''))"

lemma closing_event_event:
  "res_message r = (if ok then ''executed'' else ''execution_failed:'' @ m) \<Longrightarrow>
   closing_event r (authority_event (if ok then ''action_executed'' else ''action_failed'') ''executor'' py se tu t)"
  by (simp add: closing_event_def authority_event_def append_event_def)

lemma execute_action_keeps:
  assumes "authority_invariant e I" and "I t" and "execute_action e a p d posture t = (r, u)"
  shows "I u \<and> (\<forall>x. r = Inr x \<longrightarrow> closing_event x u)"
proof -
  let ?cap = "case CAPABILITY_GATE_MAP (action_type a) of Some c \<Rightarrow> c | None \<Rightarrow> action_type a"
  let ?sid = "if origin_session_id a \<noteq> [] then origin_session_id a else session_id a"
  obtain y t1 where y: "routed_execute (Some (?cap, action_id a)) (env_executor e) ?cap a p t = (y, t1)"
    by fastforce
  obtain pre capture where pre: "snapshot_pre_image e ?cap (arguments a) ?sid t = (pre, capture)" by fastforce
  have g: "I t1" by (rule routed_execute_keeps [OF assms(1) y assms(2)])
  consider (none) "\<not> env_registered e ?cap" | (raised) err where "env_registered e ?cap" "y = Inl err"
    | (ran) z where "env_registered e ?cap" "y = Inr z"
    by (cases y) auto
  then show ?thesis
  proof cases
    case none
    then show ?thesis using assms(2,3) unfolding execute_action_def Let_def
      by (auto simp: closing_event_def governed_result_def)
  next
    case raised
    then show ?thesis using assms(3) g unfolding execute_action_def Let_def by (auto simp: y pre)
  next
    case ran
    define c2 where "c2 = (case pre of
        Some items \<Rightarrow> if er_ok z then (case commit_pre_image e items a p t1 of (c, s') \<Rightarrow> (Some c, s'))
                      else (capture, t1)
      | None \<Rightarrow> (capture, t1))"
    have "I (snd c2)"
      using g by (auto simp: c2_def split: option.splits prod.splits dest: commit_pre_image_keeps [OF assms(1)])
    moreover have "\<exists>x py. r = Inr x \<and> u = authority_event (if er_ok z then ''action_executed'' else ''action_failed'')
        ''executor'' py (session_id a) (turn_id a) (snd c2) \<and>
        res_message x = (if er_ok z then ''executed'' else ''execution_failed:'' @ py_str (opt_str (er_reason_code z)))"
      using assms(3) ran unfolding execute_action_def Let_def y pre c2_def [symmetric]
      by (simp add: y pre c2_def [symmetric] split: prod.splits) (cases c2, auto)
    ultimately show ?thesis using closing_event_event authority_invariantD(1) [OF assms(1)] by force
  qed
qed

lemma settle_keeps:
  assumes "authority_invariant e I" and "I t"
  shows "I (snd (settle_and_execute e a p d mode grant t))"
proof -
  have run: "I (snd (execute_action e a p d posture u))" if "I u" for posture u
    using execute_action_keeps [OF assms(1) that] by (metis prod.collapse)
  show ?thesis using assms(2)
    by (auto simp: settle_and_execute_def Let_def with_policy_def
          intro!: run authority_invariantD(1,4,5) [OF assms(1)] split: option.splits)
qed

lemma authorise_keeps:
  "authority_invariant e I \<Longrightarrow> authorise e a p mode d t = (au, u) \<Longrightarrow> I t \<Longrightarrow> I u"
  by (auto simp: authorise_def Let_def split: option.splits prod.splits dest: authority_invariantD)

lemma review_keeps:
  assumes "authority_invariant e I" and "I t"
  shows "I (snd (review_and_execute e a p t))"
proof (cases "tool_action (action_id a) (tool_name a) (arguments a) (risk_level a) (requires_approval a)
    (principal_id p)")
  case (Inr ta)
  obtain d where d: "review (engine e t) ta None = Inr d" using Inr review_total by blast
  define t1 where "t1 = authority_event ''policy_decision'' ''policy_engine'' (decision_payload d)
      (session_id a) (turn_id a) t"
  obtain au t2 where au: "authorise e a p (action_mode a p t1) d t1 = (au, t2)" by fastforce
  have t1: "I t1" unfolding t1_def by (rule authority_invariantD(1) [OF assms])
  have "I (snd (settle_and_execute e (au_action au) p d (action_mode a p t1) (au_grant au) t2))"
    by (rule settle_keeps [OF assms(1) authorise_keeps [OF assms(1) au t1]])
  then show ?thesis
    using t1 authorise_keeps [OF assms(1) au t1] Inr d au
    by (simp add: review_and_execute_def Let_def t1_def with_policy_def)
qed (use assms in \<open>simp add: review_and_execute_def\<close>)

lemma park_keeps:
  assumes "authority_invariant e I" and "I t"
  shows "I (snd (park_critical_action e a p m t))"
  using assms(2)
  by (auto simp: park_critical_action_def new_id_def Let_def result_def
        intro!: authority_invariantD(1,2,6,7) [OF assms(1)]
        elim!: authority_invariantD(3) [OF assms(1), rotated] split: sum.splits option.splits)

lemma critical_keeps:
  assumes "authority_invariant e I" and "I t"
  shows "I (snd (critical_stage e a p t))"
  using assms(2)
  by (auto simp: critical_stage_def Let_def intro!: review_keeps [OF assms(1)] park_keeps [OF assms(1)]
        authority_invariantD(1) [OF assms(1)] split: option.splits)

lemma place_keeps:
  "authority_invariant e I \<Longrightarrow> place_action e a p s = (x, t) \<Longrightarrow> I s \<Longrightarrow> I t"
  by (auto simp: place_action_def Let_def split: option.splits sum.splits if_splits dest: authority_invariantD)

lemma route_keeps:
  assumes "authority_invariant e I" and "I s"
  shows "I (snd (route_action e a p s))"
proof -
  obtain placed t where pl: "place_action e a p s = (placed, t)" by fastforce
  have t: "I t" by (rule place_keeps [OF assms(1) pl assms(2)])
  show ?thesis
  proof (cases placed)
    case (Inr br)
    obtain b r where br: "br = (b, r)" by fastforce
    then show ?thesis using t Inr
      by (cases r) (auto simp: route_action_def pl Let_def result_def
            intro!: critical_keeps [OF assms(1)] authority_invariantD(1) [OF assms(1)] split: option.splits)
  qed (use t in \<open>simp add: route_action_def pl\<close>)
qed

subsection \<open>The log of a routing\<close>

definition log_grows :: "store \<Rightarrow> store \<Rightarrow> bool" where
  "log_grows s t \<longleftrightarrow> prefix (events s) (events t)"

text \<open>Executors append to the log and never rewrite it.\<close>

definition executors_append :: "authority_env \<Rightarrow> bool" where
  "executors_append e \<longleftrightarrow> (\<forall>c a p s. log_grows s (snd (env_executor e c a p s)))"

lemma log_grows_event: "log_grows s t \<Longrightarrow> log_grows s (authority_event ty ac py se tu t)"
  by (simp add: log_grows_def authority_event_def append_event_def prefix_def) (metis append.assoc)

lemma log_invariant:
  assumes "executors_append e"
  shows "authority_invariant e (log_grows s)"
proof -
  have "log_grows s (snd (env_executor e c a p t))" if "log_grows s t" for c a p t
    using assms that prefix_order.trans unfolding executors_append_def log_grows_def by blast
  then show ?thesis unfolding authority_invariant_def
    by (auto simp: log_grows_event)
      (auto simp: log_grows_def insert_tool_action_def insert_approval_def put_approval_def
         consume_risk_acceptance_def record_standing_grant_use_def Let_def split: sum.splits if_splits)
qed

text \<open>
  The audit trail is append-only and complete at its end. Provided executors append to the event log,
  every routing, however it ends, keeps the events that were logged; and when an executor ran, the last
  event is the executor's and says executed or failed exactly as the answer does.
\<close>

theorem routing_log_append_only:
  assumes "executors_append e"
  shows "prefix (events s) (events (snd (route_action e a p s))) \<and>
    (\<forall>x. fst (route_action e a p s) = Inr x \<longrightarrow> res_decision x = ''allow'' \<longrightarrow> res_message x \<noteq> ''allowed'' \<longrightarrow>
       (\<exists>evs ev. events (snd (route_action e a p s)) = evs @ [ev] \<and> ev_actor ev = ''executor'' \<and>
          ev_type ev = (if res_message x = ''executed'' then ''action_executed'' else ''action_failed'')))"
proof (intro conjI allI impI)
  note inv = log_invariant [OF assms]
  show "prefix (events s) (events (snd (route_action e a p s)))"
    using route_keeps [OF inv, of s s] by (simp add: log_grows_def)
  fix x
  assume x: "fst (route_action e a p s) = Inr x" "res_decision x = ''allow''" "res_message x \<noteq> ''allowed''"
  then have "\<not> refused e (\<lambda>e'. route_action e' a p s)" using refusedD(1) by blast
  then obtain c d posture t where run: "\<And>ex. route_action (with_executor e ex) a p s =
      execute_action (with_executor e ex) c p d posture t"
    using route_mediated [of e a p s] unfolding runs_def by metis
  have "execute_action e c p d posture t = route_action e a p s" using run [of "env_executor e"] by simp
  also have "\<dots> = (Inr x, snd (route_action e a p s))" using x(1) by (metis prod.collapse)
  finally have "closing_event x (snd (route_action e a p s))"
    using execute_action_keeps [of e "log_grows t" t] inv log_invariant [OF assms, of t] by (simp add: log_grows_def)
  with x(3) show "\<exists>evs ev. events (snd (route_action e a p s)) = evs @ [ev] \<and> ev_actor ev = ''executor'' \<and>
      ev_type ev = (if res_message x = ''executed'' then ''action_executed'' else ''action_failed'')"
    unfolding closing_event_def by (metis append_butlast_last_id)
qed

theorem routing_log_append_only_witness:
  "executors_append local_env \<and>
   prefix (events opened_store) (events (snd (route_action local_env fetch_action owner_principal opened_store)))"
proof -
  have "executors_append local_env" by (simp add: executors_append_def local_env_def log_grows_def)
  with routing_log_append_only [OF this] show ?thesis by blast
qed

end
