(* ===== verification/Patch_Selection.thy ===== *)
theory Patch_Selection
  imports Raiker_Prelude "HOL-Library.Sublist"
begin

text \<open>
  Accepting part of a proposed change (\<^verbatim>\<open>tools/patch_selection.py\<close>): the sections of a unified diff,
  the ids of its hunks, the ids of a selection that name nothing, and the patch narrowed to a selection.
  Lines are those of \<^verbatim>\<open>str.splitlines(keepends=True)\<close>.
\<close>

subsection \<open>Lines\<close>

definition line_break :: "char \<Rightarrow> bool" where
  "line_break c = ((of_char c :: nat) \<in> {10, 11, 12, 13, 28, 29, 30, 133})"

fun splitlines :: "string \<Rightarrow> string list" where
  "splitlines [] = []"
| "splitlines [c] = [[c]]"
| "splitlines (c # d # r) =
     (if c = CHR 0x0D \<and> d = CHR 0x0A then [c, d] # splitlines r
      else if line_break c then [c] # splitlines (d # r)
      else (case splitlines (d # r) of [] \<Rightarrow> [[c]] | l # ls \<Rightarrow> (c # l) # ls))"

lemma concat_splitlines [simp]: "concat (splitlines s) = s"
proof (induction s rule: splitlines.induct)
  case (3 c d r)
  show ?case
  proof (cases "c = CHR 0x0D \<and> d = CHR 0x0A")
    case False
    then have "concat (splitlines (d # r)) = d # r" using 3 by blast
    with False show ?thesis by (auto split: list.splits)
  qed (use 3 in auto)
qed simp_all

subsection \<open>Sections and hunks\<close>

type_synonym patch_section = "string list \<times> string list list"

definition file_header :: "string \<Rightarrow> bool" where
  "file_header l = starts_with l ''--- ''"

definition hunk_header :: "string \<Rightarrow> bool" where
  "hunk_header l = starts_with l ''@@ ''"

definition file_starts :: "string list \<Rightarrow> nat list" where
  "file_starts ls =
     filter (\<lambda>i. file_header (ls ! i) \<and> starts_with (ls ! (i + 1)) ''+++ '') [0..<length ls - 1]"

text \<open>One pass of the loop over a body: the open hunk is the last of the list.\<close>

definition body_line :: "string \<Rightarrow> patch_section \<Rightarrow> patch_section" where
  "body_line l sec =
     (case sec of (header, hunks) \<Rightarrow>
        if hunk_header l then (header, hunks @ [[l]])
        else if hunks = [] then (header @ [l], hunks)
        else (header, butlast hunks @ [last hunks @ [l]]))"

definition read_body :: "string list \<Rightarrow> patch_section" where
  "read_body body = fold body_line body ([], [])"

definition section_bodies :: "string list \<Rightarrow> string list list" where
  "section_bodies ls =
     (let starts = file_starts ls; bounds = starts @ [length ls]
      in map (\<lambda>p. let begin = (if p = 0 then 0 else starts ! p)
                   in take (bounds ! (p + 1) - begin) (drop begin ls)) [0..<length starts])"

definition sections :: "string \<Rightarrow> patch_section list" where
  "sections patch = map read_body (section_bodies (splitlines patch))"

subsection \<open>Ids and selections\<close>

definition hunk_id :: "nat \<Rightarrow> nat \<Rightarrow> string" where
  "hunk_id f h = nat_dec f @ '':'' @ nat_dec h"

definition hunk_ids :: "string \<Rightarrow> string list" where
  "hunk_ids patch =
     concat (map (\<lambda>(f, header, hunks). map (hunk_id f) [0..<length hunks])
       (List.enumerate 0 (sections patch)))"

definition unknown_hunk_ids :: "string \<Rightarrow> string list \<Rightarrow> string list" where
  "unknown_hunk_ids patch selected = filter (\<lambda>i. i \<notin> set (hunk_ids patch)) selected"

definition kept_hunks :: "string list \<Rightarrow> nat \<Rightarrow> string list list \<Rightarrow> string list list" where
  "kept_hunks wanted f hunks =
     map snd (filter (\<lambda>(h, hunk). hunk_id f h \<in> set wanted) (List.enumerate 0 hunks))"

definition select_hunks :: "string \<Rightarrow> string list \<Rightarrow> string" where
  "select_hunks patch selected =
     concat (concat (map (\<lambda>(f, header, hunks).
        let kept = kept_hunks selected f hunks
        in if kept = [] then [] else header @ concat kept) (List.enumerate 0 (sections patch))))"

definition partition_tab :: "string \<Rightarrow> string" where
  "partition_tab s = takeWhile (\<lambda>c. c \<noteq> CHR 0x09) s"

definition target_of :: "string list \<Rightarrow> string option" where
  "target_of header =
     (case List.find (\<lambda>l. starts_with l ''+++ '') header of
        None \<Rightarrow> None
      | Some l \<Rightarrow>
          (let value = str_strip (partition_tab (str_strip (drop 4 l)))
           in Some (if starts_with value ''b/'' then drop 2 value else value)))"

definition patch_target_paths :: "string \<Rightarrow> string list" where
  "patch_target_paths patch = List.map_filter (\<lambda>(header, hunks). target_of header) (sections patch)"

subsection \<open>Reading a body loses nothing\<close>

definition section_lines :: "patch_section \<Rightarrow> string list" where
  "section_lines sec = fst sec @ concat (snd sec)"

lemma body_line_lines [simp]: "section_lines (body_line l sec) = section_lines sec @ [l]"
  by (cases sec; cases "snd sec" rule: rev_cases) (auto simp: body_line_def section_lines_def)

lemma fold_body_lines: "section_lines (fold body_line body sec) = section_lines sec @ body"
  by (induction body arbitrary: sec) auto

lemma read_body_lines [simp]: "section_lines (read_body body) = body"
  by (simp add: read_body_def fold_body_lines) (simp add: section_lines_def)

lemma file_starts_sorted: "sorted_wrt (<) (file_starts ls)"
  unfolding file_starts_def by (intro sorted_wrt_filter) simp

lemma file_starts_less: "i \<in> set (file_starts ls) \<Longrightarrow> i < length ls"
  by (auto simp: file_starts_def)

text \<open>Cutting a list at increasing positions and joining the pieces gives it back.\<close>

fun cuts :: "nat list \<Rightarrow> 'a list \<Rightarrow> 'a list list" where
  "cuts (b # c # bs) ls = take (c - b) (drop b ls) # cuts (c # bs) ls"
| "cuts bs ls = []"

lemma length_cuts [simp]: "length (cuts bs ls) = length bs - 1"
  by (induction bs ls rule: cuts.induct) auto

lemma nth_cuts:
  "p + 1 < length bs \<Longrightarrow> cuts bs ls ! p = take (bs ! (p + 1) - bs ! p) (drop (bs ! p) ls)"
  by (induction bs ls arbitrary: p rule: cuts.induct) (auto simp: nth_Cons split: nat.splits)

lemma concat_cuts:
  assumes "sorted_wrt (\<le>) bs" and "bs \<noteq> []"
  shows "concat (cuts bs ls) = take (last bs - hd bs) (drop (hd bs) ls)"
  using assms
proof (induction bs ls rule: cuts.induct)
  case (1 b c bs ls)
  have le: "b \<le> c" "c \<le> last (c # bs)" using 1(2) by (auto simp: last_in_set)
  have "concat (cuts (b # c # bs) ls) = take (c - b) (drop b ls) @ take (last (c # bs) - c) (drop c ls)"
    using 1 by simp
  also have "\<dots> = take ((c - b) + (last (c # bs) - c)) (drop b ls)"
    unfolding take_add using le by simp
  finally show ?case using le by simp
qed simp_all

lemma concat_section_bodies:
  assumes "file_starts ls \<noteq> []"
  shows "concat (section_bodies ls) = ls"
proof -
  obtain s ss where st: "file_starts ls = s # ss" using assms by (cases "file_starts ls") auto
  let ?bs = "0 # ss @ [length ls]"
  have bound: "\<forall>x \<in> set ss. x \<le> length ls" using file_starts_less [of _ ls] st by (auto intro: less_imp_le)
  have "sorted_wrt (\<le>) ss"
    using file_starts_sorted [of ls] st by (auto elim: sorted_wrt_mono_rel [rotated])
  with bound have "sorted_wrt (\<le>) ?bs" by (simp add: sorted_wrt_append)
  from concat_cuts [OF this, of ls] have "concat (cuts ?bs ls) = ls" by simp
  moreover have "section_bodies ls = cuts ?bs ls"
  proof (rule nth_equalityI)
    fix p
    assume "p < length (section_bodies ls)"
    then have p: "p \<le> length ss" by (simp add: section_bodies_def Let_def st)
    then have "section_bodies ls ! p = take (?bs ! (p + 1) - ?bs ! p) (drop (?bs ! p) ls)"
      by (cases p) (simp_all add: section_bodies_def Let_def st nth_append, metis diff_Suc_1 One_nat_def)
    then show "section_bodies ls ! p = cuts ?bs ls ! p" using p by (simp add: nth_cuts)
  qed (simp add: section_bodies_def Let_def st)
  ultimately show ?thesis by simp
qed

lemma section_bodies_empty: "file_starts ls = [] \<Longrightarrow> section_bodies ls = []"
  by (simp add: section_bodies_def)

lemma subseq_section_bodies: "subseq (concat (section_bodies ls)) ls"
  by (cases "file_starts ls = []") (simp_all add: concat_section_bodies section_bodies_empty)

lemma concat_section_lines:
  "concat (map section_lines (sections patch)) = concat (section_bodies (splitlines patch))"
  by (simp add: sections_def comp_def)

subsection \<open>Ids name hunks\<close>

lemma colon_code: "(of_char CHR '':'' :: nat) = 58"
  by simp

lemma colon_not_nat_dec: "CHR '':'' \<notin> set (nat_dec n)"
proof (induction n rule: nat_dec.induct)
  case (1 n)
  have "CHR '':'' \<noteq> dec_digit d" if "d < 10" for d
  proof
    assume "CHR '':'' = dec_digit d"
    then have "(58 :: nat) = 48 + d" using of_char_dec_digit [OF that] colon_code by metis
    with that show False by simp
  qed
  with 1 show ?case by (subst nat_dec.simps) simp
qed

lemma hunk_id_inject [simp]: "hunk_id f h = hunk_id f' h' \<longleftrightarrow> f = f' \<and> h = h'"
proof
  assume eq: "hunk_id f h = hunk_id f' h'"
  have part: "takeWhile (\<lambda>c. c \<noteq> CHR '':'') (hunk_id a b) = nat_dec a" for a b
    using colon_not_nat_dec [of a] by (simp add: hunk_id_def takeWhile_append)
  from eq part have "nat_dec f = nat_dec f'" by metis
  with eq show "f = f' \<and> h = h'" by (simp add: hunk_id_def)
qed simp

lemma enumerate_positions: "List.enumerate 0 xs = map (\<lambda>i. (i, xs ! i)) [0..<length xs]"
  by (rule nth_equalityI) (auto simp: nth_enumerate_eq)

lemma set_hunk_ids:
  "set (hunk_ids patch) =
     {hunk_id f h | f h. f < length (sections patch) \<and> h < length (snd (sections patch ! f))}"
  by (auto simp: hunk_ids_def enumerate_positions case_prod_beta)

lemma distinct_ids: "distinct fs \<Longrightarrow> distinct (concat (map (\<lambda>f. map (hunk_id f) [0..<n f]) fs))"
  by (induction fs) (auto simp: distinct_map inj_on_def)

subsection \<open>What a selection keeps\<close>

definition chosen_section :: "(nat \<Rightarrow> bool) \<Rightarrow> patch_section \<Rightarrow> string list" where
  "chosen_section keep sec =
     (let kept = map (\<lambda>h. snd sec ! h) (filter keep [0..<length (snd sec)])
      in if kept = [] then [] else fst sec @ concat kept)"

lemma kept_hunks_positions:
  "kept_hunks wanted f hunks = map (\<lambda>h. hunks ! h) (filter (\<lambda>h. hunk_id f h \<in> set wanted) [0..<length hunks])"
  by (simp add: kept_hunks_def enumerate_positions filter_map comp_def)

lemma select_hunks_positions:
  "select_hunks patch selected =
     concat (concat (map (\<lambda>f. chosen_section (\<lambda>h. hunk_id f h \<in> set selected) (sections patch ! f))
       [0..<length (sections patch)]))"
  unfolding select_hunks_def enumerate_positions kept_hunks_positions chosen_section_def Let_def
    case_prod_beta map_map comp_def fst_conv snd_conv ..

lemma subseq_filter_nth: "subseq (map (\<lambda>i. xs ! i) (filter P [0..<length xs])) xs"
proof -
  have "subseq (filter P [0..<length xs]) [0..<length xs]" by (rule subseq_filter_left)
  then have "subseq (map ((!) xs) (filter P [0..<length xs])) (map ((!) xs) [0..<length xs])"
    by (rule subseq_map)
  then show ?thesis by (simp add: map_nth)
qed

lemma subseq_concat: "subseq xss yss \<Longrightarrow> subseq (concat xss) (concat yss)"
  by (induction rule: list_emb.induct) (auto intro: list_emb_append_mono subseq_drop_many)

lemma subseq_chosen_section: "subseq (chosen_section keep sec) (section_lines sec)"
  unfolding chosen_section_def section_lines_def Let_def
  by (auto intro!: list_emb_append_mono subseq_concat subseq_filter_nth)

lemma concat_map_positions: "concat (map (\<lambda>i. g (xs ! i)) [0..<length xs]) = concat (map g xs)"
proof -
  have "map (\<lambda>i. g (xs ! i)) [0..<length xs] = map g xs" by (rule nth_equalityI) auto
  then show ?thesis by simp
qed

lemma subseq_map_concat:
  "(\<And>i. i \<in> set is \<Longrightarrow> subseq (f i) (g i)) \<Longrightarrow> subseq (concat (map f is)) (concat (map g is))"
  by (induction "is") (auto intro: list_emb_append_mono)

text \<open>
  A selection narrows and never edits. Whatever ids are named, the narrowed patch is made of lines of
  the approved patch, each whole and in its order; no line is added, moved or rewritten.
\<close>

theorem selection_only_narrows:
  "\<exists>ls. select_hunks patch selected = concat ls \<and> subseq ls (splitlines patch)"
proof -
  let ?secs = "sections patch"
  let ?pick = "\<lambda>f. chosen_section (\<lambda>h. hunk_id f h \<in> set selected) (?secs ! f)"
  have "subseq (concat (map ?pick [0..<length ?secs]))
      (concat (map (\<lambda>f. section_lines (?secs ! f)) [0..<length ?secs]))"
    by (intro subseq_map_concat subseq_chosen_section)
  also have "concat (map (\<lambda>f. section_lines (?secs ! f)) [0..<length ?secs]) =
      concat (section_bodies (splitlines patch))"
    by (simp add: concat_map_positions [of section_lines] concat_section_lines)
  finally have "subseq (concat (map ?pick [0..<length ?secs])) (splitlines patch)"
    using subseq_section_bodies subseq_order.trans by blast
  then show ?thesis unfolding select_hunks_positions by blast
qed

text \<open>
  Selecting every hunk gives the approved patch back, byte for byte, for a patch with at least one
  file section and a hunk in each.
\<close>

theorem select_all_roundtrip:
  assumes "file_starts (splitlines patch) \<noteq> []" and "\<forall>sec \<in> set (sections patch). snd sec \<noteq> []"
  shows "select_hunks patch (hunk_ids patch) = patch"
proof -
  let ?secs = "sections patch"
  have all: "chosen_section (\<lambda>h. hunk_id f h \<in> set (hunk_ids patch)) (?secs ! f) = section_lines (?secs ! f)"
    if "f < length ?secs" for f
  proof -
    have "filter (\<lambda>h. hunk_id f h \<in> set (hunk_ids patch)) [0..<length (snd (?secs ! f))]
        = [0..<length (snd (?secs ! f))]"
      using that by (intro filter_True) (auto simp: set_hunk_ids)
    moreover have "snd (?secs ! f) \<noteq> []" using assms(2) that by simp
    ultimately show ?thesis by (simp add: chosen_section_def section_lines_def map_nth)
  qed
  have "select_hunks patch (hunk_ids patch) =
      concat (concat (map (\<lambda>f. section_lines (?secs ! f)) [0..<length ?secs]))"
    unfolding select_hunks_positions using all by (metis (no_types, lifting) atLeastLessThan_upt
        atLeastLessThan_iff map_cong)
  also have "\<dots> = concat (concat (section_bodies (splitlines patch)))"
    by (simp add: concat_map_positions [of section_lines] concat_section_lines)
  finally show ?thesis using concat_section_bodies [OF assms(1)] by simp
qed

definition nl :: string where
  "nl = [CHR 0x0A]"

definition two_file_patch :: string where
  "two_file_patch =
     ''--- a/x'' @ nl @ ''+++ b/x'' @ nl @ ''@@ -1 +1 @@'' @ nl @ ''-o'' @ nl @ ''+n'' @ nl
     @ ''diff --git a/y b/y'' @ nl
     @ ''--- a/y'' @ nl @ ''+++ b/y'' @ nl @ ''@@ -1 +1 @@'' @ nl @ ''-p'' @ nl @ ''+q'' @ nl"

theorem select_all_roundtrip_witness:
  "hunk_ids two_file_patch = [''0:0'', ''1:0''] \<and>
   select_hunks two_file_patch [''0:0'', ''1:0''] = two_file_patch"
proof -
  have "file_starts (splitlines two_file_patch) = [0, 6]" by code_simp
  moreover have "list_all (\<lambda>sec. snd sec \<noteq> []) (sections two_file_patch)" by code_simp
  moreover have ids: "hunk_ids two_file_patch = [''0:0'', ''1:0'']" by code_simp
  ultimately show ?thesis using select_all_roundtrip [of two_file_patch] by (simp add: list_all_iff)
qed

text \<open>
  C21: Ids are positions. Naming hunks by the ids of a list of positions keeps exactly the hunks at those
  positions, with the header of each section that keeps one; and a selection has no unknown id exactly
  when all its ids are ids of positions of the patch. In particular two hunks never share an id.
\<close>

theorem selection_by_position:
  "select_hunks patch (map (\<lambda>(f, h). hunk_id f h) ps) =
     concat (concat (map (\<lambda>f. chosen_section (\<lambda>h. (f, h) \<in> set ps) (sections patch ! f))
       [0..<length (sections patch)]))
   \<and> (unknown_hunk_ids patch selected = [] \<longleftrightarrow>
        set selected \<subseteq> {hunk_id f h | f h. f < length (sections patch) \<and> h < length (snd (sections patch ! f))})
   \<and> distinct (hunk_ids patch)"
proof (intro conjI)
  have "hunk_id f h \<in> set (map (\<lambda>(f, h). hunk_id f h) ps) \<longleftrightarrow> (f, h) \<in> set ps" for f h
    by force
  then show "select_hunks patch (map (\<lambda>(f, h). hunk_id f h) ps) =
     concat (concat (map (\<lambda>f. chosen_section (\<lambda>h. (f, h) \<in> set ps) (sections patch ! f))
       [0..<length (sections patch)]))"
    unfolding select_hunks_positions by simp
  show "unknown_hunk_ids patch selected = [] \<longleftrightarrow>
      set selected \<subseteq> {hunk_id f h | f h. f < length (sections patch) \<and> h < length (snd (sections patch ! f))}"
    unfolding unknown_hunk_ids_def filter_empty_conv set_hunk_ids by blast
  show "distinct (hunk_ids patch)"
    unfolding hunk_ids_def enumerate_positions by (simp add: case_prod_beta comp_def distinct_ids)
qed

text \<open>
  The lines between two sections belong to the last hunk before them, so the preamble of a file whose
  hunks were all declined stays in the narrowed patch.
\<close>

theorem declined_preamble_is_kept:
  "select_hunks two_file_patch [''0:0''] =
     ''--- a/x'' @ nl @ ''+++ b/x'' @ nl @ ''@@ -1 +1 @@'' @ nl @ ''-o'' @ nl @ ''+n'' @ nl
     @ ''diff --git a/y b/y'' @ nl"
  by code_simp

end
