(* ===== verification/Approval_Relay.thy ===== *)
theory Approval_Relay
  imports Authority_Properties Patch_Selection
begin

text \<open>
  What happens after a human's Approve: the execution relay (\<^verbatim>\<open>runtime/executors/tier1_approval.py\<close>),
  the bridge that enters it through the authority (\<^verbatim>\<open>approvals/execution.py\<close>) and the lifecycle of
  critical approvals (\<^verbatim>\<open>RuntimeAuthority.resolve_critical_approval\<close>).

  The relay's authority is the \<open>authority_env\<close> of the routing. Refreshing the code map after a write is
  a parameter: the outcome of the service, or \<open>None\<close> when it raises.
\<close>

subsection \<open>The relay\<close>

definition RELAY_CAPABILITY :: string where
  "RELAY_CAPABILITY = ''approval_execution_relay''"

definition NON_ALLOW_DECISIONS :: "string list" where
  "NON_ALLOW_DECISIONS =
     [''deny'', ''needs_approval'', ''needs_risk_acceptance'', ''needs_human_confirmation'',
      ''disabled_by_capability_gate'']"

definition WRITE_TOOLS :: "string list" where
  "WRITE_TOOLS = [''write_file'', ''edit_file'', ''apply_patch'', ''create_document'']"

type_synonym code_map_refresh = "string list \<Rightarrow> Principal \<Rightarrow> store \<Rightarrow> pydict option"

definition relay_emit :: "GovernedAction \<Rightarrow> string \<Rightarrow> pydict \<Rightarrow> store \<Rightarrow> store" where
  "relay_emit a typ payload =
     append_event typ RELAY_CAPABILITY payload (if session_id a = [] then ''approval_relay'' else session_id a)
       (turn_id a)"

definition refresh_code_map ::
  "code_map_refresh \<Rightarrow> GovernedAction \<Rightarrow> Principal \<Rightarrow> string \<Rightarrow> pydict \<Rightarrow> store \<Rightarrow> store" where
  "refresh_code_map refresh a p tool artifacts s =
     (if tool \<notin> set WRITE_TOOLS \<or> artifacts = [] then s
      else (let paths = (if truthy (dict_get artifacts ''paths'')
                         then (case dict_get artifacts ''paths'' of PList xs \<Rightarrow> map py_str xs | _ \<Rightarrow> [])
                         else if truthy (dict_get artifacts ''path'') then [py_str (dict_get artifacts ''path'')]
                         else [])
            in if paths = [] then s
               else (case refresh paths p s of
                       None \<Rightarrow> s
                     | Some outcome \<Rightarrow>
                         if dict_get outcome ''status'' = PStr ''refreshed''
                         then relay_emit a ''code_map_refreshed''
                                [(''repository'', case map_of outcome ''repository'' of None \<Rightarrow> PStr [] | Some v \<Rightarrow> v),
                                 (''refreshed'', case map_of outcome ''refreshed'' of None \<Rightarrow> PInt 0 | Some v \<Rightarrow> v),
                                 (''removed'', case map_of outcome ''removed'' of None \<Rightarrow> PInt 0 | Some v \<Rightarrow> v),
                                 (''tool_name'', PStr tool)] s
                         else s)))"

definition relay_result :: "GovernedAction \<Rightarrow> string \<Rightarrow> string \<Rightarrow> pydict \<Rightarrow> ExecutionResult" where
  "relay_result a reason summary artifacts =
     \<lparr>er_ok = False, er_capability = RELAY_CAPABILITY, er_action_id = action_id a,
      er_reason_code = Some reason, er_summary = summary, er_artifacts = artifacts\<rparr>"

text \<open>
  Arguments as stored: \<^verbatim>\<open>insert_tool_action\<close> is the only writer of \<^verbatim>\<open>arguments_json\<close> and stores an
  object.
\<close>

definition object_items :: "pyval \<Rightarrow> pydict" where
  "object_items v = (case v of PDict d \<Rightarrow> d | _ \<Rightarrow> [])"

record relay_ticket =
  rt_id :: string
  rt_row :: approval_row
  rt_proposal :: tool_action_row
  rt_args :: pydict
  rt_posture :: pydict

text \<open>Applying the owner's partial acceptance: an early return, or the arguments to run.\<close>

definition narrow_arguments ::
  "GovernedAction \<Rightarrow> string \<Rightarrow> string list option \<Rightarrow> pydict \<Rightarrow> ExecutionResult + pydict" where
  "narrow_arguments a aid accepted args =
     (case accepted of
        None \<Rightarrow> Inr args
      | Some hunks \<Rightarrow>
          (let patch = (case map_of args ''patch'' of None \<Rightarrow> [] | Some v \<Rightarrow> py_str v);
               unknown = unknown_hunk_ids patch hunks;
               narrowed = select_hunks patch hunks
           in if unknown \<noteq> []
              then Inl (relay_result a ''unknown_hunk_selection''
                     (''Approval '' @ aid @ '' names '' @ nat_dec (length unknown)
                        @ '' hunk(s) that are not in the approved change; refused.'')
                     [(''approval_id'', PStr aid), (''unknown_hunks'', PList (map PStr unknown))])
              else if str_strip narrowed = []
              then Inl (relay_result a ''no_hunk_accepted''
                     (''Approval '' @ aid @ '' accepted no part of the change.'') [(''approval_id'', PStr aid)])
              else Inr (dict_set args ''patch'' (PStr narrowed))))"

definition intent_check :: "authority_env \<Rightarrow> approval_row \<Rightarrow> tool_action_row \<Rightarrow> py_error + bool" where
  "intent_check e r t =
     (case ap_sha256 r of
        None \<Rightarrow> Inr True
      | Some h \<Rightarrow>
          (case tool_action_payload_sha256 (env_sha256 e) (ta_tool t) (ta_args t) (ta_risk t) of
             Inl err \<Rightarrow> Inl err
           | Inr current \<Rightarrow> Inr (h = current)))"

text \<open>Everything before the claim: an exception, an early return, or a ticket.\<close>

definition relay_guard ::
  "authority_env \<Rightarrow> GovernedAction \<Rightarrow> Principal \<Rightarrow> store
   \<Rightarrow> (py_error + (ExecutionResult + relay_ticket)) \<times> store" where
  "relay_guard e a p s =
     (let aid = (case map_of (arguments a) ''approval_id'' of None \<Rightarrow> [] | Some v \<Rightarrow> py_str v);
          stop = (\<lambda>reason summary t. (Inr (Inl (relay_result a reason summary [])), t))
      in if aid = []
         then stop ''missing_argument:approval_id'' ''Approval relay denied: no approval_id provided.'' s
         else (case load_approval s aid of
           None \<Rightarrow> stop ''approval_not_found'' (''Approval '' @ aid @ '' not found.'') s
         | Some (r, t) \<Rightarrow>
             if ap_status r \<noteq> ''pending''
             then stop ''approval_already_resolved'' (''Approval '' @ aid @ '' already resolved.'') s
             else if ap_critical r \<and> critical_confirmation a = None
             then stop ''critical_approval_requires_lifecycle''
                    (''Approval '' @ aid @ '' is critical; resolve it via the critical lifecycle.'') s
             else if approval_expired r (clock s)
             then stop ''approval_expired''
                    (''Approval '' @ aid @ '' expired at '' @ the (ap_expires_at r) @ ''; not executed.'')
                    (snd (expire_approval aid s))
             else (case intent_check e r t of
               Inl err \<Rightarrow> (Inl err, s)
             | Inr False \<Rightarrow>
                 stop ''approval_payload_tampered''
                   (''Approval '' @ aid @ '' arguments changed since approval; refused.'') s
             | Inr True \<Rightarrow>
                 (case ta_args t of
                    None \<Rightarrow> stop ''invalid_arguments_json'' ''Approval relay denied: invalid arguments JSON.'' s
                  | Some v \<Rightarrow>
                      (let posture = capture_posture s p (session_id a)
                       in case posture_degraded_reason posture of
                            Some degraded \<Rightarrow>
                              (Inr (Inl (relay_result a degraded (''Approval '' @ aid @ '' denied: '' @ degraded @ ''.'')
                                           [(''approval_id'', PStr aid), (''posture'', PDict posture)])),
                               relay_emit a ''approval_execution_denied''
                                 [(''approval_id'', PStr aid), (''reason_code'', PStr degraded),
                                  (''posture'', PDict posture)] s)
                          | None \<Rightarrow>
                              (case narrow_arguments a aid (approval_accepted_hunks r) (object_items v) of
                                 Inl res \<Rightarrow> (Inr (Inl res), s)
                               | Inr args \<Rightarrow>
                                   if ta_tool t = RELAY_CAPABILITY
                                      \<or> CAPABILITY_GATE_MAP (ta_tool t) = Some RELAY_CAPABILITY
                                   then stop ''relay_target_not_permitted''
                                          ''Approval relay cannot execute another approval relay.'' s
                                   else (Inr (Inr \<lparr>rt_id = aid, rt_row = r, rt_proposal = t, rt_args = args,
                                                   rt_posture = posture\<rparr>), s)))))))"

definition target_capability :: "string \<Rightarrow> string" where
  "target_capability tool = (case CAPABILITY_GATE_MAP tool of Some c \<Rightarrow> c | None \<Rightarrow> tool)"

definition target_action :: "string \<Rightarrow> GovernedAction \<Rightarrow> Principal \<Rightarrow> relay_ticket \<Rightarrow> GovernedAction" where
  "target_action tid a p tk =
     \<lparr>action_id = tid, ga_principal_id = principal_id p, action_type = ta_tool (rt_proposal tk),
      tool_name = ta_tool (rt_proposal tk), arguments = rt_args tk, domain_scope = [],
      risk_level = ta_risk (rt_proposal tk), requires_approval = False, requires_risk_acceptance = False,
      session_id = session_id a, turn_id = turn_id a, origin_session_id = ta_session (rt_proposal tk),
      critical_confirmation = critical_confirmation a, decision_mode_override = None,
      authority_kind = ''approval'', authority_id = rt_id tk\<rparr>"

text \<open>From the answer of the authority to the end of \<^verbatim>\<open>execute\<close>.\<close>

definition relay_settle ::
  "code_map_refresh \<Rightarrow> GovernedAction \<Rightarrow> Principal \<Rightarrow> relay_ticket \<Rightarrow> string \<Rightarrow> GovernedActionResult \<Rightarrow> store
   \<Rightarrow> ExecutionResult \<times> store" where
  "relay_settle refresh a p tk tid r s =
     (let aid = rt_id tk; tool = ta_tool (rt_proposal tk); cap = target_capability tool
      in if res_decision r = ''allow'' \<and> res_error r = None then
           (let s1 = snd (finalize_approval_execution aid ''executed'' (principal_id p) s);
                s2 = relay_emit a ''approval_executed''
                       [(''approval_id'', PStr aid), (''target_action_id'', PStr tid), (''capability'', PStr cap),
                        (''tool_name'', PStr tool), (''decision'', PStr (res_decision r)),
                        (''principal_id'', PStr (principal_id p)), (''result'', PDict (res_artifacts r)),
                        (''posture'', PDict (rt_posture tk))] s1
            in (\<lparr>er_ok = True, er_capability = RELAY_CAPABILITY, er_action_id = action_id a, er_reason_code = None,
                 er_summary = ''Approval executed: '' @ tool @ '' via '' @ cap @ ''.'',
                 er_artifacts = [(''approval_id'', PStr aid), (''target_action_id'', PStr tid),
                                 (''capability'', PStr cap), (''decision'', PStr (res_decision r)),
                                 (''result'', PDict (res_artifacts r))]\<rparr>,
                refresh_code_map refresh a p tool (res_artifacts r) s2))
         else
           (let nothing_ran = (res_decision r \<in> set NON_ALLOW_DECISIONS
                               \<or> res_error r = Some ''execution_unavailable:no_executor'');
                s1 = (if nothing_ran then snd (release_approval_claim aid s)
                      else snd (finalize_approval_execution aid ''execution_failed'' (principal_id p) s));
                reason = (case res_error r of
                            Some x \<Rightarrow> if x \<noteq> [] then x
                                      else if res_message r \<noteq> [] then res_message r else res_decision r
                          | None \<Rightarrow> if res_message r \<noteq> [] then res_message r else res_decision r);
                s2 = relay_emit a ''approval_execution_denied''
                       [(''approval_id'', PStr aid), (''target_action_id'', PStr tid), (''capability'', PStr cap),
                        (''decision'', PStr (res_decision r)), (''reason_code'', PStr reason),
                        (''released_to_pending'', PBool nothing_ran), (''posture'', PDict (rt_posture tk))] s1
            in (relay_result a (''target_not_executed:'' @ reason)
                  (''Approval '' @ aid @ '' not executed: '' @ res_decision r @ '' ('' @ reason @ '').'')
                  [(''approval_id'', PStr aid), (''target_decision'', PStr (res_decision r)),
                   (''capability'', PStr cap), (''released_to_pending'', PBool nothing_ran),
                   (''result'', PDict (res_artifacts r))], s2)))"

definition relay_dispatch ::
  "code_map_refresh \<Rightarrow> authority_env \<Rightarrow> GovernedAction \<Rightarrow> Principal \<Rightarrow> relay_ticket \<Rightarrow> store
   \<Rightarrow> (py_error + ExecutionResult) \<times> store" where
  "relay_dispatch refresh e a p tk s =
     (case claim_approval_for_execution (rt_id tk) s of
        (False, s1) \<Rightarrow>
          (Inr (relay_result a ''approval_already_resolved''
                  (''Approval '' @ rt_id tk @ '' already claimed for execution.'') []), s1)
      | (True, s1) \<Rightarrow>
          (case new_id (env_uuid e) ''act_'' s1 of (tid, s2) \<Rightarrow>
             (case route_action e (target_action tid a p tk) p s2 of
                (Inl err, s3) \<Rightarrow> (Inl err, s3)
              | (Inr r, s3) \<Rightarrow> (case relay_settle refresh a p tk tid r s3 of (res, s4) \<Rightarrow> (Inr res, s4)))))"

definition relay_execute ::
  "code_map_refresh \<Rightarrow> authority_env \<Rightarrow> GovernedAction \<Rightarrow> Principal \<Rightarrow> store
   \<Rightarrow> (py_error + ExecutionResult) \<times> store" where
  "relay_execute refresh e a p s =
     (case relay_guard e a p s of
        (Inl err, s1) \<Rightarrow> (Inl err, s1)
      | (Inr (Inl res), s1) \<Rightarrow> (Inr res, s1)
      | (Inr (Inr tk), s1) \<Rightarrow> relay_dispatch refresh e a p tk s1)"

subsection \<open>Critical approvals\<close>

definition critical_answer :: "string \<Rightarrow> string \<Rightarrow> string \<Rightarrow> GovernedActionResult" where
  "critical_answer aid decision msg =
     \<lparr>res_action_id = aid, res_decision = decision, res_policy = None, res_message = msg, res_error = None,
      res_approval_id = Some aid, res_artifacts = []\<rparr>"

definition approval_as_action :: "approval_row \<Rightarrow> tool_action_row \<Rightarrow> string \<Rightarrow> GovernedAction" where
  "approval_as_action r t session =
     \<lparr>action_id = ap_action r, ga_principal_id = [], action_type = ta_tool t, tool_name = ta_tool t,
      arguments = [], domain_scope = [], risk_level = ta_risk t, requires_approval = False,
      requires_risk_acceptance = False, session_id = session, turn_id = None, origin_session_id = [],
      critical_confirmation = None, decision_mode_override = None, authority_kind = [], authority_id = []\<rparr>"

definition relay_action ::
  "string \<Rightarrow> string \<Rightarrow> Principal \<Rightarrow> string \<Rightarrow> string option \<Rightarrow> CriticalConfirmation option \<Rightarrow> GovernedAction" where
  "relay_action tid aid p session turn confirmation =
     \<lparr>action_id = tid, ga_principal_id = principal_id p, action_type = RELAY_CAPABILITY,
      tool_name = RELAY_CAPABILITY, arguments = [(''approval_id'', PStr aid)], domain_scope = [],
      risk_level = ''low'', requires_approval = False, requires_risk_acceptance = False,
      session_id = session, turn_id = turn, origin_session_id = [], critical_confirmation = confirmation,
      decision_mode_override = None, authority_kind = [], authority_id = []\<rparr>"

definition confirm_critical ::
  "code_map_refresh \<Rightarrow> authority_env \<Rightarrow> string \<Rightarrow> approval_row \<Rightarrow> tool_action_row \<Rightarrow> Principal \<Rightarrow> bool \<Rightarrow> string
   \<Rightarrow> string \<Rightarrow> pydict \<Rightarrow> store \<Rightarrow> outcome" where
  "confirm_critical refresh e aid r t resolver step_up session reason posture s =
     (let s1 = authority_event ''critical_approval_resolved'' ''runtime_authority''
                 [(''approval_id'', PStr aid), (''outcome'', PStr ''approved''),
                  (''resolver'', PStr (principal_id resolver)), (''step_up_verified'', PBool step_up),
                  (''reason'', PStr reason), (''posture'', PDict posture)] session None s
      in case new_id (env_uuid e) ''act_'' s1 of (tid, s2) \<Rightarrow>
           (case relay_execute refresh e
                   (relay_action tid aid resolver session (ta_turn t)
                      (Some \<lparr>cc_approval_id = aid, cc_confirmed_by = principal_id resolver, cc_step_up = step_up\<rparr>))
                   resolver s2 of
              (Inl err, s3) \<Rightarrow> (Inl err, s3)
            | (Inr res, s3) \<Rightarrow>
                (if er_ok res then (Inr (critical_answer aid ''allow'' ''critical_action_executed''), s3)
                 else (Inr (critical_answer aid ''deny''
                             (''critical_execution_failed:'' @ py_str (opt_str (er_reason_code res)))), s3))))"

definition resolve_critical_approval ::
  "code_map_refresh \<Rightarrow> authority_env \<Rightarrow> string \<Rightarrow> Principal \<Rightarrow> bool \<Rightarrow> bool \<Rightarrow> string \<Rightarrow> string \<Rightarrow> store
   \<Rightarrow> outcome" where
  "resolve_critical_approval refresh e aid resolver approve step_up session reason s =
     (let answer = (\<lambda>decision msg t. (Inr (critical_answer aid decision msg), t));
          note = (\<lambda>typ payload. authority_event typ ''runtime_authority'' payload session None)
      in case load_approval s aid of
           None \<Rightarrow> answer ''deny'' ''approval_not_found'' s
         | Some (r, t) \<Rightarrow>
             if \<not> ap_critical r then answer ''deny'' ''not_a_critical_approval'' s
             else if ap_status r \<noteq> ''pending'' then answer ''deny'' ''approval_already_resolved'' s
             else if \<not> human resolver
             then answer ''deny'' ''only_human_may_resolve_critical''
                    (note ''critical_approval_denied''
                       [(''approval_id'', PStr aid), (''reason'', PStr ''non_human_resolution''),
                        (''resolver'', PStr (principal_id resolver))]
                       (resolve_approval aid ''denied'' (principal_id resolver) s))
             else if approval_expired r (clock s)
             then answer ''deny'' ''critical_approval_expired''
                    (note ''critical_approval_expired''
                       [(''approval_id'', PStr aid), (''resolver'', PStr (principal_id resolver))]
                       (snd (expire_approval aid s)))
             else (case intent_check e r t of
               Inl err \<Rightarrow> (Inl err, s)
             | Inr False \<Rightarrow>
                 answer ''deny'' ''critical_approval_payload_tampered''
                   (note ''critical_approval_denied''
                      [(''approval_id'', PStr aid), (''reason'', PStr ''payload_tampered'')] s)
             | Inr True \<Rightarrow>
                 (let posture = capture_action_posture s resolver (approval_as_action r t session) None None
                  in case posture_degraded_reason posture of
                       Some degraded \<Rightarrow>
                         answer ''deny'' degraded
                           (note ''critical_approval_denied''
                              [(''approval_id'', PStr aid), (''reason'', PStr degraded),
                               (''posture'', PDict posture)] s)
                     | None \<Rightarrow>
                         if \<not> approve
                         then answer ''deny'' ''critical_action_rejected''
                                (note ''critical_approval_resolved''
                                   [(''approval_id'', PStr aid), (''outcome'', PStr ''rejected''),
                                    (''resolver'', PStr (principal_id resolver)), (''reason'', PStr reason),
                                    (''posture'', PDict posture)]
                                   (resolve_approval aid ''denied'' (principal_id resolver) s))
                         else if truthy (dict_get posture ''mfa_enrolled'') \<and> \<not> step_up
                         then answer ''needs_step_up'' ''critical_approval_step_up_required''
                                (note ''critical_approval_step_up_required''
                                   [(''approval_id'', PStr aid), (''resolver'', PStr (principal_id resolver)),
                                    (''posture'', PDict posture)] s)
                         else confirm_critical refresh e aid r t resolver step_up session reason posture s)))"

subsection \<open>The bridge from the inbox\<close>

definition EXECUTABLE_ON_APPROVAL :: "string list" where
  "EXECUTABLE_ON_APPROVAL =
     [''file_write_execution'', ''patch_apply_execution'', ''shell_execution'', ''remote_execution_cap'',
      ''cloud_execution_cap'', ''task_management_runtime'', ''project_assignment_runtime'',
      ''git_write_execution'', ''git_push_execution'', ''git_fetch_execution'', ''connector_github_runtime'',
      ''memory_write_execution'', ''memory_forget_execution'', ''checkpoint_restore_execution'']"

record ApprovalExecution =
  ax_ok :: bool
  ax_status :: string
  ax_capability :: string
  ax_reason_code :: "string option"
  ax_artifacts :: pydict

definition executable_capability :: "string \<Rightarrow> string option" where
  "executable_capability tool =
     (if target_capability tool \<in> set EXECUTABLE_ON_APPROVAL then Some (target_capability tool) else None)"

definition approval_arguments :: "tool_action_row \<Rightarrow> pydict" where
  "approval_arguments t = (case ta_args t of None \<Rightarrow> [] | Some v \<Rightarrow> object_items v)"

definition metadata_only_gate :: "store \<Rightarrow> string \<Rightarrow> string option \<Rightarrow> string option" where
  "metadata_only_gate s tool pid =
     (case executable_capability tool of
        None \<Rightarrow> None
      | Some cap \<Rightarrow>
          if check_capability_gate s RELAY_CAPABILITY RELAY_CAPABILITY pid \<noteq> None then Some RELAY_CAPABILITY
          else if check_capability_gate s tool tool pid \<noteq> None then Some cap
          else None)"

definition executes_on_resolution :: "store \<Rightarrow> string \<Rightarrow> string option \<Rightarrow> bool \<Rightarrow> bool" where
  "executes_on_resolution s tool pid critical =
     (if critical then False
      else if executable_capability tool = None then False
      else metadata_only_gate s tool pid = None)"

text \<open>The authority with the relay among its executors; the relay's own authority is \<open>e\<close>.\<close>

definition bridge_env :: "code_map_refresh \<Rightarrow> authority_env \<Rightarrow> authority_env" where
  "bridge_env refresh e =
     e\<lparr>env_registered := (\<lambda>c. c = RELAY_CAPABILITY \<or> env_registered e c),
       env_executor := (\<lambda>c. if c = RELAY_CAPABILITY then relay_execute refresh e else env_executor e c)\<rparr>"

definition bridge_execute ::
  "code_map_refresh \<Rightarrow> authority_env \<Rightarrow> string \<Rightarrow> approval_row \<Rightarrow> tool_action_row \<Rightarrow> Principal \<Rightarrow> string \<Rightarrow> string
   \<Rightarrow> store \<Rightarrow> (py_error + ApprovalExecution) \<times> store" where
  "bridge_execute refresh e aid r0 t0 p session reason s =
     (let tool = ta_tool t0;
          cap = (case executable_capability tool of Some c \<Rightarrow> c | None \<Rightarrow> tool)
      in case new_id (env_uuid e) ''act_'' s of (tid, s1) \<Rightarrow>
           (case route_action (bridge_env refresh e) (relay_action tid aid p session (ta_turn t0) None) p s1 of
              (Inl err, s2) \<Rightarrow> (Inl err, s2)
            | (Inr res, s2) \<Rightarrow>
                (let status = (case load_approval s2 aid of Some (r, t) \<Rightarrow> ap_status r | None \<Rightarrow> ap_status r0)
                 in if res_decision res = ''allow'' \<and> res_error res = None
                    then (Inr \<lparr>ax_ok = True, ax_status = status, ax_capability = cap, ax_reason_code = None,
                               ax_artifacts =
                                 dict_set (case map_of (res_artifacts res) ''result'' of
                                             Some (PDict d) \<Rightarrow> d | _ \<Rightarrow> [])
                                   ''path'' (dict_get (approval_arguments t0) ''path'')\<rparr>,
                          append_event ''approval_received'' ''approval_inbox''
                            [(''approval_id'', PStr aid), (''action_id'', PStr (ap_action r0)),
                             (''status'', PStr ''approved''), (''reason'', PStr reason),
                             (''executes_action'', PBool True), (''capability'', PStr cap)]
                            (if ta_session t0 = [] then ''approval_inbox'' else ta_session t0) (ta_turn t0) s2)
                    else (Inr \<lparr>ax_ok = False, ax_status = status, ax_capability = cap,
                               ax_reason_code =
                                 Some (case res_error res of
                                         Some x \<Rightarrow> if x \<noteq> [] then x
                                                   else if res_message res \<noteq> [] then res_message res
                                                   else res_decision res
                                       | None \<Rightarrow> if res_message res \<noteq> [] then res_message res
                                                 else res_decision res),
                               ax_artifacts =
                                 (case map_of (res_artifacts res) ''result'' of
                                    Some (PDict d) \<Rightarrow>
                                      if status = ''execution_failed'' then filter (\<lambda>(k, v). v \<noteq> PNone) d else []
                                  | _ \<Rightarrow> [])\<rparr>, s2))))"

subsection \<open>Decisions of the authority\<close>

definition in_vocabulary :: "outcome \<Rightarrow> bool" where
  "in_vocabulary o1 \<longleftrightarrow> (\<forall>r. fst o1 = Inr r \<longrightarrow> res_decision r = ''allow'' \<or> res_decision r \<in> set NON_ALLOW_DECISIONS)"

lemma in_vocabulary_simps [simp]:
  "in_vocabulary (Inl err, s)"
  "in_vocabulary (with_policy d a decision msg s) \<longleftrightarrow> decision = ''allow'' \<or> decision \<in> set NON_ALLOW_DECISIONS"
  "in_vocabulary (result a decision msg s) \<longleftrightarrow> decision = ''allow'' \<or> decision \<in> set NON_ALLOW_DECISIONS"
  by (simp_all add: in_vocabulary_def with_policy_def result_def governed_result_def)

lemma gate_decision_vocabulary: "gate_decision g \<in> set NON_ALLOW_DECISIONS"
  by (simp add: gate_decision_def NON_ALLOW_DECISIONS_def)

lemma execute_vocabulary: "in_vocabulary (execute_action e a p d posture s)"
  unfolding in_vocabulary_def using execute_action_allows by blast

lemma review_vocabulary: "in_vocabulary (review_and_execute e a p s)"
  by (auto simp: review_and_execute_def settle_and_execute_def Let_def NON_ALLOW_DECISIONS_def
        intro: execute_vocabulary split: sum.splits prod.splits)

lemma park_vocabulary: "in_vocabulary (park_critical_action e a p m s)"
  by (auto simp: park_critical_action_def in_vocabulary_def NON_ALLOW_DECISIONS_def Let_def result_def
        governed_result_def split: prod.splits sum.splits)

lemma admission_vocabulary: "admission_refusal a p s = Some (d, m) \<Longrightarrow> d \<in> set NON_ALLOW_DECISIONS"
  using gate_decision_vocabulary
  by (auto simp: admission_refusal_def first_refusal_def Let_def NON_ALLOW_DECISIONS_def
        split: option.splits if_splits)

lemma route_vocabulary: "in_vocabulary (route_action e a p s)"
proof -
  have "in_vocabulary (critical_stage e b p t)" for b t
    by (simp add: critical_stage_def Let_def review_vocabulary park_vocabulary)
  moreover have "fst (place_action e a p s) = Inr (b, Some x) \<Longrightarrow> res_decision x \<in> set NON_ALLOW_DECISIONS" for b x
    by (auto simp: place_action_def Let_def governed_result_def gate_decision_def NON_ALLOW_DECISIONS_def
          split: option.splits sum.splits if_splits)
  ultimately show ?thesis
    unfolding route_action_def Let_def
    by (auto simp: in_vocabulary_def result_def governed_result_def dest: admission_vocabulary
          split: prod.splits sum.splits option.splits)
qed



subsection \<open>What the relay verified\<close>

lemma relay_guard_ticket:
  assumes "relay_guard e a p s = (Inr (Inr tk), s1)"
  shows "s1 = s" and "map_of (arguments a) ''approval_id'' \<noteq> None" and "rt_id tk \<noteq> []"
    and "py_str (the (map_of (arguments a) ''approval_id'')) = rt_id tk"
    and "load_approval s (rt_id tk) = Some (rt_row tk, rt_proposal tk)"
    and "ap_status (rt_row tk) = ''pending''"
    and "ap_critical (rt_row tk) \<longrightarrow> critical_confirmation a \<noteq> None"
    and "\<not> approval_expired (rt_row tk) (clock s)"
    and "intent_check e (rt_row tk) (rt_proposal tk) = Inr True"
    and "posture_degraded_reason (capture_posture s p (session_id a)) = None"
    and "\<exists>v. ta_args (rt_proposal tk) = Some v \<and>
          narrow_arguments a (rt_id tk) (approval_accepted_hunks (rt_row tk)) (object_items v) = Inr (rt_args tk)"
    and "target_capability (ta_tool (rt_proposal tk)) \<noteq> RELAY_CAPABILITY"
    and "rt_posture tk = capture_posture s p (session_id a)"
  using assms
  by (auto simp: relay_guard_def Let_def target_capability_def
        split: if_splits option.splits prod.splits sum.splits bool.splits)

lemma relay_result_not_ok [simp]: "\<not> er_ok (relay_result a reason summary arts)"
  by (simp add: relay_result_def)

lemma relay_guard_stop: "relay_guard e a p s = (Inr (Inl res), s1) \<Longrightarrow> \<not> er_ok res"
  by (auto simp: relay_guard_def narrow_arguments_def Let_def
        split: if_splits option.splits prod.splits sum.splits bool.splits)

lemma relay_ok_ticket:
  assumes "relay_execute refresh e a p s = (Inr res, t)" and "er_ok res"
  obtains tk s1 where "relay_guard e a p s = (Inr (Inr tk), s1)"
  using assms relay_guard_stop [of e a p s]
  by (auto simp: relay_execute_def split: prod.splits sum.splits)

text \<open>Executors that leave one approval alone, and that do not report the authority's own reason code.\<close>

definition executors_keep_approval :: "authority_env \<Rightarrow> string \<Rightarrow> bool" where
  "executors_keep_approval e aid \<longleftrightarrow>
     (\<forall>c a p s. approval (snd (env_executor e c a p s)) aid = approval s aid)"

definition executors_own_reason :: "authority_env \<Rightarrow> bool" where
  "executors_own_reason e \<longleftrightarrow>
     (\<forall>c a p s r. fst (env_executor e c a p s) = Inr r \<longrightarrow>
        er_reason_code r \<noteq> Some ''execution_unavailable:no_executor'')"

lemma approval_row_invariant:
  assumes "executors_keep_approval e aid"
  shows "authority_invariant e (\<lambda>s. approval s aid = Some r)"
  using assms unfolding authority_invariant_def executors_keep_approval_def
  by (auto simp: store_simps dest!: insert_approval_spec)
    (auto simp: approval_def consume_risk_acceptance_def record_standing_grant_use_def)

lemma approval_new_id [simp]: "approval (s\<lparr>next_uuid := n\<rparr>) = approval s"
  by (simp add: approval_def fun_eq_iff)

lemma approval_relay_emit [simp]: "approval (relay_emit a ty py s) = approval s"
  by (simp add: relay_emit_def store_simps)

lemma approval_refresh [simp]: "approval (refresh_code_map refresh a p tool arts s) = approval s"
  by (simp add: refresh_code_map_def Let_def split: option.splits)

text \<open>A ticket is always claimed: the row is still pending when the claim is made.\<close>

lemma load_approval_approval: "load_approval s aid = Some (r, t) \<Longrightarrow> approval s aid = Some r"
  by (auto simp: load_approval_def split: option.splits)

lemma claim_tool_actions: "tool_actions (snd (claim_approval_for_execution aid s)) = tool_actions s"
  by (simp add: claim_approval_for_execution_def update_approval_spec settle_approval_notices_def put_approval_def)

lemma relay_execute_ticket:
  assumes "relay_guard e a p s = (Inr (Inr tk), s1)"
  shows "\<exists>s2 tid. approval s2 (rt_id tk) = Some ((rt_row tk)\<lparr>ap_status := ''executing''\<rparr>) \<and>
    load_approval s2 (rt_id tk) = Some ((rt_row tk)\<lparr>ap_status := ''executing''\<rparr>, rt_proposal tk) \<and>
    (\<forall>refresh ex. relay_execute refresh (with_executor e ex) a p s =
      (case route_action (with_executor e ex) (target_action tid a p tk) p s2 of
         (Inl err, s3) \<Rightarrow> (Inl err, s3)
       | (Inr r, s3) \<Rightarrow> (case relay_settle refresh a p tk tid r s3 of (res, s4) \<Rightarrow> (Inr res, s4))))"
proof -
  note tk = relay_guard_ticket [OF assms]
  have row: "approval s (rt_id tk) = Some (rt_row tk)" by (rule load_approval_approval [OF tk(5)])
  then have st: "status_of s (rt_id tk) = Some ''pending''" using tk(6) by (simp add: status_of_def)
  obtain s2 where s2: "claim_approval_for_execution (rt_id tk) s = (True, s2)"
    using claim_spec(1) [of "rt_id tk" s] st by (metis prod.collapse)
  have claimed: "approval s2 (rt_id tk) = Some ((rt_row tk)\<lparr>ap_status := ''executing''\<rparr>)"
    using claim_spec(2) [of "rt_id tk" s] st row s2 by simp
  have "tool_actions s2 = tool_actions s" using s2 by (metis claim_tool_actions snd_conv)
  then have loaded: "load_approval s2 (rt_id tk) = Some ((rt_row tk)\<lparr>ap_status := ''executing''\<rparr>, rt_proposal tk)"
    using claimed tk(5) row by (simp add: load_approval_def split: option.splits)
  have guard: "relay_guard (with_executor e ex) a p s = (Inr (Inr tk), s1)" for ex
    using assms unfolding relay_guard_def intent_check_def env_fields .
  let ?tid = "''act_'' @ env_uuid e (next_uuid s2)"
  have "relay_execute refresh (with_executor e ex) a p s =
      (case route_action (with_executor e ex) (target_action ?tid a p tk) p (s2\<lparr>next_uuid := Suc (next_uuid s2)\<rparr>) of
         (Inl err, s3) \<Rightarrow> (Inl err, s3)
       | (Inr r, s3) \<Rightarrow> (case relay_settle refresh a p tk ?tid r s3 of (res, s4) \<Rightarrow> (Inr res, s4)))" for refresh ex
    using s2 by (simp add: relay_execute_def guard tk(1) relay_dispatch_def new_id_def split: prod.splits sum.splits)
  moreover have "load_approval (s2\<lparr>next_uuid := Suc (next_uuid s2)\<rparr>) (rt_id tk) = load_approval s2 (rt_id tk)"
    by (intro load_approval_cong) simp_all
  ultimately show ?thesis using claimed loaded
    by (intro exI [of _ "s2\<lparr>next_uuid := Suc (next_uuid s2)\<rparr>"] exI [of _ ?tid] conjI allI) simp_all
qed

lemma relay_settle_ok: "er_ok (fst (relay_settle refresh a p tk tid r s)) \<longleftrightarrow> res_decision r = ''allow'' \<and> res_error r = None"
  by (simp add: relay_settle_def Let_def relay_result_def)

lemma relay_settle_status:
  assumes "status_of s (rt_id tk) = Some ''executing''"
  shows "status_of (snd (relay_settle refresh a p tk tid r s)) (rt_id tk) =
    Some (if res_decision r = ''allow'' \<and> res_error r = None then ''executed''
          else if res_decision r \<in> set NON_ALLOW_DECISIONS
                  \<or> res_error r = Some ''execution_unavailable:no_executor'' then ''pending''
          else ''execution_failed'')"
  using assms by (simp add: relay_settle_def Let_def status_of_def finalize_spec release_spec)

text \<open>
  C6: The relay runs only what was approved. If it reports success, then the approval existed, was pending
  and not past its time limit, its proposal hashed to the intent recorded when it was created, the
  approving session was not revoked, a critical approval came with a confirmation, and the target is not a
  relay; and what the authority then allowed, without error, is the stored tool at the stored risk, with
  the stored arguments or, where the owner accepted part of a patch, their patch narrowed to it.
\<close>

theorem relay_runs_what_was_approved:
  assumes "relay_execute refresh e a p s = (Inr res, t)" and "er_ok res"
  shows "\<exists>aid r row v args tid s2 x s3.
    load_approval s aid = Some (r, row) \<and> ap_status r = ''pending'' \<and> \<not> approval_expired r (clock s)
    \<and> (ap_sha256 r = None \<or> map_option Inr (ap_sha256 r) =
         Some (tool_action_payload_sha256 (env_sha256 e) (ta_tool row) (ta_args row) (ta_risk row)))
    \<and> posture_degraded_reason (capture_posture s p (session_id a)) = None
    \<and> (ap_critical r \<longrightarrow> critical_confirmation a \<noteq> None)
    \<and> target_capability (ta_tool row) \<noteq> RELAY_CAPABILITY
    \<and> ta_args row = Some v
    \<and> (args = object_items v \<and> approval_accepted_hunks r = None
       \<or> (\<exists>hunks patch. approval_accepted_hunks r = Some hunks
            \<and> patch = (case map_of (object_items v) ''patch'' of None \<Rightarrow> [] | Some w \<Rightarrow> py_str w)
            \<and> unknown_hunk_ids patch hunks = []
            \<and> args = dict_set (object_items v) ''patch'' (PStr (select_hunks patch hunks))))
    \<and> status_of s2 aid = Some ''executing''
    \<and> route_action e (target_action tid a p \<lparr>rt_id = aid, rt_row = r, rt_proposal = row, rt_args = args,
         rt_posture = capture_posture s p (session_id a)\<rparr>) p s2 = (Inr x, s3)
    \<and> res_decision x = ''allow'' \<and> res_error x = None"
proof -
  obtain tk s1 where g: "relay_guard e a p s = (Inr (Inr tk), s1)" by (rule relay_ok_ticket [OF assms])
  note tk = relay_guard_ticket [OF g]
  obtain s2 tid where row: "approval s2 (rt_id tk) = Some ((rt_row tk)\<lparr>ap_status := ''executing''\<rparr>)"
    and run: "\<And>refresh ex. relay_execute refresh (with_executor e ex) a p s =
      (case route_action (with_executor e ex) (target_action tid a p tk) p s2 of
         (Inl err, s3) \<Rightarrow> (Inl err, s3)
       | (Inr r, s3) \<Rightarrow> (case relay_settle refresh a p tk tid r s3 of (res, s4) \<Rightarrow> (Inr res, s4)))"
    using relay_execute_ticket [OF g] by blast
  obtain x s3 where x: "route_action e (target_action tid a p tk) p s2 = (Inr x, s3)"
    and res: "res = fst (relay_settle refresh a p tk tid x s3)"
    using run [of refresh "env_executor e"] assms(1) by (auto split: prod.splits sum.splits)
  have ok: "res_decision x = ''allow'' \<and> res_error x = None" using res assms(2) relay_settle_ok by simp
  obtain v where v: "ta_args (rt_proposal tk) = Some v"
    "narrow_arguments a (rt_id tk) (approval_accepted_hunks (rt_row tk)) (object_items v) = Inr (rt_args tk)"
    using tk(11) by blast
  have intent: "ap_sha256 (rt_row tk) = None \<or> map_option Inr (ap_sha256 (rt_row tk)) =
      Some (tool_action_payload_sha256 (env_sha256 e) (ta_tool (rt_proposal tk)) (ta_args (rt_proposal tk))
        (ta_risk (rt_proposal tk)))"
    using tk(9) by (auto simp: intent_check_def split: option.splits sum.splits)
  have narrowed: "rt_args tk = object_items v \<and> approval_accepted_hunks (rt_row tk) = None
       \<or> (\<exists>hunks patch. approval_accepted_hunks (rt_row tk) = Some hunks
            \<and> patch = (case map_of (object_items v) ''patch'' of None \<Rightarrow> [] | Some w \<Rightarrow> py_str w)
            \<and> unknown_hunk_ids patch hunks = []
            \<and> rt_args tk = dict_set (object_items v) ''patch'' (PStr (select_hunks patch hunks)))"
    using v(2) by (auto simp: narrow_arguments_def Let_def split: option.splits if_splits)
  have posture: "rt_posture tk = capture_posture s p (session_id a)" by (rule tk(13))
  have same: "\<lparr>rt_id = rt_id tk, rt_row = rt_row tk, rt_proposal = rt_proposal tk, rt_args = rt_args tk,
      rt_posture = capture_posture s p (session_id a)\<rparr> = tk" using posture by simp
  have x': "route_action e (target_action tid a p \<lparr>rt_id = rt_id tk, rt_row = rt_row tk,
      rt_proposal = rt_proposal tk, rt_args = rt_args tk, rt_posture = capture_posture s p (session_id a)\<rparr>) p s2
      = (Inr x, s3)" unfolding same by (rule x)
  show ?thesis
    by (rule exI [of _ "rt_id tk"], rule exI [of _ "rt_row tk"], rule exI [of _ "rt_proposal tk"],
        rule exI [of _ v], rule exI [of _ "rt_args tk"], rule exI [of _ tid], rule exI [of _ s2],
        rule exI [of _ x], rule exI [of _ s3], intro conjI)
      (use tk intent v(1) narrowed row x' ok in \<open>simp_all add: status_of_def\<close>)
qed

lemma no_executor_error_unregistered:
  assumes "executors_own_reason e" and "fst (execute_action e a p d posture s) = Inr r"
    and "res_error r = Some ''execution_unavailable:no_executor''"
  shows "execute_action (with_executor e ex) a p d posture s = execute_action e a p d posture s"
proof -
  let ?cap = "case CAPABILITY_GATE_MAP (action_type a) of Some c \<Rightarrow> c | None \<Rightarrow> action_type a"
  have "\<not> env_registered e ?cap"
  proof
    assume reg: "env_registered e ?cap"
    obtain y t1 where y: "routed_execute (Some (?cap, action_id a)) (env_executor e) ?cap a p s = (y, t1)"
      by fastforce
    then have own: "er_reason_code z \<noteq> Some ''execution_unavailable:no_executor''" if "y = Inr z" for z
      using assms(1) that unfolding executors_own_reason_def routed_execute_def by (metis fst_conv)
    show False
      using assms(2,3) reg own unfolding execute_action_def Let_def
      by (auto simp: y split: prod.splits sum.splits if_splits option.splits)
  qed
  then show ?thesis by (simp add: execute_action_def Let_def)
qed

text \<open>
  Handing an approval back to the inbox is safe. If the relay leaves a verified approval pending, then
  no executor was entered on the way: with any other executors the relay returns the same result and the
  same store. So the retry that a pending approval invites can never be a second run. The executors are
  assumed to leave the approval's row alone and not to report the reason code reserved for a missing
  executor.
\<close>

theorem released_approval_never_ran:
  assumes "relay_guard e a p s = (Inr (Inr tk), s1)" and "relay_execute refresh e a p s = (Inr res, t)"
    and "executors_keep_approval e (rt_id tk)" and "executors_own_reason e"
    and "status_of t (rt_id tk) = Some ''pending''"
  shows "\<forall>ex. relay_execute refresh (e\<lparr>env_executor := ex\<rparr>) a p s = (Inr res, t)"
proof
  fix ex
  let ?row = "(rt_row tk)\<lparr>ap_status := ''executing''\<rparr>"
  obtain s2 tid where row: "approval s2 (rt_id tk) = Some ?row"
    and run: "\<And>refresh ex. relay_execute refresh (with_executor e ex) a p s =
      (case route_action (with_executor e ex) (target_action tid a p tk) p s2 of
         (Inl err, s3) \<Rightarrow> (Inl err, s3)
       | (Inr r, s3) \<Rightarrow> (case relay_settle refresh a p tk tid r s3 of (res, s4) \<Rightarrow> (Inr res, s4)))"
    using relay_execute_ticket [OF assms(1)] by blast
  let ?route = "\<lambda>e'. route_action e' (target_action tid a p tk) p s2"
  obtain x s3 where x: "?route e = (Inr x, s3)" and res: "relay_settle refresh a p tk tid x s3 = (res, t)"
    using run [of refresh "env_executor e"] assms(2) by (auto split: prod.splits sum.splits)
  have "approval s3 (rt_id tk) = Some ?row"
    using route_keeps [OF approval_row_invariant [OF assms(3), of ?row] row] x by (metis snd_conv)
  then have "status_of s3 (rt_id tk) = Some ''executing''" by (simp add: status_of_def)
  from relay_settle_status [OF this, of refresh a p tid x] res assms(5)
  have cases: "res_decision x \<in> set NON_ALLOW_DECISIONS \<or> res_error x = Some ''execution_unavailable:no_executor''"
    by (auto split: if_splits)
  have "?route (with_executor e ex) = ?route e"
  proof (cases "refused e ?route")
    case False
    then obtain c d posture u where r: "\<And>ex. ?route (with_executor e ex) = execute_action (with_executor e ex) c p d posture u"
      using not_refused_runs by blast
    have "?route e = execute_action e c p d posture u" using r [of "env_executor e"] by simp
    moreover have "res_decision x = ''allow''" using non_allow_refused [of e "target_action tid a p tk" p s2 x] x False by auto
    then have "res_error x = Some ''execution_unavailable:no_executor''"
      using cases by (auto simp: NON_ALLOW_DECISIONS_def)
    ultimately show ?thesis using no_executor_error_unregistered [OF assms(4)] r x by (metis fst_conv)
  qed (rule refusedD(2))
  then have "relay_execute refresh (with_executor e ex) a p s = relay_execute refresh (with_executor e (env_executor e)) a p s"
    unfolding run by simp
  then show "relay_execute refresh (with_executor e ex) a p s = (Inr res, t)" using assms(2) by simp
qed

text \<open>An executor that raises; an answer it changes came from an executor.\<close>

definition raising :: "string \<Rightarrow> GovernedAction \<Rightarrow> Principal \<Rightarrow> store \<Rightarrow> (py_error + ExecutionResult) \<times> store" where
  "raising cap a p s = (Inl (Raised ''executor''), s)"

lemma allowed_run_entered:
  assumes "fst (route_action e a p s) = Inr x" and "res_decision x = ''allow''"
    and "res_error x \<noteq> Some ''execution_unavailable:no_executor''"
  shows "\<exists>u. route_action (with_executor e raising) a p s = (Inl (Raised ''executor''), u)"
proof -
  have "\<not> refused e (\<lambda>e'. route_action e' a p s)" using refusedD(1) assms(1,2) by blast
  then obtain c d posture t where run: "\<And>ex. route_action (with_executor e ex) a p s =
      execute_action (with_executor e ex) c p d posture t" using not_refused_runs by blast
  have "fst (execute_action e c p d posture t) = Inr x" using run [of "env_executor e"] assms(1) by simp
  then have "env_registered e (case CAPABILITY_GATE_MAP (action_type c) of Some k \<Rightarrow> k | None \<Rightarrow> action_type c)"
    using assms(3) by (auto simp: execute_action_def Let_def governed_result_def split: if_splits)
  then have "\<exists>u. execute_action (with_executor e raising) c p d posture t = (Inl (Raised ''executor''), u)"
    by (simp add: execute_action_def Let_def routed_execute_def raising_def split: prod.splits)
  then show ?thesis unfolding run .
qed

text \<open>
  C7: The relay leaves a record that matches what happened. Take a verified approval, and executors that leave its
  row alone and do not report the reason code reserved for a missing executor. When the relay returns, the
  approval is executed exactly when it reports success, and then an executor ran. Otherwise it is pending exactly
  when no executor ran (every other executor gives the same result and the same store), and finally failed
  exactly when one did. The row keeps the intent hash, and names the principal unless it went back to pending.
\<close>

theorem relay_outcome_recorded:
  assumes "relay_guard e a p s = (Inr (Inr tk), s1)" and "relay_execute refresh e a p s = (Inr res, t)"
    and "executors_keep_approval e (rt_id tk)" and "executors_own_reason e"
  shows "let nothing_ran = (\<forall>ex. relay_execute refresh (e\<lparr>env_executor := ex\<rparr>) a p s = (Inr res, t))
    in status_of t (rt_id tk) =
         Some (if er_ok res then ''executed'' else if nothing_ran then ''pending'' else ''execution_failed'')
       \<and> \<not> (er_ok res \<and> nothing_ran)
       \<and> (\<exists>row. approval t (rt_id tk) = Some row \<and> ap_sha256 row = ap_sha256 (rt_row tk)
            \<and> ap_approved_by row = (if nothing_ran then None else Some (principal_id p)))"
proof -
  let ?row = "(rt_row tk)\<lparr>ap_status := ''executing''\<rparr>"
  let ?same = "\<forall>ex. relay_execute refresh (e\<lparr>env_executor := ex\<rparr>) a p s = (Inr res, t)"
  obtain s2 tid where row: "approval s2 (rt_id tk) = Some ?row"
    and run: "\<And>refresh ex. relay_execute refresh (with_executor e ex) a p s =
      (case route_action (with_executor e ex) (target_action tid a p tk) p s2 of
         (Inl err, s3) \<Rightarrow> (Inl err, s3)
       | (Inr r, s3) \<Rightarrow> (case relay_settle refresh a p tk tid r s3 of (res, s4) \<Rightarrow> (Inr res, s4)))"
    using relay_execute_ticket [OF assms(1)] by blast
  obtain x s3 where x: "route_action e (target_action tid a p tk) p s2 = (Inr x, s3)"
    and res: "relay_settle refresh a p tk tid x s3 = (res, t)"
    using run [of refresh "env_executor e"] assms(2) by (auto split: prod.splits sum.splits)
  have s3: "approval s3 (rt_id tk) = Some ?row"
    using route_keeps [OF approval_row_invariant [OF assms(3), of ?row] row] x by (metis snd_conv)
  then have st: "status_of s3 (rt_id tk) = Some ''executing''" by (simp add: status_of_def)
  let ?ok = "res_decision x = ''allow'' \<and> res_error x = None"
  let ?none = "res_decision x \<in> set NON_ALLOW_DECISIONS \<or> res_error x = Some ''execution_unavailable:no_executor''"
  have ok: "er_ok res \<longleftrightarrow> ?ok" using relay_settle_ok [of refresh a p tk tid x s3] res by simp
  have status: "status_of t (rt_id tk) = Some (if ?ok then ''executed'' else if ?none then ''pending'' else ''execution_failed'')"
    using relay_settle_status [OF st, of refresh a p tid x] res by simp
  have apart: "\<not> (?ok \<and> ?none)" by (auto simp: NON_ALLOW_DECISIONS_def)
  have same: "?same \<longleftrightarrow> ?none"
  proof
    assume ?same
    show ?none
    proof (rule ccontr)
      assume none: "\<not> ?none"
      then have "res_decision x = ''allow''" using route_vocabulary [of e "target_action tid a p tk" p s2] x by (auto simp: in_vocabulary_def)
      then obtain u where "route_action (with_executor e raising) (target_action tid a p tk) p s2 = (Inl (Raised ''executor''), u)"
        using allowed_run_entered [of e "target_action tid a p tk" p s2 x] x none by auto
      then have "relay_execute refresh (with_executor e raising) a p s = (Inl (Raised ''executor''), u)" unfolding run by simp
      then show False using \<open>?same\<close> by simp
    qed
  next
    assume ?none
    then have "status_of t (rt_id tk) = Some ''pending''" using status apart by auto
    from released_approval_never_ran [OF assms this] show ?same .
  qed
  have "\<exists>r. approval t (rt_id tk) = Some r \<and> ap_sha256 r = ap_sha256 (rt_row tk)
      \<and> ap_approved_by r = (if ?none then None else Some (principal_id p))"
    using res s3 st apart unfolding relay_settle_def Let_def
    by (auto simp: finalize_spec release_spec split: if_splits)
  then show ?thesis using status apart unfolding Let_def same ok by simp
qed

subsection \<open>Concrete runs\<close>

definition no_refresh :: code_map_refresh where
  "no_refresh paths p s = None"

text \<open>The agent's fetch waits for the owner as an ordinary approval.\<close>

definition fetch_proposal :: ToolAction where
  "fetch_proposal = \<lparr>tl_action_id = ''act_1'', tl_tool_name = ''web_fetch'',
     tl_arguments = [(''url'', PStr ''u'')], tl_risk_level = ''medium'', tl_requires_approval = True,
     tl_proposed_by = ''agent''\<rparr>"

definition waiting_store :: store where
  "waiting_store =
     (let s = insert_tool_action fetch_proposal ''sess'' None ''approval_required'' None opened_store
      in case insert_approval (env_sha256 local_env) (env_plus_hours local_env) ''appr_1'' (ByAction fetch_proposal)
                ''pending'' None False s of Inr t \<Rightarrow> t | Inl _ \<Rightarrow> s)"

definition owner_relay :: GovernedAction where
  "owner_relay = relay_action ''act_r'' ''appr_1'' owner_principal ''api'' None None"

text \<open>The same with the gate closed in the meantime.\<close>

definition closed_store :: store where
  "closed_store = waiting_store\<lparr>gate_principal := [(''own'', ''web_fetch'') \<mapsto> ''disabled'']\<rparr>"

lemma waiting_guard:
  obtains tk where "relay_guard local_env owner_relay owner_principal waiting_store = (Inr (Inr tk), waiting_store)"
    and "rt_id tk = ''appr_1''"
proof -
  have "(case fst (relay_guard local_env owner_relay owner_principal waiting_store) of
      Inr (Inr tk) \<Rightarrow> rt_id tk = ''appr_1'' | _ \<Rightarrow> False)" by code_simp
  then obtain tk where "fst (relay_guard local_env owner_relay owner_principal waiting_store) = Inr (Inr tk)"
    and "rt_id tk = ''appr_1''" by (auto split: sum.splits)
  with relay_guard_ticket(1) that show thesis by (metis prod.collapse)
qed

lemma closed_guard:
  obtains tk where "relay_guard local_env owner_relay owner_principal closed_store = (Inr (Inr tk), closed_store)"
    and "rt_id tk = ''appr_1''"
proof -
  have "(case fst (relay_guard local_env owner_relay owner_principal closed_store) of
      Inr (Inr tk) \<Rightarrow> rt_id tk = ''appr_1'' | _ \<Rightarrow> False)" by code_simp
  then obtain tk where "fst (relay_guard local_env owner_relay owner_principal closed_store) = Inr (Inr tk)"
    and "rt_id tk = ''appr_1''" by (auto split: sum.splits)
  with relay_guard_ticket(1) that show thesis by (metis prod.collapse)
qed

lemma local_env_laws: "executors_keep_approval local_env aid" "executors_own_reason local_env"
  by (simp_all add: executors_keep_approval_def executors_own_reason_def local_env_def)

theorem relay_runs_what_was_approved_witness:
  "\<exists>aid r row. load_approval waiting_store aid = Some (r, row) \<and> ap_status r = ''pending''
     \<and> (ap_sha256 r = None \<or> map_option Inr (ap_sha256 r) =
          Some (tool_action_payload_sha256 (env_sha256 local_env) (ta_tool row) (ta_args row) (ta_risk row)))"
proof -
  let ?o = "relay_execute no_refresh local_env owner_relay owner_principal waiting_store"
  have "(case fst ?o of Inr res \<Rightarrow> er_ok res | Inl _ \<Rightarrow> False)" by code_simp
  then obtain res where res: "fst ?o = Inr res" "er_ok res" by (auto split: sum.splits)
  then have "?o = (Inr res, snd ?o)" by (simp add: prod_eq_iff)
  from relay_runs_what_was_approved [OF this res(2)] show ?thesis
    by (elim exE conjE) (intro exI conjI)
qed

theorem relay_outcome_recorded_witness:
  "status_of (snd (relay_execute no_refresh local_env owner_relay owner_principal waiting_store)) ''appr_1'' = Some ''executed''
   \<and> (\<exists>ex. relay_execute no_refresh (local_env\<lparr>env_executor := ex\<rparr>) owner_relay owner_principal waiting_store
        \<noteq> relay_execute no_refresh local_env owner_relay owner_principal waiting_store)"
proof -
  let ?o = "relay_execute no_refresh local_env owner_relay owner_principal waiting_store"
  obtain tk where tk: "relay_guard local_env owner_relay owner_principal waiting_store = (Inr (Inr tk), waiting_store)"
    "rt_id tk = ''appr_1''" by (rule waiting_guard)
  have "(case fst ?o of Inr res \<Rightarrow> er_ok res | Inl _ \<Rightarrow> False)" by code_simp
  then obtain res where res: "fst ?o = Inr res" "er_ok res" by (auto split: sum.splits)
  then have o1: "?o = (Inr res, snd ?o)" by (simp add: prod_eq_iff)
  show ?thesis
    using relay_outcome_recorded [OF tk(1) o1 local_env_laws] tk(2) res(2) o1 by (simp add: Let_def)
qed

theorem released_approval_never_ran_witness:
  "\<forall>ex. snd (relay_execute no_refresh (local_env\<lparr>env_executor := ex\<rparr>) owner_relay owner_principal closed_store) =
         snd (relay_execute no_refresh local_env owner_relay owner_principal closed_store)"
proof -
  let ?o = "relay_execute no_refresh local_env owner_relay owner_principal closed_store"
  obtain tk where tk: "relay_guard local_env owner_relay owner_principal closed_store = (Inr (Inr tk), closed_store)"
    "rt_id tk = ''appr_1''" by (rule closed_guard)
  have "\<not> isl (fst ?o)" by code_simp
  then obtain res where res: "?o = (Inr res, snd ?o)" by (metis prod.collapse sum.collapse(2))
  have "status_of (snd ?o) ''appr_1'' = Some ''pending''" by code_simp
  with released_approval_never_ran [OF tk(1) res local_env_laws] tk(2) show ?thesis by simp
qed

subsection \<open>The critical lifecycle\<close>

lemma posture_mfa:
  "truthy (dict_get (capture_action_posture s p a m g) ''mfa_enrolled'') = principal_mfa_enrolled s (principal_id p)"
  by (simp add: capture_action_posture_def capture_posture_def Let_def dict_get_def)

lemma posture_revoked:
  "posture_degraded_reason (capture_action_posture s p a m g) = posture_degraded_reason (capture_posture s p (session_id a))"
  by (simp add: posture_degraded_reason_def capture_action_posture_def capture_posture_def Let_def dict_get_def)

text \<open>
  C8: Only a live human's verified approval moves a critical action. If resolving a critical approval ends
  in allow, then the approval was critical, pending, not past its time limit and untampered, the resolver
  is a human who approved, from a session that is not revoked, and with a fresh second factor if the
  resolver has one enrolled.
\<close>

theorem critical_approval_needs_verified_human:
  assumes "fst (resolve_critical_approval refresh e aid resolver approve step_up session reason s) = Inr r"
    and "res_decision r = ''allow''"
  shows "human resolver \<and> approve \<and> (principal_mfa_enrolled s (principal_id resolver) \<longrightarrow> step_up)
    \<and> posture_degraded_reason (capture_posture s resolver session) = None
    \<and> (\<exists>row t. load_approval s aid = Some (row, t) \<and> ap_critical row \<and> ap_status row = ''pending''
         \<and> \<not> approval_expired row (clock s)
         \<and> (ap_sha256 row = None \<or> map_option Inr (ap_sha256 row) =
              Some (tool_action_payload_sha256 (env_sha256 e) (ta_tool t) (ta_args t) (ta_risk t))))"
proof -
  have sess: "session_id (approval_as_action row t session) = session" for row t
    by (simp add: approval_as_action_def)
  have intent: "intent_check e row t = Inr True \<Longrightarrow> ap_sha256 row = None \<or> map_option Inr (ap_sha256 row) =
      Some (tool_action_payload_sha256 (env_sha256 e) (ta_tool t) (ta_args t) (ta_risk t))" for row t
    by (auto simp: intent_check_def split: option.splits sum.splits)
  show ?thesis
    using assms unfolding resolve_critical_approval_def Let_def posture_mfa posture_revoked sess
    by (auto simp: critical_answer_def dest: intent split: option.splits prod.splits if_splits sum.splits bool.splits)
qed

text \<open>
  A non-human attempt costs the action its chance. When a principal that is not human tries to resolve
  a pending critical approval, the answer is deny, the approval is denied from then on, every other
  approval is untouched, and no executor is entered, whatever the attempt asked for.
\<close>

theorem non_human_resolution_denies:
  assumes "load_approval s aid = Some (row, t)" and "ap_critical row" and "ap_status row = ''pending''"
    and "\<not> human resolver"
  shows "\<exists>r u. (\<forall>e. resolve_critical_approval refresh e aid resolver approve step_up session reason s = (Inr r, u))
    \<and> res_decision r = ''deny'' \<and> status_of u aid = Some ''denied''
    \<and> (\<forall>b. b = aid \<or> approval u b = approval s b)"
proof -
  have "approval s aid = Some row" by (rule load_approval_approval [OF assms(1)])
  then have "status_of s aid = Some ''pending''" using assms(3) by (simp add: status_of_def)
  with assms show ?thesis
    by (simp add: resolve_critical_approval_def critical_answer_def store_simps resolve_spec status_of_def)
qed

definition not_parked :: "outcome \<Rightarrow> bool" where
  "not_parked o1 \<longleftrightarrow> (\<forall>r. fst o1 = Inr r \<longrightarrow> res_decision r \<noteq> ''needs_human_confirmation'')"

lemma not_parked_simps [simp]:
  "not_parked (Inl err, s)"
  "not_parked (with_policy d a decision msg s) \<longleftrightarrow> decision \<noteq> ''needs_human_confirmation''"
  "not_parked (result a decision msg s) \<longleftrightarrow> decision \<noteq> ''needs_human_confirmation''"
  by (simp_all add: not_parked_def with_policy_def result_def governed_result_def)

lemma execute_not_parked: "not_parked (execute_action e a p d posture s)"
  unfolding not_parked_def using execute_action_allows by fastforce

lemma review_not_parked: "not_parked (review_and_execute e a p s)"
  by (auto simp: review_and_execute_def settle_and_execute_def Let_def
        intro: execute_not_parked split: sum.splits prod.splits)

lemma admission_not_parked: "admission_refusal a p s = Some (d, m) \<Longrightarrow> d \<noteq> ''needs_human_confirmation''"
  by (auto simp: admission_refusal_def first_refusal_def Let_def gate_decision_def
        split: option.splits if_splits)

lemma confirmation_cong:
  "critical_confirmation b = critical_confirmation a \<Longrightarrow>
   critical_confirmation_valid b p s = critical_confirmation_valid a p s"
  by (simp add: critical_confirmation_valid_def)

lemma restore_risk_confirmation: "critical_confirmation (restore_risk e a p s) = critical_confirmation a"
  by (simp add: restore_risk_def Let_def split: option.splits)

lemma confirmed_not_parked:
  assumes "critical_confirmation_valid a p s"
  shows "not_parked (route_action e a p s)"
proof -
  obtain placed s1 where pl: "place_action e a p s = (placed, s1)" by fastforce
  have ds1: "decision_state s1 = decision_state s" using place_action_state [of e a p s] pl by simp
  consider (raised) err where "placed = Inl err" | (refusal) b r where "placed = Inr (b, Some r)"
    | (placed) b where "placed = Inr (b, None)"
    by (metis option.exhaust prod.exhaust sum.exhaust)
  then show ?thesis
  proof cases
    case raised
    then show ?thesis by (simp add: route_action_def pl)
  next
    case refusal
    then show ?thesis using pl
      by (auto simp: route_action_def not_parked_def place_action_def Let_def gate_decision_def governed_result_def
            split: option.splits sum.splits if_splits)
  next
    case placed
    have crit: "not_parked (critical_stage e (restore_risk e b p u) p u)"
      if "decision_state u = decision_state s" for u
    proof -
      have "critical_confirmation b = critical_confirmation a"
        using place_action_keeps(4) [of e a p s b] pl placed by simp
      then have "critical_confirmation_valid (restore_risk e b p u) p v = critical_confirmation_valid a p s"
        if "decision_state v = decision_state s" for v
        using that same_confirmation confirmation_cong restore_risk_confirmation by metis
      with that assms show ?thesis
        by (simp add: critical_stage_def Let_def review_not_parked split: option.splits)
    qed
    then show ?thesis using placed pl ds1
      by (auto simp: route_action_def Let_def admission_not_parked split: option.splits)
  qed
qed

text \<open>
  A confirmed critical action is not parked again. When the relay is driven with the confirmation that
  resolving the approval issues, for the critical approval it names and by the human who gave it, the
  authority it hands the target to finds the confirmation valid: it decides the target on its gate, policy
  and mode, and never answers that a human has to confirm.
\<close>

theorem confirmed_critical_not_parked_again:
  assumes "relay_guard e a p s = (Inr (Inr tk), s1)" and "human p" and "ap_critical (rt_row tk)"
    and "critical_confirmation a = Some \<lparr>cc_approval_id = rt_id tk, cc_confirmed_by = principal_id p, cc_step_up = u\<rparr>"
  shows "\<exists>s2 tid. critical_confirmation_valid (target_action tid a p tk) p s2
    \<and> (\<forall>refresh. relay_execute refresh e a p s =
         (case route_action e (target_action tid a p tk) p s2 of
            (Inl err, s3) \<Rightarrow> (Inl err, s3)
          | (Inr r, s3) \<Rightarrow> (case relay_settle refresh a p tk tid r s3 of (res, s4) \<Rightarrow> (Inr res, s4))))
    \<and> (\<forall>r. fst (route_action e (target_action tid a p tk) p s2) = Inr r \<longrightarrow>
         res_decision r \<noteq> ''needs_human_confirmation'')"
proof -
  obtain s2 tid where row: "load_approval s2 (rt_id tk) = Some ((rt_row tk)\<lparr>ap_status := ''executing''\<rparr>, rt_proposal tk)"
    and run: "\<And>refresh ex. relay_execute refresh (with_executor e ex) a p s =
      (case route_action (with_executor e ex) (target_action tid a p tk) p s2 of
         (Inl err, s3) \<Rightarrow> (Inl err, s3)
       | (Inr r, s3) \<Rightarrow> (case relay_settle refresh a p tk tid r s3 of (res, s4) \<Rightarrow> (Inr res, s4)))"
    using relay_execute_ticket [OF assms(1)] by blast
  have valid: "critical_confirmation_valid (target_action tid a p tk) p s2"
    using assms(2-4) row by (simp add: critical_confirmation_valid_def target_action_def)
  from confirmed_not_parked [OF this, of e] run [of _ "env_executor e"]
  show ?thesis unfolding not_parked_def
    by (intro exI [of _ s2] exI [of _ tid] conjI valid) simp_all
qed

subsection \<open>The bridge executes ordinary approvals only\<close>

lemma relay_gate: "CAPABILITY_GATE_MAP RELAY_CAPABILITY = Some RELAY_CAPABILITY"
  by code_simp

lemma relay_action_plain:
  "\<not> command_action (relay_action tid aid p session turn c)" "\<not> restore_action (relay_action tid aid p session turn c)"
  by (simp_all add: relay_action_def capability_of_def relay_gate)
    (simp_all add: RELAY_CAPABILITY_def COMMAND_CAPABILITIES_def)

definition reasoned :: "ExecutionResult \<Rightarrow> bool" where
  "reasoned res \<longleftrightarrow> er_ok res \<or> er_reason_code res \<noteq> None"

lemma reasoned_relay_result [simp]: "reasoned (relay_result a reason summary arts)"
  by (simp add: reasoned_def relay_result_def)

lemma reasoned_settle: "reasoned (fst (relay_settle refresh a p tk tid r u))"
  by (simp add: relay_settle_def Let_def) (simp add: reasoned_def)

lemma reasoned_guard: "relay_guard e a p s = (Inr (Inl res), u) \<Longrightarrow> reasoned res"
  by (auto simp: relay_guard_def narrow_arguments_def Let_def
        split: if_splits option.splits prod.splits sum.splits bool.splits)

lemma reasoned_dispatch:
  assumes "relay_dispatch refresh e a p tk s = (Inr res, t)"
  shows "reasoned res"
proof -
  obtain ok s1 where c: "claim_approval_for_execution (rt_id tk) s = (ok, s1)" by fastforce
  obtain tid s2 where n: "new_id (env_uuid e) ''act_'' s1 = (tid, s2)" by fastforce
  obtain x s3 where r: "route_action e (target_action tid a p tk) p s2 = (x, s3)" by fastforce
  show ?thesis
  proof (cases ok)
    case True
    then have "\<exists>y. x = Inr y \<and> res = fst (relay_settle refresh a p tk tid y s3)"
      using assms by (cases x) (auto simp: relay_dispatch_def c n r split: prod.splits)
    then show ?thesis using reasoned_settle by blast
  qed (use assms in \<open>auto simp: relay_dispatch_def c\<close>)
qed

lemma relay_failure_has_reason:
  assumes "relay_execute refresh e a p s = (Inr res, t)"
  shows "er_ok res \<or> er_reason_code res \<noteq> None"
proof -
  obtain y s1 where g: "relay_guard e a p s = (y, s1)" by fastforce
  have "reasoned res"
  proof (cases y)
    case (Inr z)
    then show ?thesis using assms g reasoned_guard reasoned_dispatch
      by (cases z) (auto simp: relay_execute_def)
  qed (use assms g in \<open>simp add: relay_execute_def\<close>)
  then show ?thesis by (simp add: reasoned_def)
qed

lemma execute_relay_ok:
  assumes "execute_action (bridge_env refresh e) c p d posture u = (Inr x, v)" and "action_type c = RELAY_CAPABILITY"
    and "res_error x = None"
  obtains res w where "relay_execute refresh e c p u = (Inr res, w)" and "er_ok res"
proof -
  obtain y w where y: "relay_execute refresh e c p u = (y, w)" by fastforce
  have run: "routed_execute (Some (RELAY_CAPABILITY, action_id c)) (env_executor (bridge_env refresh e))
      RELAY_CAPABILITY c p u = (y, w)"
    by (simp add: routed_execute_def bridge_env_def y)
  have reg: "env_registered (bridge_env refresh e) RELAY_CAPABILITY" by (simp add: bridge_env_def)
  obtain res where res: "y = Inr res" and err: "res_error x = (if er_ok res then None else er_reason_code res)"
    using assms(1,2) run reg unfolding execute_action_def Let_def
    by (auto simp: relay_gate split: prod.splits sum.splits)
  have "er_ok res" using err assms(3) relay_failure_has_reason [of refresh e c p u res w] y res
    by (auto split: if_splits)
  with y res that show thesis by blast
qed

text \<open>
  The inbox bridge never runs a critical action. If relaying an approval through the bridge reports
  success, then the relay's own gate was open for the resolving principal, and the approval was an
  ordinary one, pending, within its time limit and untampered.
\<close>

theorem bridge_runs_ordinary_approvals_only:
  assumes "bridge_execute refresh e aid r0 t0 p session reason s = (Inr ax, t)" and "ax_ok ax"
  shows "check_capability_gate s RELAY_CAPABILITY RELAY_CAPABILITY (Some (principal_id p)) = None
    \<and> (\<exists>row tr. load_approval s aid = Some (row, tr) \<and> \<not> ap_critical row \<and> ap_status row = ''pending''
         \<and> \<not> approval_expired row (clock s)
         \<and> intent_check e row tr = Inr True)"
proof -
  let ?b = "bridge_env refresh e" and ?s1 = "s\<lparr>next_uuid := Suc (next_uuid s)\<rparr>"
  define a where "a = relay_action (''act_'' @ env_uuid e (next_uuid s)) aid p session (ta_turn t0) None"
  obtain x u where x: "route_action ?b a p ?s1 = (Inr x, u)" "res_decision x = ''allow''" "res_error x = None"
    using assms by (auto simp: bridge_execute_def new_id_def Let_def a_def split: prod.splits sum.splits if_splits)
  have plain: "\<not> command_action a" "\<not> restore_action a" unfolding a_def by (rule relay_action_plain)+
  have "\<not> refused ?b (\<lambda>e'. route_action e' a p ?s1)" using refusedD(1) [of ?b] x by fastforce
  then obtain b v where place: "fst (place_action ?b a p ?s1) = Inr (b, None)"
    and "runs ?b p (restore_risk ?b b p v) ?s1 (\<lambda>e'. route_action e' a p ?s1)"
    using route_mediated [of ?b a p ?s1] by blast
  moreover have "b = a" using place plain(1) by simp
  ultimately have "runs ?b p a ?s1 (\<lambda>e'. route_action e' a p ?s1)" using plain(2) by simp
  then obtain c d posture w where c: "same_action a c" "decision_state w = decision_state ?s1" "may_run ?b c p w"
    and run: "\<And>ex. route_action (with_executor ?b ex) a p ?s1 = execute_action (with_executor ?b ex) c p d posture w"
    unfolding runs_def by blast
  have ds: "decision_state w = decision_state s" using c(2) by (simp add: decision_state_def)
  have type: "action_type a = RELAY_CAPABILITY" "tool_name a = RELAY_CAPABILITY"
    "arguments a = [(''approval_id'', PStr aid)]" "critical_confirmation a = None"
    by (simp_all add: a_def relay_action_def)
  note fields = same_action_fields [OF c(1), unfolded type]
  have "execute_action ?b c p d posture w = (Inr x, u)" using run [of "env_executor ?b"] x(1) by simp
  then obtain res z where relay: "relay_execute refresh e c p w = (Inr res, z)" "er_ok res"
    using execute_relay_ok x(3) fields(1) by blast
  obtain tk s1 where g: "relay_guard e c p w = (Inr (Inr tk), s1)" by (rule relay_ok_ticket [OF relay])
  note tk = relay_guard_ticket [OF g]
  have id: "rt_id tk = aid" using tk(4) fields(3) by simp
  have "load_approval w aid = load_approval s aid"
    using decision_stateD(10,11) [OF ds] by (intro load_approval_cong) auto
  moreover have "clock w = clock s" using decision_stateD(1) [OF ds] .
  moreover have "check_capability_gate w RELAY_CAPABILITY RELAY_CAPABILITY (Some (principal_id p)) = None"
    using c(3) fields(1,2) unfolding may_run_def admission_None by simp
  ultimately show ?thesis using tk(5-9) fields(5) id same_gate [OF ds] by auto
qed

subsection \<open>A critical action from proposal to execution\<close>

definition critical_fetch :: GovernedAction where
  "critical_fetch = fetch_action\<lparr>risk_level := ''critical''\<rparr>"

definition parked_store :: store where
  "parked_store = snd (route_action local_env critical_fetch agent_principal opened_store)"

theorem critical_approval_needs_verified_human_witness:
  "human owner_principal \<and> (\<exists>row t. load_approval parked_store ''appr_'' = Some (row, t) \<and> ap_critical row)"
proof -
  let ?o = "resolve_critical_approval no_refresh local_env ''appr_'' owner_principal True False ''api'' [] parked_store"
  have "(case fst ?o of Inr r \<Rightarrow> res_decision r = ''allow'' | Inl _ \<Rightarrow> False)" by code_simp
  then obtain r where "fst ?o = Inr r" "res_decision r = ''allow''" by (auto split: sum.splits)
  from critical_approval_needs_verified_human [OF this] show ?thesis by blast
qed

theorem non_human_resolution_denies_witness:
  "\<exists>r u. (\<forall>e. resolve_critical_approval no_refresh e ''appr_'' agent_principal True True ''api'' [] parked_store = (Inr r, u))
     \<and> res_decision r = ''deny'' \<and> status_of u ''appr_'' = Some ''denied''"
proof -
  have "(case load_approval parked_store ''appr_'' of
      Some (row, t) \<Rightarrow> ap_critical row \<and> ap_status row = ''pending'' | None \<Rightarrow> False)" by code_simp
  then obtain row t where row: "load_approval parked_store ''appr_'' = Some (row, t)" "ap_critical row"
    "ap_status row = ''pending''" by (auto split: option.splits)
  have "\<not> human agent_principal" by (simp add: agent_principal_def)
  from non_human_resolution_denies [OF row this] show ?thesis by blast
qed

theorem confirmed_critical_not_parked_again_witness:
  "\<exists>tk s2 tid. critical_confirmation_valid (target_action tid
       (relay_action ''act_r'' ''appr_'' owner_principal ''api'' None
          (Some \<lparr>cc_approval_id = ''appr_'', cc_confirmed_by = ''own'', cc_step_up = False\<rparr>)) owner_principal tk)
       owner_principal s2 \<and> ap_critical (rt_row tk)"
proof -
  let ?a = "relay_action ''act_r'' ''appr_'' owner_principal ''api'' None
      (Some \<lparr>cc_approval_id = ''appr_'', cc_confirmed_by = ''own'', cc_step_up = False\<rparr>)"
  have "(case fst (relay_guard local_env ?a owner_principal parked_store) of
      Inr (Inr tk) \<Rightarrow> rt_id tk = ''appr_'' \<and> ap_critical (rt_row tk) | _ \<Rightarrow> False)" by code_simp
  then obtain tk where tk: "fst (relay_guard local_env ?a owner_principal parked_store) = Inr (Inr tk)"
    "rt_id tk = ''appr_''" "ap_critical (rt_row tk)" by (auto split: sum.splits)
  then have g: "relay_guard local_env ?a owner_principal parked_store =
      (Inr (Inr tk), snd (relay_guard local_env ?a owner_principal parked_store))" by (simp add: prod_eq_iff)
  have "human owner_principal" "critical_confirmation ?a = Some \<lparr>cc_approval_id = rt_id tk,
      cc_confirmed_by = principal_id owner_principal, cc_step_up = False\<rparr>"
    using tk(2) by (simp_all add: relay_action_def owner_principal_def)
  from confirmed_critical_not_parked_again [OF g this(1) tk(3) this(2)] tk(3) show ?thesis by blast
qed

text \<open>The relay's gate is opened beside the target's.\<close>

definition relay_open_store :: store where
  "relay_open_store = waiting_store\<lparr>gate_principal :=
     [(''own'', ''web_fetch'') \<mapsto> ''enabled_runtime'', (''own'', ''approval_execution_relay'') \<mapsto> ''enabled_runtime'']\<rparr>"

theorem bridge_runs_ordinary_approvals_only_witness:
  "\<exists>row tr. load_approval relay_open_store ''appr_1'' = Some (row, tr) \<and> \<not> ap_critical row"
proof -
  let ?row = "\<lambda>s. fst (the (load_approval s ''appr_1''))" and ?tr = "\<lambda>s. snd (the (load_approval s ''appr_1''))"
  let ?o = "bridge_execute no_refresh local_env ''appr_1'' (?row relay_open_store) (?tr relay_open_store)
      owner_principal ''api'' [] relay_open_store"
  have "(case fst ?o of Inr ax \<Rightarrow> ax_ok ax | Inl _ \<Rightarrow> False)" by code_simp
  then obtain ax where ax: "fst ?o = Inr ax" "ax_ok ax" by (cases "fst ?o") simp_all
  then have "?o = (Inr ax, snd ?o)" by (simp add: prod_eq_iff)
  from bridge_runs_ordinary_approvals_only [OF this ax(2)] show ?thesis by blast
qed

end
