(* ===== verification/Event_Types.thy ===== *)
theory Event_Types
  imports Main
begin

text \<open>
  The vocabulary of the audit trail: \<^verbatim>\<open>EVENT_TYPES\<close> of \<^verbatim>\<open>contracts/models.py\<close>, the names an
  \<^verbatim>\<open>AgentEvent\<close> may carry, in the order the source lists them.
\<close>

definition event_types_1 :: "string list" where
  "event_types_1 =
    [''global_command_invoked'', ''terminal_client_started'', ''tui_started'', ''tui_ready'', ''tui_exited'',
     ''tui_prompt_submitted'', ''tui_command_submitted'', ''ui_action_submitted'', ''prompt_received'',
     ''prompt_normalised'', ''intent_classified'', ''risk_classified'', ''environment_context'',
     ''context_gathered'', ''conversation_history_replayed'', ''conversation_history_unavailable'',
     ''compacted_context_created'', ''compacted_context_failed'',
     ''memory_relationship_extraction_completed'', ''memory_relationship_extraction_failed'',
     ''turn_suspended_for_approval'', ''turn_suspension_failed'', ''turn_resumed_after_approval'',
     ''retrieval_augmentation'', ''plan_created'', ''plan_skipped'', ''agent_plan_updated'',
     ''agent_plan_replayed'', ''background_runs_reported'', ''plan_posture_applied'',
     ''spoken_style_applied'', ''subagent_completed'', ''model_tool_calls_dropped'',
     ''model_tool_calls_queued'', ''model_tool_call_refused'', ''turn_sources_recorded'',
     ''action_proposed'', ''action_validated'', ''policy_decision'', ''approval_requested'',
     ''owner_question_answered'', ''approval_received'', ''approval_denied'', ''approval_expired'',
     ''approval_replaced_by_edit'', ''approval_auto_executed'', ''capability_allow_executed'',
     ''approval_auto_withheld'', ''approval_preview_skipped'', ''approval_executed'',
     ''approval_execution_denied'', ''critical_action_classified'', ''code_placement_classified'',
     ''critical_approval_created'', ''critical_approval_notified'', ''critical_approval_resolved'',
     ''critical_approval_step_up_required'', ''critical_approval_expired'', ''critical_approval_denied'',
     ''standing_grant_created'', ''standing_grant_denied'', ''standing_grant_revoked'']"

definition event_types_2 :: "string list" where
  "event_types_2 =
    [''standing_grant_applied'', ''tool_started'', ''tool_completed'', ''tool_failed'',
     ''verification_started'', ''verification_completed'', ''memory_candidate_reviewed'',
     ''memory_record_created'', ''memory_record_forgotten'', ''eidetic_observation_skipped'',
     ''response_created'', ''checkpoint_created'', ''checkpoint_captured'', ''checkpoint_capture_failed'',
     ''turn_closed'', ''machine_identity_issued'', ''machine_identity_rotated'',
     ''machine_identity_refused'', ''machine_identity_deactivated'', ''error_recorded'',
     ''turn_state_changed'', ''model_profile_loaded'', ''model_launch_requested'',
     ''model_launch_completed'', ''model_launch_failed'', ''model_request_started'',
     ''model_request_completed'', ''model_request_failed'', ''model_output_chunk'',
     ''model_request_cancelled'', ''model_health_check_started'', ''model_health_check_completed'',
     ''model_provider_rejected_by_policy'', ''model_fallback_engaged'', ''model_request_retried'',
     ''model_profile_selected'', ''model_available_set_changed'', ''model_side_task_set'',
     ''model_capabilities_inspected'', ''reasoning_setting_changed'', ''reasoning_setting_rejected'',
     ''model_tool_call_rejected'', ''model_price_override_recorded'', ''model_price_override_cleared'',
     ''model_price_synchronised'', ''session_transcript_exported'', ''attachment_downloaded'',
     ''runtime_error_recorded'', ''session_project_changed'', ''session_renamed'', ''session_archived'',
     ''session_unarchived'', ''mcp_connection_added'', ''mcp_connection_removed'', ''mcp_tools_approved'',
     ''skill_installed'', ''skill_imported'', ''skill_built'', ''skill_renamed'', ''skill_activated'',
     ''skill_command_changed'', ''skill_deactivated'', ''skill_deleted'', ''skills_indexed'',
     ''brain_source_folder_granted'', ''brain_source_folder_revoked'', ''code_repo_connected'',
     ''code_repo_disconnected'', ''code_map_indexed'', ''code_map_refreshed'', ''patch_review_completed'',
     ''task_workspace_promoted'', ''task_workspace_discarded'', ''command_egress_changed'',
     ''command_sandbox_backend_changed'', ''command_sandbox_wsl_setup'', ''command_sandbox_wsl_removed'',
     ''patch_model_review_completed'', ''pull_request_receipt_recorded'']"

definition event_types_3 :: "string list" where
  "event_types_3 =
    [''design_proposal_created'', ''design_proposal_decided'', ''design_exported'', ''design_handed_off'',
     ''design_asset_imported'', ''goal_accepted'', ''goal_started'', ''goal_waiting'', ''goal_paused'',
     ''goal_resumed'', ''goal_stopped'', ''goal_archived'', ''goal_completed'', ''goal_partial'',
     ''goal_failed'', ''goal_criterion_confirmed'', ''goal_profile_repinned'', ''goal_step_started'',
     ''goal_step_refused'', ''execution_profile_created'', ''execution_profile_changed'',
     ''execution_profile_bound'', ''mcp_session_completed'', ''mcp_anomaly_detected'',
     ''mcp_connection_paused'', ''mcp_connection_resumed'', ''mcp_connection_killed'',
     ''capability_anomaly_detected'', ''capability_contained'', ''capability_containment_cleared'',
     ''capability_call_refused'', ''prompt_injection_suspected'', ''subagent_result_verified'',
     ''subagent_result_refused'', ''task_created'', ''task_run_requested'', ''task_started'',
     ''task_progress'', ''task_paused'', ''task_resumed'', ''task_cancelled'', ''task_completed'',
     ''task_failed'', ''task_blocked'', ''task_waiting_for_children'', ''task_resume_started'',
     ''task_resume_blocked'', ''task_cycle_landed'', ''side_question_received'', ''side_question_answered'',
     ''interrupt_received'', ''safe_boundary_reached'', ''task_steered'', ''turn_stopped'',
     ''turn_cost_limit_reached'', ''turn_spend_limit_reached'', ''turn_steered'', ''typed_block_retry'',
     ''checkpoint_restore_planned'', ''checkpoint_fork_planned'', ''phase3.workspace.inspection.requested'',
     ''phase3.plugin.manifest.validated'', ''phase3.plugin.registration.planned'',
     ''phase3.plugin.registration.denied'', ''phase3.client.contract.inspected'', ''hook_matched'',
     ''hook_executed'', ''hook_decision'', ''hook_failed'', ''hook_timeout'', ''hook_context_added'',
     ''review_started'', ''review_completed'', ''review_failed'', ''review_proposals_created'',
     ''proposal_lifecycle_created'', ''proposal_lifecycle_status_changed'', ''proposal_lifecycle_listed'',
     ''proposal_lifecycle_viewed'', ''proposal_approval_preview_created'',
     ''proposal_approval_preview_listed'', ''proposal_approval_preview_viewed'', ''managed_policy_applied'',
     ''managed_policy_override'', ''user_created'', ''user_deactivated'', ''role_created'', ''role_deleted'',
     ''user_role_granted'', ''user_role_revoked'', ''session_user_bound'', ''audit_export_created'',
     ''event_integrity_verified'', ''plugin_checksum_verified'', ''plugin_signature_verified'']"

definition event_types_4 :: "string list" where
  "event_types_4 =
    [''plugin_marketplace_install_recorded'', ''hosted_routine_created'', ''hosted_routine_deleted'',
     ''budget_record_created'', ''budget_threshold_exceeded'', ''retention_policy_applied'',
     ''backup_manifest_created'', ''channel_paired'', ''channel_unpaired'', ''channel_message_received'',
     ''channel_message_routed'', ''channel_routing_changed'', ''channel_paused'', ''channel_resumed'',
     ''channel_delivery_reviewed'', ''channel_reply_delivered'', ''channel_reply_failed'',
     ''channel_reply_held'', ''mcp_server_secret_set'', ''mcp_server_secret_removed'',
     ''git_credential_stored'', ''git_credential_forgotten'', ''git_grant_created'', ''git_grant_revoked'',
     ''git_credential_lent'', ''git_credential_selected'', ''git_credential_checked'',
     ''github_webhook_rejected'', ''repository_delegation_created'', ''repository_delegation_used'',
     ''repository_delegation_refused'', ''repository_delegation_revoked'', ''channel_message_rejected'',
     ''approval_relay_requested'', ''approval_relay_approved'', ''approval_relay_denied'',
     ''approval_relay_denied_by_default'', ''subagent_contract_created'', ''subagent_spawn_denied'',
     ''team_ledger_created'', ''team_work_proposed'', ''team_execution_denied'',
     ''remote_execution_planned'', ''remote_execution_denied'', ''execution_budget_recorded'',
     ''execution_cleanup_planned'', ''desktop_app_launched'', ''desktop_workspace_rendered'',
     ''web_app_launched'', ''web_api_request_authenticated'', ''dashboard_widget_rendered'',
     ''mobile_app_launched'', ''mobile_approval_submitted'', ''mobile_approval_rejected_stale'',
     ''plugin_code_execution_planned'', ''plugin_code_execution_started'',
     ''plugin_code_execution_completed'', ''plugin_code_execution_denied'',
     ''graph_runtime_index_requested'', ''graph_runtime_index_started'', ''graph_runtime_index_completed'',
     ''graph_runtime_index_denied'', ''semantic_memory_write_requested'', ''semantic_memory_write_approved'',
     ''semantic_memory_write_completed'', ''semantic_memory_write_denied'', ''ide_extension_connected'',
     ''ide_action_routed'', ''vector_embedding_created'', ''vector_search_performed'',
     ''vector_index_flushed'', ''graph_symbol_extracted'', ''graph_dependency_discovered'',
     ''graph_index_flushed'', ''project_graph_built'', ''project_graph_queried'',
     ''skill_candidate_proposed'', ''skill_candidate_reviewed'', ''skill_candidate_recorded'',
     ''runtime_mode_activation_requested'', ''runtime_mode_activated'', ''runtime_mode_disabled'',
     ''capability_transition_requested'', ''capability_transition_approved'', ''capability_enabled'',
     ''capability_disabled'', ''capability_transition_denied'', ''capability_decision_mode_set'',
     ''threat_model_acknowledged'', ''runtime_readiness_checked'', ''owner_bootstrap_requested'',
     ''owner_bootstrap_created'', ''owner_bootstrap_denied'', ''owner_recovery_requested'',
     ''owner_recovery_created'', ''owner_recovery_denied'', ''owner_recovery_old_owner_deactivated'',
     ''principal_resolved'', ''principal_resolution_failed'', ''action_executed'', ''action_failed'',
     ''attachment_image_included'', ''attachment_image_withheld'', ''attachment_image_described'',
     ''attachment_image_description_failed'', ''reminder_delivered'', ''reminder_paused'',
     ''reminder_cancelled'', ''reminder_retried'']"

definition EVENT_TYPES :: "string list" where
  "EVENT_TYPES = event_types_1 @ event_types_2 @ event_types_3 @ event_types_4"

end
