(* ===== verification/Event_Log.thy ===== *)
theory Event_Log
  imports Approval_Store Event_Types
begin

text \<open>
  The audit log on disk: \<^verbatim>\<open>EventLogWriter.append\<close> (\<^verbatim>\<open>events/writer.py\<close>) writes one JSON line per event
  to the file of the session and indexes it in \<^verbatim>\<open>events_index\<close>; \<^verbatim>\<open>verify_session_events\<close>
  (\<^verbatim>\<open>events/integrity.py\<close>) checks the two against each other.

  A file is the list of its bytes; the writer produces ASCII only and readers are modelled on ASCII
  files. The session lock makes one append one step. What can go wrong inside a step (a write that
  stops early, an index write that raises, a truncation that fails) is an argument of the step.
  \<open>sha256\<close> is the hex digest of \<^verbatim>\<open>hashlib\<close>; \<open>dir\<close> is the directory of the logs, and a session id is a
  single file name.
\<close>

subsection \<open>Events\<close>

definition SCHEMA_VERSION :: string where
  "SCHEMA_VERSION = ''1.0''"

record AgentEvent =
  ae_event_id :: string
  ae_timestamp :: string
  ae_session_id :: string
  ae_turn_id :: "string option"
  ae_event_type :: string
  ae_actor :: string
  ae_payload :: pydict
  ae_parent_event_id :: "string option"
  ae_schema_version :: string

definition require_field :: "string \<Rightarrow> string \<Rightarrow> string option" where
  "require_field v name = (if v = [] then Some (''missing_required_field:'' @ name) else None)"

definition event_contract :: "AgentEvent \<Rightarrow> string option" where
  "event_contract ev =
     List.find (\<lambda>_. True) (List.map_filter (\<lambda>e. e)
       [if ae_schema_version ev \<noteq> SCHEMA_VERSION
          then Some (''unsupported_schema_version:'' @ ae_schema_version ev) else None,
        require_field (ae_event_id ev) ''event_id'',
        require_field (ae_timestamp ev) ''timestamp'',
        require_field (ae_session_id ev) ''session_id'',
        if ae_event_type ev \<notin> set EVENT_TYPES then Some (''invalid_event_type:'' @ ae_event_type ev) else None,
        require_field (ae_actor ev) ''actor''])"

definition event_fields :: "AgentEvent \<Rightarrow> pydict" where
  "event_fields ev =
     [(''event_id'', PStr (ae_event_id ev)), (''timestamp'', PStr (ae_timestamp ev)),
      (''session_id'', PStr (ae_session_id ev)), (''turn_id'', opt_str (ae_turn_id ev)),
      (''event_type'', PStr (ae_event_type ev)), (''actor'', PStr (ae_actor ev)),
      (''payload'', PDict (ae_payload ev)), (''parent_event_id'', opt_str (ae_parent_event_id ev)),
      (''schema_version'', PStr (ae_schema_version ev))]"

definition serialised :: "AgentEvent \<Rightarrow> string" where
  "serialised ev = json_text (sort_value (PDict (event_fields ev)))"

subsection \<open>The index and the files\<close>

record index_row =
  ix_event_id :: string
  ix_session_id :: string
  ix_turn_id :: "string option"
  ix_task_id :: pyval
  ix_event_type :: string
  ix_actor :: string
  ix_timestamp :: string
  ix_jsonl_path :: string
  ix_jsonl_offset :: "nat option"
  ix_payload_sha256 :: "string option"
  ix_prev_event_sha256 :: "string option"
  ix_risk_level :: pyval
  ix_summary :: pyval

record event_log =
  log_files :: "string \<Rightarrow> string option"
  log_index :: "index_row list"
  last_event_id :: "string option"

datatype log_error = ContractError string | WriteError | StoreError

text \<open>Values SQLite can bind: scalars, integers within 64 bits.\<close>

fun bindable :: "pyval \<Rightarrow> bool" where
  "bindable (PList xs) = False"
| "bindable (PDict d) = False"
| "bindable (PInt i) = (- (2 ^ 63) \<le> i \<and> i < 2 ^ 63)"
| "bindable v = True"

definition index_event ::
  "AgentEvent \<Rightarrow> string \<Rightarrow> nat \<Rightarrow> string \<Rightarrow> string option \<Rightarrow> event_log \<Rightarrow> log_error + event_log" where
  "index_event ev path offset sha prev s =
     (if ae_event_id ev \<in> set (map ix_event_id (log_index s))
         \<or> \<not> bindable (dict_get (ae_payload ev) ''task_id'')
         \<or> \<not> bindable (dict_get (ae_payload ev) ''risk_level'')
         \<or> \<not> bindable (dict_get (ae_payload ev) ''summary'')
      then Inl StoreError
      else Inr (s\<lparr>log_index := log_index s @
        [\<lparr>ix_event_id = ae_event_id ev, ix_session_id = ae_session_id ev, ix_turn_id = ae_turn_id ev,
          ix_task_id = dict_get (ae_payload ev) ''task_id'', ix_event_type = ae_event_type ev,
          ix_actor = ae_actor ev, ix_timestamp = ae_timestamp ev, ix_jsonl_path = path,
          ix_jsonl_offset = Some offset, ix_payload_sha256 = Some sha, ix_prev_event_sha256 = prev,
          ix_risk_level = dict_get (ae_payload ev) ''risk_level'',
          ix_summary = dict_get (ae_payload ev) ''summary''\<rparr>]\<rparr>))"

text \<open>
  \<^verbatim>\<open>ORDER BY jsonl_offset ASC\<close>: a missing offset sorts first, ties keep the order of insertion. The last
  row in this order is the first of \<^verbatim>\<open>ORDER BY jsonl_offset DESC, rowid DESC\<close>.
\<close>

definition offset_key :: "index_row \<Rightarrow> nat" where
  "offset_key r = (case ix_jsonl_offset r of None \<Rightarrow> 0 | Some n \<Rightarrow> Suc n)"

definition list_session_events_for_integrity :: "event_log \<Rightarrow> string \<Rightarrow> index_row list" where
  "list_session_events_for_integrity s sid =
     sort_key offset_key (filter (\<lambda>r. ix_session_id r = sid) (log_index s))"

definition stored_text :: "string option \<Rightarrow> string" where
  "stored_text h = (case h of None \<Rightarrow> ''None'' | Some x \<Rightarrow> x)"

definition get_last_event_sha256 :: "event_log \<Rightarrow> string \<Rightarrow> string option" where
  "get_last_event_sha256 s sid =
     (case rev (list_session_events_for_integrity s sid) of
        [] \<Rightarrow> None
      | r # _ \<Rightarrow> Some (stored_text (ix_payload_sha256 r)))"

subsection \<open>The writer\<close>

record io_faults =
  write_stops :: "nat option"
  index_fails :: bool
  undo_fails :: bool

definition path_for_session :: "string \<Rightarrow> string \<Rightarrow> string" where
  "path_for_session dir sid = dir @ ''/'' @ sid @ ''.jsonl''"

definition newline :: char where
  "newline = CHR 0x0A"

definition file_text :: "event_log \<Rightarrow> string \<Rightarrow> string" where
  "file_text s path = (case log_files s path of None \<Rightarrow> [] | Some f \<Rightarrow> f)"

definition put_file :: "string \<Rightarrow> string \<Rightarrow> event_log \<Rightarrow> event_log" where
  "put_file path text s = s\<lparr>log_files := (log_files s)(path := Some text)\<rparr>"

definition undo_append :: "string \<Rightarrow> nat \<Rightarrow> bool \<Rightarrow> event_log \<Rightarrow> event_log" where
  "undo_append path offset fails s =
     (if fails then s else put_file path (take offset (file_text s path)) s)"

definition writer_append ::
  "(string \<Rightarrow> string) \<Rightarrow> string \<Rightarrow> AgentEvent \<Rightarrow> io_faults \<Rightarrow> event_log \<Rightarrow> (log_error + string \<times> nat) \<times> event_log" where
  "writer_append sha256 dir ev faults s =
     (case event_contract ev of
        Some msg \<Rightarrow> (Inl (ContractError msg), s)
      | None \<Rightarrow>
          (let path = path_for_session dir (ae_session_id ev);
               text = serialised ev;
               digest = sha256 text;
               prev_hash = get_last_event_sha256 s (ae_session_id ev);
               offset = length (file_text s path);
               line = text @ [newline]
           in case write_stops faults of
                Some n \<Rightarrow> (Inl WriteError, put_file path (file_text s path @ take n line) s)
              | None \<Rightarrow>
                  (let s1 = put_file path (file_text s path @ line) s
                   in case (if index_fails faults then Inl StoreError
                            else index_event ev path offset digest prev_hash s1) of
                        Inl err \<Rightarrow> (Inl err, undo_append path offset (undo_fails faults) s1)
                      | Inr s2 \<Rightarrow> (Inr (path, offset), s2\<lparr>last_event_id := Some (ae_event_id ev)\<rparr>))))"

subsection \<open>The verifier\<close>

text \<open>
  A line is read in text mode from the recorded offset: it ends at a line feed or, by newline
  translation, at a carriage return.
\<close>

definition read_event_line :: "event_log \<Rightarrow> string \<Rightarrow> nat \<Rightarrow> string option" where
  "read_event_line s path offset =
     (case log_files s path of
        None \<Rightarrow> None
      | Some f \<Rightarrow>
          if offset < length f
          then Some (takeWhile (\<lambda>c. c \<noteq> newline \<and> c \<noteq> CHR 0x0D) (drop offset f)) else None)"

fun byte_lines :: "string \<Rightarrow> string list" where
  "byte_lines [] = []"
| "byte_lines (c # cs) =
     (if c = newline then [c] # byte_lines cs
      else (case byte_lines cs of [] \<Rightarrow> [[c]] | l # ls \<Rightarrow> (c # l) # ls))"

definition blank_bytes :: "string \<Rightarrow> bool" where
  "blank_bytes l = list_all (\<lambda>c. (of_char c :: nat) \<in> {9, 10, 11, 12, 13, 32}) l"

fun offsets_from :: "nat \<Rightarrow> string list \<Rightarrow> nat list" where
  "offsets_from position [] = []"
| "offsets_from position (l # ls) =
     (if blank_bytes l then [] else [position]) @ offsets_from (position + length l) ls"

definition line_offsets :: "event_log \<Rightarrow> string \<Rightarrow> nat list option" where
  "line_offsets s path = map_option (\<lambda>f. offsets_from 0 (byte_lines f)) (log_files s path)"

record orphan =
  or_jsonl_path :: string
  or_jsonl_offset :: "nat option"
  or_error :: string

definition indexed_paths :: "index_row list \<Rightarrow> string list" where
  "indexed_paths rows =
     rev (remdups (rev (map ix_jsonl_path
       (filter (\<lambda>r. ix_jsonl_path r \<noteq> [] \<and> ix_jsonl_offset r \<noteq> None) rows))))"

definition known_offsets :: "index_row list \<Rightarrow> string \<Rightarrow> nat list" where
  "known_offsets rows path =
     List.map_filter ix_jsonl_offset (filter (\<lambda>r. ix_jsonl_path r = path) rows)"

definition unindexed_lines :: "event_log \<Rightarrow> index_row list \<Rightarrow> orphan list" where
  "unindexed_lines s rows =
     concat (map (\<lambda>path.
       case line_offsets s path of
         None \<Rightarrow> [\<lparr>or_jsonl_path = path, or_jsonl_offset = None, or_error = ''cannot_read_jsonl''\<rparr>]
       | Some present \<Rightarrow>
           map (\<lambda>offset. \<lparr>or_jsonl_path = path, or_jsonl_offset = Some offset, or_error = ''unindexed_line''\<rparr>)
             (filter (\<lambda>offset. offset \<notin> set (known_offsets rows path)) present))
       (indexed_paths rows))"

record event_check =
  ck_event_id :: string
  ck_index :: nat
  ck_stored_hash :: string
  ck_hash_matches :: "bool option"
  ck_computed_hash :: "string option"
  ck_error :: "string option"
  ck_stored_prev_hash :: "string option"
  ck_chain_gap :: bool
  ck_expected_prev :: "string option"

definition check_event ::
  "(string \<Rightarrow> string) \<Rightarrow> event_log \<Rightarrow> nat \<Rightarrow> string option \<Rightarrow> index_row \<Rightarrow> event_check" where
  "check_event sha256 s i prev_hash r =
     (let stored_hash = stored_text (ix_payload_sha256 r);
          line = (case ix_jsonl_offset r of
                    Some offset \<Rightarrow> if ix_jsonl_path r \<noteq> [] then read_event_line s (ix_jsonl_path r) offset else None
                  | None \<Rightarrow> None);
          located = (ix_jsonl_path r \<noteq> [] \<and> ix_jsonl_offset r \<noteq> None);
          computed = (case line of Some l \<Rightarrow> if l \<noteq> [] then Some (sha256 l) else None | None \<Rightarrow> None);
          gap = (case ix_prev_event_sha256 r of
                   Some stored_prev \<Rightarrow> prev_hash \<noteq> None \<and> prev_hash \<noteq> Some stored_prev
                 | None \<Rightarrow> i > 0)
      in \<lparr>ck_event_id = ix_event_id r, ck_index = i, ck_stored_hash = stored_hash,
          ck_hash_matches = map_option (\<lambda>h. h = stored_hash) computed,
          ck_computed_hash = (if computed \<noteq> None \<and> computed \<noteq> Some stored_hash then computed else None),
          ck_error = (if \<not> located then Some ''missing_path_or_offset''
                      else case computed of
                             None \<Rightarrow> Some ''cannot_read_jsonl''
                           | Some h \<Rightarrow> if h \<noteq> stored_hash then Some ''hash_mismatch'' else None),
          ck_stored_prev_hash = ix_prev_event_sha256 r, ck_chain_gap = gap,
          ck_expected_prev = (if gap then prev_hash else None)\<rparr>)"

fun check_events ::
  "(string \<Rightarrow> string) \<Rightarrow> event_log \<Rightarrow> nat \<Rightarrow> string option \<Rightarrow> index_row list \<Rightarrow> event_check list" where
  "check_events sha256 s i prev_hash [] = []"
| "check_events sha256 s i prev_hash (r # rows) =
     check_event sha256 s i prev_hash r
       # check_events sha256 s (Suc i) (Some (stored_text (ix_payload_sha256 r))) rows"

record verification =
  vf_session_id :: string
  vf_total_events :: nat
  vf_passed :: nat
  vf_failed :: nat
  vf_chain_intact :: bool
  vf_unindexed_lines :: "orphan list"
  vf_details :: "event_check list"

definition event_passed :: "event_check \<Rightarrow> bool" where
  "event_passed c = (ck_hash_matches c \<noteq> Some False \<and> \<not> ck_chain_gap c)"

definition verify_session_events :: "(string \<Rightarrow> string) \<Rightarrow> event_log \<Rightarrow> string \<Rightarrow> verification" where
  "verify_session_events sha256 s sid =
     (let rows = list_session_events_for_integrity s sid;
          results = check_events sha256 s 0 None rows;
          total = length results;
          passed = length (filter event_passed results);
          orphans = unindexed_lines s rows
      in \<lparr>vf_session_id = sid, vf_total_events = total, vf_passed = passed, vf_failed = total - passed,
          vf_chain_intact = (list_all (\<lambda>c. \<not> ck_chain_gap c) results \<and> orphans = []),
          vf_unindexed_lines = orphans, vf_details = results\<rparr>)"

definition compute_session_root_hash :: "(string \<Rightarrow> string) \<Rightarrow> event_log \<Rightarrow> string \<Rightarrow> string option" where
  "compute_session_root_hash sha256 s sid =
     (case list_session_events_for_integrity s sid of
        [] \<Rightarrow> None
      | rows \<Rightarrow> Some (sha256 (concat (map (\<lambda>r. stored_text (ix_payload_sha256 r)) rows))))"

subsection \<open>One line per event\<close>

definition printable :: "string \<Rightarrow> bool" where
  "printable s = list_all (\<lambda>c. 32 \<le> (of_char c :: nat) \<and> (of_char c :: nat) < 127) s"

text \<open>The text of a float is printable; nothing else is asked of a payload.\<close>

fun floats_ok :: "pyval \<Rightarrow> bool"
  and floats_ok_elems :: "pyval list \<Rightarrow> bool"
  and floats_ok_items :: "(string \<times> pyval) list \<Rightarrow> bool" where
  "floats_ok (PFloat r) = printable r"
| "floats_ok (PList xs) = floats_ok_elems xs"
| "floats_ok (PDict d) = floats_ok_items d"
| "floats_ok v = True"
| "floats_ok_elems [] = True"
| "floats_ok_elems (x # xs) = (floats_ok x \<and> floats_ok_elems xs)"
| "floats_ok_items [] = True"
| "floats_ok_items ((k, v) # xs) = (floats_ok v \<and> floats_ok_items xs)"

definition event_line :: "string \<Rightarrow> bool" where
  "event_line l \<longleftrightarrow> l \<noteq> [] \<and> hd l = CHR 0x7B \<and> newline \<notin> set l \<and> CHR 0x0D \<notin> set l"

lemma printable_append [simp]: "printable (a @ b) \<longleftrightarrow> printable a \<and> printable b"
  by (simp add: printable_def)

lemma printable_Nil [simp]: "printable []"
  by (simp add: printable_def)

lemma printable_Cons [simp]:
  "printable (c # s) \<longleftrightarrow> 32 \<le> (of_char c :: nat) \<and> (of_char c :: nat) < 127 \<and> printable s"
  by (auto simp: printable_def)

lemma printable_nat_dec: "printable (nat_dec n)"
proof (induction n rule: nat_dec.induct)
  case (1 n)
  have "printable [dec_digit (n mod 10)]" by (simp add: dec_digit_def)
  with 1 show ?case by (subst nat_dec.simps) (auto simp: dec_digit_def)
qed

lemma printable_int_dec: "printable (int_dec i)"
  by (simp add: int_dec_def printable_nat_dec)

lemma of_char_hex_digit: "d < 16 \<Longrightarrow> 48 \<le> (of_char (hex_digit d) :: nat) \<and> (of_char (hex_digit d) :: nat) < 103"
  by (simp add: hex_digit_def)

lemma printable_json_char: "printable (json_char c)"
proof -
  have "(of_char c :: nat) < 256" by (cases c) (simp add: of_char_def)
  then have "(of_char c :: nat) div 16 < 16" "(of_char c :: nat) mod 16 < 16" by (simp_all add: less_mult_imp_div_less)
  then show ?thesis
    using of_char_hex_digit [of "of_char c div 16"] of_char_hex_digit [of "of_char c mod 16"]
    by (auto simp: json_char_def)
qed

lemma printable_json_string: "printable (json_string s)"
proof -
  have "printable (concat (map json_char s))" by (induction s) (auto simp: printable_json_char)
  then show ?thesis by (simp add: json_string_def)
qed

lemma printable_json:
  "floats_ok v \<Longrightarrow> printable (json_text v)"
  "floats_ok_elems xs \<Longrightarrow> printable (json_elems xs)"
  "floats_ok_items d \<Longrightarrow> printable (json_items d)"
  by (induction v and xs and d rule: json_text_json_elems_json_items.induct)
    (auto simp: printable_int_dec printable_json_string)

lemma floats_ok_items_iff: "floats_ok_items d \<longleftrightarrow> (\<forall>kv \<in> set d. floats_ok (snd kv))"
  by (induction d) auto

lemma floats_ok_sort:
  "floats_ok (sort_value v) \<longleftrightarrow> floats_ok v"
  "floats_ok_elems (sort_elems xs) \<longleftrightarrow> floats_ok_elems xs"
  "floats_ok_items (sort_items d) \<longleftrightarrow> floats_ok_items d"
  by (induction v and xs and d rule: sort_value_sort_elems_sort_items.induct)
    (auto simp: floats_ok_items_iff)

lemma serialised_event_line:
  assumes "floats_ok (PDict (ae_payload ev))"
  shows "event_line (serialised ev)"
proof -
  have "floats_ok (PDict (event_fields ev))"
    using assms by (auto simp: event_fields_def opt_str_def split: option.splits)
  then have "printable (serialised ev)"
    by (simp add: serialised_def printable_json(1) floats_ok_sort(1) del: sort_value.simps)
  then have "c \<notin> set (serialised ev)" if "(of_char c :: nat) < 32" for c
    using that by (auto simp: printable_def list_all_iff)
  moreover have "serialised ev \<noteq> []" "hd (serialised ev) = CHR 0x7B" by (simp_all add: serialised_def)
  ultimately show ?thesis by (simp add: event_line_def newline_def)
qed

subsection \<open>The layout of a session's log\<close>

text \<open>
  What the index should say about a file made of the given lines: path, offset, digest and the digest
  before it.
\<close>

fun layout ::
  "(string \<Rightarrow> string) \<Rightarrow> string \<Rightarrow> nat \<Rightarrow> string option \<Rightarrow> string list
   \<Rightarrow> (string \<times> nat option \<times> string option \<times> string option) list" where
  "layout sha256 path off prev [] = []"
| "layout sha256 path off prev (l # ls) =
     (path, Some off, Some (sha256 l), prev) # layout sha256 path (off + Suc (length l)) (Some (sha256 l)) ls"

definition row_layout :: "index_row \<Rightarrow> string \<times> nat option \<times> string option \<times> string option" where
  "row_layout r = (ix_jsonl_path r, ix_jsonl_offset r, ix_payload_sha256 r, ix_prev_event_sha256 r)"

definition text_of :: "string list \<Rightarrow> string" where
  "text_of ls = concat (map (\<lambda>l. l @ [newline]) ls)"

definition session_rows :: "event_log \<Rightarrow> string \<Rightarrow> index_row list" where
  "session_rows s sid = filter (\<lambda>r. ix_session_id r = sid) (log_index s)"

definition session_logged :: "(string \<Rightarrow> string) \<Rightarrow> string \<Rightarrow> string \<Rightarrow> string list \<Rightarrow> event_log \<Rightarrow> bool" where
  "session_logged sha256 dir sid ls s \<longleftrightarrow>
     file_text s (path_for_session dir sid) = text_of ls
     \<and> (ls \<noteq> [] \<longrightarrow> log_files s (path_for_session dir sid) \<noteq> None)
     \<and> map row_layout (session_rows s sid) = layout sha256 (path_for_session dir sid) 0 None ls
     \<and> list_all event_line ls"

definition log_inv :: "(string \<Rightarrow> string) \<Rightarrow> string \<Rightarrow> event_log \<Rightarrow> bool" where
  "log_inv sha256 dir s \<longleftrightarrow> (\<forall>sid. \<exists>ls. session_logged sha256 dir sid ls s)"

lemma path_for_session_inject [simp]: "path_for_session dir a = path_for_session dir b \<longleftrightarrow> a = b"
  by (simp add: path_for_session_def)

lemma path_for_session_nonempty [simp]: "path_for_session dir a \<noteq> []"
  by (simp add: path_for_session_def)

lemma text_of_simps [simp]:
  "text_of [] = []" "text_of (l # ls) = l @ newline # text_of ls" "text_of (ls @ ms) = text_of ls @ text_of ms"
  by (simp_all add: text_of_def)

lemma layout_append:
  "layout sha256 path off prev (ls @ [l]) =
     layout sha256 path off prev ls
       @ [(path, Some (off + length (text_of ls)), Some (sha256 l),
           if ls = [] then prev else Some (sha256 (last ls)))]"
  by (induction ls arbitrary: off prev) auto

lemma length_layout [simp]: "length (layout sha256 path off prev ls) = length ls"
  by (induction ls arbitrary: off prev) auto

lemma layout_offsets: "x \<in> set (layout sha256 path off prev ls) \<Longrightarrow>
    fst x = path \<and> (\<exists>n. fst (snd x) = Some n \<and> off \<le> n \<and> n < off + length (text_of ls))"
  by (induction ls arbitrary: off prev) fastforce+

lemma sorted_layout: "sorted (map (\<lambda>x. case fst (snd x) of None \<Rightarrow> 0 | Some n \<Rightarrow> Suc n) (layout sha256 path off prev ls))"
proof (induction ls arbitrary: off prev)
  case (Cons l ls)
  have "off \<le> n" if "x \<in> set (layout sha256 path (off + Suc (length l)) (Some (sha256 l)) ls)"
    "fst (snd x) = Some n" for x n
    using layout_offsets [OF that(1)] that(2) by auto
  then show ?case using Cons by (auto simp: layout_offsets split: option.splits dest: layout_offsets)
qed simp

lemma integrity_rows:
  assumes "session_logged sha256 dir sid ls s"
  shows "list_session_events_for_integrity s sid = session_rows s sid"
proof -
  have "map offset_key (session_rows s sid) =
      map (\<lambda>x. case fst (snd x) of None \<Rightarrow> 0 | Some n \<Rightarrow> Suc n) (map row_layout (session_rows s sid))"
    by (simp add: offset_key_def row_layout_def cong: option.case_cong)
  then have "sorted (map offset_key (session_rows s sid))"
    using assms sorted_layout unfolding session_logged_def by metis
  then show ?thesis
    by (simp add: list_session_events_for_integrity_def session_rows_def sort_key_id_if_sorted)
qed

lemma last_hash:
  assumes "session_logged sha256 dir sid ls s"
  shows "get_last_event_sha256 s sid = (if ls = [] then None else Some (sha256 (last ls)))"
proof (cases ls rule: rev_cases)
  case Nil
  then have "session_rows s sid = []" using assms by (simp add: session_logged_def)
  then show ?thesis using Nil by (simp add: get_last_event_sha256_def integrity_rows [OF assms])
next
  case (snoc ks l)
  then have "map row_layout (session_rows s sid) = layout sha256 (path_for_session dir sid) 0 None (ks @ [l])"
    using assms by (simp add: session_logged_def)
  then obtain rs r where "session_rows s sid = rs @ [r]" "ix_payload_sha256 r = Some (sha256 l)"
    by (auto simp: layout_append map_eq_append_conv row_layout_def)
  then show ?thesis using snoc
    by (simp add: get_last_event_sha256_def integrity_rows [OF assms] stored_text_def)
qed

subsection \<open>Appending refines adding one line\<close>

text \<open>
  The abstract log: a list of lines per session and the event ids in use. An append adds one line at
  the end of its session or changes nothing.
\<close>

type_synonym log_spec = "(string \<Rightarrow> string list) \<times> string set"
type_synonym log_op = "AgentEvent \<times> io_faults"

definition log_lines :: "string \<Rightarrow> event_log \<Rightarrow> string \<Rightarrow> string list" where
  "log_lines dir s sid =
     map (takeWhile (\<lambda>c. c \<noteq> newline)) (byte_lines (file_text s (path_for_session dir sid)))"

definition log_abs :: "string \<Rightarrow> event_log \<Rightarrow> log_spec" where
  "log_abs dir s = (log_lines dir s, set (map ix_event_id (log_index s)))"

definition storable :: "AgentEvent \<Rightarrow> string set \<Rightarrow> bool" where
  "storable ev ids \<longleftrightarrow>
     ae_event_id ev \<notin> ids \<and> bindable (dict_get (ae_payload ev) ''task_id'')
     \<and> bindable (dict_get (ae_payload ev) ''risk_level'') \<and> bindable (dict_get (ae_payload ev) ''summary'')"

fun spec_append :: "log_op \<Rightarrow> log_spec \<Rightarrow> log_spec" where
  "spec_append (ev, faults) (m, ids) =
     (if event_contract ev = None \<and> \<not> index_fails faults \<and> storable ev ids
      then (m(ae_session_id ev := m (ae_session_id ev) @ [serialised ev]), insert (ae_event_id ev) ids)
      else (m, ids))"

fun append_step :: "(string \<Rightarrow> string) \<Rightarrow> string \<Rightarrow> log_op \<Rightarrow> event_log \<Rightarrow> event_log" where
  "append_step sha256 dir (ev, faults) s = snd (writer_append sha256 dir ev faults s)"

text \<open>Steps whose file operations work; the index may still fail.\<close>

fun files_work :: "log_op \<Rightarrow> bool" where
  "files_work (ev, faults) \<longleftrightarrow>
     floats_ok (PDict (ae_payload ev)) \<and> write_stops faults = None \<and> \<not> undo_fails faults"

definition empty_log :: event_log where
  "empty_log = \<lparr>log_files = (\<lambda>_. None), log_index = [], last_event_id = None\<rparr>"

lemma byte_lines_line: "newline \<notin> set l \<Longrightarrow> byte_lines (l @ newline # cs) = (l @ [newline]) # byte_lines cs"
  by (induction l) auto

lemma byte_lines_text:
  "list_all event_line ls \<Longrightarrow> byte_lines (text_of ls @ cs) = map (\<lambda>l. l @ [newline]) ls @ byte_lines cs"
  by (induction ls) (auto simp: event_line_def byte_lines_line)

lemma takeWhile_line: "event_line l \<Longrightarrow> takeWhile (\<lambda>c. c \<noteq> newline) (l @ [newline]) = l"
  by (induction l) (auto simp: event_line_def takeWhile_append)

lemma log_lines_logged:
  assumes "session_logged sha256 dir sid ls s"
  shows "log_lines dir s sid = ls"
proof -
  have ls: "file_text s (path_for_session dir sid) = text_of ls" "list_all event_line ls"
    using assms by (simp_all add: session_logged_def)
  then show ?thesis using byte_lines_text [OF ls(2), of "[]"]
    by (auto simp: log_lines_def list_all_iff takeWhile_line intro!: map_idI)
qed

lemma file_text_put [simp]:
  "file_text (put_file path f s) q = (if q = path then f else file_text s q)"
  "log_files (put_file path f s) q = (if q = path then Some f else log_files s q)"
  "log_index (put_file path f s) = log_index s"
  by (simp_all add: file_text_def put_file_def)

text \<open>The two ways an append can end when the file operations work.\<close>

definition new_row :: "(string \<Rightarrow> string) \<Rightarrow> string \<Rightarrow> AgentEvent \<Rightarrow> event_log \<Rightarrow> index_row" where
  "new_row sha256 dir ev s =
     \<lparr>ix_event_id = ae_event_id ev, ix_session_id = ae_session_id ev, ix_turn_id = ae_turn_id ev,
      ix_task_id = dict_get (ae_payload ev) ''task_id'', ix_event_type = ae_event_type ev,
      ix_actor = ae_actor ev, ix_timestamp = ae_timestamp ev,
      ix_jsonl_path = path_for_session dir (ae_session_id ev),
      ix_jsonl_offset = Some (length (file_text s (path_for_session dir (ae_session_id ev)))),
      ix_payload_sha256 = Some (sha256 (serialised ev)),
      ix_prev_event_sha256 = get_last_event_sha256 s (ae_session_id ev),
      ix_risk_level = dict_get (ae_payload ev) ''risk_level'',
      ix_summary = dict_get (ae_payload ev) ''summary''\<rparr>"

lemma append_accepted:
  fixes dir :: string
  assumes "event_contract ev = None" "write_stops f = None" "\<not> index_fails f"
    and "storable ev (set (map ix_event_id (log_index s)))"
  defines "path \<equiv> path_for_session dir (ae_session_id ev)"
  shows "writer_append sha256 dir ev f s =
    (Inr (path, length (file_text s path)),
     (put_file path (file_text s path @ serialised ev @ [newline]) s)
       \<lparr>log_index := log_index s @ [new_row sha256 dir ev s], last_event_id := Some (ae_event_id ev)\<rparr>)"
  using assms(1-4) unfolding path_def
  by (simp add: writer_append_def index_event_def storable_def Let_def new_row_def del: set_map)

lemma append_rejected:
  fixes dir :: string
  assumes "event_contract ev = None" "write_stops f = None"
    and "index_fails f \<or> \<not> storable ev (set (map ix_event_id (log_index s)))"
  defines "path \<equiv> path_for_session dir (ae_session_id ev)"
  shows "writer_append sha256 dir ev f s =
    (Inl StoreError,
     put_file path (file_text s path @ (if undo_fails f then serialised ev @ [newline] else [])) s)"
proof -
  have "put_file path f (put_file path g s) = put_file path f s" for f g by (simp add: put_file_def)
  then show ?thesis using assms(1-3) unfolding path_def
    by (auto simp: writer_append_def index_event_def storable_def Let_def undo_append_def)
qed

lemma append_refused: "event_contract ev = Some msg \<Longrightarrow> writer_append sha256 dir ev f s = (Inl (ContractError msg), s)"
  by (simp add: writer_append_def)

lemma session_rows_index:
  "session_rows (s\<lparr>log_index := log_index u @ [r], last_event_id := x\<rparr>) sid =
     session_rows u sid @ (if ix_session_id r = sid then [r] else [])"
  "session_rows (put_file path f s) sid = session_rows s sid"
  by (simp_all add: session_rows_def)

lemma file_fields [simp]:
  "file_text (s\<lparr>log_index := ix, last_event_id := x\<rparr>) = file_text s"
  by (simp add: file_text_def fun_eq_iff)

lemma append_accepted_logged:
  assumes "session_logged sha256 dir (ae_session_id ev) ls s" and "event_line (serialised ev)"
    and acc: "event_contract ev = None" "write_stops f = None" "\<not> index_fails f"
      "storable ev (set (map ix_event_id (log_index s)))"
  shows "session_logged sha256 dir (ae_session_id ev) (ls @ [serialised ev]) (snd (writer_append sha256 dir ev f s))"
proof -
  have "row_layout (new_row sha256 dir ev s) =
      (path_for_session dir (ae_session_id ev), Some (length (text_of ls)), Some (sha256 (serialised ev)),
       if ls = [] then None else Some (sha256 (last ls)))"
    using assms(1) last_hash [OF assms(1)] by (simp add: row_layout_def new_row_def session_logged_def)
  moreover have "ix_session_id (new_row sha256 dir ev s) = ae_session_id ev" by (simp add: new_row_def)
  ultimately show ?thesis
    using assms(1,2) by (simp add: append_accepted [OF acc] session_logged_def session_rows_index layout_append)
qed

lemma append_other_session:
  assumes "sid \<noteq> ae_session_id ev"
  shows "log_files (snd (writer_append sha256 dir ev f s)) (path_for_session dir sid)
      = log_files s (path_for_session dir sid)"
    and "session_rows (snd (writer_append sha256 dir ev f s)) sid = session_rows s sid"
  using assms
  by (auto simp: writer_append_def Let_def index_event_def undo_append_def session_rows_def
        split: option.splits)

lemma session_logged_cong:
  "log_files s (path_for_session dir sid) = log_files t (path_for_session dir sid) \<Longrightarrow>
   session_rows s sid = session_rows t sid \<Longrightarrow>
   session_logged sha256 dir sid ls s \<longleftrightarrow> session_logged sha256 dir sid ls t"
  by (simp add: session_logged_def file_text_def)

lemma append_step_logged:
  assumes "session_logged sha256 dir sid ls s" and "files_work (ev, f)"
  shows "session_logged sha256 dir sid (fst (spec_append (ev, f) (\<lambda>_. ls, set (map ix_event_id (log_index s)))) sid)
    (append_step sha256 dir (ev, f) s)"
proof (cases "sid = ae_session_id ev")
  case False
  then show ?thesis
    using assms(1) session_logged_cong [OF append_other_session [OF False, of sha256 dir f s]] by simp
next
  case True
  consider (contract) msg where "event_contract ev = Some msg"
    | (rejected) "event_contract ev = None" "index_fails f \<or> \<not> storable ev (set (map ix_event_id (log_index s)))"
    | (accepted) "event_contract ev = None" "\<not> index_fails f" "storable ev (set (map ix_event_id (log_index s)))"
    by (cases "event_contract ev") auto
  then show ?thesis
  proof cases
    case contract
    then show ?thesis using assms(1) by (simp add: append_refused)
  next
    case rejected
    have "session_logged sha256 dir sid ls (snd (writer_append sha256 dir ev f s))"
      using assms rejected True
      by (subst append_rejected) (simp_all add: session_logged_def session_rows_index)
    then show ?thesis using rejected by auto
  next
    case accepted
    then show ?thesis using append_accepted_logged [of sha256 dir ev ls s f] assms True
      by (simp add: serialised_event_line)
  qed
qed

lemma append_step_ids:
  assumes "files_work (ev, f)"
  shows "set (map ix_event_id (log_index (append_step sha256 dir (ev, f) s))) =
    snd (spec_append (ev, f) (m, set (map ix_event_id (log_index s))))"
proof (cases "event_contract ev")
  case None
  then show ?thesis
  proof (cases "\<not> index_fails f \<and> storable ev (set (map ix_event_id (log_index s)))")
    case True
    then show ?thesis using assms None
      by (simp add: append_accepted new_row_def)
  next
    case False
    then show ?thesis using assms None by (subst append_step.simps, subst append_rejected) auto
  qed
qed (simp add: append_refused)

interpretation log: refines "log_inv sha256 dir" "log_abs dir" files_work "append_step sha256 dir" spec_append
  for sha256 dir
proof
  fix s and opr :: log_op
  assume inv: "log_inv sha256 dir s" and ok: "files_work opr"
  obtain ev f where opr: "opr = (ev, f)" by fastforce
  have ok': "files_work (ev, f)" using ok opr by simp
  note keep = append_step_logged [OF _ ok', of sha256 dir]
  show "log_inv sha256 dir (append_step sha256 dir opr s)"
    using inv keep unfolding log_inv_def opr by meson
  show "log_abs dir (append_step sha256 dir opr s) = spec_append opr (log_abs dir s)"
  proof (rule prod_eqI)
    show "snd (log_abs dir (append_step sha256 dir opr s)) = snd (spec_append opr (log_abs dir s))"
      unfolding opr log_abs_def snd_conv by (rule append_step_ids [OF ok'])
    show "fst (log_abs dir (append_step sha256 dir opr s)) = fst (spec_append opr (log_abs dir s))"
    proof
      fix sid
      obtain ls where ls: "session_logged sha256 dir sid ls s" using inv unfolding log_inv_def by blast
      show "fst (log_abs dir (append_step sha256 dir opr s)) sid = fst (spec_append opr (log_abs dir s)) sid"
        using log_lines_logged [OF keep [OF ls]] log_lines_logged [OF ls]
        by (auto simp: log_abs_def opr)
    qed
  qed
qed

lemma empty_log_inv: "log_inv sha256 dir empty_log"
  unfolding log_inv_def session_logged_def
  by (auto intro!: exI [of _ "[]"] simp: empty_log_def file_text_def session_rows_def)

end
