(* ===== verification/Event_Integrity.thy ===== *)
theory Event_Integrity
  imports Event_Log
begin

text \<open>
  What \<^verbatim>\<open>verify_session_events\<close> finds out about a session's log: logs the writer produced verify, a line
  the index never learnt of is reported from then on, rows cannot be dropped from the index
  unnoticed, and what is and is not noticed of a rewritten file.
\<close>

subsection \<open>What verification computes on a log\<close>

fun starts :: "nat \<Rightarrow> string list \<Rightarrow> nat list" where
  "starts off [] = []"
| "starts off (l # ls) = off # starts (off + Suc (length l)) ls"

text \<open>The rows say what the writer wrote; the files may say anything.\<close>

definition rows_of :: "(string \<Rightarrow> string) \<Rightarrow> string \<Rightarrow> string \<Rightarrow> string list \<Rightarrow> event_log \<Rightarrow> bool" where
  "rows_of sha256 dir sid ls s \<longleftrightarrow>
     map row_layout (session_rows s sid) = layout sha256 (path_for_session dir sid) 0 None ls
     \<and> list_session_events_for_integrity s sid = session_rows s sid"

definition hash_check :: "(string \<Rightarrow> string) \<Rightarrow> string option \<Rightarrow> string \<Rightarrow> bool option" where
  "hash_check sha256 found l =
     (case found of None \<Rightarrow> None | Some x \<Rightarrow> if x = [] then None else Some (sha256 x = sha256 l))"

lemma logged_rows: "session_logged sha256 dir sid ls s \<Longrightarrow> rows_of sha256 dir sid ls s"
  by (simp add: rows_of_def integrity_rows) (simp add: session_logged_def)

lemma rows_of_put_file: "rows_of sha256 dir sid ls (put_file path f s) \<longleftrightarrow> rows_of sha256 dir sid ls s"
  by (simp add: rows_of_def session_rows_index(2) list_session_events_for_integrity_def)

lemma check_events_layout:
  assumes "map row_layout rows = layout sha256 path off prev ls" and "path \<noteq> []" and "i = 0 \<longleftrightarrow> prev = None"
  shows "list_all (\<lambda>c. \<not> ck_chain_gap c) (check_events sha256 s i prev rows)"
    and "map ck_hash_matches (check_events sha256 s i prev rows) =
      map2 (\<lambda>o1 l. hash_check sha256 (read_event_line s path o1) l) (starts off ls) ls"
  using assms
proof (induction ls arbitrary: rows off prev i)
  case (Cons l ls)
  {
    case 1
    then show ?case using Cons.IH(1) [of "tl rows" _ "Some (sha256 l)" "Suc i"]
      by (cases rows) (auto simp: row_layout_def check_event_def stored_text_def Let_def)
  next
    case 2
    then show ?case using Cons.IH(2) [of "tl rows" _ "Some (sha256 l)" "Suc i"]
      by (cases rows) (auto simp: row_layout_def check_event_def stored_text_def Let_def hash_check_def
            split: option.splits)
  }
qed simp_all

lemma layout_columns:
  assumes "map row_layout rows = layout sha256 path off prev ls"
  shows "map ix_jsonl_path rows = replicate (length ls) path" "map ix_jsonl_offset rows = map Some (starts off ls)"
  using assms
proof (induction ls arbitrary: rows off prev)
  case (Cons l ls)
  {
    case 1
    then show ?case using Cons.IH(1) by (cases rows) (auto simp: row_layout_def)
  next
    case 2
    then show ?case using Cons.IH(2) by (cases rows) (auto simp: row_layout_def)
  }
qed simp_all

lemma remdups_replicate: "remdups (replicate (Suc n) x) = [x]"
  by (induction n) auto

lemma map_filter_Some: "map f rows = map Some xs \<Longrightarrow> List.map_filter f rows = xs"
  by (induction rows arbitrary: xs) (auto simp: map_filter_simps Cons_eq_map_conv)

lemma unindexed_layout:
  assumes "map row_layout rows = layout sha256 path 0 None ls" and "path \<noteq> []"
  shows "unindexed_lines s rows = [] \<longleftrightarrow>
    ls = [] \<or> (\<exists>f. log_files s path = Some f \<and> set (offsets_from 0 (byte_lines f)) \<subseteq> set (starts 0 ls))"
proof -
  note cols = layout_columns [OF assms(1)]
  have paths: "r \<in> set rows \<Longrightarrow> ix_jsonl_path r = path" for r
    using cols(1) by (metis imageI in_set_replicate list.set_map)
  have offs: "r \<in> set rows \<Longrightarrow> ix_jsonl_offset r \<noteq> None" for r
    using arg_cong [OF cols(2), of set] by (auto simp: image_iff)
  have "filter (\<lambda>r. ix_jsonl_path r \<noteq> [] \<and> ix_jsonl_offset r \<noteq> None) rows = rows"
    using paths offs assms(2) by (simp add: filter_id_conv)
  then have ip: "indexed_paths rows = (if ls = [] then [] else [path])"
    using cols(1) by (cases ls) (simp_all add: indexed_paths_def rev_map [symmetric] remdups_replicate del: replicate_Suc)
  have "filter (\<lambda>r. ix_jsonl_path r = path) rows = rows" using paths by (simp add: filter_id_conv)
  then have known: "known_offsets rows path = starts 0 ls"
    using map_filter_Some [OF cols(2)] by (simp add: known_offsets_def)
  show ?thesis
    by (cases "log_files s path") (auto simp: unindexed_lines_def ip known line_offsets_def filter_empty_conv)
qed

lemma all_pass: "length xs - length (filter P xs) = 0 \<longleftrightarrow> list_all P xs"
proof -
  have "length (filter P xs) \<le> length xs" "length (filter P xs) = length xs \<longleftrightarrow> list_all P xs"
    by (simp_all add: list_all_iff)
      (metis filter_True length_filter_less less_irrefl)
  then show ?thesis by linarith
qed

lemma verify_failed:
  "vf_failed (verify_session_events sha256 s sid) = 0 \<longleftrightarrow>
     list_all event_passed (vf_details (verify_session_events sha256 s sid))"
  by (simp add: verify_session_events_def Let_def all_pass del: diff_is_0_eq diff_is_0_eq')

lemma verify_rows:
  assumes "rows_of sha256 dir sid ls s"
  defines "path \<equiv> path_for_session dir sid" and "v \<equiv> verify_session_events sha256 s sid"
  shows "vf_total_events v = length ls"
    and "vf_failed v = 0 \<longleftrightarrow>
      (\<forall>(o1, l) \<in> set (zip (starts 0 ls) ls). hash_check sha256 (read_event_line s path o1) l \<noteq> Some False)"
    and "vf_chain_intact v \<longleftrightarrow> vf_unindexed_lines v = []"
    and "vf_unindexed_lines v = [] \<longleftrightarrow>
      ls = [] \<or> (\<exists>f. log_files s path = Some f \<and> set (offsets_from 0 (byte_lines f)) \<subseteq> set (starts 0 ls))"
proof -
  let ?rows = "session_rows s sid"
  have rows: "map row_layout ?rows = layout sha256 path 0 None ls"
    "list_session_events_for_integrity s sid = ?rows"
    using assms(1) by (simp_all add: rows_of_def path_def)
  note checks = check_events_layout [OF rows(1), of 0 s]
  have p: "path \<noteq> []" by (simp add: path_def)
  have details: "vf_details v = check_events sha256 s 0 None ?rows"
    by (simp add: v_def verify_session_events_def Let_def rows(2))
  have "map ck_hash_matches (vf_details v) =
      map2 (\<lambda>o1 l. hash_check sha256 (read_event_line s path o1) l) (starts 0 ls) ls"
    using checks(2) p by (simp add: details)
  then have "ck_hash_matches ` set (vf_details v) =
      (\<lambda>(o1, l). hash_check sha256 (read_event_line s path o1) l) ` set (zip (starts 0 ls) ls)"
    by (metis list.set_map)
  then have "Some False \<in> ck_hash_matches ` set (vf_details v) \<longleftrightarrow>
      Some False \<in> (\<lambda>(o1, l). hash_check sha256 (read_event_line s path o1) l) ` set (zip (starts 0 ls) ls)"
    by simp
  then have hashes: "(\<forall>c \<in> set (vf_details v). ck_hash_matches c \<noteq> Some False) \<longleftrightarrow>
      (\<forall>(o1, l) \<in> set (zip (starts 0 ls) ls). hash_check sha256 (read_event_line s path o1) l \<noteq> Some False)"
    by force
  have len: "length (check_events sha256 s i h rs) = length rs" for i h rs
    by (induction rs arbitrary: i h) auto
  show "vf_total_events v = length ls"
    using arg_cong [OF rows(1), of length] by (simp add: v_def verify_session_events_def Let_def rows(2) len)
  show "vf_failed v = 0 \<longleftrightarrow>
      (\<forall>(o1, l) \<in> set (zip (starts 0 ls) ls). hash_check sha256 (read_event_line s path o1) l \<noteq> Some False)"
    using checks(1) p unfolding hashes [symmetric] v_def verify_failed
    by (auto simp: v_def [symmetric] details list_all_iff event_passed_def)
  show "vf_chain_intact v \<longleftrightarrow> vf_unindexed_lines v = []"
    using checks(1) p by (simp add: v_def verify_session_events_def Let_def rows(2))
  show "vf_unindexed_lines v = [] \<longleftrightarrow>
      ls = [] \<or> (\<exists>f. log_files s path = Some f \<and> set (offsets_from 0 (byte_lines f)) \<subseteq> set (starts 0 ls))"
    using unindexed_layout [OF rows(1) p] by (simp add: v_def verify_session_events_def Let_def rows(2))
qed

lemma event_line_not_blank: "event_line l \<Longrightarrow> \<not> blank_bytes (l @ cs)"
  by (cases l) (auto simp: event_line_def blank_bytes_def)

lemma offsets_lines: "list_all event_line ls \<Longrightarrow> offsets_from off (map (\<lambda>l. l @ [newline]) ls) = starts off ls"
  by (induction ls arbitrary: off) (auto simp: event_line_not_blank)

lemma starts_append: "starts off (xs @ ys) = starts off xs @ starts (off + length (text_of xs)) ys"
  by (induction xs arbitrary: off) (auto simp: add.assoc)

lemma length_starts [simp]: "length (starts off ls) = length ls"
  by (induction ls arbitrary: off) auto

lemma starts_ge: "o1 \<in> set (starts off ls) \<Longrightarrow> off \<le> o1"
  by (induction ls arbitrary: off) (auto dest: Suc_leD, force)

lemma drop_start:
  "(o1, l) \<in> set (zip (starts off ls) ls) \<Longrightarrow> \<exists>rest. drop (o1 - off) (text_of ls) = l @ newline # rest"
proof (induction ls arbitrary: off)
  case (Cons k ls)
  show ?case
  proof (cases "(o1, l) = (off, k)")
    case False
    then have z: "(o1, l) \<in> set (zip (starts (off + Suc (length k)) ls) ls)" using Cons.prems by auto
    have "off + Suc (length k) \<le> o1" using z by (auto dest: set_zip_leftD starts_ge)
    then obtain d where "o1 = off + Suc (length k) + d" by (auto simp: le_iff_add)
    then show ?thesis using Cons.IH [OF z] by simp
  qed simp
qed simp

lemma read_start:
  assumes "list_all event_line ls" and "(o1, l) \<in> set (zip (starts 0 ls) ls)"
    and "log_files s path = Some (text_of ls)"
  shows "read_event_line s path o1 = Some l"
proof -
  obtain rest where d: "drop o1 (text_of ls) = l @ newline # rest" using drop_start [OF assms(2)] by auto
  then have "o1 < length (text_of ls)" by (metis drop_all leI append_is_Nil_conv list.distinct(1))
  moreover have "event_line l" using assms(1,2) by (auto simp: list_all_iff dest: set_zip_rightD)
  then have "takeWhile (\<lambda>c. c \<noteq> newline \<and> c \<noteq> CHR 0x0D) (l @ newline # rest) = l"
    by (auto simp: event_line_def takeWhile_append1 takeWhile_eq_all_conv)
      (subst takeWhile_append2, auto)
  ultimately show ?thesis by (simp add: read_event_line_def assms(3) d)
qed

text \<open>A file cut off after any of its lines.\<close>

lemma read_cut:
  assumes "list_all event_line ls" and "(o1, l) \<in> set (zip (starts 0 ls) ls)"
    and "log_files s path = Some (text_of (take k ls))"
  shows "read_event_line s path o1 \<in> {None, Some l}"
proof -
  have "zip (starts 0 (take k ls @ drop k ls)) (take k ls @ drop k ls) =
      zip (starts 0 (take k ls)) (take k ls) @ zip (starts (length (text_of (take k ls))) (drop k ls)) (drop k ls)"
    unfolding starts_append by (subst zip_append) simp_all
  then have "(o1, l) \<in> set (zip (starts 0 (take k ls)) (take k ls)) \<or>
      (o1, l) \<in> set (zip (starts (length (text_of (take k ls))) (drop k ls)) (drop k ls))"
    using assms(2) by (metis append_take_drop_id Un_iff set_append)
  then consider (kept) "(o1, l) \<in> set (zip (starts 0 (take k ls)) (take k ls))"
    | (cut) "o1 \<in> set (starts (length (text_of (take k ls))) (drop k ls))"
    by (auto dest: set_zip_leftD)
  then show ?thesis
  proof cases
    case kept
    then show ?thesis using read_start [OF _ kept assms(3)] assms(1)
      by (auto simp: list_all_iff dest: in_set_takeD)
  next
    case cut
    then show ?thesis using assms(3) by (auto simp: read_event_line_def dest: starts_ge)
  qed
qed

lemma cut_log_passes:
  assumes "session_logged sha256 dir sid ls s"
    and "log_files u (path_for_session dir sid) = Some (text_of (take k ls))"
    and "rows_of sha256 dir sid ls u"
  shows "vf_failed (verify_session_events sha256 u sid) = 0"
    and "vf_chain_intact (verify_session_events sha256 u sid)"
    and "vf_unindexed_lines (verify_session_events sha256 u sid) = []"
proof -
  have lines: "list_all event_line ls" "list_all event_line (take k ls)"
    using assms(1) by (auto simp: session_logged_def list_all_iff dest: in_set_takeD)
  have "hash_check sha256 (read_event_line u (path_for_session dir sid) o1) l \<noteq> Some False"
    if "(o1, l) \<in> set (zip (starts 0 ls) ls)" for o1 l
    using read_cut [OF lines(1) that assms(2)] by (auto simp: hash_check_def split: if_splits)
  then show "vf_failed (verify_session_events sha256 u sid) = 0"
    using verify_rows(2) [OF assms(3)] by fast
  have "offsets_from 0 (byte_lines (text_of (take k ls))) = starts 0 (take k ls)"
    using byte_lines_text [OF lines(2), of "[]"] offsets_lines [OF lines(2), of 0] by simp
  moreover have "starts 0 ls = starts 0 (take k ls) @ starts (0 + length (text_of (take k ls))) (drop k ls)"
    by (metis append_take_drop_id starts_append)
  then have "set (starts 0 (take k ls)) \<subseteq> set (starts 0 ls)" by (metis set_append sup_ge1)
  ultimately show "vf_unindexed_lines (verify_session_events sha256 u sid) = []"
    unfolding verify_rows(4) [OF assms(3)] using assms(2) by metis
  then show "vf_chain_intact (verify_session_events sha256 u sid)"
    using verify_rows(3) [OF assms(3)] by simp
qed

lemma logged_verifies:
  assumes "session_logged sha256 dir sid ls s"
  shows "vf_failed (verify_session_events sha256 s sid) = 0"
    and "vf_chain_intact (verify_session_events sha256 s sid)"
    and "vf_total_events (verify_session_events sha256 s sid) = length ls"
proof -
  note rows = logged_rows [OF assms]
  show "vf_total_events (verify_session_events sha256 s sid) = length ls" by (rule verify_rows(1) [OF rows])
  have "vf_failed (verify_session_events sha256 s sid) = 0 \<and> vf_chain_intact (verify_session_events sha256 s sid)"
  proof (cases "ls = []")
    case True
    then show ?thesis using verify_rows(2-4) [OF rows] by auto
  next
    case False
    then have "log_files s (path_for_session dir sid) = Some (text_of (take (length ls) ls))"
      using assms by (auto simp: session_logged_def file_text_def split: option.splits)
    then show ?thesis using cut_log_passes [OF assms _ rows] by blast
  qed
  then show "vf_failed (verify_session_events sha256 s sid) = 0"
    and "vf_chain_intact (verify_session_events sha256 s sid)" by simp_all
qed

subsection \<open>Lines the index does not know\<close>

definition orphan_at :: "string \<Rightarrow> string \<Rightarrow> nat \<Rightarrow> event_log \<Rightarrow> bool" where
  "orphan_at dir sid o1 s \<longleftrightarrow>
     (\<exists>f. log_files s (path_for_session dir sid) = Some f \<and> o1 \<in> set (offsets_from 0 (byte_lines f)))
     \<and> (\<forall>r \<in> set (session_rows s sid). ix_jsonl_path r = path_for_session dir sid \<longrightarrow> ix_jsonl_offset r \<noteq> Some o1)
     \<and> (\<exists>r \<in> set (session_rows s sid). ix_jsonl_path r = path_for_session dir sid \<and> ix_jsonl_offset r \<noteq> None)"

lemma ne_set: "x \<in> set xs \<Longrightarrow> xs \<noteq> []"
  by auto

lemma orphan_reported:
  assumes "orphan_at dir sid o1 s"
  shows "\<not> vf_chain_intact (verify_session_events sha256 s sid)"
proof -
  let ?rows = "list_session_events_for_integrity s sid" and ?path = "path_for_session dir sid"
  have rows: "set ?rows = set (session_rows s sid)"
    by (simp add: list_session_events_for_integrity_def session_rows_def)
  obtain f where f: "log_files s ?path = Some f" "o1 \<in> set (offsets_from 0 (byte_lines f))"
    using assms unfolding orphan_at_def by blast
  obtain r where r: "r \<in> set ?rows" "ix_jsonl_path r = ?path" "ix_jsonl_offset r \<noteq> None"
    using assms rows unfolding orphan_at_def by blast
  then have "?path \<in> ix_jsonl_path ` {r \<in> set ?rows. ix_jsonl_path r \<noteq> [] \<and> ix_jsonl_offset r \<noteq> None}"
    by (intro image_eqI [of _ _ r]) simp_all
  then have "?path \<in> set (indexed_paths ?rows)" by (simp add: indexed_paths_def)
  moreover have "o1 \<notin> set (known_offsets ?rows ?path)"
  proof
    assume "o1 \<in> set (known_offsets ?rows ?path)"
    then obtain q where "q \<in> set ?rows" "ix_jsonl_path q = ?path" "ix_jsonl_offset q = Some o1"
      unfolding known_offsets_def List.map_filter_def by auto
    then show False using assms rows unfolding orphan_at_def by blast
  qed
  then have "\<lparr>or_jsonl_path = ?path, or_jsonl_offset = Some o1, or_error = ''unindexed_line''\<rparr> \<in>
      set (case line_offsets s ?path of
         None \<Rightarrow> [\<lparr>or_jsonl_path = ?path, or_jsonl_offset = None, or_error = ''cannot_read_jsonl''\<rparr>]
       | Some present \<Rightarrow>
           map (\<lambda>offset. \<lparr>or_jsonl_path = ?path, or_jsonl_offset = Some offset, or_error = ''unindexed_line''\<rparr>)
             (filter (\<lambda>offset. offset \<notin> set (known_offsets ?rows ?path)) present))"
    using f by (simp add: line_offsets_def)
  ultimately have "\<lparr>or_jsonl_path = ?path, or_jsonl_offset = Some o1, or_error = ''unindexed_line''\<rparr> \<in>
      set (unindexed_lines s ?rows)"
    unfolding unindexed_lines_def set_concat list.set_map image_image by (rule UN_I)
  then have "unindexed_lines s ?rows \<noteq> []" by (rule ne_set)
  then show ?thesis by (simp add: verify_session_events_def Let_def)
qed

text \<open>Appending to a file only adds line starts.\<close>

lemma byte_lines_extend:
  "f \<noteq> [] \<Longrightarrow> \<exists>x zs. byte_lines (f @ g) = butlast (byte_lines f) @ (last (byte_lines f) @ x) # zs
     \<and> byte_lines f \<noteq> []"
proof (induction f)
  case (Cons c f)
  show ?case
  proof (cases "f = []")
    case True
    then show ?thesis by (cases "byte_lines g") auto
  next
    case False
    then show ?thesis using Cons.IH by (cases "byte_lines f") (auto split: list.splits)
  qed
qed simp

lemma offsets_from_append:
  "offsets_from p (xs @ ys) = offsets_from p xs @ offsets_from (p + length (concat xs)) ys"
  by (induction xs arbitrary: p) (auto simp: add.assoc)

lemma offsets_extend: "set (offsets_from 0 (byte_lines f)) \<subseteq> set (offsets_from 0 (byte_lines (f @ g)))"
proof (cases "f = []")
  case False
  obtain x zs where x: "byte_lines (f @ g) = butlast (byte_lines f) @ (last (byte_lines f) @ x) # zs"
    "byte_lines f \<noteq> []" using byte_lines_extend [OF False] by blast
  then have "byte_lines f = butlast (byte_lines f) @ [last (byte_lines f)]" by simp
  then have "offsets_from 0 (byte_lines f) = offsets_from 0 (butlast (byte_lines f) @ [last (byte_lines f)])"
    by simp
  then show ?thesis unfolding x(1) by (auto simp: offsets_from_append blank_bytes_def)
qed simp

lemma offsets_from_less: "o1 \<in> set (offsets_from p ls) \<Longrightarrow> list_all (\<lambda>l. l \<noteq> []) ls \<Longrightarrow> o1 < p + length (concat ls)"
  by (induction ls arbitrary: p) (fastforce split: if_splits)+

lemma concat_byte_lines [simp]: "concat (byte_lines f) = f"
  by (induction f) (auto split: list.splits)

lemma byte_lines_nonempty: "list_all (\<lambda>l. l \<noteq> []) (byte_lines f)"
  by (induction f) (auto split: list.splits)

text \<open>Every append, whatever fails, extends the file and only indexes the end of it.\<close>

lemma append_extends:
  "\<exists>g. file_text (append_step sha256 dir opr s) path = file_text s path @ g"
  "log_files s path \<noteq> None \<Longrightarrow> log_files (append_step sha256 dir opr s) path \<noteq> None"
  "\<exists>rs. session_rows (append_step sha256 dir opr s) sid = session_rows s sid @ rs \<and>
     (\<forall>r \<in> set rs. ix_jsonl_offset r = Some (length (file_text s (ix_jsonl_path r))))"
  by (cases opr; auto simp: writer_append_def Let_def index_event_def undo_append_def session_rows_def
        split: option.splits)+

lemma file_text_Some: "log_files s path = Some f \<Longrightarrow> file_text s path = f"
  by (simp add: file_text_def)

lemma orphan_step:
  assumes "orphan_at dir sid o1 s"
  shows "orphan_at dir sid o1 (append_step sha256 dir opr s)"
proof -
  let ?path = "path_for_session dir sid" and ?t = "append_step sha256 dir opr s"
  obtain f where f: "log_files s ?path = Some f" "o1 \<in> set (offsets_from 0 (byte_lines f))"
    using assms unfolding orphan_at_def by blast
  obtain g where g: "file_text ?t ?path = f @ g"
    using append_extends(1) [of sha256 dir opr s ?path] file_text_Some [OF f(1)] by auto
  have "log_files ?t ?path = Some (f @ g)"
    using append_extends(2) [of s ?path sha256 dir opr] f(1) g by (auto simp: file_text_def)
  moreover have "o1 < length f" using offsets_from_less [OF f(2) byte_lines_nonempty] by simp
  moreover obtain rs where "session_rows ?t sid = session_rows s sid @ rs"
      "\<forall>r \<in> set rs. ix_jsonl_offset r = Some (length (file_text s (ix_jsonl_path r)))"
    using append_extends(3) by blast
  ultimately show ?thesis
    using assms f offsets_extend [of f g] file_text_Some [OF f(1)] unfolding orphan_at_def by auto
qed

inductive log_step :: "(string \<Rightarrow> string) \<Rightarrow> string \<Rightarrow> event_log \<Rightarrow> event_log \<Rightarrow> bool"
  for sha256 dir where
  log_step: "log_step sha256 dir s (append_step sha256 dir opr s)"

interpretation orphaned: step_invariant "log_step sha256 dir" "orphan_at dir sid o1"
  for sha256 dir sid o1
  by unfold_locales (erule log_step.cases, simp only: orphan_step)

lemma run_append_steps: "(log_step sha256 dir)\<^sup>*\<^sup>* s (fold (append_step sha256 dir) ops s)"
proof (induction ops arbitrary: s)
  case (Cons opr ops)
  then have "(log_step sha256 dir)\<^sup>*\<^sup>* (append_step sha256 dir opr s) (fold (append_step sha256 dir) (opr # ops) s)"
    by simp
  with log_step [of sha256 dir s opr] show ?case by (rule converse_rtranclp_into_rtranclp)
qed simp

lemma orphan_run: "orphan_at dir sid o1 s \<Longrightarrow> orphan_at dir sid o1 (fold (append_step sha256 dir) ops s)"
  by (rule orphaned.keep_star [OF run_append_steps])

lemma logged_row_fields:
  assumes "session_logged sha256 dir sid ls s" and "r \<in> set (session_rows s sid)"
  shows "ix_jsonl_path r = path_for_session dir sid" "ix_jsonl_offset r \<noteq> None"
    "ix_jsonl_offset r \<noteq> Some (length (text_of ls))"
proof -
  have "row_layout r \<in> set (layout sha256 (path_for_session dir sid) 0 None ls)"
    using assms unfolding session_logged_def by (metis imageI list.set_map)
  from layout_offsets [OF this] show "ix_jsonl_path r = path_for_session dir sid"
    "ix_jsonl_offset r \<noteq> None" "ix_jsonl_offset r \<noteq> Some (length (text_of ls))"
    by (auto simp: row_layout_def)
qed

lemma orphan_left:
  assumes "session_logged sha256 dir sid ls s" and "ls \<noteq> []"
    and "log_files t (path_for_session dir sid) = Some (text_of ls @ c # g)" and "session_rows t = session_rows s"
    and "\<And>d. \<not> blank_bytes (c # d)"
  shows "orphan_at dir sid (length (text_of ls)) t"
proof -
  have logged: "list_all event_line ls"
    "map row_layout (session_rows s sid) = layout sha256 (path_for_session dir sid) 0 None ls"
    using assms(1) by (simp_all add: session_logged_def)
  obtain l zs where "byte_lines (c # g) = (c # l) # zs"
    by (cases "c = newline"; cases "byte_lines g") auto
  then have "length (text_of ls) \<in> set (offsets_from 0 (byte_lines (text_of ls @ c # g)))"
    using assms(5) byte_lines_text [OF logged(1), of "c # g"]
    by (simp add: offsets_from_append text_of_def del: byte_lines.simps)
  moreover have "session_rows s sid \<noteq> []"
    using logged(2) assms(2) by (metis Nil_is_map_conv length_0_conv length_layout)
  ultimately show ?thesis
    using logged_row_fields [OF assms(1)] unfolding orphan_at_def assms(3,4) by (metis last_in_set)
qed

lemma distinct_starts: "distinct (starts off ls)"
  by (induction ls arbitrary: off) (auto dest: starts_ge)

subsection \<open>Properties\<close>

definition sample_event :: "string \<Rightarrow> AgentEvent" where
  "sample_event eid =
     \<lparr>ae_event_id = eid, ae_timestamp = ''2026-01-01T00:00:00Z'', ae_session_id = ''s1'', ae_turn_id = None,
      ae_event_type = ''policy_decision'', ae_actor = ''runtime_authority'',
      ae_payload = [(''decision'', PStr ''allow'')], ae_parent_event_id = None, ae_schema_version = ''1.0''\<rparr>"

definition no_faults :: io_faults where
  "no_faults = \<lparr>write_stops = None, index_fails = False, undo_fails = False\<rparr>"

definition sample_ops :: "log_op list" where
  "sample_ops = [(sample_event ''e1'', no_faults), (sample_event ''e2'', no_faults)]"

lemma sample_files_work: "list_all files_work sample_ops"
  by (simp add: sample_ops_def sample_event_def no_faults_def)

lemma sample_contract: "event_contract (sample_event ''e1'') = None" "event_contract (sample_event ''e2'') = None"
  "event_contract (sample_event ''e3'') = None"
  by code_simp+

definition sample_log :: event_log where
  "sample_log = fold (append_step (\<lambda>x. x) ''/logs'') sample_ops empty_log"

lemma sample_storable: "storable (sample_event e) ids \<longleftrightarrow> e \<notin> ids"
  by (simp add: storable_def sample_event_def dict_get_def)

lemma sample_logged:
  "session_logged (\<lambda>x. x) ''/logs'' ''s1'' [serialised (sample_event ''e1''), serialised (sample_event ''e2'')] sample_log"
proof -
  let ?m = "(\<lambda>_. [], {}) :: log_spec"
  have inv: "log_inv (\<lambda>x. x) ''/logs'' sample_log"
    unfolding sample_log_def by (rule log.inv_run [OF empty_log_inv sample_files_work])
  then obtain ls where ls: "session_logged (\<lambda>x. x) ''/logs'' ''s1'' ls sample_log" unfolding log_inv_def by blast
  have abs0: "log_abs ''/logs'' empty_log = ?m"
    by (simp add: log_abs_def log_lines_def empty_log_def file_text_def fun_eq_iff)
  have "log_abs ''/logs'' sample_log = fold spec_append sample_ops ?m"
    unfolding sample_log_def abs0 [symmetric] by (rule log.abs_run [OF empty_log_inv sample_files_work])
  then have "log_lines ''/logs'' sample_log ''s1'' = fst (fold spec_append sample_ops ?m) ''s1''"
    by (simp add: log_abs_def split: prod.splits) (metis fst_conv)
  also have "\<dots> = [serialised (sample_event ''e1''), serialised (sample_event ''e2'')]"
    by (simp add: sample_ops_def sample_contract sample_storable no_faults_def)
      (simp add: sample_event_def)
  finally show ?thesis using ls log_lines_logged [OF ls] by simp
qed

text \<open>
  C22: The writer implements an append-only list per session. For every sequence of appends whose file
  operations work (an index write may still fail, and an event may be refused), the lines of every
  session's file and the indexed ids are exactly those of the abstract log, in which an append adds its
  serialised event at the end of its session or changes nothing.
\<close>

theorem event_log_refines_append_only:
  assumes "list_all files_work ops"
  shows "log_abs dir (fold (append_step sha256 dir) ops empty_log) = fold spec_append ops (\<lambda>_. [], {})"
proof -
  have "log_abs dir empty_log = (\<lambda>_. [], {})"
    by (simp add: log_abs_def log_lines_def empty_log_def file_text_def fun_eq_iff)
  then show ?thesis using log.abs_run [OF empty_log_inv assms] by metis
qed

theorem event_log_refines_append_only_witness:
  "list_all files_work sample_ops \<and>
   log_abs ''/logs'' (fold (append_step (\<lambda>x. x) ''/logs'') sample_ops empty_log) = fold spec_append sample_ops (\<lambda>_. [], {})"
  using event_log_refines_append_only [OF sample_files_work] sample_files_work by blast

text \<open>
  C23: A log the writer produced verifies. After any sequence of appends whose file operations work, and
  whatever the index did, every session verifies: no event fails, the chain is intact, no line is
  unindexed, and every line of the file is counted.
\<close>

theorem written_log_verifies:
  fixes dir :: string and sha256 :: "string \<Rightarrow> string"
  assumes "list_all files_work ops"
  defines "s \<equiv> fold (append_step sha256 dir) ops empty_log"
  shows "vf_failed (verify_session_events sha256 s sid) = 0
    \<and> vf_chain_intact (verify_session_events sha256 s sid)
    \<and> vf_unindexed_lines (verify_session_events sha256 s sid) = []
    \<and> vf_total_events (verify_session_events sha256 s sid) = length (log_lines dir s sid)"
proof -
  have "log_inv sha256 dir s" unfolding s_def by (rule log.inv_run [OF empty_log_inv assms(1)])
  then obtain ls where ls: "session_logged sha256 dir sid ls s" unfolding log_inv_def by blast
  then show ?thesis
    using logged_verifies [OF ls] verify_rows(3) [OF logged_rows [OF ls]] log_lines_logged [OF ls] by simp
qed

theorem written_log_verifies_witness:
  "vf_failed (verify_session_events (\<lambda>x. x) sample_log ''s1'') = 0
   \<and> vf_chain_intact (verify_session_events (\<lambda>x. x) sample_log ''s1'')"
  using written_log_verifies [OF sample_files_work, of "\<lambda>x. x" "''/logs''" "''s1''"]
  unfolding sample_log_def by blast

text \<open>
  A line the index never learnt of is reported, and stays reported. If an append to a session with
  indexed events leaves bytes behind (the write stops after its first byte, or the index write fails and
  the truncation fails too), then after any further appends, whatever fails in them, the chain of that
  session is not intact.
\<close>

theorem unindexed_line_stays_reported:
  assumes "session_logged sha256 dir (ae_session_id ev) ls s" and "ls \<noteq> []"
    and "event_contract ev = None" and "floats_ok (PDict (ae_payload ev))"
    and left: "(\<exists>n. write_stops f = Some (Suc n)) \<or>
      (write_stops f = None \<and> undo_fails f \<and>
       (index_fails f \<or> \<not> storable ev (set (map ix_event_id (log_index s)))))"
  shows "\<not> vf_chain_intact (verify_session_events sha256
    (fold (append_step sha256 dir) ops (append_step sha256 dir (ev, f) s)) (ae_session_id ev))"
proof (rule orphan_reported [OF orphan_run])
  let ?path = "path_for_session dir (ae_session_id ev)" and ?t = "append_step sha256 dir (ev, f) s"
  have line: "event_line (serialised ev)" by (rule serialised_event_line [OF assms(4)])
  have content: "file_text s ?path = text_of ls" using assms(1) by (simp add: session_logged_def)
  obtain c cs where c: "serialised ev = c # cs" "\<not> blank_bytes (c # d)" for d
    using line event_line_not_blank [OF line] by (cases "serialised ev") (auto simp: event_line_def blank_bytes_def)
  obtain g where "log_files ?t ?path = Some (text_of ls @ c # g)" "session_rows ?t = session_rows s"
    using left
  proof (elim disjE exE)
    fix n assume "write_stops f = Some (Suc n)"
    then show thesis using that [of "take n (cs @ [newline])"] assms(3) content c(1)
      by (simp add: writer_append_def Let_def session_rows_def fun_eq_iff)
  qed (use that [of "cs @ [newline]"] assms(3) content c(1) in
        \<open>simp add: append_rejected session_rows_def fun_eq_iff\<close>)
  then show "orphan_at dir (ae_session_id ev) (length (text_of ls)) ?t"
    using orphan_left [OF assms(1,2) _ _ c(2)] by simp
qed

definition broken_undo :: io_faults where
  "broken_undo = \<lparr>write_stops = None, index_fails = True, undo_fails = True\<rparr>"

theorem unindexed_line_stays_reported_witness:
  "\<not> vf_chain_intact (verify_session_events (\<lambda>x. x)
     (append_step (\<lambda>x. x) ''/logs'' (sample_event ''e3'', no_faults)
       (append_step (\<lambda>x. x) ''/logs'' (sample_event ''e3'', broken_undo) sample_log)) ''s1'')"
proof -
  have "ae_session_id (sample_event ''e3'') = ''s1''" "floats_ok (PDict (ae_payload (sample_event ''e3'')))"
    by (simp_all add: sample_event_def)
  moreover have "write_stops broken_undo = None" "undo_fails broken_undo" "index_fails broken_undo"
    by (simp_all add: broken_undo_def)
  ultimately show ?thesis
    using unindexed_line_stays_reported [of "\<lambda>x. x" "''/logs''" "sample_event ''e3''" _ sample_log broken_undo
        "[(sample_event ''e3'', no_faults)]", OF _ _ sample_contract(3)] sample_logged by simp
qed

text \<open>
  Rows cannot be dropped from the index unnoticed. If rows of a session are removed from the index of
  a good log, and at least one row of the session stays, the chain of the session is not intact.
\<close>

theorem dropped_index_rows_reported:
  assumes "session_logged sha256 dir sid ls s"
    and "\<exists>r \<in> set (session_rows s sid). keep r" and "\<exists>r \<in> set (session_rows s sid). \<not> keep r"
  shows "\<not> vf_chain_intact (verify_session_events sha256 (s\<lparr>log_index := filter keep (log_index s)\<rparr>) sid)"
proof -
  let ?path = "path_for_session dir sid" and ?t = "s\<lparr>log_index := filter keep (log_index s)\<rparr>"
  have rows: "map row_layout (session_rows s sid) = layout sha256 ?path 0 None ls"
    using assms(1) by (simp add: session_logged_def)
  note cols = layout_columns [OF rows]
  obtain r where r: "r \<in> set (session_rows s sid)" "\<not> keep r" using assms(3) by blast
  have "ix_jsonl_offset r \<in> set (map Some (starts 0 ls))" using r(1) unfolding cols(2) [symmetric] by simp
  then obtain o1 where o1: "ix_jsonl_offset r = Some o1" "o1 \<in> set (starts 0 ls)" by auto
  have "ls \<noteq> []" using o1(2) by auto
  then have "log_files s ?path = Some (text_of ls)"
    using assms(1) by (auto simp: session_logged_def file_text_def split: option.splits)
  moreover have "o1 \<in> set (offsets_from 0 (byte_lines (text_of ls)))"
    using o1(2) assms(1) byte_lines_text [of ls "[]"] offsets_lines [of ls 0] by (simp add: session_logged_def)
  moreover have "session_rows ?t sid = filter keep (session_rows s sid)"
    by (simp add: session_rows_def conj_commute)
  moreover have "distinct (map ix_jsonl_offset (session_rows s sid))"
    unfolding cols(2) by (simp add: distinct_map distinct_starts)
  then have "inj_on ix_jsonl_offset (set (session_rows s sid))" by (simp add: distinct_map)
  then have "ix_jsonl_offset q \<noteq> Some o1" if "q \<in> set (session_rows s sid)" "keep q" for q
    using that r o1(1) by (metis inj_onD)
  ultimately have "orphan_at dir sid o1 ?t"
    using assms(2) logged_row_fields(1,2) [OF assms(1)] unfolding orphan_at_def by auto
  then show ?thesis by (rule orphan_reported)
qed

theorem dropped_index_rows_reported_witness:
  "\<not> vf_chain_intact (verify_session_events (\<lambda>x. x)
     (sample_log\<lparr>log_index := filter (\<lambda>r. ix_jsonl_offset r = Some 0) (log_index sample_log)\<rparr>) ''s1'')"
proof -
  have "map row_layout (session_rows sample_log ''s1'') = layout (\<lambda>x. x) (path_for_session ''/logs'' ''s1'') 0 None
      [serialised (sample_event ''e1''), serialised (sample_event ''e2'')]"
    using sample_logged by (simp add: session_logged_def)
  then obtain r q where "session_rows sample_log ''s1'' = [r, q]" "ix_jsonl_offset r = Some 0"
    "ix_jsonl_offset q \<noteq> Some 0"
    by (auto simp: row_layout_def map_eq_Cons_conv)
  then show ?thesis using dropped_index_rows_reported [OF sample_logged] by simp
qed

text \<open>
  What the verifier notices of a rewritten file. Replace the file of a good log by any content. If
  SHA-256 has no collisions, no event fails exactly when, at the offset of every event, the file holds
  the event's line unchanged or holds no text to read. A changed line is always counted.
\<close>

theorem rewritten_file_check:
  assumes "session_logged sha256 dir sid ls s" and "inj sha256"
  defines "path \<equiv> path_for_session dir sid"
  shows "vf_failed (verify_session_events sha256 (put_file path f s) sid) = 0 \<longleftrightarrow>
    list_all (\<lambda>(offset, l). read_event_line (put_file path f s) path offset \<in> {None, Some [], Some l})
      (zip (starts 0 ls) ls)"
proof -
  have rows: "rows_of sha256 dir sid ls (put_file path f s)"
    using logged_rows [OF assms(1)] by (simp add: rows_of_put_file)
  have hash: "hash_check sha256 x l \<noteq> Some False \<longleftrightarrow> x \<in> {None, Some [], Some l}" if "l \<noteq> []" for x l
    using that assms(2) by (cases x) (simp_all add: hash_check_def inj_eq)
  have "list_all event_line ls" using assms(1) by (simp add: session_logged_def)
  then have ne: "l \<noteq> []" if "(o1, l) \<in> set (zip (starts 0 ls) ls)" for o1 l
    using set_zip_rightD [OF that] by (auto simp: list_all_iff event_line_def)
  have eq: "hash_check sha256 (read_event_line (put_file path f s) path o1) l \<noteq> Some False \<longleftrightarrow>
      read_event_line (put_file path f s) path o1 \<in> {None, Some [], Some l}"
    if "(o1, l) \<in> set (zip (starts 0 ls) ls)" for o1 l
    by (rule hash [OF ne [OF that]])
  have "(\<forall>(o1, l) \<in> set (zip (starts 0 ls) ls).
        hash_check sha256 (read_event_line (put_file path f s) path o1) l \<noteq> Some False) \<longleftrightarrow>
      list_all (\<lambda>(o1, l). read_event_line (put_file path f s) path o1 \<in> {None, Some [], Some l}) (zip (starts 0 ls) ls)"
    unfolding list_all_iff by (intro ball_cong refl) (simp only: split_paired_all case_prod_conv eq)
  then show ?thesis using verify_rows(2) [OF rows] unfolding path_def by metis
qed

theorem rewritten_file_check_witness:
  "vf_failed (verify_session_events (\<lambda>x. x) (put_file ''/logs/s1.jsonl'' ''gone'' sample_log) ''s1'') \<noteq> 0"
proof
  let ?e = "[serialised (sample_event ''e1''), serialised (sample_event ''e2'')]"
  have path: "path_for_session ''/logs'' ''s1'' = ''/logs/s1.jsonl''" by (simp add: path_for_session_def)
  assume "vf_failed (verify_session_events (\<lambda>x. x) (put_file ''/logs/s1.jsonl'' ''gone'' sample_log) ''s1'') = 0"
  then have "list_all (\<lambda>(offset, l). read_event_line (put_file ''/logs/s1.jsonl'' ''gone'' sample_log) ''/logs/s1.jsonl'' offset
      \<in> {None, Some [], Some l}) (zip (starts 0 ?e) ?e)"
    using rewritten_file_check [OF sample_logged, of "''gone''"] unfolding path by simp
  moreover have "read_event_line (put_file ''/logs/s1.jsonl'' ''gone'' sample_log) ''/logs/s1.jsonl'' 0 = Some ''gone''"
    by (simp add: read_event_line_def newline_def)
  ultimately have "serialised (sample_event ''e1'') = ''gone''" by simp
  moreover have "event_line (serialised (sample_event ''e1''))"
    by (rule serialised_event_line) (simp add: sample_event_def)
  ultimately show False by (simp add: event_line_def)
qed

text \<open>
  C24: A log cut short still verifies. Cut the file of a good log after any of its lines, or empty it: the
  verifier finds no failed event, an intact chain and no unindexed line, and still counts every event the
  index has. A line that cannot be read is listed as such in the details but counted as passed.
\<close>

theorem cut_log_still_verifies:
  fixes k :: nat
  assumes "session_logged sha256 dir sid ls s"
  defines "u \<equiv> put_file (path_for_session dir sid) (text_of (take k ls)) s"
  shows "vf_failed (verify_session_events sha256 u sid) = 0
    \<and> vf_chain_intact (verify_session_events sha256 u sid)
    \<and> vf_passed (verify_session_events sha256 u sid) = length ls
    \<and> vf_unindexed_lines (verify_session_events sha256 u sid) = []"
proof -
  have rows: "rows_of sha256 dir sid ls u" using logged_rows [OF assms(1)] by (simp add: u_def rows_of_put_file)
  note cut = cut_log_passes [OF assms(1) _ rows, of k]
  have u: "log_files u (path_for_session dir sid) = Some (text_of (take k ls))" by (simp add: u_def)
  have "vf_passed (verify_session_events sha256 u sid) = length ls"
    using cut(1) [OF u] verify_rows(1) [OF rows]
    by (simp add: verify_session_events_def Let_def)
      (metis length_filter_le le_antisym)
  then show ?thesis using cut [OF u] by simp
qed

theorem cut_log_still_verifies_witness:
  "vf_failed (verify_session_events (\<lambda>x. x) (put_file ''/logs/s1.jsonl'' [] sample_log) ''s1'') = 0
   \<and> vf_passed (verify_session_events (\<lambda>x. x) (put_file ''/logs/s1.jsonl'' [] sample_log) ''s1'') = 2"
  using cut_log_still_verifies [OF sample_logged, of 0] by (simp add: path_for_session_def)

end
