(* ===== verification/Task_Store.thy ===== *)
theory Task_Store
  imports Complex_Main "HOL-Library.Product_Lexorder" Governance_Store
begin

text \<open>
  The task table of \<^verbatim>\<open>storage/stores/tasks.py\<close>: scheduled work, its claims and leases, its delegation
  tree, and the phases of \<^verbatim>\<open>tasks/lifecycle.py\<close> and limits of \<^verbatim>\<open>tasks/run_limit.py\<close>.

  The table is the list of its rows in insertion order. A statement of the store is one step: SQLite
  runs it under the write lock. \<open>tw_clock\<close> is the reading of \<^verbatim>\<open>utc_now\<close> during an operation;
  \<open>tw_sessions\<close> gives each known session its owning account, if it has one.
\<close>

definition TASK_STATUSES :: "string list" where
  "TASK_STATUSES =
     [''queued'', ''running'', ''continuing'', ''waiting_for_approval'', ''waiting_for_user_answer'',
      ''waiting_for_children'', ''paused'', ''cancelling'', ''cancelled'', ''completed'', ''failed'']"

definition PROMPT_SURFACES :: "string list" where
  "PROMPT_SURFACES = [''chat'', ''build'', ''design'']"

record TaskRecord =
  task_id :: string
  task_session_id :: string
  thread_session_id :: "string option"
  parent_turn_id :: "string option"
  parent_task_id :: "string option"
  title :: string
  objective :: string
  status :: string
  current_step :: "string option"
  progress_percent :: "int option"
  created_at :: string
  updated_at :: string
  completed_at :: "string option"
  summary :: "string option"
  priority :: "string option"
  scheduled_at :: "string option"
  recurrence :: "string option"
  reminder_at :: "string option"
  project_id :: "string option"
  model_profile :: "string option"
  model :: "string option"
  surface :: string
  attachments :: pyval
  schedule_timezone :: "string option"
  schedule_anchor :: "string option"
  schedule_until :: "string option"
  missed_run_policy :: "string option"
  failed_cycles :: nat
  delivery_state :: "string option"
  delivery_detail :: "string option"
  max_run_minutes :: "int option"
  max_tool_calls :: "int option"
  max_run_cost_usd :: "rat option"
  claim_generation :: nat
  run_heartbeat_at :: "string option"

definition run_session_id :: "TaskRecord \<Rightarrow> string" where
  "run_session_id t =
     (case thread_session_id t of Some s \<Rightarrow> if s = [] then task_session_id t else s | None \<Rightarrow> task_session_id t)"

definition task_contract :: "TaskRecord \<Rightarrow> string option" where
  "task_contract t =
     (if task_id t = [] then Some ''missing_required_field:task_id''
      else if task_session_id t = [] then Some ''missing_required_field:session_id''
      else if title t = [] then Some ''missing_required_field:title''
      else if objective t = [] then Some ''missing_required_field:objective''
      else if status t \<notin> set TASK_STATUSES then Some (''invalid_task_status:'' @ status t)
      else if surface t \<notin> set PROMPT_SURFACES then Some (''invalid_task_surface:'' @ surface t)
      else None)"

record task_world =
  tw_rows :: "TaskRecord list"
  tw_sessions :: "string \<Rightarrow> string option option"
  tw_events :: "event list"
  tw_hooks :: "(string \<times> string \<times> pydict) list"
  tw_notices :: "(string \<times> string \<times> bool) list"
  tw_clock :: string
  tw_next_uuid :: nat

subsection \<open>Rows\<close>

definition update_rows :: "(TaskRecord \<Rightarrow> bool) \<Rightarrow> (TaskRecord \<Rightarrow> TaskRecord) \<Rightarrow> task_world \<Rightarrow> task_world" where
  "update_rows P f w = w\<lparr>tw_rows := map (\<lambda>r. if P r then f r else r) (tw_rows w)\<rparr>"

definition changed_rows :: "(TaskRecord \<Rightarrow> bool) \<Rightarrow> task_world \<Rightarrow> nat" where
  "changed_rows P w = length (filter P (tw_rows w))"

definition insert_task :: "TaskRecord \<Rightarrow> task_world \<Rightarrow> task_world" where
  "insert_task t w =
     (if task_id t \<in> set (map task_id (tw_rows w)) then w else w\<lparr>tw_rows := tw_rows w @ [t]\<rparr>)"

definition load_task :: "task_world \<Rightarrow> string \<Rightarrow> TaskRecord option" where
  "load_task w tid = List.find (\<lambda>r. task_id r = tid) (tw_rows w)"

definition load_task_for_thread_session :: "task_world \<Rightarrow> string \<Rightarrow> TaskRecord option" where
  "load_task_for_thread_session w sid = List.find (\<lambda>r. thread_session_id r = Some sid) (tw_rows w)"

definition session_visible :: "task_world \<Rightarrow> string option \<Rightarrow> TaskRecord \<Rightarrow> bool" where
  "session_visible w user r =
     (case user of
        None \<Rightarrow> True
      | Some u \<Rightarrow> (case tw_sessions w (task_session_id r) of
                     None \<Rightarrow> False | Some None \<Rightarrow> True | Some (Some o1) \<Rightarrow> o1 = u))"

definition load_task_for_user :: "task_world \<Rightarrow> string \<Rightarrow> string option \<Rightarrow> TaskRecord option" where
  "load_task_for_user w tid user = List.find (\<lambda>r. task_id r = tid \<and> session_visible w user r) (tw_rows w)"

definition list_tasks ::
  "task_world \<Rightarrow> string option \<Rightarrow> string option \<Rightarrow> string option \<Rightarrow> string option \<Rightarrow> TaskRecord list" where
  "list_tasks w sid st user project =
     rev (sort_key created_at (rev (filter (\<lambda>r.
       (case sid of None \<Rightarrow> True | Some s \<Rightarrow> task_session_id r = s)
       \<and> (case project of None \<Rightarrow> True | Some p \<Rightarrow> project_id r = Some p)
       \<and> (case st of None \<Rightarrow> True | Some x \<Rightarrow> status r = x)
       \<and> session_visible w user r) (tw_rows w))))"

subsection \<open>Limits\<close>

definition set_limit :: "string \<Rightarrow> (TaskRecord \<Rightarrow> TaskRecord) \<Rightarrow> task_world \<Rightarrow> bool \<times> task_world" where
  "set_limit tid f w =
     (changed_rows (\<lambda>r. task_id r = tid) w > 0,
      update_rows (\<lambda>r. task_id r = tid) (\<lambda>r. (f r)\<lparr>updated_at := tw_clock w\<rparr>) w)"

definition set_task_run_limit :: "string \<Rightarrow> int option \<Rightarrow> task_world \<Rightarrow> bool \<times> task_world" where
  "set_task_run_limit tid minutes = set_limit tid (\<lambda>r. r\<lparr>max_run_minutes := minutes\<rparr>)"

definition set_task_tool_limit :: "string \<Rightarrow> int option \<Rightarrow> task_world \<Rightarrow> bool \<times> task_world" where
  "set_task_tool_limit tid calls = set_limit tid (\<lambda>r. r\<lparr>max_tool_calls := calls\<rparr>)"

definition set_task_cost_limit :: "string \<Rightarrow> rat option \<Rightarrow> task_world \<Rightarrow> bool \<times> task_world" where
  "set_task_cost_limit tid usd = set_limit tid (\<lambda>r. r\<lparr>max_run_cost_usd := usd\<rparr>)"

definition DEFAULT_MAX_RUN_MINUTES :: int where "DEFAULT_MAX_RUN_MINUTES = 60"
definition MIN_RUN_MINUTES :: int where "MIN_RUN_MINUTES = 1"
definition MAX_RUN_MINUTES :: int where "MAX_RUN_MINUTES = 720"
definition MIN_TOOL_CALLS :: int where "MIN_TOOL_CALLS = 1"
definition MAX_TOOL_CALLS :: int where "MAX_TOOL_CALLS = 1000"

definition effective_minutes :: "int option \<Rightarrow> int" where
  "effective_minutes stored =
     (case stored of
        None \<Rightarrow> DEFAULT_MAX_RUN_MINUTES
      | Some m \<Rightarrow> max MIN_RUN_MINUTES (min MAX_RUN_MINUTES m))"

definition tool_call_budget :: "int option \<Rightarrow> int option" where
  "tool_call_budget stored =
     (case stored of None \<Rightarrow> None | Some n \<Rightarrow> Some (max MIN_TOOL_CALLS (min MAX_TOOL_CALLS n)))"

subsection \<open>Claims and leases\<close>

definition due_rows :: "task_world \<Rightarrow> string \<Rightarrow> nat \<Rightarrow> TaskRecord list" where
  "due_rows w now limit =
     take limit (sort_key (\<lambda>r. the (scheduled_at r))
       (filter (\<lambda>r. status r = ''queued'' \<and> (case scheduled_at r of None \<Rightarrow> False | Some t \<Rightarrow> t \<le> now)) (tw_rows w)))"

definition claim_task :: "string \<Rightarrow> string \<Rightarrow> task_world \<Rightarrow> bool \<times> task_world" where
  "claim_task now tid w =
     (let P = (\<lambda>r. task_id r = tid \<and> status r = ''queued'')
      in (changed_rows P w > 0,
          update_rows P (\<lambda>r. r\<lparr>status := ''running'', current_step := Some ''Starting scheduled run'',
            updated_at := now, claim_generation := Suc (claim_generation r), run_heartbeat_at := Some now\<rparr>) w))"

fun claim_each :: "string \<Rightarrow> string list \<Rightarrow> task_world \<Rightarrow> TaskRecord list \<times> task_world" where
  "claim_each now [] w = ([], w)"
| "claim_each now (tid # tids) w =
     (case claim_task now tid w of
        (False, w1) \<Rightarrow> claim_each now tids w1
      | (True, w1) \<Rightarrow>
          (case claim_each now tids w1 of
             (claimed, w2) \<Rightarrow> ((case load_task w1 tid of None \<Rightarrow> [] | Some t \<Rightarrow> [t]) @ claimed, w2)))"

definition claim_due_tasks :: "string \<Rightarrow> nat \<Rightarrow> task_world \<Rightarrow> TaskRecord list \<times> task_world" where
  "claim_due_tasks now limit w = claim_each now (map task_id (due_rows w now limit)) w"

definition fence_task_claim :: "string \<Rightarrow> nat \<Rightarrow> task_world \<Rightarrow> bool \<times> task_world" where
  "fence_task_claim tid generation w =
     (let P = (\<lambda>r. task_id r = tid \<and> claim_generation r = generation)
      in (changed_rows P w > 0, update_rows P (\<lambda>r. r\<lparr>claim_generation := Suc (claim_generation r)\<rparr>) w))"

definition beat_task_run :: "string \<Rightarrow> nat \<Rightarrow> string \<Rightarrow> task_world \<Rightarrow> bool \<times> task_world" where
  "beat_task_run tid generation now w =
     (let P = (\<lambda>r. task_id r = tid \<and> claim_generation r = generation \<and> status r = ''running'')
      in (changed_rows P w > 0, update_rows P (\<lambda>r. r\<lparr>run_heartbeat_at := Some now\<rparr>) w))"

definition lapsed_task_runs :: "task_world \<Rightarrow> string \<Rightarrow> TaskRecord list" where
  "lapsed_task_runs w before =
     filter (\<lambda>r. status r = ''running'' \<and> (case run_heartbeat_at r of None \<Rightarrow> False | Some t \<Rightarrow> t < before)) (tw_rows w)"

definition scheduler_queue :: "task_world \<Rightarrow> string \<Rightarrow> nat \<times> string option" where
  "scheduler_queue w now =
     (let due = filter (\<lambda>r. status r = ''queued'' \<and> (case scheduled_at r of None \<Rightarrow> False | Some t \<Rightarrow> t \<le> now)) (tw_rows w)
      in (length due, if due = [] then None else Some (Min (set (map (\<lambda>r. the (scheduled_at r)) due)))))"

definition schedule_task_now ::
  "string \<Rightarrow> string option \<Rightarrow> task_world \<Rightarrow> (string + TaskRecord) \<times> task_world" where
  "schedule_task_now tid user w =
     (case load_task_for_user w tid user of
        None \<Rightarrow> (Inl ''task_not_found'', w)
      | Some r \<Rightarrow>
          if scheduled_at r \<noteq> None then (Inl ''task_already_scheduled'', w)
          else if status r \<noteq> ''queued'' then (Inl ''task_not_runnable'', w)
          else (let P = (\<lambda>r. task_id r = tid \<and> status r = ''queued'' \<and> scheduled_at r = None);
                    w1 = update_rows P (\<lambda>r. r\<lparr>scheduled_at := Some (tw_clock w), updated_at := tw_clock w,
                                             current_step := Some ''Ready to start''\<rparr>) w
                in if changed_rows P w \<noteq> 1 then (Inl ''task_not_runnable'', w1)
                   else (case load_task w1 tid of
                           None \<Rightarrow> (Inl ''task_not_runnable'', w1)
                         | Some t \<Rightarrow> (Inr t, w1))))"

subsection \<open>Unconditional updates\<close>

definition update_task :: "string \<Rightarrow> (TaskRecord \<Rightarrow> TaskRecord) \<Rightarrow> task_world \<Rightarrow> task_world" where
  "update_task tid f w = update_rows (\<lambda>r. task_id r = tid) (\<lambda>r. (f r)\<lparr>updated_at := tw_clock w\<rparr>) w"

definition reschedule_task :: "string \<Rightarrow> string \<Rightarrow> string \<Rightarrow> task_world \<Rightarrow> task_world" where
  "reschedule_task tid slot text =
     update_task tid (\<lambda>r. r\<lparr>status := ''queued'', scheduled_at := Some slot,
       current_step := Some ''Waiting for next scheduled run'', progress_percent := Some 0,
       completed_at := None, summary := Some text\<rparr>)"

definition count_routine_cycle :: "string \<Rightarrow> bool \<Rightarrow> task_world \<Rightarrow> nat \<times> task_world" where
  "count_routine_cycle tid failed w =
     (let w1 = update_rows (\<lambda>r. task_id r = tid)
                 (\<lambda>r. r\<lparr>failed_cycles := if failed then Suc (failed_cycles r) else 0\<rparr>) w
      in (case load_task w1 tid of None \<Rightarrow> 0 | Some t \<Rightarrow> failed_cycles t, w1))"

definition ROUTINE_PAUSED_STEP :: string where
  "ROUTINE_PAUSED_STEP = ''Paused after repeated failed runs''"

definition pause_routine :: "string \<Rightarrow> string \<Rightarrow> task_world \<Rightarrow> task_world" where
  "pause_routine tid text =
     update_task tid (\<lambda>r. r\<lparr>status := ''paused'', current_step := Some ROUTINE_PAUSED_STEP,
       progress_percent := Some 0, summary := Some text\<rparr>)"

definition store_resume_paused_routine :: "string \<Rightarrow> task_world \<Rightarrow> bool \<times> task_world" where
  "store_resume_paused_routine tid w =
     (let P = (\<lambda>r. task_id r = tid \<and> status r = ''paused'')
      in (changed_rows P w = 1,
          update_rows P (\<lambda>r. r\<lparr>status := ''queued'', scheduled_at := Some (tw_clock w), failed_cycles := 0,
            current_step := Some ''Ready to start'', updated_at := tw_clock w\<rparr>) w))"

definition update_task_progress :: "string \<Rightarrow> string \<Rightarrow> int \<Rightarrow> task_world \<Rightarrow> task_world" where
  "update_task_progress tid step percent =
     update_task tid (\<lambda>r. r\<lparr>current_step := Some step, progress_percent := Some percent\<rparr>)"

definition update_task_status :: "string \<Rightarrow> string \<Rightarrow> task_world \<Rightarrow> task_world" where
  "update_task_status tid st = update_task tid (\<lambda>r. r\<lparr>status := st\<rparr>)"

definition store_complete_task :: "string \<Rightarrow> string option \<Rightarrow> task_world \<Rightarrow> task_world" where
  "store_complete_task tid text w =
     update_task tid (\<lambda>r. r\<lparr>status := ''completed'', completed_at := Some (tw_clock w), summary := text\<rparr>) w"

definition store_fail_task :: "string \<Rightarrow> string \<Rightarrow> task_world \<Rightarrow> task_world" where
  "store_fail_task tid reason w =
     update_task tid (\<lambda>r. r\<lparr>status := ''failed'', completed_at := Some (tw_clock w), summary := Some reason\<rparr>) w"

definition store_cancel_task :: "string \<Rightarrow> string \<Rightarrow> task_world \<Rightarrow> task_world" where
  "store_cancel_task tid reason w =
     update_task tid (\<lambda>r. r\<lparr>status := ''cancelled'', completed_at := Some (tw_clock w), summary := Some reason\<rparr>) w"

definition resume_task_after_approval :: "string \<Rightarrow> string \<Rightarrow> task_world \<Rightarrow> task_world" where
  "resume_task_after_approval tid step w =
     update_rows (\<lambda>r. task_id r = tid \<and> status r = ''waiting_for_approval'')
       (\<lambda>r. r\<lparr>status := ''continuing'', current_step := Some step, summary := None, updated_at := tw_clock w\<rparr>) w"

definition store_block_task_on_approval :: "string \<Rightarrow> string \<Rightarrow> task_world \<Rightarrow> task_world" where
  "store_block_task_on_approval tid reason =
     update_task tid (\<lambda>r. r\<lparr>status := ''waiting_for_approval'', current_step := Some ''Waiting for your approval'',
       summary := Some reason\<rparr>)"

definition hold_task_for_children :: "string \<Rightarrow> string option \<Rightarrow> task_world \<Rightarrow> task_world" where
  "hold_task_for_children tid text =
     update_task tid (\<lambda>r. r\<lparr>status := ''waiting_for_children'', current_step := Some ''Waiting for delegated work'',
       summary := text\<rparr>)"

definition record_task_delivery :: "string \<Rightarrow> string \<Rightarrow> string option \<Rightarrow> task_world \<Rightarrow> task_world" where
  "record_task_delivery tid state detail =
     update_rows (\<lambda>r. task_id r = tid) (\<lambda>r. r\<lparr>delivery_state := Some state, delivery_detail := detail\<rparr>)"

subsection \<open>Delegation\<close>

definition TERMINAL_TASK_STATES :: "string list" where
  "TERMINAL_TASK_STATES = [''completed'', ''failed'', ''cancelled'']"

definition child_task_states :: "task_world \<Rightarrow> string \<Rightarrow> string list" where
  "child_task_states w parent = map status (filter (\<lambda>r. parent_task_id r = Some parent) (tw_rows w))"

definition MAX_DELEGATION_DEPTH :: nat where
  "MAX_DELEGATION_DEPTH = 16"

definition delegated_rows :: "task_world \<Rightarrow> string option \<Rightarrow> string list \<Rightarrow> TaskRecord list" where
  "delegated_rows w user frontier =
     sort_key (\<lambda>r. (created_at r, task_id r))
       (filter (\<lambda>r. (case parent_task_id r of None \<Rightarrow> False | Some p \<Rightarrow> p \<in> set frontier) \<and> session_visible w user r)
         (tw_rows w))"

fun take_new :: "string list \<Rightarrow> TaskRecord list \<Rightarrow> TaskRecord list" where
  "take_new seen [] = []"
| "take_new seen (r # rs) =
     (if task_id r \<in> set seen then take_new seen rs else r # take_new (task_id r # seen) rs)"

fun descend :: "task_world \<Rightarrow> string option \<Rightarrow> nat \<Rightarrow> string list \<Rightarrow> string list \<Rightarrow> TaskRecord list" where
  "descend w user 0 seen frontier = []"
| "descend w user (Suc depth) seen frontier =
     (if frontier = [] then []
      else (let new = take_new seen (delegated_rows w user frontier)
            in new @ descend w user depth (map task_id new @ seen) (map task_id new)))"

definition descendant_tasks :: "task_world \<Rightarrow> string \<Rightarrow> string option \<Rightarrow> TaskRecord list" where
  "descendant_tasks w tid user = descend w user MAX_DELEGATION_DEPTH [tid] [tid]"

subsection \<open>Phases\<close>

definition TASK_PHASES :: "string list" where
  "TASK_PHASES =
     [''not_started'', ''scheduled'', ''queued'', ''running'', ''waiting'', ''completed'', ''failed'', ''stopped'']"

definition STATUS_PHASES :: "(string \<times> string) list" where
  "STATUS_PHASES =
     [(''queued'', ''queued''), (''running'', ''running''), (''continuing'', ''running''),
      (''cancelling'', ''running''), (''waiting_for_approval'', ''waiting''),
      (''waiting_for_user_answer'', ''waiting''), (''waiting_for_children'', ''waiting''),
      (''paused'', ''waiting''), (''completed'', ''completed''), (''failed'', ''failed''),
      (''cancelled'', ''stopped'')]"

text \<open>\<open>instant\<close> reads an ISO-8601 stamp as seconds, or \<open>None\<close> when it does not parse.\<close>

definition task_phase :: "(string \<Rightarrow> int option) \<Rightarrow> string \<Rightarrow> string option \<Rightarrow> int \<Rightarrow> string" where
  "task_phase instant st scheduled now =
     (let phase = (case map_of STATUS_PHASES st of None \<Rightarrow> ''waiting'' | Some p \<Rightarrow> p)
      in if phase \<noteq> ''queued'' then phase
         else (case scheduled of
                 None \<Rightarrow> ''not_started''
               | Some slot \<Rightarrow>
                   if slot = [] then ''not_started''
                   else (case instant slot of
                           None \<Rightarrow> ''queued''
                         | Some due \<Rightarrow> if due > now then ''scheduled'' else ''queued'')))"

end
