(* ===== verification/Task_Manager.thy ===== *)
theory Task_Manager
  imports Task_Store
begin

text \<open>
  \<^verbatim>\<open>TaskManager\<close> (\<^verbatim>\<open>tasks/manager.py\<close>) and \<^verbatim>\<open>InterruptController\<close> (\<^verbatim>\<open>runtime/interrupts.py\<close>): tasks from
  creation to their end, the settling of a parent when its last child lands, and the owner's pause,
  resume, stop and steer with their cascade over delegated work.

  Hooks observe and are recorded in \<open>tw_hooks\<close>. The notifier is a parameter: the delivery state it
  leaves on the task, if any. \<open>te_summary\<close> is the sentence \<^verbatim>\<open>task_completed_summary\<close> builds.
\<close>

record task_env =
  te_uuid :: "nat \<Rightarrow> string"
  te_hooks_active :: bool
  te_summary :: "string \<Rightarrow> string"
  te_delivery :: "TaskRecord \<Rightarrow> string \<Rightarrow> bool \<Rightarrow> (string \<times> string option) option"

definition NO_STATED_FAILURE_REASON :: string where
  "NO_STATED_FAILURE_REASON = ''The run ended without a stated reason.''"
definition NO_STATED_APPROVAL_REASON :: string where
  "NO_STATED_APPROVAL_REASON = ''The run is waiting for your approval to continue.''"
definition NO_STATED_CANCEL_REASON :: string where
  "NO_STATED_CANCEL_REASON = ''The run was stopped without a stated reason.''"

definition stated :: "string option \<Rightarrow> string \<Rightarrow> string" where
  "stated reason fallback =
     (let text = str_strip (case reason of None \<Rightarrow> [] | Some r \<Rightarrow> r) in if text = [] then fallback else text)"

definition task_event :: "string \<Rightarrow> string \<Rightarrow> pydict \<Rightarrow> TaskRecord \<Rightarrow> task_world \<Rightarrow> task_world" where
  "task_event typ actor payload t w =
     w\<lparr>tw_events := tw_events w @ [\<lparr>ev_session = task_session_id t, ev_turn = parent_turn_id t, ev_type = typ,
                                   ev_actor = actor, ev_payload = payload\<rparr>]\<rparr>"

definition dispatch_task_hook :: "task_env \<Rightarrow> string \<Rightarrow> TaskRecord \<Rightarrow> pydict \<Rightarrow> task_world \<Rightarrow> task_world" where
  "dispatch_task_hook e name t extra w =
     (if te_hooks_active e
      then w\<lparr>tw_hooks := tw_hooks w @
        [(name, task_id t, [(''task_id'', PStr (task_id t)), (''title'', PStr (title t)), (''status'', PStr (status t))] @ extra)]\<rparr>
      else w)"

definition notify_owner :: "task_env \<Rightarrow> TaskRecord \<Rightarrow> string \<Rightarrow> bool \<Rightarrow> task_world \<Rightarrow> task_world" where
  "notify_owner e t outcome background w =
     (let w1 = w\<lparr>tw_notices := tw_notices w @ [(task_id t, outcome, background)]\<rparr>
      in case te_delivery e t outcome background of
           None \<Rightarrow> w1
         | Some (state, detail) \<Rightarrow> record_task_delivery (task_id t) state detail w1)"

definition was_unwatched :: "task_world \<Rightarrow> string \<Rightarrow> bool" where
  "was_unwatched w tid = (case load_task w tid of None \<Rightarrow> False | Some t \<Rightarrow> status t = ''waiting_for_children'')"

definition unfinished_children :: "task_world \<Rightarrow> string \<Rightarrow> string list" where
  "unfinished_children w tid = filter (\<lambda>s. s \<notin> set TERMINAL_TASK_STATES) (child_task_states w tid)"

definition text_or_empty :: "string option \<Rightarrow> pyval" where
  "text_or_empty x = (case x of None \<Rightarrow> PStr [] | Some s \<Rightarrow> PStr s)"

definition text_length :: "string option \<Rightarrow> pyval" where
  "text_length x = (case x of None \<Rightarrow> PInt 0 | Some s \<Rightarrow> PInt (int (length s)))"

subsection \<open>Creating and progressing\<close>

definition create_task ::
  "task_env \<Rightarrow> TaskRecord \<Rightarrow> task_world \<Rightarrow> (string + TaskRecord) \<times> task_world" where
  "create_task e request w =
     (let t = request\<lparr>task_id := ''task_'' @ te_uuid e (tw_next_uuid w), status := ''queued'',
                      created_at := tw_clock w, updated_at := tw_clock w, current_step := None,
                      progress_percent := None, completed_at := None, summary := None, failed_cycles := 0,
                      delivery_state := None, delivery_detail := None, max_run_minutes := None,
                      max_tool_calls := None, max_run_cost_usd := None, claim_generation := 0,
                      run_heartbeat_at := None\<rparr>;
          w0 = w\<lparr>tw_next_uuid := Suc (tw_next_uuid w)\<rparr>
      in case task_contract t of
           Some msg \<Rightarrow> (Inl msg, w0)
         | None \<Rightarrow>
             (Inr t,
              dispatch_task_hook e ''TaskCreated'' t
                [(''parent_task_id'', opt_str (parent_task_id t)), (''surface'', PStr (surface t))]
                (task_event ''task_created'' ''task_manager''
                   [(''task_id'', PStr (task_id t)), (''session_id'', PStr (task_session_id t)),
                    (''title'', PStr (title t)), (''objective'', PStr (objective t)), (''status'', PStr (status t)),
                    (''surface'', PStr (surface t)), (''attachments'', attachments t)] t
                   (insert_task t w0))))"

definition update_progress :: "string \<Rightarrow> string \<Rightarrow> int \<Rightarrow> task_world \<Rightarrow> TaskRecord option \<times> task_world" where
  "update_progress tid step percent w =
     (let w1 = update_task_progress tid step percent w
      in case load_task w1 tid of
           None \<Rightarrow> (None, w1)
         | Some t \<Rightarrow>
             (Some t, task_event ''task_progress'' ''task_manager''
                [(''task_id'', PStr tid), (''current_step'', PStr step), (''progress_percent'', PInt percent),
                 (''status'', PStr (status t))] t w1))"

definition hold_for_children :: "string \<Rightarrow> string option \<Rightarrow> task_world \<Rightarrow> TaskRecord option \<times> task_world" where
  "hold_for_children tid text w =
     (let w1 = hold_task_for_children tid text w
      in case load_task w1 tid of
           None \<Rightarrow> (None, w1)
         | Some t \<Rightarrow>
             (Some t, task_event ''task_waiting_for_children'' ''task_manager''
                [(''task_id'', PStr tid), (''unfinished_children'', PInt (int (length (unfinished_children w1 tid)))),
                 (''summary'', text_or_empty text)] t w1))"

subsection \<open>Ending a task and settling its parent\<close>

text \<open>
  The write, the event, the hook and the notice of a task that ends; the parent is settled after them.
\<close>

definition land_completed :: "task_env \<Rightarrow> string option \<Rightarrow> bool \<Rightarrow> TaskRecord \<Rightarrow> task_world \<Rightarrow> task_world" where
  "land_completed e text background t w =
     notify_owner e t ''completed'' background
       (dispatch_task_hook e ''TaskCompleted'' t [(''outcome'', PStr ''completed''), (''summary_length'', text_length text)]
         (task_event ''task_completed'' ''task_manager''
            [(''task_id'', PStr (task_id t)), (''summary'', PStr (te_summary e (title t))),
             (''outcome_summary'', text_or_empty text)] t w))"

definition land_failed :: "task_env \<Rightarrow> string \<Rightarrow> bool \<Rightarrow> TaskRecord \<Rightarrow> task_world \<Rightarrow> task_world" where
  "land_failed e reason background t w =
     notify_owner e t ''failed'' background
       (dispatch_task_hook e ''TaskCompleted'' t
          [(''outcome'', PStr ''failed''), (''summary_length'', PInt (int (length reason)))]
         (task_event ''task_failed'' ''task_manager''
            [(''task_id'', PStr (task_id t)), (''reason'', PStr reason)] t w))"

text \<open>
  What the settling reads and writes of the table: ids, parents and states.
\<close>

definition tree :: "task_world \<Rightarrow> (string \<times> string option \<times> string) list" where
  "tree w = map (\<lambda>r. (task_id r, parent_task_id r, status r)) (tw_rows w)"

definition set_state :: "string \<Rightarrow> string \<Rightarrow> (string \<times> string option \<times> string) list \<Rightarrow> (string \<times> string option \<times> string) list" where
  "set_state tid st T = map (\<lambda>(i, p, s). (i, p, if i = tid then st else s)) T"

lemma tree_update_rows:
  assumes "\<And>r. P r \<Longrightarrow> task_id (f r) = task_id r \<and> parent_task_id (f r) = parent_task_id r \<and> status (f r) = status r"
  shows "tree (update_rows P f w) = tree w"
  using assms by (simp add: tree_def update_rows_def)

lemma tree_frame [simp]:
  "tree (task_event typ actor payload t w) = tree w"
  "tree (dispatch_task_hook e name t extra w) = tree w"
  "tree (record_task_delivery tid state detail w) = tree w"
  "tree (notify_owner e t outcome background w) = tree w"
proof -
  show delivery: "tree (record_task_delivery tid state detail w) = tree w" for tid state detail and w :: task_world
    unfolding record_task_delivery_def by (rule tree_update_rows) simp
  show "tree (notify_owner e t outcome background w) = tree w"
    using delivery by (simp add: notify_owner_def Let_def split: option.splits) (simp add: tree_def)
qed (simp_all add: tree_def task_event_def dispatch_task_hook_def)

lemma tree_land [simp]:
  "tree (land_completed e text b t w) = tree w" "tree (land_failed e reason b t w) = tree w"
  by (simp_all add: land_completed_def land_failed_def)

lemma tree_writes [simp]:
  "tree (store_complete_task tid text w) = set_state tid ''completed'' (tree w)"
  "tree (store_fail_task tid reason w) = set_state tid ''failed'' (tree w)"
  "tree (store_cancel_task tid reason w) = set_state tid ''cancelled'' (tree w)"
  "tree (hold_task_for_children tid text w) = set_state tid ''waiting_for_children'' (tree w)"
  "tree (store_block_task_on_approval tid reason w) = set_state tid ''waiting_for_approval'' (tree w)"
  "tree (update_task_status tid st w) = set_state tid st (tree w)"
  "tree (pause_routine tid reason w) = set_state tid ''paused'' (tree w)"
  "tree (reschedule_task tid slot reason w) = set_state tid ''queued'' (tree w)"
  by (simp_all add: store_complete_task_def store_fail_task_def store_cancel_task_def hold_task_for_children_def
      store_block_task_on_approval_def update_task_status_def pause_routine_def reschedule_task_def
      update_task_def update_rows_def tree_def set_state_def)

lemma tree_hold [simp]: "tree (snd (hold_for_children tid text w)) = set_state tid ''waiting_for_children'' (tree w)"
  by (simp add: hold_for_children_def Let_def split: option.splits)

definition open_children :: "string \<Rightarrow> (string \<times> string option \<times> string) list \<Rightarrow> string list" where
  "open_children tid T =
     map (\<lambda>(i, p, s). s) (filter (\<lambda>(i, p, s). p = Some tid \<and> s \<notin> set TERMINAL_TASK_STATES) T)"

lemma unfinished_tree: "unfinished_children w tid = open_children tid (tree w)"
  by (simp add: unfinished_children_def child_task_states_def open_children_def tree_def filter_map comp_def
        filter_filter case_prod_beta conj_commute)

definition waiting_except :: "string \<Rightarrow> (string \<times> string option \<times> string) list \<Rightarrow> nat" where
  "waiting_except tid T = length (filter (\<lambda>(i, p, s). s = ''waiting_for_children'' \<and> i \<noteq> tid) T)"

definition waiting_parents :: "(string \<times> string option \<times> string) list \<Rightarrow> nat" where
  "waiting_parents T = length (filter (\<lambda>(i, p, s). s = ''waiting_for_children'') T)"

lemma waiting_set_state: "st \<noteq> ''waiting_for_children'' \<Longrightarrow> waiting_parents (set_state tid st T) = waiting_except tid T"
  by (induction T) (auto simp: waiting_parents_def waiting_except_def set_state_def split: if_splits)

lemma load_task_tree: "load_task w tid = Some t \<Longrightarrow> task_id t = tid \<and> (tid, parent_task_id t, status t) \<in> set (tree w)"
  by (auto simp: load_task_def tree_def dest: find_SomeD)

lemma waiting_except_less: "(pid, q, ''waiting_for_children'') \<in> set T \<Longrightarrow> waiting_except pid T < waiting_parents T"
proof (induction T)
  case (Cons x T)
  have "waiting_except pid T \<le> waiting_parents T"
    by (induction T) (auto simp: waiting_parents_def waiting_except_def)
  with Cons show ?case by (auto simp: waiting_parents_def waiting_except_def)
qed simp

function complete_task :: "task_env \<Rightarrow> string \<Rightarrow> string option \<Rightarrow> task_world \<Rightarrow> TaskRecord option \<times> task_world"
  and fail_task :: "task_env \<Rightarrow> string \<Rightarrow> string \<Rightarrow> task_world \<Rightarrow> TaskRecord option \<times> task_world"
  and settle_parent :: "task_env \<Rightarrow> TaskRecord \<Rightarrow> task_world \<Rightarrow> task_world" where
  "complete_task e tid text w =
     (if unfinished_children w tid \<noteq> [] then hold_for_children tid text w
      else (let background = was_unwatched w tid;
                w1 = store_complete_task tid text w
            in case load_task w1 tid of
                 None \<Rightarrow> (None, w1)
               | Some t \<Rightarrow> (Some t, settle_parent e t (land_completed e text background t w1))))"
| "fail_task e tid reason w =
     (let text = stated (Some reason) NO_STATED_FAILURE_REASON;
          background = was_unwatched w tid;
          w1 = store_fail_task tid text w
      in case load_task w1 tid of
           None \<Rightarrow> (None, w1)
         | Some t \<Rightarrow> (Some t, settle_parent e t (land_failed e text background t w1)))"
| "settle_parent e child w =
     (case parent_task_id child of
        None \<Rightarrow> w
      | Some pid \<Rightarrow>
          if pid = [] then w
          else (case load_task w pid of
                  None \<Rightarrow> w
                | Some p \<Rightarrow>
                    if status p \<noteq> ''waiting_for_children'' then w
                    else if unfinished_children w pid \<noteq> [] then w
                    else (let states = child_task_states w pid;
                              failed = filter (\<lambda>s. s \<in> {''failed'', ''cancelled''}) states
                          in if failed \<noteq> []
                             then snd (fail_task e pid
                               (nat_dec (length failed) @ '' of '' @ nat_dec (length states)
                                  @ '' delegated tasks did not complete.'') w)
                             else snd (complete_task e pid
                               (Some (''All '' @ nat_dec (length states) @ '' delegated tasks completed.'')) w))))"
  by pat_completeness auto

text \<open>
  Settling always ends, also on a parent chain that is a cycle: every task it goes on to was parked for
  its children and no longer is.
\<close>

termination
proof (relation "measure (\<lambda>x. case x of
      Inl (e, tid, text, w) \<Rightarrow> 2 * waiting_except tid (tree w) + 2
    | Inr (Inl (e, tid, reason, w)) \<Rightarrow> 2 * waiting_except tid (tree w) + 2
    | Inr (Inr (e, child, w)) \<Rightarrow> 2 * waiting_parents (tree w) + 1)", goal_cases)
  case (4 e child w pid p)
  then show ?case using load_task_tree [of w pid p] waiting_except_less [of pid "parent_task_id p" "tree w"] by auto
next
  case (5 e child w pid p)
  then show ?case using load_task_tree [of w pid p] waiting_except_less [of pid "parent_task_id p" "tree w"] by auto
qed (auto simp: waiting_set_state)

declare complete_task.simps [simp del] fail_task.simps [simp del] settle_parent.simps [simp del]

subsection \<open>The rest of the manager\<close>

definition cancel_task :: "task_env \<Rightarrow> string \<Rightarrow> string \<Rightarrow> task_world \<Rightarrow> TaskRecord option \<times> task_world" where
  "cancel_task e tid reason w =
     (let text = stated (Some reason) NO_STATED_CANCEL_REASON;
          w1 = store_cancel_task tid text w
      in case load_task w1 tid of
           None \<Rightarrow> (None, w1)
         | Some t \<Rightarrow>
             (Some t,
              settle_parent e t
                (dispatch_task_hook e ''TaskCompleted'' t
                   [(''outcome'', PStr ''cancelled''), (''summary_length'', PInt (int (length text)))]
                   (task_event ''task_cancelled'' ''task_manager''
                      [(''task_id'', PStr tid), (''reason'', PStr text)] t w1))))"

definition with_task ::
  "string \<Rightarrow> (TaskRecord \<Rightarrow> task_world \<Rightarrow> task_world) \<Rightarrow> task_world \<Rightarrow> TaskRecord option \<times> task_world" where
  "with_task tid f w = (case load_task w tid of None \<Rightarrow> (None, w) | Some t \<Rightarrow> (Some t, f t w))"

definition block_task_on_approval :: "string \<Rightarrow> string \<Rightarrow> task_world \<Rightarrow> TaskRecord option \<times> task_world" where
  "block_task_on_approval tid reason w =
     (let text = stated (Some reason) NO_STATED_APPROVAL_REASON
      in with_task tid
           (\<lambda>t. task_event ''task_blocked'' ''task_manager''
             [(''task_id'', PStr tid), (''reason'', PStr text), (''status'', PStr (status t))] t)
           (store_block_task_on_approval tid text w))"

definition mark_task_started :: "string \<Rightarrow> string \<Rightarrow> task_world \<Rightarrow> TaskRecord option \<times> task_world" where
  "mark_task_started tid trigger =
     with_task tid (\<lambda>t. task_event ''task_started'' ''task_scheduler''
       [(''task_id'', PStr tid), (''trigger'', PStr trigger), (''status'', PStr (status t)),
        (''run_session_id'', PStr (run_session_id t)), (''current_step'', text_or_empty (current_step t))] t)"

definition record_cycle_outcome ::
  "string \<Rightarrow> string \<Rightarrow> string \<Rightarrow> string option \<Rightarrow> task_world \<Rightarrow> TaskRecord option \<times> task_world" where
  "record_cycle_outcome tid outcome text next_run =
     with_task tid (\<lambda>t. task_event ''task_cycle_landed'' ''task_scheduler''
       [(''task_id'', PStr tid), (''outcome'', PStr outcome), (''summary'', PStr text),
        (''next_run_at'', text_or_empty next_run), (''recurrence'', text_or_empty (recurrence t))] t)"

definition pause_routine_after_failures :: "string \<Rightarrow> nat \<Rightarrow> string \<Rightarrow> task_world \<Rightarrow> TaskRecord option \<times> task_world" where
  "pause_routine_after_failures tid failures last_summary w =
     (let text = ''Paused after '' @ nat_dec failures @ '' runs in a row did not complete. The last said: ''
                 @ stated (Some last_summary) NO_STATED_FAILURE_REASON
                 @ '' Continue runs it once more and puts it back on its schedule.''
      in with_task tid
           (\<lambda>t w1. (task_event ''task_paused'' ''task_scheduler''
              [(''task_id'', PStr tid), (''reason'', PStr ''repeated_failures''), (''failures'', PInt (int failures))] t w1)
                \<lparr>tw_notices := tw_notices w1 @ [(tid, ''paused'', True)]\<rparr>)
           (pause_routine tid text w))"

definition resume_paused_routine :: "string \<Rightarrow> task_world \<Rightarrow> TaskRecord option \<times> task_world" where
  "resume_paused_routine tid w =
     (case store_resume_paused_routine tid w of
        (False, w1) \<Rightarrow> (load_task w1 tid, w1)
      | (True, w1) \<Rightarrow>
          with_task tid (\<lambda>t. task_event ''task_run_requested'' ''owner''
            [(''task_id'', PStr tid), (''reason'', PStr ''resumed_after_failures'')] t) w1)"

definition mark_task_continuing ::
  "string \<Rightarrow> string \<Rightarrow> string \<Rightarrow> task_world \<Rightarrow> TaskRecord option \<times> task_world" where
  "mark_task_continuing tid tool aid w =
     (let step = (if str_strip tool \<noteq> [] then ''Continuing after approval of '' @ tool else ''Continuing after approval'')
      in with_task tid
           (\<lambda>t. task_event ''task_resume_started'' ''task_scheduler''
             [(''task_id'', PStr tid), (''tool_name'', PStr tool), (''status'', PStr (status t)),
              (''approval_id'', PStr aid)] t)
           (resume_task_after_approval tid step w))"

definition report_resume_blocked :: "string \<Rightarrow> string \<Rightarrow> task_world \<Rightarrow> TaskRecord option \<times> task_world" where
  "report_resume_blocked tid reason w =
     (let text = stated (Some reason) NO_STATED_APPROVAL_REASON
      in with_task tid
           (\<lambda>t. task_event ''task_resume_blocked'' ''task_scheduler''
             [(''task_id'', PStr tid), (''reason'', PStr text), (''status'', PStr (status t))] t)
           (store_block_task_on_approval tid text w))"

subsection \<open>Interrupts\<close>

record InterruptAction =
  ia_action_id :: string
  ia_task_id :: string
  ia_session_id :: string
  ia_action_type :: string
  ia_reason :: string
  ia_steer_text :: "string option"

definition CASCADE_FROM :: "string \<Rightarrow> string list option" where
  "CASCADE_FROM typ =
     (if typ = ''pause''
      then Some [''queued'', ''running'', ''continuing'', ''waiting_for_approval'', ''waiting_for_children'']
      else if typ = ''resume'' then Some [''paused'']
      else if typ = ''cancel''
      then Some [''queued'', ''running'', ''continuing'', ''paused'', ''waiting_for_approval'', ''waiting_for_children'']
      else None)"

definition interrupt_verb :: "string \<Rightarrow> string" where
  "interrupt_verb typ =
     (if typ = ''pause'' then ''paused'' else if typ = ''resume'' then ''resumed'' else ''stopped'')"

text \<open>A controller made without an event writer applies the decision and logs nothing.\<close>

definition runtime_event :: "bool \<Rightarrow> string \<Rightarrow> string \<Rightarrow> pydict \<Rightarrow> task_world \<Rightarrow> task_world" where
  "runtime_event writer session typ payload w =
     (if writer
      then w\<lparr>tw_events := tw_events w @ [\<lparr>ev_session = session, ev_turn = None, ev_type = typ, ev_actor = ''runtime'',
                                         ev_payload = payload\<rparr>]\<rparr>
      else w)"

definition interrupt_event :: "bool \<Rightarrow> InterruptAction \<Rightarrow> string \<Rightarrow> string option \<Rightarrow> task_world \<Rightarrow> task_world" where
  "interrupt_event writer a typ origin =
     runtime_event writer (ia_session_id a) typ
       ([(''task_id'', PStr (ia_task_id a)), (''reason'', PStr (ia_reason a))]
        @ (case origin of None \<Rightarrow> [] | Some o1 \<Rightarrow> [(''propagated_from'', PStr o1)]))"

definition apply_one :: "bool \<Rightarrow> InterruptAction \<Rightarrow> string option \<Rightarrow> task_world \<Rightarrow> string \<times> task_world" where
  "apply_one writer a origin w =
     (let w1 = runtime_event writer (ia_session_id a) ''safe_boundary_reached'' [(''task_id'', PStr (ia_task_id a))]
                 (runtime_event writer (ia_session_id a) ''interrupt_received''
                    [(''action_id'', PStr (ia_action_id a)), (''task_id'', PStr (ia_task_id a)),
                     (''session_id'', PStr (ia_session_id a)), (''action_type'', PStr (ia_action_type a)),
                     (''reason'', PStr (ia_reason a)), (''steer_text'', opt_str (ia_steer_text a)),
                     (''schema_version'', PStr ''1.0'')] w);
          tid = ia_task_id a
      in if ia_action_type a = ''pause''
         then (''paused'', interrupt_event writer a ''task_paused'' origin (update_task_status tid ''paused'' w1))
         else if ia_action_type a = ''cancel''
         then (''cancelled'', interrupt_event writer a ''task_cancelled'' origin (store_cancel_task tid (ia_reason a) w1))
         else if ia_action_type a = ''resume''
         then (''running'', interrupt_event writer a ''task_resumed'' origin (update_task_status tid ''running'' w1))
         else (''steered'',
               runtime_event writer (ia_session_id a) ''task_steered''
                 [(''task_id'', PStr tid), (''steer_text'', opt_str (ia_steer_text a))]
                 (update_task_progress tid
                    (case ia_steer_text a of Some s \<Rightarrow> if s = [] then ia_reason a else s | None \<Rightarrow> ia_reason a) 0 w1)))"

definition child_interrupt :: "InterruptAction \<Rightarrow> TaskRecord \<Rightarrow> InterruptAction" where
  "child_interrupt a child =
     a\<lparr>ia_task_id := task_id child, ia_session_id := task_session_id child,
       ia_reason := ''Delegated by a task the owner '' @ interrupt_verb (ia_action_type a) @ '': '' @ ia_reason a,
       ia_steer_text := None\<rparr>"

definition propagate_to_children ::
  "bool \<Rightarrow> InterruptAction \<Rightarrow> string option \<Rightarrow> task_world \<Rightarrow> TaskRecord list \<times> task_world" where
  "propagate_to_children writer a user w =
     (case CASCADE_FROM (ia_action_type a) of
        None \<Rightarrow> ([], w)
      | Some reach \<Rightarrow>
          (let reached = filter (\<lambda>c. status c \<in> set reach) (descendant_tasks w (ia_task_id a) user)
           in (reached, fold (\<lambda>c w. snd (apply_one writer (child_interrupt a c) (Some (ia_task_id a)) w)) reached w)))"

definition apply_at_safe_boundary ::
  "bool \<Rightarrow> InterruptAction \<Rightarrow> bool \<Rightarrow> string option \<Rightarrow> task_world \<Rightarrow> string \<times> task_world" where
  "apply_at_safe_boundary writer a propagate user w =
     (case apply_one writer a None w of
        (result, w1) \<Rightarrow>
          (result, if propagate \<and> CASCADE_FROM (ia_action_type a) \<noteq> None
                   then snd (propagate_to_children writer a user w1) else w1))"

end
