(* ===== verification/Task_Delegation.thy ===== *)
theory Task_Delegation
  imports Task_Manager
begin

text \<open>
  What the task manager keeps true of delegated work: a parent is parked only while a child is
  unfinished, and a task is completed only when its children have ended.
\<close>

subsection \<open>The states of a delegation tree\<close>

type_synonym task_tree = "(string \<times> string option \<times> string) list"

definition wf_tree :: "task_tree \<Rightarrow> bool" where
  "wf_tree T \<longleftrightarrow> distinct (map fst T) \<and> [] \<notin> fst ` set T"

text \<open>Every task parked for its children has an unfinished child, but for the one named.\<close>

definition parked_except :: "string option \<Rightarrow> task_tree \<Rightarrow> bool" where
  "parked_except X T \<longleftrightarrow>
     (\<forall>(i, p, s) \<in> set T. s = ''waiting_for_children'' \<and> Some i \<noteq> X \<longrightarrow> open_children i T \<noteq> [])"

lemma open_children_ne: "open_children i T \<noteq> [] \<longleftrightarrow> (\<exists>j s. (j, Some i, s) \<in> set T \<and> s \<notin> set TERMINAL_TASK_STATES)"
  by (auto simp: open_children_def filter_empty_conv)

lemma set_state_iff:
  "(i, p, s) \<in> set (set_state tid st T) \<longleftrightarrow> (\<exists>s0. (i, p, s0) \<in> set T \<and> s = (if i = tid then st else s0))"
  by (force simp: set_state_def)

lemma wf_unique: "wf_tree T \<Longrightarrow> (i, p, s) \<in> set T \<Longrightarrow> (i, q, t) \<in> set T \<Longrightarrow> p = q \<and> s = t"
  unfolding wf_tree_def by (metis eq_key_imp_eq_value prod.inject)

lemma fst_set_state [simp]: "map fst (set_state tid st T) = map fst T"
  by (simp add: set_state_def case_prod_beta comp_def)

lemma wf_set_state [simp]: "wf_tree (set_state tid st T) \<longleftrightarrow> wf_tree T"
  unfolding wf_tree_def by (simp flip: set_map)

lemma parked_terminal:
  assumes "wf_tree T" and "parked_except (Some tid) T" and "(tid, p, s0) \<in> set T"
    and "st \<noteq> ''waiting_for_children''"
  shows "parked_except p (set_state tid st T)"
  unfolding parked_except_def
proof (clarify)
  fix i q
  assume i: "(i, q, ''waiting_for_children'') \<in> set (set_state tid st T)" "Some i \<noteq> p"
    and none: "open_children i (set_state tid st T) = []"
  then have "i \<noteq> tid" "(i, q, ''waiting_for_children'') \<in> set T"
    using assms(4) by (auto simp: set_state_iff split: if_splits)
  then obtain j s where j: "(j, Some i, s) \<in> set T" "s \<notin> set TERMINAL_TASK_STATES"
    using assms(2) unfolding parked_except_def open_children_ne by fastforce
  then have "j \<noteq> tid" using wf_unique [OF assms(1) assms(3)] i(2) by metis
  then have "open_children i (set_state tid st T) \<noteq> []"
    unfolding open_children_ne using j by (auto simp: set_state_iff)
  with none show False by simp
qed

text \<open>Reopening rows, or moving them between unfinished states other than parked, leaves nothing stranded.\<close>

definition reopens :: "task_tree \<Rightarrow> task_tree \<Rightarrow> bool" where
  "reopens T U \<longleftrightarrow> list_all2 (\<lambda>(i, p, s) (j, q, t). j = i \<and> q = p \<and>
     (t = s \<or> t \<notin> set TERMINAL_TASK_STATES \<and> t \<noteq> ''waiting_for_children'')) T U"

lemma reopens_fst: "reopens T U \<Longrightarrow> map fst U = map fst T"
  unfolding reopens_def by (induction rule: list_all2_induct) auto

lemma reopens_open: "reopens T U \<Longrightarrow> open_children i T \<noteq> [] \<Longrightarrow> open_children i U \<noteq> []"
  unfolding reopens_def by (induction rule: list_all2_induct) (auto simp: open_children_def split: if_splits)

lemma reopens_mem: "reopens T U \<Longrightarrow> (i, p, ''waiting_for_children'') \<in> set U \<Longrightarrow> (i, p, ''waiting_for_children'') \<in> set T"
  unfolding reopens_def by (induction rule: list_all2_induct) auto

lemma parked_reopens: "reopens T U \<Longrightarrow> parked_except X T \<Longrightarrow> parked_except X U"
  unfolding parked_except_def using reopens_open reopens_mem by fastforce

lemma wf_reopens: "reopens T U \<Longrightarrow> wf_tree T \<Longrightarrow> wf_tree U"
  unfolding wf_tree_def using reopens_fst by (metis list.set_map)

lemma reopens_set_state:
  "st \<notin> set TERMINAL_TASK_STATES \<Longrightarrow> st \<noteq> ''waiting_for_children'' \<Longrightarrow> reopens T (set_state tid st T)"
  unfolding reopens_def set_state_def by (simp add: list_all2_map2 list_all2_same case_prod_beta)

lemma state_facts [simp]:
  "''waiting_for_children'' \<notin> set TERMINAL_TASK_STATES" "''completed'' \<in> set TERMINAL_TASK_STATES"
  "''failed'' \<in> set TERMINAL_TASK_STATES" "''cancelled'' \<in> set TERMINAL_TASK_STATES"
  by (simp_all add: TERMINAL_TASK_STATES_def)

lemma parked_hold:
  assumes "parked_except (Some tid) T" and "open_children tid T \<noteq> []"
  shows "parked_except None (set_state tid ''waiting_for_children'' T)"
  unfolding parked_except_def
proof clarify
  fix i p
  assume i: "(i, p, ''waiting_for_children'') \<in> set (set_state tid ''waiting_for_children'' T)"
    and none: "open_children i (set_state tid ''waiting_for_children'' T) = []"
  have "open_children i T \<noteq> []"
    using i assms unfolding parked_except_def by (cases "i = tid") (auto simp: set_state_iff)
  then obtain j s where "(j, Some i, s) \<in> set T" "s \<notin> set TERMINAL_TASK_STATES"
    unfolding open_children_ne by blast
  then have "(j, Some i, if j = tid then ''waiting_for_children'' else s) \<in> set (set_state tid ''waiting_for_children'' T)"
    "(if j = tid then ''waiting_for_children'' else s) \<notin> set TERMINAL_TASK_STATES"
    by (auto simp: set_state_iff)
  then show False using none open_children_ne by blast
qed

subsection \<open>Settling\<close>

text \<open>The tasks above a task: itself, what delegated it, what delegated that, and so on.\<close>

definition parent_link :: "task_tree \<Rightarrow> (string \<times> string) set" where
  "parent_link T = {(j, i). \<exists>s. (j, Some i, s) \<in> set T}"

definition delegators :: "task_tree \<Rightarrow> string \<Rightarrow> string set" where
  "delegators T j = {i. (j, i) \<in> (parent_link T)\<^sup>*}"

lemma parent_link_set_state [simp]: "parent_link (set_state tid st T) = parent_link T"
  unfolding parent_link_def set_state_iff by auto

lemma delegators_set_state [simp]: "delegators (set_state tid st T) j = delegators T j"
  by (simp add: delegators_def)

lemma delegators_refl [simp]: "j \<in> delegators T j"
  by (simp add: delegators_def)

lemma delegators_up: "(j, Some i, s) \<in> set T \<Longrightarrow> delegators T i \<subseteq> delegators T j"
  unfolding delegators_def parent_link_def by (auto intro: converse_rtrancl_into_rtrancl)

text \<open>How a task ends when its children have: failed as soon as one of them failed or was cancelled.\<close>

definition child_states :: "string \<Rightarrow> task_tree \<Rightarrow> string list" where
  "child_states i T = map (\<lambda>(j, p, s). s) (filter (\<lambda>(j, p, s). p = Some i) T)"

definition verdict :: "string \<Rightarrow> task_tree \<Rightarrow> string" where
  "verdict i T =
     (if \<exists>c \<in> set (child_states i T). c \<in> {''failed'', ''cancelled''} then ''failed'' else ''completed'')"

lemma verdict_cases: "verdict i T = ''failed'' \<or> verdict i T = ''completed''"
  by (simp add: verdict_def)

lemma child_states_tree: "child_task_states w i = child_states i (tree w)"
  by (simp add: child_task_states_def child_states_def tree_def filter_map comp_def case_prod_beta)

text \<open>
  What settling may do to a tree from a task upwards: a task above it that was parked for its children
  ends once all of them have, as their states say, and nothing else moves.
\<close>

definition lands :: "string \<Rightarrow> task_tree \<Rightarrow> task_tree \<Rightarrow> bool" where
  "lands start T U \<longleftrightarrow> list_all2 (\<lambda>(i, p, s) (j, q, t). j = i \<and> q = p \<and>
     (t = s \<or> s = ''waiting_for_children'' \<and> i \<in> delegators T start \<and> open_children i U = [] \<and> t = verdict i U)) T U"

definition unparks :: "task_tree \<Rightarrow> task_tree \<Rightarrow> bool" where
  "unparks T U \<longleftrightarrow> list_all2 (\<lambda>(i, p, s) (j, q, t). j = i \<and> q = p \<and>
     (t = s \<or> s = ''waiting_for_children'' \<and> t \<noteq> ''waiting_for_children'')) T U"

lemma lands_refl [simp]: "lands start T T"
  unfolding lands_def by (simp add: list_all2_same case_prod_beta)

lemma lands_unparks: "lands start T U \<Longrightarrow> unparks T U"
proof -
  have "verdict i U \<noteq> ''waiting_for_children''" for i using verdict_cases [of i U] by auto
  then show "lands start T U \<Longrightarrow> unparks T U" unfolding lands_def unparks_def by (auto elim!: list_all2_mono)
qed

lemma unparks_fst: "unparks T U \<Longrightarrow> map fst U = map fst T"
  unfolding unparks_def by (induction rule: list_all2_induct) auto

lemma wf_unparks: "unparks T U \<Longrightarrow> wf_tree T \<Longrightarrow> wf_tree U"
  unfolding wf_tree_def using unparks_fst by (metis list.set_map)

text \<open>Children that have all ended keep their states.\<close>

lemma unparks_ended:
  assumes "unparks T U" and "open_children i T = []"
  shows "open_children i U = [] \<and> child_states i U = child_states i T"
  using assms unfolding unparks_def
  by (induction rule: list_all2_induct) (auto simp: open_children_def child_states_def split: if_splits)

lemma lands_up: "lands pid T U \<Longrightarrow> (tid, Some pid, s) \<in> set T \<Longrightarrow> lands tid T U"
  unfolding lands_def using delegators_up [of tid pid s T] by (auto elim!: list_all2_mono)

lemma set_state_unparks:
  assumes "wf_tree T" and "(pid, p, ''waiting_for_children'') \<in> set T" and "st \<noteq> ''waiting_for_children''"
  shows "unparks T (set_state pid st T)"
proof -
  have "s = ''waiting_for_children''" if "(pid, q, s) \<in> set T" for q s using wf_unique [OF assms(1) that assms(2)] by simp
  then show ?thesis using assms(3) by (auto simp: unparks_def set_state_def list_all2_map2 list_all2_same split: if_splits)
qed

lemma lands_parked:
  assumes wf: "wf_tree T" and mem: "(pid, p, ''waiting_for_children'') \<in> set T" and none: "open_children pid T = []"
    and U: "lands pid (set_state pid (verdict pid T) T) U"
  shows "lands pid T U"
proof -
  let ?st = "verdict pid T"
  have st: "?st \<noteq> ''waiting_for_children''" using verdict_cases [of pid T] by auto
  note kept = unparks_ended [OF set_state_unparks [OF wf mem st] none]
  note ended = unparks_ended [OF lands_unparks [OF U] conjunct1 [OF kept]]
  have verdict: "verdict pid U = ?st" and open_none: "open_children pid U = []"
    using kept ended by (simp_all add: verdict_def)
  have weak: "list_all2 (\<lambda>(i, p, s) (j, q, t). j = i \<and> q = p \<and>
     (t = (if i = pid then ?st else s) \<or> (if i = pid then ?st else s) = ''waiting_for_children''
        \<and> i \<in> delegators T pid \<and> open_children i U = [] \<and> t = verdict i U)) T U"
    using U unfolding lands_def set_state_def list_all2_map1 by (rule list_all2_mono) (auto simp flip: set_state_def)
  have sharp: "t = s \<or> s = ''waiting_for_children'' \<and> i \<in> delegators T pid \<and> open_children i U = [] \<and> t = verdict i U"
    if row: "(i, q, s) \<in> set T" and moved: "t = (if i = pid then ?st else s) \<or>
        (if i = pid then ?st else s) = ''waiting_for_children'' \<and> i \<in> delegators T pid \<and> open_children i U = [] \<and> t = verdict i U"
    for i q s t
  proof (cases "i = pid")
    case True
    then have "s = ''waiting_for_children''" using wf_unique [OF wf row] mem by blast
    then show ?thesis using True moved st verdict open_none by simp
  qed (use moved in simp)
  show ?thesis unfolding lands_def by (rule list.rel_mono_strong [OF weak]) (use sharp in \<open>auto simp del: if_split\<close>)
qed

lemma settle_lands:
  "wf_tree (tree w) \<Longrightarrow> unfinished_children w tid = [] \<Longrightarrow>
     lands tid (set_state tid ''completed'' (tree w)) (tree (snd (complete_task e tid summ w)))"
  "wf_tree (tree w) \<Longrightarrow> lands tid (set_state tid ''failed'' (tree w)) (tree (snd (fail_task e tid reason w)))"
  "wf_tree (tree w) \<Longrightarrow>
     (case parent_task_id child of None \<Rightarrow> settle_parent e child w = w
      | Some pid \<Rightarrow> lands pid (tree w) (tree (settle_parent e child w)))"
proof (induction e tid summ w and e tid reason w and e child w rule: complete_task_fail_task_settle_parent.induct)
  case (1 e tid summ w)
  show ?case
  proof (cases "load_task (store_complete_task tid summ w) tid")
    case None
    then show ?thesis using 1(3) by (simp add: complete_task.simps Let_def)
  next
    case (Some t)
    let ?w = "land_completed e summ (was_unwatched w tid) t (store_complete_task tid summ w)"
    have "(tid, parent_task_id t, status t) \<in> set (tree ?w)" using load_task_tree [OF Some] by simp
    then have "lands tid (tree ?w) (tree (settle_parent e t ?w))"
      using 1(1) [OF _ refl refl Some] 1(2,3) lands_up by (cases "parent_task_id t") auto
    then show ?thesis using Some 1(3) by (simp add: complete_task.simps Let_def)
  qed
next
  case (2 e tid reason w)
  let ?r = "stated (Some reason) NO_STATED_FAILURE_REASON"
  show ?case
  proof (cases "load_task (store_fail_task tid ?r w) tid")
    case None
    then show ?thesis by (simp add: fail_task.simps Let_def)
  next
    case (Some t)
    let ?w = "land_failed e ?r (was_unwatched w tid) t (store_fail_task tid ?r w)"
    have "(tid, parent_task_id t, status t) \<in> set (tree ?w)" using load_task_tree [OF Some] by simp
    then have "lands tid (tree ?w) (tree (settle_parent e t ?w))"
      using 2(1) [OF refl refl refl Some] 2(2) lands_up by (cases "parent_task_id t") auto
    then show ?thesis using Some by (simp add: fail_task.simps Let_def)
  qed
next
  case (3 e child w)
  show ?case
  proof (cases "\<exists>pid p. parent_task_id child = Some pid \<and> pid \<noteq> [] \<and> load_task w pid = Some p
      \<and> status p = ''waiting_for_children'' \<and> unfinished_children w pid = []")
    case False
    then have "settle_parent e child w = w" by (auto split: option.splits simp: settle_parent.simps Let_def)
    then show ?thesis by (simp split: option.split)
  next
    case True
    then obtain pid p where p: "parent_task_id child = Some pid" "pid \<noteq> []" "load_task w pid = Some p"
      "status p = ''waiting_for_children''" "unfinished_children w pid = []" by blast
    let ?failed = "filter (\<lambda>s. s \<in> {''failed'', ''cancelled''}) (child_task_states w pid)"
    have mem: "(pid, parent_task_id p, ''waiting_for_children'') \<in> set (tree w)"
      using load_task_tree [OF p(3)] p(4) by simp
    note up = lands_parked [OF 3(3) mem p(5) [unfolded unfinished_tree]]
    have verdict: "verdict pid (tree w) = (if ?failed = [] then ''completed'' else ''failed'')"
      by (auto simp: verdict_def child_states_tree filter_empty_conv)
    show ?thesis
    proof (cases "?failed = []")
      case True
      then show ?thesis using 3(2) [OF p(1,2,3) _ _ refl refl] p 3(3) up verdict by (simp add: settle_parent.simps Let_def)
    next
      case False
      then show ?thesis using 3(1) [OF p(1,2,3) _ _ refl refl] p 3(3) up verdict by (simp add: settle_parent.simps Let_def)
    qed
  qed
qed

lemma load_task_None: "load_task w tid = None \<Longrightarrow> tid \<notin> fst ` set (tree w)"
  by (auto simp: load_task_def tree_def)

lemma parked_absent:
  "parked_except (Some x) T \<Longrightarrow> (\<And>p. (x, p, ''waiting_for_children'') \<notin> set T) \<Longrightarrow> parked_except None T"
  unfolding parked_except_def by fastforce

lemma parked_unless_open: "parked_except (Some x) T \<Longrightarrow> open_children x T \<noteq> [] \<Longrightarrow> parked_except None T"
  unfolding parked_except_def by fastforce

lemma parked_written:
  assumes "wf_tree (tree w)" and "parked_except (Some tid) (tree w)" and "tree w1 = set_state tid st (tree w)"
    and "st \<noteq> ''waiting_for_children''"
  shows "load_task w1 tid = None \<Longrightarrow> parked_except None (tree w1)"
    and "load_task w1 tid = Some t \<Longrightarrow> parked_except (parent_task_id t) (tree w1)"
proof -
  assume "load_task w1 tid = None"
  then have "tid \<notin> fst ` set (set_state tid st (tree w))" using load_task_None assms(3) by metis
  then have none: "tid \<notin> fst ` set (tree w)" by (metis fst_set_state list.set_map)
  then have "set_state tid st (tree w) = tree w" unfolding set_state_def by (force intro!: map_idI)
  with none assms(2,3) show "parked_except None (tree w1)" by (intro parked_absent [of tid]) force+
next
  assume "load_task w1 tid = Some t"
  then obtain s0 where "(tid, parent_task_id t, s0) \<in> set (tree w)"
    using load_task_tree [of w1 tid t] assms(3) by (auto simp: set_state_iff)
  then show "parked_except (parent_task_id t) (tree w1)"
    unfolding assms(3) by (rule parked_terminal [OF assms(1,2) _ assms(4)])
qed

lemma settle_parks:
  "wf_tree (tree w) \<Longrightarrow> parked_except (Some tid) (tree w) \<Longrightarrow>
     parked_except None (tree (snd (complete_task e tid summ w)))"
  "wf_tree (tree w) \<Longrightarrow> parked_except (Some tid) (tree w) \<Longrightarrow>
     parked_except None (tree (snd (fail_task e tid reason w)))"
  "wf_tree (tree w) \<Longrightarrow> parked_except (parent_task_id child) (tree w) \<Longrightarrow>
     parked_except None (tree (settle_parent e child w))"
proof (induction e tid summ w and e tid reason w and e child w rule: complete_task_fail_task_settle_parent.induct)
  case (1 e tid summ w)
  let ?w1 = "store_complete_task tid summ w"
  note written = parked_written [OF 1(2,3) tree_writes(1) [of tid summ]]
  show ?case
  proof (cases "unfinished_children w tid = []")
    case True
    then show ?thesis using written 1(1) [OF _ refl refl] 1(2)
      by (cases "load_task ?w1 tid") (simp_all add: complete_task.simps Let_def)
  next
    case False
    then show ?thesis using 1(3) parked_hold by (simp add: complete_task.simps unfinished_tree)
  qed
next
  case (2 e tid reason w)
  let ?r = "stated (Some reason) NO_STATED_FAILURE_REASON"
  note written = parked_written [OF 2(2,3) tree_writes(2) [of tid ?r]]
  show ?case using written 2(1) [OF refl refl refl] 2(2)
    by (cases "load_task (store_fail_task tid ?r w) tid") (simp_all add: fail_task.simps Let_def)
next
  case (3 e child w)
  show ?case
  proof (cases "\<exists>pid p. parent_task_id child = Some pid \<and> pid \<noteq> [] \<and> load_task w pid = Some p
      \<and> status p = ''waiting_for_children'' \<and> unfinished_children w pid = []")
    case False
    then have same: "settle_parent e child w = w" by (auto split: option.splits simp: settle_parent.simps Let_def)
    show ?thesis
    proof (cases "parent_task_id child")
      case None
      then show ?thesis using 3(4) same by simp
    next
      case (Some pid)
      have "parked_except None (tree w)"
      proof (cases "unfinished_children w pid = []")
        case True
        have "(pid, q, ''waiting_for_children'') \<notin> set (tree w)" for q
        proof
          assume mem: "(pid, q, ''waiting_for_children'') \<in> set (tree w)"
          then have "pid \<in> fst ` set (tree w)" by (metis fst_conv imageI)
          then obtain p where p: "load_task w pid = Some p" "pid \<noteq> []"
            using load_task_None [of w pid] 3(3) unfolding wf_tree_def by (metis option.exhaust)
          then have "status p = ''waiting_for_children''" using load_task_tree [OF p(1)] wf_unique [OF 3(3) mem] by metis
          then show False using False Some True p by blast
        qed
        then show ?thesis using 3(4) Some parked_absent by simp
      next
        case False
        then show ?thesis using 3(4) Some parked_unless_open [of pid "tree w"] by (simp add: unfinished_tree)
      qed
      then show ?thesis using same by simp
    qed
  next
    case True
    then obtain pid p where p: "parent_task_id child = Some pid" "pid \<noteq> []" "load_task w pid = Some p"
      "status p = ''waiting_for_children''" "unfinished_children w pid = []" by blast
    have park: "parked_except (Some pid) (tree w)" using 3(4) p(1) by simp
    let ?failed = "filter (\<lambda>s. s \<in> {''failed'', ''cancelled''}) (child_task_states w pid)"
    show ?thesis
    proof (cases "?failed = []")
      case True
      then show ?thesis using 3(2) [OF p(1,2,3) _ _ refl refl] p 3(3) park by (simp add: settle_parent.simps Let_def)
    next
      case False
      then show ?thesis using 3(1) [OF p(1,2,3) _ _ refl refl] p 3(3) park by (simp add: settle_parent.simps Let_def)
    qed
  qed
qed

subsection \<open>Steps of the task table\<close>

text \<open>One operation of the manager, or of the store on behalf of the scheduler.\<close>

inductive task_step :: "task_env \<Rightarrow> task_world \<Rightarrow> task_world \<Rightarrow> bool" for e where
  create: "task_step e w (snd (create_task e request w))"
| progress: "task_step e w (snd (update_progress tid step percent w))"
| complete: "task_step e w (snd (complete_task e tid outcome w))"
| fail: "task_step e w (snd (fail_task e tid reason w))"
| cancel: "task_step e w (snd (cancel_task e tid reason w))"
| block: "task_step e w (snd (block_task_on_approval tid reason w))"
| started: "task_step e w (snd (mark_task_started tid trigger w))"
| cycle: "task_step e w (snd (record_cycle_outcome tid result outcome slot w))"
| pause_routine: "task_step e w (snd (pause_routine_after_failures tid n reason w))"
| resume_routine: "task_step e w (snd (resume_paused_routine tid w))"
| continuing: "task_step e w (snd (mark_task_continuing tid tool aid w))"
| resume_blocked: "task_step e w (snd (report_resume_blocked tid reason w))"
| claim: "task_step e w (snd (claim_due_tasks now limit w))"
| fence: "task_step e w (snd (fence_task_claim tid g w))"
| beat: "task_step e w (snd (beat_task_run tid g now w))"
| schedule_now: "task_step e w (snd (schedule_task_now tid user w))"
| reschedule: "task_step e w (reschedule_task tid slot reason w)"
| count_cycle: "task_step e w (snd (count_routine_cycle tid failed w))"
| run_limit: "task_step e w (snd (set_task_run_limit tid m w))"
| tool_limit: "task_step e w (snd (set_task_tool_limit tid m w))"
| cost_limit: "task_step e w (snd (set_task_cost_limit tid c w))"
| tick: "task_step e w (w\<lparr>tw_clock := now\<rparr>)"

lemma reopens_refl [simp]: "reopens T T"
  unfolding reopens_def by (simp add: list_all2_same case_prod_beta)

lemma reopens_trans: "reopens T U \<Longrightarrow> reopens U V \<Longrightarrow> reopens T V"
  unfolding reopens_def by (erule list_all2_trans [rotated 1], assumption) auto

lemma reopens_update_rows:
  assumes "\<And>r. P r \<Longrightarrow> task_id (f r) = task_id r \<and> parent_task_id (f r) = parent_task_id r
      \<and> (status (f r) = status r \<or> status (f r) \<notin> set TERMINAL_TASK_STATES \<and> status (f r) \<noteq> ''waiting_for_children'')"
  shows "reopens (tree w) (tree (update_rows P f w))"
  using assms unfolding reopens_def tree_def update_rows_def
  by (simp add: list_all2_map1 list_all2_map2 list_all2_same)

lemma unfinished_states [simp]:
  "''queued'' \<notin> set TERMINAL_TASK_STATES" "''running'' \<notin> set TERMINAL_TASK_STATES"
  "''continuing'' \<notin> set TERMINAL_TASK_STATES" "''paused'' \<notin> set TERMINAL_TASK_STATES"
  "''waiting_for_approval'' \<notin> set TERMINAL_TASK_STATES"
  by (simp_all add: TERMINAL_TASK_STATES_def)

lemma reopens_claims: "reopens (tree w) (tree (snd (claim_each now tids w)))"
proof (induction tids arbitrary: w)
  case (Cons tid tids)
  have "reopens (tree w) (tree (snd (claim_task now tid w)))"
    unfolding claim_task_def Let_def snd_conv by (rule reopens_update_rows) simp
  then show ?case using reopens_trans [OF _ Cons.IH] by (auto split: prod.splits bool.splits) (metis snd_conv)+
qed simp

lemma tree_clock [simp]: "tree (w\<lparr>tw_clock := now\<rparr>) = tree w" "tree (w\<lparr>tw_next_uuid := n\<rparr>) = tree w"
  "tree (w\<lparr>tw_notices := ns\<rparr>) = tree w"
  by (simp_all add: tree_def)

lemma tree_with_task: "(\<And>t w. tree (f t w) = tree w) \<Longrightarrow> tree (snd (with_task tid f w)) = tree w"
  by (simp add: with_task_def split: option.splits)

text \<open>All but creating and ending tasks only reopens rows.\<close>

lemma step_reopens:
  "reopens (tree w) (tree (snd (update_progress tid step percent w)))"
  "reopens (tree w) (tree (snd (block_task_on_approval tid reason w)))"
  "reopens (tree w) (tree (snd (report_resume_blocked tid reason w)))"
  "reopens (tree w) (tree (snd (mark_task_started tid trigger w)))"
  "reopens (tree w) (tree (snd (record_cycle_outcome tid result outcome slot' w)))"
  "reopens (tree w) (tree (snd (pause_routine_after_failures tid n reason w)))"
  "reopens (tree w) (tree (snd (resume_paused_routine tid w)))"
  "reopens (tree w) (tree (snd (mark_task_continuing tid tool aid w)))"
  "reopens (tree w) (tree (snd (claim_due_tasks now limit w)))"
  "reopens (tree w) (tree (snd (fence_task_claim tid g w)))"
  "reopens (tree w) (tree (snd (beat_task_run tid g now w)))"
  "reopens (tree w) (tree (snd (schedule_task_now tid user w)))"
  "reopens (tree w) (tree (reschedule_task tid slot reason w))"
  "reopens (tree w) (tree (snd (count_routine_cycle tid failed w)))"
  "reopens (tree w) (tree (snd (set_task_run_limit tid m w)))"
  "reopens (tree w) (tree (snd (set_task_tool_limit tid m w)))"
  "reopens (tree w) (tree (snd (set_task_cost_limit tid c w)))"
proof -
  note rows = reopens_update_rows
  have progress: "reopens (tree w) (tree (update_task_progress tid step percent w))"
    unfolding update_task_progress_def update_task_def by (rule rows) simp
  then show "reopens (tree w) (tree (snd (update_progress tid step percent w)))"
    by (simp add: update_progress_def Let_def split: option.splits)
  show "reopens (tree w) (tree (snd (block_task_on_approval tid reason w)))"
    "reopens (tree w) (tree (snd (report_resume_blocked tid reason w)))"
    "reopens (tree w) (tree (snd (mark_task_started tid trigger w)))"
    "reopens (tree w) (tree (snd (record_cycle_outcome tid result outcome slot' w)))"
    by (simp_all add: block_task_on_approval_def report_resume_blocked_def mark_task_started_def
          record_cycle_outcome_def Let_def tree_with_task reopens_set_state)
  show "reopens (tree w) (tree (snd (pause_routine_after_failures tid n reason w)))"
    by (simp add: pause_routine_after_failures_def Let_def tree_with_task reopens_set_state)
  have "reopens (tree w) (tree (snd (store_resume_paused_routine tid w)))"
    unfolding store_resume_paused_routine_def Let_def snd_conv by (rule rows) simp
  then show "reopens (tree w) (tree (snd (resume_paused_routine tid w)))"
    by (auto simp: resume_paused_routine_def tree_with_task split: prod.splits bool.splits)
  have "reopens (tree w) (tree (resume_task_after_approval tid s w))" for s
    unfolding resume_task_after_approval_def by (rule rows) simp
  then show "reopens (tree w) (tree (snd (mark_task_continuing tid tool aid w)))"
    by (simp add: mark_task_continuing_def Let_def tree_with_task)
  show "reopens (tree w) (tree (snd (claim_due_tasks now limit w)))"
    by (simp add: claim_due_tasks_def reopens_claims)
  show "reopens (tree w) (tree (snd (fence_task_claim tid g w)))"
    unfolding fence_task_claim_def Let_def snd_conv by (rule rows) simp
  show "reopens (tree w) (tree (snd (beat_task_run tid g now w)))"
    unfolding beat_task_run_def Let_def snd_conv by (rule rows) simp
  show "reopens (tree w) (tree (snd (schedule_task_now tid user w)))"
    unfolding schedule_task_now_def Let_def by (auto split: option.splits intro!: rows)
  show "reopens (tree w) (tree (reschedule_task tid slot reason w))"
    by (simp add: reopens_set_state)
  show "reopens (tree w) (tree (snd (count_routine_cycle tid failed w)))"
    unfolding count_routine_cycle_def Let_def snd_conv by (rule rows) simp
  show "reopens (tree w) (tree (snd (set_task_run_limit tid m w)))"
    "reopens (tree w) (tree (snd (set_task_tool_limit tid m w)))"
    "reopens (tree w) (tree (snd (set_task_cost_limit tid c w)))"
    unfolding set_task_run_limit_def set_task_tool_limit_def set_task_cost_limit_def set_limit_def snd_conv
    by (rule rows, simp)+
qed

definition tasks_inv :: "task_world \<Rightarrow> bool" where
  "tasks_inv w \<longleftrightarrow> wf_tree (tree w) \<and> parked_except None (tree w)"

lemma settle_wf:
  assumes "wf_tree (tree w)"
  shows "wf_tree (tree (snd (fail_task e tid reason w)))" "wf_tree (tree (settle_parent e child w))"
proof -
  show "wf_tree (tree (snd (fail_task e tid reason w)))"
    using wf_unparks [OF lands_unparks [OF settle_lands(2) [OF assms]]] assms by simp
  show "wf_tree (tree (settle_parent e child w))"
    using settle_lands(3) [OF assms, of e child] wf_unparks [OF lands_unparks] assms by (auto split: option.splits)
qed

lemma parked_weaken: "parked_except None T \<Longrightarrow> parked_except X T"
  unfolding parked_except_def by fastforce

lemma complete_wf: "wf_tree (tree w) \<Longrightarrow> wf_tree (tree (snd (complete_task e tid summ w)))"
proof (cases "unfinished_children w tid = []")
  case True
  then show "wf_tree (tree w) \<Longrightarrow> ?thesis" using wf_unparks [OF lands_unparks [OF settle_lands(1)]] by simp
qed (simp add: complete_task.simps)

lemma cancel_inv:
  assumes "tasks_inv w"
  shows "tasks_inv (snd (cancel_task e tid reason w))"
proof -
  have inv: "wf_tree (tree w)" "parked_except (Some tid) (tree w)"
    using assms parked_weaken by (auto simp: tasks_inv_def)
  let ?r = "stated (Some reason) NO_STATED_CANCEL_REASON"
  note written = parked_written [OF inv tree_writes(3) [of tid ?r]]
  show ?thesis
  proof (cases "load_task (store_cancel_task tid ?r w) tid")
    case None
    then show ?thesis using written(1) inv by (simp add: cancel_task_def Let_def tasks_inv_def)
  next
    case (Some t)
    let ?u = "dispatch_task_hook e ''TaskCompleted'' t
        [(''outcome'', PStr ''cancelled''), (''summary_length'', PInt (int (length ?r)))]
        (task_event ''task_cancelled'' ''task_manager'' [(''task_id'', PStr tid), (''reason'', PStr ?r)] t
          (store_cancel_task tid ?r w))"
    have "snd (cancel_task e tid reason w) = settle_parent e t ?u" using Some by (simp add: cancel_task_def Let_def)
    moreover have "wf_tree (tree ?u)" "parked_except (parent_task_id t) (tree ?u)"
      using inv(1) written(2) [OF _ Some] by simp_all
    ultimately show ?thesis
      using settle_parks(3) [of ?u t e] settle_wf(2) by (simp add: tasks_inv_def)
  qed
qed

lemma create_inv:
  assumes "tasks_inv w"
  shows "tasks_inv (snd (create_task e request w))"
proof -
  have "tasks_inv (insert_task t w0)"
    if "tree w0 = tree w" "task_id t \<noteq> []" "status t = ''queued''" for t w0
  proof (cases "task_id t \<in> set (map task_id (tw_rows w0))")
    case True
    then show ?thesis using assms that by (simp add: insert_task_def tasks_inv_def)
  next
    case False
    have "fst ` set (tree w0) = set (map task_id (tw_rows w0))" by (force simp: tree_def)
    with False have fresh: "task_id t \<notin> fst ` set (tree w)" using that(1) by simp
    have app: "tree (insert_task t w0) = tree w @ [(task_id t, parent_task_id t, ''queued'')]"
      using False that by (simp add: insert_task_def tree_def)
    have "parked_except None (tree w @ [(task_id t, parent_task_id t, ''queued'')])"
      using assms unfolding tasks_inv_def parked_except_def by (auto simp: open_children_def)
    moreover have "wf_tree (tree w @ [(task_id t, parent_task_id t, ''queued'')])"
      using assms fresh that(2) by (simp add: tasks_inv_def wf_tree_def)
    ultimately show ?thesis unfolding tasks_inv_def app by simp
  qed
  note inserted = this
  show ?thesis
  proof (cases "fst (create_task e request w)")
    case (Inl msg)
    then have "tree (snd (create_task e request w)) = tree w"
      by (auto simp: create_task_def Let_def split: option.splits)
    then show ?thesis using assms by (simp add: tasks_inv_def)
  next
    case (Inr t)
    then have "tree (snd (create_task e request w)) = tree (insert_task t (w\<lparr>tw_next_uuid := Suc (tw_next_uuid w)\<rparr>))"
      "task_id t = ''task_'' @ te_uuid e (tw_next_uuid w)" "status t = ''queued''"
      by (auto simp: create_task_def Let_def split: option.splits)
    then show ?thesis using inserted [of "w\<lparr>tw_next_uuid := Suc (tw_next_uuid w)\<rparr>" t]
      by (simp add: tasks_inv_def)
  qed
qed

lemma tasks_inv_reopens: "reopens (tree w) (tree u) \<Longrightarrow> tasks_inv w \<Longrightarrow> tasks_inv u"
  using parked_reopens wf_reopens by (auto simp: tasks_inv_def)

interpretation delegation: step_invariant "task_step e" tasks_inv for e
proof
  fix w u
  assume "task_step e w u" and inv: "tasks_inv w"
  then show "tasks_inv u"
  proof cases
    case (complete tid outcome)
    then show ?thesis using inv settle_parks(1) complete_wf parked_weaken by (simp add: tasks_inv_def)
  next
    case (fail tid reason)
    then show ?thesis using inv settle_parks(2) settle_wf(1) parked_weaken
      by (auto simp: tasks_inv_def)
  next
    case tick
    then show ?thesis using inv by (simp add: tasks_inv_def)
  qed (auto intro: create_inv [OF inv] cancel_inv [OF inv] tasks_inv_reopens [OF step_reopens(1) inv]
        tasks_inv_reopens [OF step_reopens(2) inv] tasks_inv_reopens [OF step_reopens(3) inv]
        tasks_inv_reopens [OF step_reopens(4) inv] tasks_inv_reopens [OF step_reopens(5) inv]
        tasks_inv_reopens [OF step_reopens(6) inv] tasks_inv_reopens [OF step_reopens(7) inv]
        tasks_inv_reopens [OF step_reopens(8) inv] tasks_inv_reopens [OF step_reopens(9) inv]
        tasks_inv_reopens [OF step_reopens(10) inv] tasks_inv_reopens [OF step_reopens(11) inv]
        tasks_inv_reopens [OF step_reopens(12) inv] tasks_inv_reopens [OF step_reopens(13) inv]
        tasks_inv_reopens [OF step_reopens(14) inv] tasks_inv_reopens [OF step_reopens(15) inv]
        tasks_inv_reopens [OF step_reopens(16) inv] tasks_inv_reopens [OF step_reopens(17) inv])
qed

subsection \<open>Properties of delegation\<close>

definition new_world :: task_world where
  "new_world = \<lparr>tw_rows = [], tw_sessions = (\<lambda>_. None), tw_events = [], tw_hooks = [], tw_notices = [],
     tw_clock = ''2026-01-01T00:00:00Z'', tw_next_uuid = 0\<rparr>"

definition quiet_env :: task_env where
  "quiet_env = \<lparr>te_uuid = nat_dec, te_hooks_active = False, te_summary = (\<lambda>x. x), te_delivery = (\<lambda>_ _ _. None)\<rparr>"

definition request_for :: "string option \<Rightarrow> TaskRecord" where
  "request_for parent =
     \<lparr>task_id = [], task_session_id = ''s1'', thread_session_id = None, parent_turn_id = None, parent_task_id = parent,
      title = ''t'', objective = ''o'', status = [], current_step = None, progress_percent = None, created_at = [],
      updated_at = [], completed_at = None, summary = None, priority = None, scheduled_at = None, recurrence = None,
      reminder_at = None, project_id = None, model_profile = None, model = None, surface = ''chat'',
      attachments = PList [], schedule_timezone = None, schedule_anchor = None, schedule_until = None,
      missed_run_policy = None, failed_cycles = 0, delivery_state = None, delivery_detail = None,
      max_run_minutes = None, max_tool_calls = None, max_run_cost_usd = None, claim_generation = 0,
      run_heartbeat_at = None\<rparr>"

text \<open>A parent that finished its own run while its one child is queued.\<close>

definition delegating_world :: task_world where
  "delegating_world =
     (let w1 = snd (create_task quiet_env (request_for None) new_world);
          w2 = snd (create_task quiet_env (request_for (Some ''task_0'')) w1)
      in snd (complete_task quiet_env ''task_0'' (Some ''done'') w2))"

lemma new_world_inv: "tasks_inv new_world"
  by (simp add: tasks_inv_def new_world_def tree_def wf_tree_def parked_except_def)

lemma delegating_reachable: "(task_step quiet_env)\<^sup>*\<^sup>* new_world delegating_world"
  unfolding delegating_world_def Let_def
  by (rule rtranclp.rtrancl_into_rtrancl [OF rtranclp.rtrancl_into_rtrancl [OF r_into_rtranclp
        [of "task_step quiet_env", OF task_step.create] task_step.create] task_step.complete])

lemma delegating_tree:
  "tree delegating_world = [(''task_0'', None, ''waiting_for_children''), (''task_1'', Some ''task_0'', ''queued'')]"
  by code_simp

text \<open>
  C25: A parent is never parked for nothing. In every state the manager and the scheduler can reach from an
  empty table, a task that waits for its children has a child that has not ended.
\<close>

theorem parked_parent_has_open_child:
  assumes "(task_step e)\<^sup>*\<^sup>* new_world w" and "load_task w tid = Some t" and "status t = ''waiting_for_children''"
  shows "unfinished_children w tid \<noteq> []"
proof -
  have "tasks_inv w" by (rule delegation.keep_star [OF assms(1) new_world_inv])
  then show ?thesis
    using load_task_tree [OF assms(2)] assms(3) unfolding tasks_inv_def parked_except_def unfinished_tree by fastforce
qed

theorem parked_parent_has_open_child_witness: "unfinished_children delegating_world ''task_0'' \<noteq> []"
proof -
  obtain t where "load_task delegating_world ''task_0'' = Some t" "status t = ''waiting_for_children''"
    using load_task_None [of delegating_world "''task_0''"] load_task_tree [of delegating_world "''task_0''"]
    by (cases "load_task delegating_world ''task_0''") (auto simp: delegating_tree)
  then show ?thesis using parked_parent_has_open_child [OF delegating_reachable] by blast
qed

definition state_of :: "task_world \<Rightarrow> string \<Rightarrow> string option" where
  "state_of w tid = map_option status (load_task w tid)"

lemma state_of_tree: "wf_tree (tree w) \<Longrightarrow> state_of w i = Some s \<longleftrightarrow> (\<exists>p. (i, p, s) \<in> set (tree w))"
proof -
  assume wf: "wf_tree (tree w)"
  show "state_of w i = Some s \<longleftrightarrow> (\<exists>p. (i, p, s) \<in> set (tree w))"
  proof (cases "load_task w i")
    case None
    then show ?thesis using load_task_None [of w i] by (force simp: state_of_def)
  next
    case (Some t)
    then have "(i, parent_task_id t, status t) \<in> set (tree w)" by (simp add: load_task_tree)
    then show ?thesis using Some wf_unique [OF wf] by (auto simp: state_of_def)
  qed
qed

lemma lands_states:
  assumes "wf_tree T" and "lands start T U" and "(i, p, s) \<in> set T" and "(i, q, t) \<in> set U" and "t \<noteq> s"
  shows "s = ''waiting_for_children'' \<and> i \<in> delegators T start \<and> open_children i U = [] \<and> t = verdict i U"
proof -
  obtain n where n: "n < length T" "T ! n = (i, p, s)" using assms(3) by (auto simp: in_set_conv_nth)
  obtain j r u where u: "U ! n = (j, r, u)" by (cases "U ! n")
  have len: "length U = length T" using list_all2_lengthD [OF assms(2) [unfolded lands_def]] by simp
  have row: "j = i \<and> r = p \<and> (u = s \<or> s = ''waiting_for_children'' \<and> i \<in> delegators T start \<and> open_children i U = [] \<and> u = verdict i U)"
    using list_all2_nthD [OF assms(2) [unfolded lands_def] n(1)] n(2) u by simp
  then have "(i, r, u) \<in> set U" using u n(1) len nth_mem [of n U] by simp
  then have "t = u" by (rule conjunct2 [OF wf_unique [OF wf_unparks [OF lands_unparks [OF assms(2)] assms(1)] assms(4)]])
  with row assms(5) show ?thesis by simp
qed

text \<open>The task that ends itself keeps the state it ends in, also when a cycle leads back to it.\<close>

lemma lands_ended:
  assumes "wf_tree T" and "lands tid (set_state tid st T) U" and "(tid, q, t) \<in> set U" and "st \<noteq> ''waiting_for_children''"
  shows "t = st"
proof (rule ccontr)
  assume "t \<noteq> st"
  have "map fst U = map fst (set_state tid st T)" by (rule unparks_fst [OF lands_unparks [OF assms(2)]])
  then have "fst ` set U = fst ` set T" by (metis fst_set_state set_map)
  then obtain p s where "(tid, p, s) \<in> set T" using imageI [OF assms(3), of fst] by auto
  then have "(tid, p, st) \<in> set (set_state tid st T)" unfolding set_state_iff by auto
  then show False using lands_states [OF _ assms(2) _ assms(3) \<open>t \<noteq> st\<close>] assms(1,4) by simp
qed

lemma open_children_ended: "open_children i T = [] \<Longrightarrow> st \<in> set TERMINAL_TASK_STATES \<Longrightarrow> open_children i (set_state tid st T) = []"
  unfolding open_children_def set_state_def by (fastforce simp: filter_empty_conv split: if_splits)

text \<open>
  The check of the children and the write that parks the task are two statements of the code. Made in one step
  they strand nothing, as the invariant shows. Were the last child to end between them, the parent would be
  parked with no child left to settle it.
\<close>

lemma hold_after_last_child_strands:
  assumes "wf_tree (tree w)" and "unfinished_children w tid = []" and "state_of w tid = Some s" and "(tid, Some tid, s) \<notin> set (tree w)"
  shows "state_of (snd (hold_for_children tid text w)) tid = Some ''waiting_for_children''
    \<and> unfinished_children (snd (hold_for_children tid text w)) tid = []"
proof -
  obtain p where row: "(tid, p, s) \<in> set (tree w)" using assms(3) unfolding state_of_tree [OF assms(1)] by (elim exE)
  have "(tid, p, ''waiting_for_children'') \<in> set (tree (snd (hold_for_children tid text w)))"
    using row by (auto simp: set_state_iff)
  then have "state_of (snd (hold_for_children tid text w)) tid = Some ''waiting_for_children''"
    using state_of_tree [of "snd (hold_for_children tid text w)" tid] assms(1) by auto
  moreover have "open_children tid (set_state tid ''waiting_for_children'' (tree w)) = []"
  proof (rule ccontr)
    assume "open_children tid (set_state tid ''waiting_for_children'' (tree w)) \<noteq> []"
    then obtain j t where j: "(j, Some tid, t) \<in> set (set_state tid ''waiting_for_children'' (tree w))" "t \<notin> set TERMINAL_TASK_STATES"
      unfolding open_children_ne by blast
    then obtain t0 where t0: "(j, Some tid, t0) \<in> set (tree w)" "t = (if j = tid then ''waiting_for_children'' else t0)"
      unfolding set_state_iff by (elim exE conjE)
    show False
    proof (cases "j = tid")
      case True
      then show False using wf_unique [OF assms(1) row] t0(1) assms(4) by metis
    next
      case False
      then have "open_children tid (tree w) \<noteq> []" unfolding open_children_ne using t0 j(2) by auto
      then show False using assms(2) by (simp add: unfinished_tree)
    qed
  qed
  ultimately show ?thesis by (simp add: unfinished_tree)
qed



end
