(* ===== verification/Task_Claims.thy ===== *)
theory Task_Claims
  imports Task_Delegation
begin

text \<open>
  The scheduler's claims (\<^verbatim>\<open>claim_due_tasks\<close>, \<^verbatim>\<open>fence_task_claim\<close> and \<^verbatim>\<open>beat_task_run\<close> of
  \<^verbatim>\<open>storage/stores/tasks.py\<close>): a pass claims due queued tasks within its limit, one worker settles a
  claimed run, and settling the parents of an ended task takes exactly one step for each.
\<close>

subsection \<open>Generations\<close>

text \<open>The task exists and every row of its id has left the generation behind.\<close>

definition fenced :: "string \<Rightarrow> nat \<Rightarrow> task_world \<Rightarrow> bool" where
  "fenced tid g w \<longleftrightarrow>
     tid \<in> task_id ` set (tw_rows w) \<and> (\<forall>r \<in> set (tw_rows w). task_id r = tid \<longrightarrow> g < claim_generation r)"

named_theorems fences

lemma fenced_rows: "tw_rows u = tw_rows w \<Longrightarrow> fenced tid g u = fenced tid g w"
  by (simp add: fenced_def)

lemma fenced_update_rows:
  assumes "\<And>r. P r \<Longrightarrow> task_id (f r) = task_id r \<and> claim_generation r \<le> claim_generation (f r)"
    and "fenced tid g w"
  shows "fenced tid g (update_rows P f w)"
proof -
  let ?h = "\<lambda>r. if P r then f r else r"
  have h: "task_id (?h r) = task_id r" "claim_generation r \<le> claim_generation (?h r)" for r using assms(1) by simp_all
  have "task_id ` set (map ?h (tw_rows w)) = task_id ` set (tw_rows w)"     unfolding set_map image_image h ..
  moreover have "g < claim_generation (?h r)" if "r \<in> set (tw_rows w)" "task_id (?h r) = tid" for r
    using assms(2) that h [of r] unfolding fenced_def by (metis order_less_le_trans)
  ultimately show ?thesis using assms(2) unfolding fenced_def update_rows_def by (simp del: if_split if_image_distrib)
qed

lemma fenced_frame [fences]:
  "fenced tid g (task_event typ actor payload t w) = fenced tid g w"
  "fenced tid g (dispatch_task_hook e name t extra w) = fenced tid g w"
  "fenced tid g (w\<lparr>tw_clock := now\<rparr>) = fenced tid g w"
  "fenced tid g (w\<lparr>tw_next_uuid := n\<rparr>) = fenced tid g w"
  "fenced tid g (w\<lparr>tw_notices := ns\<rparr>) = fenced tid g w"
  by (rule fenced_rows, simp add: task_event_def dispatch_task_hook_def)+

lemma fenced_writes [fences]:
  assumes "fenced tid g w"
  shows "fenced tid g (store_complete_task i text w)" "fenced tid g (store_fail_task i reason w)"
    "fenced tid g (store_cancel_task i reason w)" "fenced tid g (hold_task_for_children i text w)"
    "fenced tid g (store_block_task_on_approval i reason w)" "fenced tid g (pause_routine i reason w)"
    "fenced tid g (reschedule_task i slot reason w)" "fenced tid g (record_task_delivery i state detail w)"
    "fenced tid g (update_task_progress i step percent w)" "fenced tid g (resume_task_after_approval i step w)"
    "fenced tid g (snd (store_resume_paused_routine i w))" "fenced tid g (snd (fence_task_claim i h w))"
    "fenced tid g (snd (beat_task_run i h now w))" "fenced tid g (snd (count_routine_cycle i failed w))"
    "fenced tid g (snd (set_task_run_limit i m w))" "fenced tid g (snd (set_task_tool_limit i m w))"
    "fenced tid g (snd (set_task_cost_limit i c w))" "fenced tid g (snd (claim_task now i w))"
  unfolding store_complete_task_def store_fail_task_def store_cancel_task_def hold_task_for_children_def
    store_block_task_on_approval_def pause_routine_def reschedule_task_def record_task_delivery_def
    update_task_progress_def resume_task_after_approval_def store_resume_paused_routine_def fence_task_claim_def
    beat_task_run_def count_routine_cycle_def set_task_run_limit_def set_task_tool_limit_def
    set_task_cost_limit_def set_limit_def claim_task_def update_task_def Let_def snd_conv
  by (rule fenced_update_rows [OF _ assms], simp)+

lemma fenced_notify [fences]: "fenced tid g w \<Longrightarrow> fenced tid g (notify_owner e t outcome background w)"
  by (simp add: notify_owner_def Let_def fences split: option.splits)

lemma fenced_land [fences]:
  "fenced tid g w \<Longrightarrow> fenced tid g (land_completed e text b t w)"
  "fenced tid g w \<Longrightarrow> fenced tid g (land_failed e reason b t w)"
  by (simp_all add: land_completed_def land_failed_def fences)

lemma fenced_hold [fences]: "fenced tid g w \<Longrightarrow> fenced tid g (snd (hold_for_children i text w))"
  by (simp add: hold_for_children_def Let_def fences split: option.splits)

lemma fenced_settle [fences]:
  "fenced tid g w \<Longrightarrow> fenced tid g (snd (complete_task e i summ w))"
  "fenced tid g w \<Longrightarrow> fenced tid g (snd (fail_task e i reason w))"
  "fenced tid g w \<Longrightarrow> fenced tid g (settle_parent e child w)"
proof (induction e i summ w and e i reason w and e child w rule: complete_task_fail_task_settle_parent.induct)
  case (1 e i summ w)
  then show ?case
    by (cases "load_task (store_complete_task i summ w) i") (simp_all add: complete_task.simps Let_def fences)
next
  case (2 e i reason w)
  then show ?case by (simp add: fail_task.simps Let_def fences split: option.splits)
next
  case (3 e child w)
  then show ?case by (subst settle_parent.simps) (simp add: Let_def split: option.splits)
qed

lemma fenced_with_task: "(\<And>t w. fenced tid g (f t w) = fenced tid g w) \<Longrightarrow>
    fenced tid g (snd (with_task i f w)) = fenced tid g w"
  by (simp add: with_task_def split: option.splits)

lemma fenced_claims [fences]: "fenced tid g w \<Longrightarrow> fenced tid g (snd (claim_each now tids w))"
proof (induction tids arbitrary: w)
  case (Cons i tids)
  then show ?case using fenced_writes(18) [OF Cons.prems, of now i]
    by (cases "claim_task now i w") (auto split: prod.splits bool.splits dest: Cons.IH)
qed simp

lemma fenced_create [fences]:
  assumes "fenced tid g w"
  shows "fenced tid g (snd (create_task e request w))"
proof -
  have "fenced tid g (insert_task t w)" if "fenced tid g w" for t and w :: task_world
    using that by (auto simp: insert_task_def fenced_def)
  then show ?thesis using assms by (simp add: create_task_def Let_def fences split: option.splits)
qed

interpretation fencing: step_invariant "task_step e" "fenced tid g" for e tid g
proof
  fix w u
  assume "task_step e w u" and inv: "fenced tid g w"
  then show "fenced tid g u"
  proof cases
    case (cancel i reason)
    then show ?thesis using inv by (simp add: cancel_task_def Let_def fences split: option.splits)
  next
    case (resume_routine i)
    then show ?thesis using fences(16) [OF inv, of i]
      by (cases "store_resume_paused_routine i w") (auto simp: resume_paused_routine_def fenced_with_task fences split: bool.splits)
  next
    case (schedule_now i user)
    have "fenced tid g (update_rows (\<lambda>r. task_id r = i \<and> status r = ''queued'' \<and> scheduled_at r = None)
        (\<lambda>r. r\<lparr>scheduled_at := Some (tw_clock w), updated_at := tw_clock w, current_step := Some ''Ready to start''\<rparr>) w)"
      by (rule fenced_update_rows [OF _ inv]) simp
    with schedule_now inv show ?thesis by (simp add: schedule_task_now_def Let_def split: option.splits)
  qed (use inv in \<open>simp_all add: fences update_progress_def block_task_on_approval_def mark_task_started_def
      record_cycle_outcome_def pause_routine_after_failures_def mark_task_continuing_def report_resume_blocked_def
      claim_due_tasks_def fenced_with_task Let_def split: option.splits\<close>)
qed

text \<open>
  C28: A claimed run is settled at most once. Of the workers that hold the same claim of a task, the first to
  fence it succeeds, and whatever the manager and the scheduler do afterwards, rescheduling and claiming the
  task again included, no later fence or heartbeat under that claim's generation succeeds.
\<close>

theorem claim_is_settled_once:
  assumes "fence_task_claim tid g w = (True, u)" and "distinct (map task_id (tw_rows w))"
    and "(task_step e)\<^sup>*\<^sup>* u v"
  shows "fence_task_claim tid g v = (False, v) \<and> beat_task_run tid g now v = (False, v)"
proof -
  let ?h = "\<lambda>r. if task_id r = tid \<and> claim_generation r = g then r\<lparr>claim_generation := Suc (claim_generation r)\<rparr> else r"
  have u: "u = update_rows (\<lambda>r. task_id r = tid \<and> claim_generation r = g)
      (\<lambda>r. r\<lparr>claim_generation := Suc (claim_generation r)\<rparr>) w"
    and "filter (\<lambda>r. task_id r = tid \<and> claim_generation r = g) (tw_rows w) \<noteq> []"
    using assms(1) by (auto simp: fence_task_claim_def changed_rows_def Let_def)
  then obtain r where r: "r \<in> set (tw_rows w)" "task_id r = tid" "claim_generation r = g"
    by (auto simp: filter_empty_conv)
  then have "claim_generation x = g" if "x \<in> set (tw_rows w)" "task_id x = tid" for x
    using assms(2) that by (metis distinct_map inj_on_eq_iff)
  then have bumped: "g < claim_generation (?h x)" if "x \<in> set (tw_rows w)" "task_id (?h x) = tid" for x
    using that by (simp split: if_splits)
  have rows: "tw_rows u = map ?h (tw_rows w)" by (simp add: u update_rows_def)
  have "task_id (?h r) \<in> task_id ` set (tw_rows u)" unfolding rows set_map by (intro imageI r(1))
  then have "fenced tid g u" using bumped r(2) unfolding fenced_def rows by (simp del: if_image_distrib split: if_splits)
  then have "fenced tid g v" by (rule fencing.keep_star [OF assms(3)])
  then have none: "\<forall>r \<in> set (tw_rows v). \<not> (task_id r = tid \<and> claim_generation r = g)"
    by (auto simp: fenced_def)
  then have "map (\<lambda>r. if task_id r = tid \<and> claim_generation r = g then f r else r) (tw_rows v) = tw_rows v"
    "map (\<lambda>r. if task_id r = tid \<and> claim_generation r = g \<and> Q r then f r else r) (tw_rows v) = tw_rows v" for f Q
    by (auto intro!: map_idI)
  with none show ?thesis
    by (auto simp: fence_task_claim_def beat_task_run_def changed_rows_def update_rows_def Let_def filter_empty_conv)
qed

text \<open>A world whose one task has been claimed once.\<close>

definition claimed_world :: task_world where
  "claimed_world =
     snd (claim_due_tasks ''2026-01-01T00:01:00Z'' 8
       (snd (schedule_task_now ''task_0'' None (snd (create_task quiet_env (request_for None) new_world)))))"

theorem claim_is_settled_once_witness:
  "fst (fence_task_claim ''task_0'' 1 claimed_world)
   \<and> fence_task_claim ''task_0'' 1 (reschedule_task ''task_0'' ''2026-01-02T00:00:00Z'' ''ran''
        (snd (fence_task_claim ''task_0'' 1 claimed_world)))
      = (False, reschedule_task ''task_0'' ''2026-01-02T00:00:00Z'' ''ran'' (snd (fence_task_claim ''task_0'' 1 claimed_world)))"
proof -
  have "fst (fence_task_claim ''task_0'' 1 claimed_world)" by code_simp
  then have "fence_task_claim ''task_0'' 1 claimed_world = (True, snd (fence_task_claim ''task_0'' 1 claimed_world))"
    by (cases "fence_task_claim ''task_0'' 1 claimed_world") simp
  moreover have "distinct (map task_id (tw_rows claimed_world))" by code_simp
  moreover have "(task_step quiet_env)\<^sup>*\<^sup>* (snd (fence_task_claim ''task_0'' 1 claimed_world))
      (reschedule_task ''task_0'' ''2026-01-02T00:00:00Z'' ''ran'' (snd (fence_task_claim ''task_0'' 1 claimed_world)))"
    by (rule r_into_rtranclp [of "task_step quiet_env", OF task_step.reschedule])
  ultimately show ?thesis
    using claim_is_settled_once [of "''task_0''" 1 claimed_world "snd (fence_task_claim ''task_0'' 1 claimed_world)"]
    by (metis fst_conv)
qed

subsection \<open>A scheduler pass\<close>

text \<open>The row of a task that a pass has just claimed.\<close>

definition started :: "string \<Rightarrow> TaskRecord \<Rightarrow> TaskRecord" where
  "started now r = r\<lparr>status := ''running'', current_step := Some ''Starting scheduled run'', updated_at := now,
     claim_generation := Suc (claim_generation r), run_heartbeat_at := Some now\<rparr>"

lemma task_id_started [simp]: "task_id (started now r) = task_id r"
  by (simp add: started_def)

lemma same_id: "distinct (map task_id rs) \<Longrightarrow> r \<in> set rs \<Longrightarrow> s \<in> set rs \<Longrightarrow> task_id r = task_id s \<Longrightarrow> r = s"
  by (metis distinct_map inj_on_eq_iff)

lemma find_by_id: "distinct (map task_id rs) \<Longrightarrow> r \<in> set rs \<Longrightarrow> List.find (\<lambda>x. task_id x = task_id r) rs = Some r"
  by (induction rs) auto

lemma claim_task_queued:
  assumes "distinct (map task_id (tw_rows w))" and "r \<in> set (tw_rows w)" and "status r = ''queued''"
  shows "claim_task now (task_id r) w = (True, update_rows (\<lambda>x. task_id x = task_id r) (started now) w)"
proof -
  have "status x = ''queued''" if "x \<in> set (tw_rows w)" "task_id x = task_id r" for x
    using same_id [OF assms(1,2) that(1)] that(2) assms(3) by simp
  then have "map (\<lambda>x. if task_id x = task_id r \<and> status x = ''queued'' then f x else x) (tw_rows w)
      = map (\<lambda>x. if task_id x = task_id r then f x else x) (tw_rows w)" for f
    by (intro map_cong refl if_cong) auto
  moreover have "filter (\<lambda>x. task_id x = task_id r \<and> status x = ''queued'') (tw_rows w) \<noteq> []"
    using assms(2,3) by (auto simp: filter_empty_conv)
  ultimately show ?thesis
    by (simp add: claim_task_def changed_rows_def update_rows_def Let_def flip: started_def)
qed

lemma update_rows_update_rows:
  assumes "\<And>r. P r \<Longrightarrow> \<not> Q (f r)" and "\<And>r. Q r \<Longrightarrow> \<not> P r"
  shows "update_rows Q f (update_rows P f w) = update_rows (\<lambda>r. P r \<or> Q r) f w"
  using assms by (simp add: update_rows_def comp_def)

lemma claim_each_bulk:
  assumes "distinct (map task_id (tw_rows w))" and "distinct (map task_id rs)"
    and "set rs \<subseteq> set (tw_rows w)" and "\<forall>r \<in> set rs. status r = ''queued''"
  shows "claim_each now (map task_id rs) w
    = (map (started now) rs, update_rows (\<lambda>r. task_id r \<in> task_id ` set rs) (started now) w)"
  using assms
proof (induction rs arbitrary: w)
  case Nil
  then show ?case by (simp add: update_rows_def)
next
  case (Cons r rs)
  let ?w = "update_rows (\<lambda>x. task_id x = task_id r) (started now) w"
  let ?h = "\<lambda>x. if task_id x = task_id r then started now x else x"
  have rows: "tw_rows ?w = map ?h (tw_rows w)" by (simp add: update_rows_def)
  have ids: "distinct (map task_id (tw_rows ?w))" using Cons.prems(1) unfolding rows by (simp add: comp_def if_distrib cong: if_cong)
  have claimed: "claim_task now (task_id r) w = (True, ?w)" using Cons.prems by (intro claim_task_queued) auto
  have "?h r \<in> set (tw_rows ?w)" unfolding rows set_map using Cons.prems(3) by (intro imageI) simp
  then have loaded: "load_task ?w (task_id r) = Some (started now r)"
    using find_by_id [OF ids, of "started now r"] by (simp add: load_task_def)
  have "set rs \<subseteq> set (tw_rows ?w)"
  proof
    fix x
    assume x: "x \<in> set rs"
    then have "task_id x \<noteq> task_id r" using Cons.prems(2) by (metis distinct.simps(2) image_eqI list.map(2) list.set_map)
    then have "x = ?h x" by simp
    moreover have "?h x \<in> set (tw_rows ?w)" unfolding rows set_map using x Cons.prems(3) by (intro imageI) auto
    ultimately show "x \<in> set (tw_rows ?w)" by simp
  qed
  then have "claim_each now (map task_id rs) ?w
      = (map (started now) rs, update_rows (\<lambda>x. task_id x \<in> task_id ` set rs) (started now) ?w)"
    using Cons.prems ids by (intro Cons.IH) auto
  moreover have "update_rows (\<lambda>x. task_id x \<in> task_id ` set rs) (started now) ?w
      = update_rows (\<lambda>x. task_id x = task_id r \<or> task_id x \<in> task_id ` set rs) (started now) w"
    using Cons.prems(2) by (intro update_rows_update_rows) auto
  ultimately show ?case using claimed loaded by simp
qed

lemma due_rows_facts:
  "length (due_rows w now limit) \<le> limit" "set (due_rows w now limit) \<subseteq> set (tw_rows w)"
  "r \<in> set (due_rows w now limit) \<Longrightarrow> status r = ''queued'' \<and> (\<exists>slot \<le> now. scheduled_at r = Some slot)"
  "distinct (map task_id (tw_rows w)) \<Longrightarrow> distinct (map task_id (due_rows w now limit))"
proof -
  let ?due = "sort_key (\<lambda>r. the (scheduled_at r))
    (filter (\<lambda>r. status r = ''queued'' \<and> (case scheduled_at r of None \<Rightarrow> False | Some t \<Rightarrow> t \<le> now)) (tw_rows w))"
  show "length (due_rows w now limit) \<le> limit" by (simp add: due_rows_def)
  have sub: "set (due_rows w now limit) \<subseteq> set ?due" unfolding due_rows_def by (rule set_take_subset)
  then show "set (due_rows w now limit) \<subseteq> set (tw_rows w)" by (rule subset_trans) simp
  show "r \<in> set (due_rows w now limit) \<Longrightarrow> status r = ''queued'' \<and> (\<exists>slot \<le> now. scheduled_at r = Some slot)"
    using subsetD [OF sub, of r] by (cases "scheduled_at r") simp_all
  assume "distinct (map task_id (tw_rows w))"
  then have "distinct (map task_id ?due)"
    by (simp add: distinct_map) (elim conjE inj_on_subset, simp)
  then show "distinct (map task_id (due_rows w now limit))"
    unfolding due_rows_def take_map [symmetric] by (rule distinct_take)
qed

text \<open>
  A scheduler pass claims the tasks that are due, oldest slot first, and never more than its limit. The
  row-by-row claims of the pass amount to one update: every due task within the limit, and no other row, is
  running under a new generation, and the records returned are those rows as claimed.
\<close>

theorem scheduler_pass_claims_due_tasks:
  assumes "distinct (map task_id (tw_rows w))"
  shows "claim_due_tasks now limit w
      = (map (started now) (due_rows w now limit),
         update_rows (\<lambda>r. task_id r \<in> task_id ` set (due_rows w now limit)) (started now) w)
    \<and> length (due_rows w now limit) \<le> limit
    \<and> (\<forall>r \<in> set (due_rows w now limit). status r = ''queued'' \<and> (\<exists>slot \<le> now. scheduled_at r = Some slot))"
  unfolding claim_due_tasks_def
  using claim_each_bulk [OF assms due_rows_facts(4) [OF assms] due_rows_facts(2)] due_rows_facts(1,3) by simp

theorem scheduler_pass_claims_due_tasks_witness:
  "claim_due_tasks ''2026-01-03T00:00:00Z'' 8 (reschedule_task ''task_0'' ''2026-01-02T00:00:00Z'' ''ran'' claimed_world)
    = (map (started ''2026-01-03T00:00:00Z'') (due_rows (reschedule_task ''task_0'' ''2026-01-02T00:00:00Z'' ''ran'' claimed_world)
         ''2026-01-03T00:00:00Z'' 8),
       update_rows (\<lambda>r. task_id r \<in> task_id ` set (due_rows
         (reschedule_task ''task_0'' ''2026-01-02T00:00:00Z'' ''ran'' claimed_world) ''2026-01-03T00:00:00Z'' 8))
         (started ''2026-01-03T00:00:00Z'') (reschedule_task ''task_0'' ''2026-01-02T00:00:00Z'' ''ran'' claimed_world))
   \<and> length (due_rows (reschedule_task ''task_0'' ''2026-01-02T00:00:00Z'' ''ran'' claimed_world) ''2026-01-03T00:00:00Z'' 8) = 1"
proof -
  have "distinct (map task_id (tw_rows (reschedule_task ''task_0'' ''2026-01-02T00:00:00Z'' ''ran'' claimed_world)))"
    by code_simp
  moreover have "length (due_rows (reschedule_task ''task_0'' ''2026-01-02T00:00:00Z'' ''ran'' claimed_world)
      ''2026-01-03T00:00:00Z'' 8) = 1" by code_simp
  ultimately show ?thesis using scheduler_pass_claims_due_tasks by blast
qed

subsection \<open>Settling, step by step\<close>

lemma events_frame [simp]:
  "tw_events (dispatch_task_hook e name t extra w) = tw_events w"
  "tw_events (notify_owner e t outcome background w) = tw_events w"
  "tw_events (update_rows P f w) = tw_events w"
  by (simp_all add: dispatch_task_hook_def notify_owner_def record_task_delivery_def update_rows_def Let_def split: option.splits)

lemma events_ended [simp]:
  "tw_events (store_complete_task tid text w) = tw_events w" "tw_events (store_fail_task tid reason w) = tw_events w"
  "tw_events (store_cancel_task tid reason w) = tw_events w"
  by (simp_all add: store_complete_task_def store_fail_task_def store_cancel_task_def update_task_def)

definition parked :: "task_tree \<Rightarrow> string set" where
  "parked T = {i. \<exists>p. (i, p, ''waiting_for_children'') \<in> set T}"

text \<open>What an event says of which task, and what it should say of a task in the world it is read in.\<close>

definition landing :: "event \<Rightarrow> pyval \<times> string" where
  "landing ev = (dict_get (ev_payload ev) ''task_id'', ev_type ev)"

definition landed_as :: "task_world \<Rightarrow> string \<Rightarrow> pyval \<times> string" where
  "landed_as u i = (PStr i, ''task_'' @ the (state_of u i))"

text \<open>
  The events between two worlds are the end of one task and then one end for each task that is no longer
  parked, all of them above the first, each with the state its task is left in.
\<close>

definition settled_once :: "string \<Rightarrow> task_world \<Rightarrow> task_world \<Rightarrow> bool" where
  "settled_once tid w u \<longleftrightarrow> tid \<notin> parked (tree u)
     \<and> (\<exists>ids. map landing (tw_events u) = map landing (tw_events w) @ map (landed_as u) (tid # ids)
          \<and> distinct (tid # ids) \<and> set ids = parked (tree w) - parked (tree u) - {tid}
          \<and> set ids \<subseteq> delegators (tree w) tid)"

definition parents_settled_once :: "task_world \<Rightarrow> task_world \<Rightarrow> bool" where
  "parents_settled_once w u \<longleftrightarrow> (\<exists>ids. map landing (tw_events u) = map landing (tw_events w) @ map (landed_as u) ids
     \<and> distinct ids \<and> set ids = parked (tree w) - parked (tree u))"

lemma parked_set_state: "st \<noteq> ''waiting_for_children'' \<Longrightarrow> parked (set_state tid st T) = parked T - {tid}"
  unfolding parked_def set_state_iff by auto

lemma unparked_moves:
  assumes "wf_tree T" and "lands start T U" and "i \<in> parked T" and "i \<notin> parked U"
  shows "i \<in> delegators T start"
proof -
  from assms(3) obtain p where p: "(i, p, ''waiting_for_children'') \<in> set T" by (auto simp: parked_def)
  have "fst ` set U = fst ` set T" using unparks_fst [OF lands_unparks [OF assms(2)]] by (metis set_map)
  then have "i \<in> fst ` set U" using p by force
  then obtain q t where q: "(i, q, t) \<in> set U" by auto
  then have "t \<noteq> ''waiting_for_children''" using assms(4) by (auto simp: parked_def)
  then show ?thesis using lands_states [OF assms(1,2) p q] by blast
qed

lemma ended_once:
  assumes wf: "wf_tree (tree w)" and "load_task w tid \<noteq> None" and st: "st \<noteq> ''waiting_for_children''"
    and written: "tree w1 = set_state tid st (tree w)"
    and logged: "map landing (tw_events w1) = map landing (tw_events w) @ [(PStr tid, ''task_'' @ st)]"
    and lands: "lands tid (tree w1) (tree u)" and parents: "parents_settled_once w1 u"
  shows "settled_once tid w u"
proof -
  have wf1: "wf_tree (tree w1)" using wf written by simp
  have wfu: "wf_tree (tree u)" by (rule wf_unparks [OF lands_unparks [OF lands] wf1])
  obtain t where "load_task w tid = Some t" using assms(2) by blast
  then have "tid \<in> fst ` set (tree w)" using load_task_tree by force
  moreover have "fst ` set (tree u) = fst ` set (tree w)"
    using unparks_fst [OF lands_unparks [OF lands]] fst_set_state [of tid st "tree w"] written by (metis set_map)
  ultimately obtain q s where q: "(tid, q, s) \<in> set (tree u)" by (metis imageE prod.collapse)
  have "s = st" using lands_ended [OF wf _ q st] lands written by simp
  then have state: "state_of u tid = Some st" using q state_of_tree [OF wfu] by blast
  have out: "tid \<notin> parked (tree u)"
  proof
    assume "tid \<in> parked (tree u)"
    then obtain p where "(tid, p, ''waiting_for_children'') \<in> set (tree u)" by (auto simp: parked_def)
    then show False using wf_unique [OF wfu q] \<open>s = st\<close> st by blast
  qed
  obtain ids where ids: "map landing (tw_events u) = map landing (tw_events w1) @ map (landed_as u) ids" "distinct ids"
    "set ids = parked (tree w1) - parked (tree u)" using parents unfolding parents_settled_once_def by blast
  have unparked: "set ids = parked (tree w) - parked (tree u) - {tid}" using ids(3) parked_set_state [OF st] written by auto
  have "set ids \<subseteq> delegators (tree w) tid" using unparked_moves [OF wf1 lands] ids(3) written by auto
  then show ?thesis
    unfolding settled_once_def using out ids(1,2) logged unparked state by (intro conjI exI [of _ ids]) (simp_all add: landed_as_def)
qed

lemma landing_land [simp]:
  "map landing (tw_events (land_completed e text b t w)) = map landing (tw_events w) @ [(PStr (task_id t), ''task_completed'')]"
  "map landing (tw_events (land_failed e reason b t w)) = map landing (tw_events w) @ [(PStr (task_id t), ''task_failed'')]"
  by (simp_all add: land_completed_def land_failed_def task_event_def landing_def dict_get_def)

lemma same_settled_once [simp]: "parents_settled_once w w"
  by (simp add: parents_settled_once_def)

lemma parent_lands:
  "wf_tree (tree w) \<Longrightarrow> (tid, parent_task_id t, s) \<in> set (tree w) \<Longrightarrow> lands tid (tree w) (tree (settle_parent e t w))"
  using settle_lands(3) [of w e t] lands_up by (cases "parent_task_id t") auto

lemma settle_logs:
  "wf_tree (tree w) \<Longrightarrow> unfinished_children w tid = [] \<Longrightarrow> load_task w tid \<noteq> None \<Longrightarrow>
     settled_once tid w (snd (complete_task e tid summ w))"
  "wf_tree (tree w) \<Longrightarrow> load_task w tid \<noteq> None \<Longrightarrow> settled_once tid w (snd (fail_task e tid reason w))"
  "wf_tree (tree w) \<Longrightarrow> parents_settled_once w (settle_parent e child w)"
proof (induction e tid summ w and e tid reason w and e child w rule: complete_task_fail_task_settle_parent.induct)
  case (1 e tid summ w)
  then obtain t where t: "load_task (store_complete_task tid summ w) tid = Some t"
    using load_task_None [of "store_complete_task tid summ w" tid] load_task_tree [of w tid] by (force simp: set_state_def)
  let ?w = "land_completed e summ (was_unwatched w tid) t (store_complete_task tid summ w)"
  have row: "task_id t = tid" "(tid, parent_task_id t, status t) \<in> set (tree ?w)" using load_task_tree [OF t] by simp_all
  have "settled_once tid w (settle_parent e t ?w)"
    by (rule ended_once [of w tid "''completed''" ?w])
      (use 1(1) [OF _ refl refl t] 1(2,3,4) row parent_lands [of ?w tid t _ e] in simp_all)
  then show ?case using 1(3) t by (simp add: complete_task.simps Let_def)
next
  case (2 e tid reason w)
  let ?r = "stated (Some reason) NO_STATED_FAILURE_REASON"
  obtain t where t: "load_task (store_fail_task tid ?r w) tid = Some t"
    using 2 load_task_None [of "store_fail_task tid ?r w" tid] load_task_tree [of w tid] by (force simp: set_state_def)
  let ?w = "land_failed e ?r (was_unwatched w tid) t (store_fail_task tid ?r w)"
  have row: "task_id t = tid" "(tid, parent_task_id t, status t) \<in> set (tree ?w)" using load_task_tree [OF t] by simp_all
  have "settled_once tid w (settle_parent e t ?w)"
    by (rule ended_once [of w tid "''failed''" ?w])
      (use 2(1) [OF refl refl refl t] 2(2,3) row parent_lands [of ?w tid t _ e] in simp_all)
  then show ?case using t by (simp add: fail_task.simps Let_def)
next
  case (3 e child w)
  show ?case
  proof (cases "\<exists>pid p. parent_task_id child = Some pid \<and> pid \<noteq> [] \<and> load_task w pid = Some p
      \<and> status p = ''waiting_for_children'' \<and> unfinished_children w pid = []")
    case False
    then have "settle_parent e child w = w" by (auto split: option.splits simp: settle_parent.simps Let_def)
    then show ?thesis by simp
  next
    case True
    then obtain pid p where p: "parent_task_id child = Some pid" "pid \<noteq> []" "load_task w pid = Some p"
      "status p = ''waiting_for_children''" "unfinished_children w pid = []" by blast
    let ?failed = "filter (\<lambda>s. s \<in> {''failed'', ''cancelled''}) (child_task_states w pid)"
    have "settled_once pid w (settle_parent e child w)"
    proof (cases "?failed = []")
      case True
      then show ?thesis using 3(2) [OF p(1,2,3) _ _ refl refl] p 3(3) by (simp add: settle_parent.simps Let_def)
    next
      case False
      then show ?thesis using 3(1) [OF p(1,2,3) _ _ refl refl] p 3(3) by (simp add: settle_parent.simps Let_def)
    qed
    moreover have "pid \<in> parked (tree w)" using load_task_tree [OF p(3)] p(4) by (auto simp: parked_def)
    ultimately show ?thesis
      unfolding settled_once_def parents_settled_once_def by (elim conjE exE, rule_tac x = "pid # ids" in exI) auto
  qed
qed

text \<open>
  C27: Settling ends each task above once. Whatever the parent links are, a cycle included, failing, cancelling
  or completing a task (completing it when no child is unfinished) logs the end of the task and then one end for
  each other task that it unparks, no other event and none twice. The unparked tasks lie above the task, and
  each event names the state its task is left in.
\<close>

theorem settling_lands_each_parent_once:
  assumes "wf_tree (tree w)" and "load_task w tid \<noteq> None"
  shows "settled_once tid w (snd (fail_task e tid reason w))
    \<and> settled_once tid w (snd (cancel_task e tid reason w))
    \<and> (unfinished_children w tid = [] \<longrightarrow> settled_once tid w (snd (complete_task e tid outcome w)))"
proof (intro conjI impI)
  show "settled_once tid w (snd (fail_task e tid reason w))" by (rule settle_logs(2) [OF assms])
  show "settled_once tid w (snd (complete_task e tid outcome w))" if "unfinished_children w tid = []"
    by (rule settle_logs(1) [OF assms(1) that assms(2)])
  let ?r = "stated (Some reason) NO_STATED_CANCEL_REASON"
  obtain t where t: "load_task (store_cancel_task tid ?r w) tid = Some t"
    using assms load_task_None [of "store_cancel_task tid ?r w" tid] load_task_tree [of w tid] by (force simp: set_state_def)
  let ?w = "dispatch_task_hook e ''TaskCompleted'' t [(''outcome'', PStr ''cancelled''), (''summary_length'', PInt (int (length ?r)))]
      (task_event ''task_cancelled'' ''task_manager'' [(''task_id'', PStr tid), (''reason'', PStr ?r)] t (store_cancel_task tid ?r w))"
  have row: "(tid, parent_task_id t, status t) \<in> set (tree ?w)" using load_task_tree [OF t] by simp
  have wf: "wf_tree (tree ?w)" using assms(1) by simp
  have "map landing (tw_events ?w) = map landing (tw_events w) @ [(PStr tid, ''task_'' @ ''cancelled'')]"
    by (simp add: task_event_def landing_def dict_get_def)
  then have "settled_once tid w (settle_parent e t ?w)"
    using assms settle_logs(3) [OF wf] parent_lands [OF wf row] by (intro ended_once [of w tid "''cancelled''" ?w]) simp_all
  then show "settled_once tid w (snd (cancel_task e tid reason w))" using t by (simp add: cancel_task_def Let_def)
qed

theorem settling_lands_each_parent_once_witness:
  "settled_once ''task_1'' delegating_world (snd (complete_task quiet_env ''task_1'' None delegating_world))
   \<and> parked (tree delegating_world) = {''task_0''}
   \<and> parked (tree (snd (complete_task quiet_env ''task_1'' None delegating_world))) = {}"
proof -
  have "wf_tree (tree delegating_world)" by (simp add: delegating_tree wf_tree_def)
  moreover have "load_task delegating_world ''task_1'' \<noteq> None"
    using load_task_None [of delegating_world "''task_1''"] by (auto simp: delegating_tree)
  moreover have "unfinished_children delegating_world ''task_1'' = []" by code_simp
  moreover have "parked (tree delegating_world) = {''task_0''}" by (auto simp: delegating_tree parked_def)
  moreover have "tree (snd (complete_task quiet_env ''task_1'' None delegating_world))
      = [(''task_0'', None, ''completed''), (''task_1'', Some ''task_0'', ''completed'')]" by code_simp
  ultimately show ?thesis using settling_lands_each_parent_once by (auto simp: parked_def)
qed

end
