(* ===== verification/Goal_Store.thy ===== *)
theory Goal_Store
  imports Task_Claims
begin

text \<open>
  Durable goals and their execution profiles: the lifecycle tables of \<^verbatim>\<open>goals/lifecycle.py\<close>, the rows and
  the plan validation of \<^verbatim>\<open>goals/store.py\<close>, and the profiles of \<^verbatim>\<open>goals/profiles.py\<close>.

  The criterion and step rows of a goal are kept with it, in position order. A plan arrives as the typed
  request of the routes. Money is a rational; the rounding of a float to two places is a parameter.
\<close>

subsection \<open>Lifecycle\<close>

definition GOAL_STATES :: "string list" where
  "GOAL_STATES = [''draft'', ''ready'', ''running'', ''waiting'', ''paused'',
     ''completed'', ''partial'', ''failed'', ''stopped'', ''archived'']"

definition ACTIVE_STATES :: "string list" where
  "ACTIVE_STATES = [''running'', ''waiting'']"

definition SETTLED_STATES :: "string list" where
  "SETTLED_STATES = [''completed'', ''failed'', ''partial'', ''stopped'']"

definition ALLOWED_ACTIONS :: "(string \<times> string list) list" where
  "ALLOWED_ACTIONS =
     [(''draft'', [''edit'', ''accept'', ''archive'']),
      (''ready'', [''start'', ''confirm'', ''stop'']),
      (''running'', [''pause'', ''confirm'', ''stop'']),
      (''waiting'', [''pause'', ''confirm'', ''stop'']),
      (''paused'', [''resume'', ''confirm'', ''stop'']),
      (''completed'', [''archive'']),
      (''partial'', [''confirm'', ''archive'']),
      (''failed'', [''archive'']),
      (''stopped'', [''archive'']),
      (''archived'', [])]"

definition REASONS :: "(string \<times> string) list" where
  "REASONS =
     [(''needs_decision'', ''A step is waiting for your decision''),
      (''needs_answer'', ''A step is waiting for your answer''),
      (''waiting_on_delegated_work'', ''A step is waiting on work it delegated''),
      (''step_paused'', ''A step is paused''),
      (''profile_blocks_model'', ''The execution profile does not allow the model this work would use''),
      (''no_execution_profile'', ''No execution profile is chosen in Settings''),
      (''budget_exhausted'', ''The goal's budget is used up''),
      (''owner_paused'', ''You paused this goal''),
      (''profile_changed'', ''The execution profile changed since this goal was accepted''),
      (''steps_blocked'', ''A step could not start because a step it depends on did not finish'')]"

definition STEP_SETTLED :: "string list" where
  "STEP_SETTLED = [''done'', ''failed'', ''stopped'', ''blocked'']"

definition VALIDATORS :: "string list" where
  "VALIDATORS = [''steps_finish'', ''owner_confirms'']"

definition TASK_TO_STEP :: "(string \<times> string \<times> string) list" where
  "TASK_TO_STEP =
     [(''queued'', ''running'', ''''), (''running'', ''running'', ''''), (''continuing'', ''running'', ''''),
      (''cancelling'', ''running'', ''''), (''waiting_for_approval'', ''waiting'', ''needs_decision''),
      (''waiting_for_user_answer'', ''waiting'', ''needs_answer''),
      (''waiting_for_children'', ''waiting'', ''waiting_on_delegated_work''),
      (''paused'', ''waiting'', ''step_paused''), (''completed'', ''done'', ''''), (''failed'', ''failed'', ''''),
      (''cancelled'', ''stopped'', '''')]"

definition allowed_actions :: "string \<Rightarrow> string list" where
  "allowed_actions st = (case map_of ALLOWED_ACTIONS st of None \<Rightarrow> [] | Some l \<Rightarrow> l)"

definition step_from_task :: "string option \<Rightarrow> string \<times> string" where
  "step_from_task st =
     (case st of
        None \<Rightarrow> (''failed'', ''task_missing'')
      | Some x \<Rightarrow> (case map_of TASK_TO_STEP x of None \<Rightarrow> (''waiting'', ''step_paused'') | Some p \<Rightarrow> p))"

subsection \<open>Plans\<close>

type_synonym goal_error = "string \<times> string"

record criterion_input =
  ci_text :: string
  ci_mandatory :: bool
  ci_validator :: string

record step_input =
  si_title :: string
  si_instruction :: string
  si_surface :: string
  si_depends_on :: "int list"
  si_criteria :: "int list"

record criterion =
  criterion_id :: string
  c_text :: string
  mandatory :: bool
  validator :: string
  evidence_kind :: "string option"
  evidence_ref :: "string option"
  evidence_note :: "string option"
  verified_at :: "string option"

record goal_step =
  step_id :: string
  s_title :: string
  instruction :: string
  s_surface :: string
  depends_on :: "string list"
  criterion_ids :: "string list"
  s_state :: string
  s_reason :: string
  s_task_id :: "string option"
  s_updated_at :: string

record plan =
  p_model_profile :: "string option"
  p_model :: "string option"
  p_title :: string
  p_objective :: string
  p_criteria :: "criterion list"
  p_steps :: "goal_step list"

definition MAX_CRITERIA :: nat where "MAX_CRITERIA = 12"
definition MAX_STEPS :: nat where "MAX_STEPS = 12"
definition STEP_SURFACES :: "string list" where "STEP_SURFACES = [''chat'', ''build'']"

definition clean_text :: "string \<Rightarrow> string \<Rightarrow> nat \<Rightarrow> bool \<Rightarrow> goal_error + string" where
  "clean_text value field limit required =
     (let txt = str_strip value
      in if required \<and> txt = [] then Inl (''goal_field_required'', field)
         else if length txt > limit then Inl (''goal_field_too_long'', field)
         else Inr txt)"

fun clean_criteria :: "nat \<Rightarrow> criterion_input list \<Rightarrow> goal_error + criterion list" where
  "clean_criteria i [] = Inr []"
| "clean_criteria i (entry # rest) =
     (let v = (if ci_validator entry = [] then ''owner_confirms'' else ci_validator entry)
      in if v \<notin> set VALIDATORS then Inl (''goal_validator_unknown'', v)
         else (case clean_text (ci_text entry) (''criteria['' @ nat_dec i @ ''].text'') 300 True of
                 Inl err \<Rightarrow> Inl err
               | Inr txt \<Rightarrow>
                   (case clean_criteria (Suc i) rest of
                      Inl err \<Rightarrow> Inl err
                    | Inr cs \<Rightarrow>
                        Inr (\<lparr>criterion_id = ''c'' @ nat_dec (Suc i), c_text = txt, mandatory = ci_mandatory entry,
                              validator = v, evidence_kind = None, evidence_ref = None, evidence_note = None,
                              verified_at = None\<rparr> # cs))))"

definition index_ids :: "string \<Rightarrow> nat \<Rightarrow> int list \<Rightarrow> string list option" where
  "index_ids prefix bound xs =
     (if \<forall>x \<in> set xs. 0 \<le> x \<and> x < int bound
      then Some (sort (remdups (map (\<lambda>x. prefix @ nat_dec (Suc (nat x))) xs))) else None)"

definition clean_step :: "string \<Rightarrow> nat \<Rightarrow> bool \<Rightarrow> nat \<Rightarrow> step_input \<Rightarrow> goal_error + goal_step" where
  "clean_step now n_criteria has_project i entry =
     (let place = ''steps['' @ nat_dec i @ '']'';
          surf = (if si_surface entry = [] then ''chat'' else si_surface entry)
      in if surf \<notin> set STEP_SURFACES then Inl (''goal_step_surface_unknown'', surf)
         else if surf = ''build'' \<and> \<not> has_project then Inl (''goal_build_step_requires_project'', place)
         else (case index_ids ''s'' i (si_depends_on entry) of
                 None \<Rightarrow> Inl (''goal_step_dependency_invalid'', place)
               | Some deps \<Rightarrow>
                   (case index_ids ''c'' n_criteria (si_criteria entry) of
                      None \<Rightarrow> Inl (''goal_step_criterion_invalid'', place)
                    | Some linked \<Rightarrow>
                        (case clean_text (si_title entry) (place @ ''.title'') 120 True of
                           Inl err \<Rightarrow> Inl err
                         | Inr ttl \<Rightarrow>
                             (case clean_text (si_instruction entry) (place @ ''.instruction'') 4000 True of
                                Inl err \<Rightarrow> Inl err
                              | Inr ins \<Rightarrow>
                                  Inr \<lparr>step_id = ''s'' @ nat_dec (Suc i), s_title = ttl, instruction = ins,
                                       s_surface = surf, depends_on = deps, criterion_ids = linked,
                                       s_state = ''pending'', s_reason = [], s_task_id = None,
                                       s_updated_at = now\<rparr>)))))"

fun clean_steps :: "string \<Rightarrow> nat \<Rightarrow> bool \<Rightarrow> nat \<Rightarrow> step_input list \<Rightarrow> goal_error + goal_step list" where
  "clean_steps now n_criteria has_project i [] = Inr []"
| "clean_steps now n_criteria has_project i (entry # rest) =
     (case clean_step now n_criteria has_project i entry of
        Inl err \<Rightarrow> Inl err
      | Inr s \<Rightarrow> (case clean_steps now n_criteria has_project (Suc i) rest of
                     Inl err \<Rightarrow> Inl err | Inr ss \<Rightarrow> Inr (s # ss)))"

definition chosen :: "string option \<Rightarrow> string option" where
  "chosen v = (case v of None \<Rightarrow> None | Some x \<Rightarrow> (let t = str_strip x in if t = [] then None else Some t))"

definition clean_plan ::
  "string \<Rightarrow> string \<Rightarrow> string \<Rightarrow> criterion_input list \<Rightarrow> step_input list \<Rightarrow> bool \<Rightarrow> string option \<Rightarrow> string option
     \<Rightarrow> goal_error + plan" where
  "clean_plan now ttl obj criteria steps has_project mprof mdl =
     (if length criteria > MAX_CRITERIA then Inl (''goal_too_many_criteria'', [])
      else if length steps > MAX_STEPS then Inl (''goal_too_many_steps'', [])
      else (case clean_criteria 0 criteria of
              Inl err \<Rightarrow> Inl err
            | Inr cs \<Rightarrow>
                (case clean_steps now (length cs) has_project 0 steps of
                   Inl err \<Rightarrow> Inl err
                 | Inr ss \<Rightarrow>
                     if (chosen mprof = None) \<noteq> (chosen mdl = None) then Inl (''goal_model_pair_required'', [])
                     else (case clean_text ttl ''title'' 120 True of
                             Inl err \<Rightarrow> Inl err
                           | Inr t \<Rightarrow>
                               (case clean_text obj ''objective'' 4000 False of
                                  Inl err \<Rightarrow> Inl err
                                | Inr ob \<Rightarrow>
                                    Inr \<lparr>p_model_profile = chosen mprof, p_model = chosen mdl, p_title = t,
                                         p_objective = ob, p_criteria = cs, p_steps = ss\<rparr>)))))"

subsection \<open>Execution profiles\<close>

record ExecutionProfile =
  xp_id :: string
  xp_version :: int
  xp_name :: string
  xp_template :: string
  allow_local :: bool
  allow_hosted :: bool
  allowed_providers :: "string list"
  memory_to_hosted :: bool
  xp_max_step_runs :: int
  xp_max_cost_usd :: "rat option"
  xp_created_at :: string

definition allows :: "ExecutionProfile \<Rightarrow> string \<Rightarrow> bool \<Rightarrow> bool" where
  "allows p provider local =
     (if local \<and> \<not> allow_local p then False
      else if \<not> local \<and> \<not> allow_hosted p then False
      else allowed_providers p = [] \<or> provider \<in> set (allowed_providers p))"

record profile_fields =
  pf_name :: "string option"
  pf_allow_local :: "bool option"
  pf_allow_hosted :: "bool option"
  pf_providers :: "string list option"
  pf_memory_to_hosted :: "bool option"
  pf_max_step_runs :: "int option"
  pf_max_cost_usd :: "rat option option"

definition TEMPLATES :: "(string \<times> string \<times> bool \<times> bool \<times> bool) list" where
  "TEMPLATES =
     [(''private_local'', ''Private local'', True, False, False),
      (''balanced'', ''Balanced'', True, True, False),
      (''cloud_first'', ''Cloud-first'', True, True, True)]"

definition DEFAULT_MAX_STEP_RUNS :: int where "DEFAULT_MAX_STEP_RUNS = 10"
definition MAX_STEP_RUNS_CEILING :: int where "MAX_STEP_RUNS_CEILING = 100"
definition MAX_COST_CEILING_USD :: rat where "MAX_COST_CEILING_USD = 1000"
definition MAX_PROVIDERS :: nat where "MAX_PROVIDERS = 20"

text \<open>\<^verbatim>\<open>str.isalnum\<close> on the first 256 code points.\<close>

definition is_alnum :: "char \<Rightarrow> bool" where
  "is_alnum c =
     (let n = (of_char c :: nat)
      in 48 \<le> n \<and> n \<le> 57 \<or> 65 \<le> n \<and> n \<le> 90 \<or> 97 \<le> n \<and> n \<le> 122 \<or> n \<in> {170, 178, 179, 181, 185, 186, 188, 189, 190}
         \<or> 192 \<le> n \<and> n \<noteq> 215 \<and> n \<noteq> 247)"

fun clean_providers :: "string list \<Rightarrow> string list \<Rightarrow> string list option" where
  "clean_providers acc [] = Some acc"
| "clean_providers acc (entry # rest) =
     (let txt = str_strip entry
      in if txt = [] \<or> length txt > 60 \<or> \<not> (\<forall>c \<in> set txt. is_alnum c \<or> c \<in> set ''-_.'') then None
         else clean_providers (if txt \<in> set acc then acc else acc @ [txt]) rest)"

definition merged :: "'a option \<Rightarrow> 'a \<Rightarrow> 'a" where
  "merged v b = (case v of None \<Rightarrow> b | Some x \<Rightarrow> x)"

definition clean_fields :: "(rat \<Rightarrow> rat) \<Rightarrow> profile_fields \<Rightarrow> ExecutionProfile \<Rightarrow> string + ExecutionProfile" where
  "clean_fields round2 f base =
     (let nm = str_strip (merged (pf_name f) (xp_name base));
          local = merged (pf_allow_local f) (allow_local base);
          hosted = merged (pf_allow_hosted f) (allow_hosted base);
          raw = merged (pf_providers f) (allowed_providers base);
          asked = merged (pf_max_step_runs f) (xp_max_step_runs base);
          runs = (if asked = 0 then DEFAULT_MAX_STEP_RUNS else asked);
          cost = map_option round2 (merged (pf_max_cost_usd f) (xp_max_cost_usd base))
      in if nm = [] \<or> length nm > 60 then Inl ''profile_name_invalid''
         else if \<not> local \<and> \<not> hosted then Inl ''profile_allows_no_model''
         else if length raw > MAX_PROVIDERS then Inl ''profile_providers_invalid''
         else (case clean_providers [] raw of
                 None \<Rightarrow> Inl ''profile_providers_invalid''
               | Some provs \<Rightarrow>
                   if \<not> (1 \<le> runs \<and> runs \<le> MAX_STEP_RUNS_CEILING) then Inl ''profile_budget_invalid''
                   else if \<not> (case cost of None \<Rightarrow> True | Some c \<Rightarrow> 0 < c \<and> c \<le> MAX_COST_CEILING_USD)
                   then Inl ''profile_budget_invalid''
                   else Inr (base\<lparr>xp_name := nm, allow_local := local, allow_hosted := hosted,
                               allowed_providers := provs,
                               memory_to_hosted := merged (pf_memory_to_hosted f) (memory_to_hosted base) \<and> hosted,
                               xp_max_step_runs := runs, xp_max_cost_usd := cost\<rparr>)))"

end
