(* ===== verification/Task_Interrupts.thy ===== *)
theory Task_Interrupts
  imports Task_Claims
begin

text \<open>
  The reach of an interrupt (\<^verbatim>\<open>InterruptController\<close> of \<^verbatim>\<open>runtime/interrupts.py\<close> over \<^verbatim>\<open>descendant_tasks\<close> of
  \<^verbatim>\<open>storage/stores/tasks.py\<close>): the breadth-first walk finds exactly the tasks within sixteen delegations,
  each once, and the owner's decision changes exactly those of them it applies to.
\<close>

subsection \<open>The walk below a task\<close>

text \<open>The tasks delegated in one step by a set of tasks, within what the account may see.\<close>

definition kids :: "task_world \<Rightarrow> string option \<Rightarrow> string set \<Rightarrow> string set" where
  "kids w user X =
     {task_id r |r. r \<in> set (tw_rows w) \<and> session_visible w user r \<and> (\<exists>p \<in> X. parent_task_id r = Some p)}"

definition widen :: "task_world \<Rightarrow> string option \<Rightarrow> string set \<Rightarrow> string set" where
  "widen w user X = X \<union> kids w user X"

definition reached_in :: "task_world \<Rightarrow> string option \<Rightarrow> nat \<Rightarrow> string set \<Rightarrow> string set" where
  "reached_in w user n = (widen w user) ^^ n"

lemma kids_Un: "kids w user (X \<union> Y) = kids w user X \<union> kids w user Y"
  unfolding kids_def by blast

lemma kids_mono: "X \<subseteq> Y \<Longrightarrow> kids w user X \<subseteq> kids w user Y"
  unfolding kids_def by blast

lemma reached_in_Suc: "reached_in w user (Suc n) X = reached_in w user n (widen w user X)"
  unfolding reached_in_def by (simp add: funpow_swap1)

lemma reached_in_closed: "kids w user X \<subseteq> X \<Longrightarrow> reached_in w user n X = X"
  by (induction n) (auto simp: reached_in_def widen_def)

lemma reached_in_mono: "X \<subseteq> reached_in w user n X"
proof (induction n)
  case (Suc n)
  then show ?case by (auto simp: reached_in_def widen_def)
qed (simp add: reached_in_def)

lemma delegated_ids: "task_id ` set (delegated_rows w user F) = kids w user (set F)"
proof -
  have "(case parent_task_id r of None \<Rightarrow> False | Some p \<Rightarrow> p \<in> set F) \<longleftrightarrow> (\<exists>p \<in> set F. parent_task_id r = Some p)" for r
    by (cases "parent_task_id r") simp_all
  then show ?thesis unfolding delegated_rows_def kids_def by (simp add: image_def conj_commute) blast
qed

lemma take_new_ids:
  "task_id ` set (take_new seen rs) = task_id ` set rs - set seen"
  "distinct (map task_id (take_new seen rs))" "set (take_new seen rs) \<subseteq> set rs"
proof (induction seen rs rule: take_new.induct)
  case (2 seen r rs)
  show "task_id ` set (take_new seen (r # rs)) = task_id ` set (r # rs) - set seen" using 2(1,4) by auto
  have "task_id r \<notin> task_id ` set (take_new (task_id r # seen) rs)" if "task_id r \<notin> set seen"
    using 2(4) [OF that] by simp
  then show "distinct (map task_id (take_new seen (r # rs)))" using 2(2,5) by simp
  show "set (take_new seen (r # rs)) \<subseteq> set (r # rs)" using 2(3,6) by (simp split: if_splits) blast+
qed simp_all

lemma descend_ids:
  assumes "set F \<subseteq> set seen" and "kids w user (set seen) \<subseteq> set seen \<union> kids w user (set F)"
  shows "task_id ` set (descend w user d seen F) = reached_in w user d (set seen) - set seen"
  using assms
proof (induction d arbitrary: seen F)
  case (Suc d)
  show ?case
  proof (cases "F = []")
    case True
    then have "kids w user (set seen) \<subseteq> set seen" using Suc.prems(2) by (simp add: kids_def)
    then show ?thesis using True by (simp add: reached_in_closed)
  next
    case False
    define new where "new = take_new seen (delegated_rows w user F)"
    have new: "task_id ` set new = kids w user (set F) - set seen"
      unfolding new_def take_new_ids delegated_ids ..
    then have wide: "set (map task_id new @ seen) = widen w user (set seen)"
      using Suc.prems kids_mono [OF Suc.prems(1), of w user] unfolding widen_def by auto
    have "kids w user (set (map task_id new @ seen))
        \<subseteq> set (map task_id new @ seen) \<union> kids w user (set (map task_id new))"
      using Suc.prems(2) new unfolding set_append kids_Un set_map by blast
    from Suc.IH [OF _ this] have
      "task_id ` set (descend w user d (map task_id new @ seen) (map task_id new))
        = reached_in w user (Suc d) (set seen) - widen w user (set seen)"
      unfolding wide [symmetric] reached_in_Suc by simp
    moreover have "widen w user (set seen) \<subseteq> reached_in w user (Suc d) (set seen)"
      unfolding reached_in_Suc by (rule reached_in_mono)
    ultimately show ?thesis
      using False wide new by (auto simp: Let_def image_Un simp flip: new_def)
  qed
qed (simp add: reached_in_def)

lemma descend_distinct:
  assumes "set F \<subseteq> set seen" and "kids w user (set seen) \<subseteq> set seen \<union> kids w user (set F)"
  shows "distinct (map task_id (descend w user d seen F))"
  using assms
proof (induction d arbitrary: seen F)
  case (Suc d)
  define new where "new = take_new seen (delegated_rows w user F)"
  have new: "task_id ` set new = kids w user (set F) - set seen"
    unfolding new_def take_new_ids delegated_ids ..
  have closed: "kids w user (set (map task_id new @ seen))
      \<subseteq> set (map task_id new @ seen) \<union> kids w user (set (map task_id new))"
    using Suc.prems(2) new unfolding set_append kids_Un set_map by blast
  have "distinct (map task_id (descend w user d (map task_id new @ seen) (map task_id new)))"
    by (rule Suc.IH [OF _ closed]) simp
  moreover have "task_id ` set (descend w user d (map task_id new @ seen) (map task_id new)) \<inter> task_id ` set new = {}"
    using descend_ids [OF _ closed, of d] by auto
  moreover have "distinct (map task_id new)" unfolding new_def by (rule take_new_ids(2))
  ultimately show ?case by (auto simp: Let_def simp flip: new_def)
qed simp

lemma descend_rows: "set (descend w user d seen F) \<subseteq> set (tw_rows w)"
proof (induction d arbitrary: seen F)
  case (Suc d)
  have "set (take_new seen (delegated_rows w user F)) \<subseteq> set (delegated_rows w user F)" by (rule take_new_ids(3))
  also have "\<dots> \<subseteq> set (tw_rows w)" unfolding delegated_rows_def by simp
  finally show ?case using Suc.IH by (simp add: Let_def)
qed simp

lemma walk:
  "task_id ` set (descendant_tasks w tid user) = reached_in w user 16 {tid} - {tid}"
  "distinct (map task_id (descendant_tasks w tid user))"
  "set (descendant_tasks w tid user) \<subseteq> set (tw_rows w)"
proof -
  have start: "set [tid] \<subseteq> set [tid]" "kids w user (set [tid]) \<subseteq> set [tid] \<union> kids w user (set [tid])" by blast+
  show "task_id ` set (descendant_tasks w tid user) = reached_in w user 16 {tid} - {tid}"
    "distinct (map task_id (descendant_tasks w tid user))"
    unfolding descendant_tasks_def MAX_DELEGATION_DEPTH_def
    using descend_ids [OF start, of 16] descend_distinct [OF start, of 16] by simp_all
qed (simp add: descendant_tasks_def descend_rows)

text \<open>
  C29: The walk over delegated work is exact and ends. Its loop, bounded by depth and by what it has seen,
  returns each task that at most sixteen visible delegations separate from the task it starts from, once, and
  no other, the start itself excluded, also when the parent links form a cycle.
\<close>

theorem descendants_are_the_reachable_tasks:
  "task_id ` set (descendant_tasks w tid user) = reached_in w user 16 {tid} - {tid}
   \<and> distinct (map task_id (descendant_tasks w tid user)) \<and> set (descendant_tasks w tid user) \<subseteq> set (tw_rows w)"
  by (intro conjI walk)

subsection \<open>The cascade\<close>

definition interrupted_state :: "string \<Rightarrow> string" where
  "interrupted_state typ =
     (if typ = ''pause'' then ''paused'' else if typ = ''cancel'' then ''cancelled'' else ''running'')"

lemma cascade_types: "CASCADE_FROM typ = Some reach \<Longrightarrow> typ = ''pause'' \<or> typ = ''resume'' \<or> typ = ''cancel''"
  by (simp add: CASCADE_FROM_def split: if_splits)

lemma tree_events [simp]: "tree (runtime_event writer session typ payload w) = tree w" "tree (interrupt_event writer a typ origin w) = tree w"
  by (simp_all add: runtime_event_def interrupt_event_def tree_def)

lemma tree_apply_one:
  assumes "CASCADE_FROM (ia_action_type a) = Some reach"
  shows "tree (snd (apply_one writer a origin w)) = set_state (ia_task_id a) (interrupted_state (ia_action_type a)) (tree w)"
  using cascade_types [OF assms] by (elim disjE) (simp_all add: apply_one_def interrupted_state_def Let_def)

text \<open>What the walk reads of a row.\<close>

lemma visible_cong:
  "tw_sessions u = tw_sessions w \<Longrightarrow> task_session_id s = task_session_id r \<Longrightarrow>
     session_visible u user s = session_visible w user r"
  by (simp add: session_visible_def split: option.splits)

lemma kids_image:
  "kids w user X = task_id ` {r \<in> set (tw_rows w). session_visible w user r \<and> (\<exists>p \<in> X. parent_task_id r = Some p)}"
  unfolding kids_def by (simp add: image_Collect)

lemma kids_update_rows:
  assumes "\<And>r. task_id (f r) = task_id r \<and> parent_task_id (f r) = parent_task_id r
      \<and> task_session_id (f r) = task_session_id r"
  shows "kids (update_rows P f w) user = kids w user"
proof -
  let ?h = "\<lambda>r. if P r then f r else r"
  have vis: "session_visible (update_rows P f w) user (?h r) = session_visible w user r" for r
    by (rule visible_cong) (simp_all add: assms update_rows_def)
  have h: "task_id (?h r) = task_id r" "parent_task_id (?h r) = parent_task_id r" for r using assms by simp_all
  have "tw_rows (update_rows P f w) = map ?h (tw_rows w)" by (simp add: update_rows_def)
  then have "kids (update_rows P f w) user X = kids w user X" for X
    unfolding kids_image by (simp only: set_map Compr_image_eq image_image h vis)
  then show ?thesis by (rule ext)
qed

lemma kids_frame: "tw_rows u = tw_rows w \<Longrightarrow> tw_sessions u = tw_sessions w \<Longrightarrow> kids u user = kids w user"
  using visible_cong [of u w _ _ user] by (intro ext) (simp add: kids_def)

lemma kids_apply_one:
  assumes "CASCADE_FROM (ia_action_type a) = Some reach"
  shows "kids (snd (apply_one writer a origin w)) user = kids w user"
proof -
  have events: "kids (runtime_event writer sid name payload w) user = kids w user"
    "kids (interrupt_event writer a name origin w) user = kids w user" for sid name payload and w :: task_world
    by (rule kids_frame; simp add: runtime_event_def interrupt_event_def)+
  have writes: "kids (update_task_status i st w) user = kids w user" "kids (store_cancel_task i reason w) user = kids w user"
    for i st reason and w :: task_world
    unfolding update_task_status_def store_cancel_task_def update_task_def by (rule kids_update_rows, simp)+
  show ?thesis using cascade_types [OF assms] by (elim disjE) (simp_all add: apply_one_def Let_def events writes)
qed

lemma set_states:
  "fold (\<lambda>c. set_state (f c) st) cs T = map (\<lambda>(i, p, s). (i, p, if i \<in> f ` set cs then st else s)) T"
proof (induction cs arbitrary: T)
  case (Cons c cs)
  show ?case unfolding fold.simps comp_def Cons by (auto simp: set_state_def split: prod.splits)
qed (simp add: case_prod_beta)

lemma tree_cascade:
  assumes "CASCADE_FROM (ia_action_type a) = Some reach"
  shows "tree (fold (\<lambda>c w. snd (apply_one writer (child_interrupt a c) origin w)) cs w)
    = fold (\<lambda>c. set_state (task_id c) (interrupted_state (ia_action_type a))) cs (tree w)"
proof (induction cs arbitrary: w)
  case (Cons c cs)
  have "tree (snd (apply_one writer (child_interrupt a c) origin w))
      = set_state (task_id c) (interrupted_state (ia_action_type a)) (tree w)"
    using tree_apply_one [of "child_interrupt a c" reach writer origin w] assms by (simp add: child_interrupt_def)
  then show ?case using Cons by simp
qed simp

lemma reached_ids:
  assumes "wf_tree (tree w)" and "(i, p, s) \<in> set (tree w)"
  shows "i \<in> task_id ` set (filter (\<lambda>c. status c \<in> reach) (descendant_tasks w tid user))
    \<longleftrightarrow> i \<in> reached_in w user 16 {tid} \<and> i \<noteq> tid \<and> s \<in> reach"
proof -
  have "status c = s" if "c \<in> set (descendant_tasks w tid user)" "task_id c = i" for c
  proof -
    have "(i, parent_task_id c, status c) \<in> set (tree w)"
      using subsetD [OF walk(3) that(1)] that(2) by (force simp: tree_def)
    then show ?thesis using wf_unique [OF assms] by blast
  qed
  then have "i \<in> task_id ` set (filter (\<lambda>c. status c \<in> reach) (descendant_tasks w tid user))
      \<longleftrightarrow> i \<in> task_id ` set (descendant_tasks w tid user) \<and> s \<in> reach"
    by (simp add: image_iff) blast
  then show ?thesis unfolding walk(1) by blast
qed

lemma interrupt_tree:
  assumes "wf_tree (tree w)" and "CASCADE_FROM (ia_action_type a) = Some reach"
  shows "tree (snd (apply_at_safe_boundary writer a True user w))
    = map (\<lambda>(i, p, s). (i, p,
        if i = ia_task_id a \<or> i \<in> reached_in w user 16 {ia_task_id a} \<and> s \<in> set reach
        then interrupted_state (ia_action_type a) else s)) (tree w)"
proof -
  let ?tid = "ia_task_id a" and ?st = "interrupted_state (ia_action_type a)"
  let ?w1 = "snd (apply_one writer a None w)"
  let ?cs = "filter (\<lambda>c. status c \<in> set reach) (descendant_tasks ?w1 ?tid user)"
  have t1: "tree ?w1 = set_state ?tid ?st (tree w)" by (rule tree_apply_one [OF assms(2)])
  have "widen ?w1 user = widen w user" by (rule ext) (simp add: widen_def kids_apply_one [OF assms(2)])
  then have reach: "reached_in ?w1 user = reached_in w user" by (intro ext) (simp add: reached_in_def)
  have "tree (snd (apply_at_safe_boundary writer a True user w)) = fold (\<lambda>c. set_state (task_id c) ?st) ?cs (tree ?w1)"
    using assms(2) tree_cascade [OF assms(2)] by (simp add: apply_at_safe_boundary_def propagate_to_children_def case_prod_beta Let_def)
  also have "\<dots> = map (\<lambda>(i, p, s). (i, p, if i \<in> task_id ` set ?cs then ?st else s)) (tree ?w1)" by (rule set_states)
  also have "\<dots> = map (\<lambda>(i, p, s). (i, p, if i \<in> reached_in w user 16 {?tid} \<and> i \<noteq> ?tid \<and> s \<in> set reach then ?st else s)) (tree ?w1)"
  proof (intro map_cong refl)
    fix x
    assume x: "x \<in> set (tree ?w1)"
    obtain i p s where [simp]: "x = (i, p, s)" by (cases x)
    show "(case x of (i, p, s) \<Rightarrow> (i, p, if i \<in> task_id ` set ?cs then ?st else s))
        = (case x of (i, p, s) \<Rightarrow> (i, p, if i \<in> reached_in w user 16 {?tid} \<and> i \<noteq> ?tid \<and> s \<in> set reach then ?st else s))"
      using reached_ids [of ?w1 i p s "set reach" ?tid user] x assms(1) by (simp add: t1 reach del: set_filter)
  qed
  also have "\<dots> = map (\<lambda>(i, p, s). (i, p, if i = ?tid \<or> i \<in> reached_in w user 16 {?tid} \<and> s \<in> set reach then ?st else s)) (tree w)"
    unfolding t1 set_state_def map_map by (intro map_cong refl) (auto split: prod.splits)
  finally show ?thesis .
qed

text \<open>
  C30: A pause, a resume or a stop reaches exactly what it says: the task itself, and of the tasks that at most
  sixteen visible delegations separate from it those whose state the decision applies to. They all take the
  decision's state; every other task keeps its own, an ended child included.
\<close>

theorem interrupt_reaches_delegated_work:
  assumes "wf_tree (tree w)" and "CASCADE_FROM (ia_action_type a) = Some reach"
  shows "tree (snd (apply_at_safe_boundary writer a True user w))
    = map (\<lambda>(i, p, s). (i, p,
        if i = ia_task_id a \<or> i \<in> reached_in w user 16 {ia_task_id a} \<and> s \<in> set reach
        then interrupted_state (ia_action_type a) else s)) (tree w)"
  using assms by (rule interrupt_tree)

text \<open>The owner stops the one child a parked parent waits for.\<close>

definition stop_child :: InterruptAction where
  "stop_child = \<lparr>ia_action_id = ''act_1'', ia_task_id = ''task_1'', ia_session_id = ''s1'', ia_action_type = ''cancel'',
     ia_reason = ''user requested stop'', ia_steer_text = None\<rparr>"

theorem interrupt_reaches_delegated_work_witness:
  "tree (snd (apply_at_safe_boundary True (stop_child\<lparr>ia_task_id := ''task_0''\<rparr>) True None delegating_world))
     = [(''task_0'', None, ''cancelled''), (''task_1'', Some ''task_0'', ''cancelled'')]"
proof -
  let ?a = "stop_child\<lparr>ia_task_id := ''task_0''\<rparr>"
  have "wf_tree (tree delegating_world)" by (simp add: delegating_tree wf_tree_def)
  moreover have "CASCADE_FROM (ia_action_type ?a) = Some [''queued'', ''running'', ''continuing'', ''paused'',
      ''waiting_for_approval'', ''waiting_for_children'']" by (simp add: CASCADE_FROM_def stop_child_def)
  moreover have "''task_1'' \<in> reached_in delegating_world None 16 {''task_0''}"
  proof -
    have "map task_id (descendant_tasks delegating_world ''task_0'' None) = [''task_1'']" by code_simp
    then have "task_id ` set (descendant_tasks delegating_world ''task_0'' None) = {''task_1''}"
      unfolding set_map [symmetric] by simp
    then show ?thesis unfolding walk(1) by (metis DiffD1 insertI1)
  qed
  moreover have "interrupted_state (ia_action_type ?a) = ''cancelled''" by (simp add: interrupted_state_def stop_child_def)
  ultimately show ?thesis
    using interrupt_reaches_delegated_work [of delegating_world ?a _ True None] by (simp add: delegating_tree)
qed

lemma cancelled_states:
  assumes "wf_tree (tree w)" and "ia_action_type a = ''cancel''"
  shows "\<exists>reach. tree (snd (apply_at_safe_boundary writer a True user w))
    = map (\<lambda>(i, p, s). (i, p,
        if i = ia_task_id a \<or> i \<in> reached_in w user 16 {ia_task_id a} \<and> s \<in> set reach then ''cancelled'' else s)) (tree w)"
proof -
  obtain reach where "CASCADE_FROM (ia_action_type a) = Some reach" using assms(2) by (simp add: CASCADE_FROM_def)
  from interrupt_tree [OF assms(1) this, of writer user] show ?thesis by (auto simp: assms(2) interrupted_state_def)
qed

lemma settled_parent_fails:
  assumes "wf_tree (tree w)" and "parent_task_id t = Some pid" and "(pid, p, ''waiting_for_children'') \<in> set (tree w)"
    and "unfinished_children w pid = []" and "''cancelled'' \<in> set (child_task_states w pid)"
  shows "state_of (settle_parent e t w) pid = Some ''failed''"
proof -
  have "pid \<in> fst ` set (tree w)" using assms(3) by force
  then obtain r where r: "load_task w pid = Some r" using load_task_None [of w pid] by blast
  moreover have "pid \<noteq> []" using \<open>pid \<in> fst ` set (tree w)\<close> assms(1) unfolding wf_tree_def by blast
  moreover have "status r = ''waiting_for_children''" using wf_unique [OF assms(1) assms(3)] load_task_tree [OF r] by metis
  moreover have "filter (\<lambda>s. s \<in> {''failed'', ''cancelled''}) (child_task_states w pid) \<noteq> []"
    using assms(5) by (auto simp: filter_empty_conv)
  ultimately obtain msg where u: "settle_parent e t w = snd (fail_task e pid msg w)"
    using assms(2,4) by (simp add: settle_parent.simps Let_def)
  let ?u = "snd (fail_task e pid msg w)"
  have lands: "lands pid (set_state pid ''failed'' (tree w)) (tree ?u)" by (rule settle_lands(2) [OF assms(1)])
  have "fst ` set (tree ?u) = fst ` set (tree w)" using unparks_fst [OF lands_unparks [OF lands]] by (metis fst_set_state set_map)
  then obtain q s where q: "(pid, q, s) \<in> set (tree ?u)" using \<open>pid \<in> fst ` set (tree w)\<close> by (metis imageE prod.collapse)
  have "s = ''failed''" using lands_ended [OF assms(1) lands q] by simp
  then show ?thesis unfolding u using q state_of_tree [OF settle_wf(1) [OF assms(1)]] by blast
qed

text \<open>
  C31: Stopping the last open child through the interrupt path strands its parent. For any parked task whose
  other children have ended, and which is not itself within the reach of the stop, the controller writes the
  child's cancellation without settling the parent: the parent stays parked with no unfinished child, a state
  that no sequence of the manager's own operations reaches. The manager's cancellation of the same child
  ends the parent as failed.
\<close>

theorem stopped_child_strands_parent:
  fixes writer :: bool and a :: InterruptAction and user :: "string option" and w :: task_world
  defines "u \<equiv> snd (apply_at_safe_boundary writer a True user w)"
  assumes wf: "wf_tree (tree w)" and cancel: "ia_action_type a = ''cancel''"
    and child: "(ia_task_id a, Some pid, s) \<in> set (tree w)"
    and others: "\<And>j t. (j, Some pid, t) \<in> set (tree w) \<Longrightarrow> j \<noteq> ia_task_id a \<Longrightarrow> t \<in> set TERMINAL_TASK_STATES"
    and parent: "state_of w pid = Some ''waiting_for_children''"
    and apart: "pid \<notin> reached_in w user 16 {ia_task_id a}"
  shows "state_of u pid = Some ''waiting_for_children'' \<and> unfinished_children u pid = []
    \<and> \<not> (task_step e)\<^sup>*\<^sup>* new_world u
    \<and> state_of (snd (cancel_task e (ia_task_id a) reason w)) pid = Some ''failed''"
proof -
  let ?tid = "ia_task_id a" and ?r = "stated (Some reason) NO_STATED_CANCEL_REASON"
  obtain reach where tree_u: "tree u = map (\<lambda>(i, p, s). (i, p,
      if i = ?tid \<or> i \<in> reached_in w user 16 {?tid} \<and> s \<in> set reach then ''cancelled'' else s)) (tree w)"
    using cancelled_states [OF wf cancel] unfolding u_def by blast
  obtain p where p: "(pid, p, ''waiting_for_children'') \<in> set (tree w)" using parent state_of_tree [OF wf] by blast
  have ne: "pid \<noteq> ?tid" using apart reached_in_mono [of "{?tid}" w user 16] by blast
  have "map fst (tree u) = map fst (tree w)" by (simp add: tree_u case_prod_beta comp_def)
  then have wf_u: "wf_tree (tree u)" using wf unfolding wf_tree_def by (metis set_map)
  have p_u: "(pid, p, ''waiting_for_children'') \<in> set (tree u)" unfolding tree_u set_map using p ne apart by (force intro: rev_image_eqI)
  have none: "open_children pid (tree u) = []"
    using others unfolding tree_u open_children_def by (auto simp: filter_empty_conv split: if_splits)
  have "\<not> (task_step e)\<^sup>*\<^sup>* new_world u"
  proof
    assume "(task_step e)\<^sup>*\<^sup>* new_world u"
    then have "tasks_inv u" by (rule delegation.keep_star [OF _ new_world_inv])
    then show False using p_u none unfolding tasks_inv_def parked_except_def by fastforce
  qed
  moreover have "state_of u pid = Some ''waiting_for_children''" using p_u state_of_tree [OF wf_u] by blast
  moreover have "unfinished_children u pid = []" using none by (simp add: unfinished_tree)
  moreover have "state_of (snd (cancel_task e ?tid reason w)) pid = Some ''failed''"
  proof -
    let ?w1 = "store_cancel_task ?tid ?r w"
    have tree_w1: "tree ?w1 = set_state ?tid ''cancelled'' (tree w)" by simp
    have row: "(?tid, Some pid, ''cancelled'') \<in> set (tree ?w1)" unfolding tree_w1 set_state_iff using child by auto
    then have "?tid \<in> fst ` set (tree ?w1)" by force
    then obtain t where t: "load_task ?w1 ?tid = Some t" using load_task_None [of ?w1 ?tid] by blast
    have wf1: "wf_tree (tree ?w1)" using wf by simp
    have link: "parent_task_id t = Some pid" using wf_unique [OF wf1 row] load_task_tree [OF t] by metis
    let ?w2 = "dispatch_task_hook e ''TaskCompleted'' t [(''outcome'', PStr ''cancelled''), (''summary_length'', PInt (int (length ?r)))]
        (task_event ''task_cancelled'' ''task_manager'' [(''task_id'', PStr ?tid), (''reason'', PStr ?r)] t ?w1)"
    have same: "tree ?w2 = set_state ?tid ''cancelled'' (tree w)" by simp
    have "(pid, p, ''waiting_for_children'') \<in> set (tree ?w2)" unfolding same set_state_iff using p ne by auto
    moreover have "unfinished_children ?w2 pid = []"
      unfolding unfinished_tree same open_children_def set_state_def using others by (auto simp: filter_empty_conv split: if_splits)
    moreover have "''cancelled'' \<in> set (child_task_states ?w2 pid)"
      unfolding child_states_tree same child_states_def using row [unfolded tree_w1] by (force simp: image_iff)
    ultimately have "state_of (settle_parent e t ?w2) pid = Some ''failed''"
      using settled_parent_fails [of ?w2 t pid p e] link wf by simp
    then show ?thesis using t by (simp add: cancel_task_def Let_def)
  qed
  ultimately show ?thesis by blast
qed

theorem stopped_child_strands_parent_witness:
  "(task_step quiet_env)\<^sup>*\<^sup>* new_world delegating_world
   \<and> state_of (snd (apply_at_safe_boundary True stop_child True None delegating_world)) ''task_0'' = Some ''waiting_for_children''
   \<and> unfinished_children (snd (apply_at_safe_boundary True stop_child True None delegating_world)) ''task_0'' = []
   \<and> state_of (snd (cancel_task quiet_env ''task_1'' ''user requested stop'' delegating_world)) ''task_0'' = Some ''failed''"
proof -
  have "task_id ` set (descendant_tasks delegating_world ''task_1'' None) = {}" unfolding image_is_empty set_empty by code_simp
  then have "''task_0'' \<notin> reached_in delegating_world None 16 {''task_1''}" unfolding walk(1) by auto
  moreover have "wf_tree (tree delegating_world)" by (simp add: delegating_tree wf_tree_def)
  moreover have "state_of delegating_world ''task_0'' = Some ''waiting_for_children''" by code_simp
  moreover have "ia_task_id stop_child = ''task_1''" "ia_action_type stop_child = ''cancel''" by (simp_all add: stop_child_def)
  ultimately show ?thesis
    using stopped_child_strands_parent [of delegating_world stop_child "''task_0''" "''queued''" None True quiet_env
        "''user requested stop''"] delegating_reachable by (auto simp: delegating_tree)
qed

end
