(* ===== verification/Goal_Coordinator.thy ===== *)
theory Goal_Coordinator
  imports Goal_Store Task_Interrupts "HOL-Library.AList"
begin

text \<open>
  The goal tables and \<^verbatim>\<open>GoalCoordinator\<close> (\<^verbatim>\<open>goals/coordinator.py\<close>): the owner's actions on a goal, the checks
  before work is filed, and the pass that files due steps as tasks, reads them back and settles the goal.

  Parameters of an operation, which may differ from one call to the next, are in \<open>goal_env\<close>: the principal
  table, the model registry with the owner's selection and fallbacks, the usage ledger priced per session,
  the age of a stamp, the service that files a task, and whether the audit log accepted an event (a failure
  there is suppressed).
\<close>

record task_request =
  rq_title :: string
  rq_objective :: string
  rq_user_id :: "string option"
  rq_principal_id :: string
  rq_project_id :: "string option"
  rq_surface :: string
  rq_model_profile :: "string option"
  rq_model :: "string option"

record goal_env =
  ge_uuid :: "nat \<Rightarrow> string"
  ge_audit :: bool
  ge_round2 :: "rat \<Rightarrow> rat"
  ge_usd :: "rat \<Rightarrow> string"
  ge_title :: "string \<Rightarrow> string \<Rightarrow> string"
  ge_principal :: "string \<Rightarrow> string option option"
  ge_configured :: "string \<Rightarrow> string \<Rightarrow> string \<Rightarrow> bool"
  ge_primary :: "string \<Rightarrow> string option \<Rightarrow> string option \<Rightarrow> string option"
  ge_fallbacks :: "string \<Rightarrow> string list"
  ge_resolve :: "string \<Rightarrow> (string \<times> string \<times> bool) option"
  ge_older :: "string \<Rightarrow> bool"
  ge_spend :: "string \<Rightarrow> string list \<Rightarrow> rat"
  ge_create_task :: "task_request \<Rightarrow> task_world \<Rightarrow> (string + string) \<times> task_world"

record goal =
  goal_id :: string
  owner_principal_id :: string
  g_title :: string
  g_objective :: string
  g_project_id :: "string option"
  g_model_profile :: "string option"
  g_model :: "string option"
  g_status :: string
  g_reason :: string
  g_reason_detail :: string
  revision :: int
  profile_id :: "string option"
  profile_version :: "int option"
  max_step_runs :: "int option"
  g_max_cost_usd :: "rat option"
  step_runs :: nat
  g_created_at :: string
  g_updated_at :: string
  accepted_at :: "string option"
  settled_at :: "string option"
  archived_at :: "string option"
  criteria :: "criterion list"
  steps :: "goal_step list"

record goal_world =
  gw_tasks :: task_world
  gw_goals :: "goal list"
  gw_events :: "(string \<times> string \<times> string \<times> pydict) list"
  gw_audit :: "(string \<times> string \<times> pydict) list"
  gw_profiles :: "(string \<times> ExecutionProfile) list"
  gw_bindings :: "((string \<times> string) \<times> string) list"
  gw_withheld :: "(string \<times> string \<times> string) list"
  gw_next_id :: nat

type_synonym 'a goal_result = "(goal_error + 'a) \<times> goal_world"

abbreviation utc_now :: "goal_world \<Rightarrow> string" where
  "utc_now w \<equiv> tw_clock (gw_tasks w)"

subsection \<open>Profiles\<close>

definition insert_profile :: "string \<Rightarrow> ExecutionProfile \<Rightarrow> goal_world \<Rightarrow> goal_world" where
  "insert_profile owner p w = w\<lparr>gw_profiles := gw_profiles w @ [(owner, p\<lparr>xp_created_at := utc_now w\<rparr>)]\<rparr>"

definition owned_versions :: "goal_world \<Rightarrow> string \<Rightarrow> string \<Rightarrow> ExecutionProfile list" where
  "owned_versions w owner pid = map snd (filter (\<lambda>(o1, p). o1 = owner \<and> xp_id p = pid) (gw_profiles w))"

definition get_profile :: "goal_world \<Rightarrow> string \<Rightarrow> string \<Rightarrow> int option \<Rightarrow> ExecutionProfile option" where
  "get_profile w owner pid version =
     (case version of
        None \<Rightarrow> (case rev (sort_key xp_version (owned_versions w owner pid)) of [] \<Rightarrow> None | p # _ \<Rightarrow> Some p)
      | Some v \<Rightarrow> List.find (\<lambda>p. xp_version p = v) (owned_versions w owner pid))"

definition create_profile ::
  "goal_env \<Rightarrow> string \<Rightarrow> string \<Rightarrow> profile_fields \<Rightarrow> goal_world \<Rightarrow> (string + ExecutionProfile) \<times> goal_world" where
  "create_profile e owner template f w =
     (case map_of TEMPLATES template of
        None \<Rightarrow> (Inl ''profile_template_unknown'', w)
      | Some (nm, local, hosted, memory) \<Rightarrow>
          (let pid = ''xprof_'' @ ge_uuid e (gw_next_id w);
               base = \<lparr>xp_id = pid, xp_version = 1, xp_name = nm, xp_template = template, allow_local = local,
                       allow_hosted = hosted, allowed_providers = [], memory_to_hosted = memory,
                       xp_max_step_runs = DEFAULT_MAX_STEP_RUNS, xp_max_cost_usd = None, xp_created_at = []\<rparr>
           in case clean_fields (ge_round2 e) f base of
                Inl reason \<Rightarrow> (Inl reason, w)
              | Inr p \<Rightarrow>
                  (let w1 = insert_profile owner p (w\<lparr>gw_next_id := Suc (gw_next_id w)\<rparr>)
                   in case get_profile w1 owner pid None of
                        None \<Rightarrow> (Inl ''AssertionError'', w1) | Some found \<Rightarrow> (Inr found, w1))))"

definition update_profile ::
  "goal_env \<Rightarrow> string \<Rightarrow> string \<Rightarrow> int \<Rightarrow> profile_fields \<Rightarrow> goal_world \<Rightarrow> (string + ExecutionProfile) \<times> goal_world" where
  "update_profile e owner pid base_version f w =
     (case get_profile w owner pid None of
        None \<Rightarrow> (Inl ''execution_profile_unknown'', w)
      | Some current \<Rightarrow>
          if xp_version current \<noteq> base_version then (Inl ''execution_profile_version_stale'', w)
          else (case clean_fields (ge_round2 e) f current of
                  Inl reason \<Rightarrow> (Inl reason, w)
                | Inr p \<Rightarrow>
                    (let w1 = insert_profile owner (p\<lparr>xp_version := xp_version current + 1\<rparr>) w
                     in case get_profile w1 owner pid None of
                          None \<Rightarrow> (Inl ''AssertionError'', w1) | Some found \<Rightarrow> (Inr found, w1))))"

definition bindings :: "goal_world \<Rightarrow> string \<Rightarrow> string \<Rightarrow> string option" where
  "bindings w owner project = map_of (gw_bindings w) (owner, project)"

definition bind_profile :: "string \<Rightarrow> string \<Rightarrow> string option \<Rightarrow> goal_world \<Rightarrow> (string + unit) \<times> goal_world" where
  "bind_profile owner project pid w =
     (case pid of
        None \<Rightarrow> (Inr (), w\<lparr>gw_bindings := filter (\<lambda>(k, _). k \<noteq> (owner, project)) (gw_bindings w)\<rparr>)
      | Some p \<Rightarrow>
          if get_profile w owner p None = None then (Inl ''execution_profile_unknown'', w)
          else (Inr (), w\<lparr>gw_bindings := AList.update (owner, project) p (gw_bindings w)\<rparr>))"

definition resolve_for :: "goal_world \<Rightarrow> string \<Rightarrow> string option \<Rightarrow> ExecutionProfile option \<times> string" where
  "resolve_for w owner project =
     (case (case project of None \<Rightarrow> None | Some p \<Rightarrow> if p = [] then None else bindings w owner p) of
        Some pid \<Rightarrow> (get_profile w owner pid None, ''project'')
      | None \<Rightarrow> (case bindings w owner [] of
                   Some pid \<Rightarrow> (get_profile w owner pid None, ''active'')
                 | None \<Rightarrow> (None, ''none'')))"

record ChainEntry =
  ce_profile_id :: string
  ce_provider :: string
  ce_local :: bool
  ce_allowed :: bool

definition chain_entry :: "goal_env \<Rightarrow> ExecutionProfile \<Rightarrow> string \<Rightarrow> ChainEntry" where
  "chain_entry e p pid =
     (case ge_resolve e pid of
        None \<Rightarrow> \<lparr>ce_profile_id = (if pid = [] then ''unselected'' else pid), ce_provider = ''unknown'',
                 ce_local = False, ce_allowed = False\<rparr>
      | Some (rid, provider, local) \<Rightarrow>
          \<lparr>ce_profile_id = rid, ce_provider = provider, ce_local = local, ce_allowed = allows p provider local\<rparr>)"

definition model_chain ::
  "goal_env \<Rightarrow> string \<Rightarrow> ExecutionProfile \<Rightarrow> string option \<Rightarrow> string option \<Rightarrow> ChainEntry list" where
  "model_chain e owner p mprof mdl =
     map (chain_entry e p)
       (fold (\<lambda>c ids. if c \<in> set ids then ids else ids @ [c]) (ge_fallbacks e owner)
         [case ge_primary e owner mprof mdl of None \<Rightarrow> [] | Some primary \<Rightarrow> primary])"

definition chain_refusal :: "ChainEntry list \<Rightarrow> string" where
  "chain_refusal entries =
     (case List.find (\<lambda>c. \<not> ce_allowed c) entries of
        None \<Rightarrow> []
      | Some c \<Rightarrow> ce_provider c @ '' ('' @ (if ce_local c then ''on this machine'' else ''hosted'') @ '')'')"

subsection \<open>Rows\<close>

definition update_goals :: "(goal \<Rightarrow> bool) \<Rightarrow> (goal \<Rightarrow> goal) \<Rightarrow> goal_world \<Rightarrow> goal_world" where
  "update_goals P f w = w\<lparr>gw_goals := map (\<lambda>g. if P g then f g else g) (gw_goals w)\<rparr>"

definition changed_goals :: "(goal \<Rightarrow> bool) \<Rightarrow> goal_world \<Rightarrow> nat" where
  "changed_goals P w = length (filter P (gw_goals w))"

definition update_steps :: "string \<Rightarrow> (goal_step \<Rightarrow> bool) \<Rightarrow> (goal_step \<Rightarrow> goal_step) \<Rightarrow> goal_world \<Rightarrow> goal_world" where
  "update_steps gid P f w =
     update_goals (\<lambda>g. goal_id g = gid)
       (\<lambda>g. g\<lparr>steps := map (\<lambda>s. if P s then (f s)\<lparr>s_updated_at := utc_now w\<rparr> else s) (steps g)\<rparr>) w"

definition update_criteria ::
  "string \<Rightarrow> (criterion \<Rightarrow> bool) \<Rightarrow> (criterion \<Rightarrow> criterion) \<Rightarrow> goal_world \<Rightarrow> goal_world" where
  "update_criteria gid P f w =
     update_goals (\<lambda>g. goal_id g = gid)
       (\<lambda>g. g\<lparr>criteria := map (\<lambda>c. if P c then (f c)\<lparr>verified_at := Some (utc_now w)\<rparr> else c) (criteria g)\<rparr>) w"

definition record_event :: "string \<Rightarrow> string \<Rightarrow> string \<Rightarrow> pydict \<Rightarrow> goal_world \<Rightarrow> goal_world" where
  "record_event gid owner kind detail w = w\<lparr>gw_events := gw_events w @ [(gid, owner, kind, detail)]\<rparr>"

definition new_goal :: "string \<Rightarrow> string \<Rightarrow> string option \<Rightarrow> plan \<Rightarrow> string \<Rightarrow> goal" where
  "new_goal gid owner project p now =
     \<lparr>goal_id = gid, owner_principal_id = owner, g_title = p_title p, g_objective = p_objective p,
      g_project_id = project, g_model_profile = p_model_profile p, g_model = p_model p,
      g_status = ''draft'', g_reason = [], g_reason_detail = [], revision = 1, profile_id = None,
      profile_version = None, max_step_runs = None, g_max_cost_usd = None, step_runs = 0,
      g_created_at = now, g_updated_at = now, accepted_at = None, settled_at = None,
      archived_at = None, criteria = p_criteria p, steps = p_steps p\<rparr>"

text \<open>The primary key refuses an id that is taken: the insert raises and nothing is written.\<close>

definition create_goal ::
  "goal_env \<Rightarrow> string \<Rightarrow> string option \<Rightarrow> plan \<Rightarrow> goal_world \<Rightarrow> string option \<times> goal_world" where
  "create_goal e owner project p w =
     (let gid = ''goal_'' @ ge_uuid e (gw_next_id w);
          g = new_goal gid owner project p (utc_now w)
      in if gid \<in> set (map goal_id (gw_goals w)) then (None, w\<lparr>gw_next_id := Suc (gw_next_id w)\<rparr>)
         else (Some gid, record_event gid owner ''goal_created''
                 [(''criteria'', PInt (int (length (p_criteria p)))), (''steps'', PInt (int (length (p_steps p))))]
                 (w\<lparr>gw_goals := gw_goals w @ [g], gw_next_id := Suc (gw_next_id w)\<rparr>)))"

definition replace_plan :: "string \<Rightarrow> string \<Rightarrow> int \<Rightarrow> plan \<Rightarrow> goal_world \<Rightarrow> unit goal_result" where
  "replace_plan owner gid base p w =
     (let P = (\<lambda>g. goal_id g = gid \<and> owner_principal_id g = owner \<and> revision g = base \<and> g_status g = ''draft'')
      in if changed_goals P w = 0 then (Inl (''goal_revision_stale'', []), w)
         else (Inr (), record_event gid owner ''goal_plan_edited''
                 [(''criteria'', PInt (int (length (p_criteria p)))), (''steps'', PInt (int (length (p_steps p))))]
                 (update_goals P (\<lambda>g. g\<lparr>g_title := p_title p, g_objective := p_objective p,
                    g_model_profile := p_model_profile p, g_model := p_model p, revision := revision g + 1,
                    g_updated_at := utc_now w, criteria := p_criteria p, steps := p_steps p\<rparr>) w)))"

definition goal_transition ::
  "string \<Rightarrow> string \<Rightarrow> int option \<Rightarrow> string list \<Rightarrow> string \<Rightarrow> string \<Rightarrow> string \<Rightarrow> (goal \<Rightarrow> goal) \<Rightarrow> goal_world
     \<Rightarrow> bool \<times> goal_world" where
  "goal_transition owner gid base from_states to_state reason detail f w =
     (let P = (\<lambda>g. goal_id g = gid \<and> owner_principal_id g = owner \<and> g_status g \<in> set from_states
                 \<and> (case base of None \<Rightarrow> True | Some b \<Rightarrow> revision g = b))
      in (changed_goals P w > 0,
          update_goals P (\<lambda>g. (f g)\<lparr>g_status := to_state, g_reason := reason, g_reason_detail := detail,
                                  revision := revision g + 1, g_updated_at := utc_now w\<rparr>) w))"

definition get_goal :: "goal_world \<Rightarrow> string \<Rightarrow> string \<Rightarrow> goal option" where
  "get_goal w owner gid = List.find (\<lambda>g. goal_id g = gid \<and> owner_principal_id g = owner) (gw_goals w)"

definition active_goals :: "goal_world \<Rightarrow> (string \<times> string) list" where
  "active_goals w =
     map (\<lambda>g. (owner_principal_id g, goal_id g)) (filter (\<lambda>g. g_status g \<in> set ACTIVE_STATES) (gw_goals w))"

definition goal_for_task :: "goal_world \<Rightarrow> string \<Rightarrow> (string \<times> string \<times> string) option" where
  "goal_for_task w tid =
     (case concat (map (\<lambda>g. map (\<lambda>s. (owner_principal_id g, goal_id g, step_id s))
             (filter (\<lambda>s. s_task_id s = Some tid) (steps g))) (gw_goals w)) of
        [] \<Rightarrow> None | x # _ \<Rightarrow> Some x)"

definition withhold_session_memory :: "string \<Rightarrow> string \<Rightarrow> string \<Rightarrow> goal_world \<Rightarrow> goal_world" where
  "withhold_session_memory sid owner reason w =
     w\<lparr>gw_withheld := filter (\<lambda>(s, _). s \<noteq> sid) (gw_withheld w) @ [(sid, owner, reason)]\<rparr>"

definition session_memory_withheld :: "goal_world \<Rightarrow> string option \<Rightarrow> string" where
  "session_memory_withheld w sid =
     (case sid of
        None \<Rightarrow> []
      | Some s \<Rightarrow> if s = [] then [] else (case map_of (gw_withheld w) s of None \<Rightarrow> [] | Some (_, reason) \<Rightarrow> reason))"

subsection \<open>Reading and reporting\<close>

definition audit :: "goal_env \<Rightarrow> string \<Rightarrow> string \<Rightarrow> pydict \<Rightarrow> goal_world \<Rightarrow> goal_world" where
  "audit e owner kind payload w =
     (if ge_audit e then w\<lparr>gw_audit := gw_audit w @ [(owner, kind, (''principal_id'', PStr owner) # payload)]\<rparr> else w)"

definition goal_event :: "goal_env \<Rightarrow> string \<Rightarrow> string \<Rightarrow> string \<Rightarrow> pydict \<Rightarrow> goal_world \<Rightarrow> goal_world" where
  "goal_event e owner gid kind detail w =
     audit e owner kind ((''goal_id'', PStr gid) # detail) (record_event gid owner kind detail w)"

definition linked_task :: "goal_world \<Rightarrow> goal_step \<Rightarrow> TaskRecord option" where
  "linked_task w s =
     (case s_task_id s of None \<Rightarrow> None | Some tid \<Rightarrow> if tid = [] then None else load_task (gw_tasks w) tid)"

definition spend :: "goal_env \<Rightarrow> string \<Rightarrow> goal \<Rightarrow> goal_world \<Rightarrow> rat" where
  "spend e owner g w =
     (let sessions = map run_session_id (List.map_filter (linked_task w) (steps g))
      in if sessions = [] then 0 else ge_spend e owner sessions)"

definition require_action :: "goal \<Rightarrow> string \<Rightarrow> goal_error option" where
  "require_action g action =
     (if action \<in> set (allowed_actions (g_status g)) then None
      else Some (''goal_action_not_allowed'', action @ '':'' @ g_status g))"

definition stale :: goal_error where
  "stale = (''goal_revision_stale'', [])"

definition with_goal ::
  "string \<Rightarrow> string \<Rightarrow> string \<Rightarrow> (goal \<Rightarrow> goal_world \<Rightarrow> 'a goal_result) \<Rightarrow> goal_world \<Rightarrow> 'a goal_result" where
  "with_goal owner gid action f w =
     (case get_goal w owner gid of
        None \<Rightarrow> (Inl (''goal_not_found'', []), w)
      | Some g \<Rightarrow> (case require_action g action of Some err \<Rightarrow> (Inl err, w) | None \<Rightarrow> f g w))"

subsection \<open>Safety checks\<close>

definition pinned :: "goal_world \<Rightarrow> string \<Rightarrow> goal \<Rightarrow> ExecutionProfile option" where
  "pinned w owner g =
     (case profile_id g of
        None \<Rightarrow> None
      | Some pid \<Rightarrow> if pid = [] then None else get_profile w owner pid (profile_version g))"

definition same_profile :: "ExecutionProfile option \<Rightarrow> ExecutionProfile option \<Rightarrow> bool" where
  "same_profile p q =
     (case (p, q) of (Some a, Some b) \<Rightarrow> xp_id a = xp_id b \<and> xp_version a = xp_version b | _ \<Rightarrow> False)"

definition budget_exhausted :: "goal_env \<Rightarrow> string \<Rightarrow> goal \<Rightarrow> goal_world \<Rightarrow> string" where
  "budget_exhausted e owner g w =
     (let pending = (\<exists>s \<in> set (steps g). s_state s = ''pending'')
      in case max_step_runs g of
           Some limit \<Rightarrow>
             if int (step_runs g) \<ge> limit \<and> pending
             then nat_dec (step_runs g) @ '' of '' @ int_dec limit @ '' step runs used''
             else (case g_max_cost_usd g of
                     Some cap \<Rightarrow> if spend e owner g w \<ge> cap then ''spent at least $'' @ ge_usd e cap else []
                   | None \<Rightarrow> [])
         | None \<Rightarrow>
             (case g_max_cost_usd g of
                Some cap \<Rightarrow> if spend e owner g w \<ge> cap then ''spent at least $'' @ ge_usd e cap else []
              | None \<Rightarrow> []))"

definition repin :: "goal_env \<Rightarrow> string \<Rightarrow> goal \<Rightarrow> ExecutionProfile \<Rightarrow> goal_world \<Rightarrow> goal_world" where
  "repin e owner g p w =
     goal_event e owner (goal_id g) ''goal_profile_repinned''
       [(''profile_id'', PStr (xp_id p)), (''profile_version'', PInt (xp_version p))]
       (update_goals (\<lambda>x. goal_id x = goal_id g)
          (\<lambda>x. x\<lparr>profile_id := Some (xp_id p), profile_version := Some (xp_version p),
                 max_step_runs := Some (xp_max_step_runs p), g_max_cost_usd := xp_max_cost_usd p,
                 g_updated_at := utc_now w\<rparr>) w)"

text \<open>Start and Resume, the two callers, both adopt a changed profile.\<close>

definition revalidate :: "goal_env \<Rightarrow> string \<Rightarrow> goal \<Rightarrow> goal_world \<Rightarrow> goal_error option \<times> goal_world" where
  "revalidate e owner g w =
     (if ge_principal e owner = None then (Some (''goal_owner_unknown'', []), w)
      else case fst (resolve_for w owner (g_project_id g)) of
        None \<Rightarrow> (Some (''no_execution_profile'', []), w)
      | Some current \<Rightarrow>
          (let p = (case pinned w owner g of Some q \<Rightarrow> if same_profile (Some q) (Some current) then q else current
                                           | None \<Rightarrow> current);
               refused = chain_refusal (model_chain e owner p (g_model_profile g) (g_model g))
           in if refused \<noteq> [] then (Some (''profile_blocks_model'', refused), w)
              else (let changed = (profile_id g, profile_version g) \<noteq> (Some (xp_id p), Some (xp_version p));
                        w1 = (if changed then repin e owner g p w else w)
                    in case (if changed then get_goal w1 owner (goal_id g) else Some g) of
                         None \<Rightarrow> (Some (''goal_not_found'', []), w1)
                       | Some g1 \<Rightarrow>
                           (let exhausted = budget_exhausted e owner g1 w1
                            in (if exhausted = [] then None else Some (''budget_exhausted'', exhausted), w1)))))"

definition ACTIVE_TASK :: "string list" where
  "ACTIVE_TASK = [''queued'', ''running'', ''continuing'', ''waiting_for_approval'', ''waiting_for_user_answer'',
     ''waiting_for_children'', ''paused'']"

definition interrupt_step ::
  "goal_env \<Rightarrow> string \<Rightarrow> string \<Rightarrow> goal_step \<Rightarrow> nat \<times> goal_world \<Rightarrow> nat \<times> goal_world" where
  "interrupt_step e action reason s nw =
     (case nw of (n, w) \<Rightarrow>
        (case linked_task w s of
           None \<Rightarrow> (n, w)
         | Some t \<Rightarrow>
             if action = ''cancel'' \<and> status t \<in> set ACTIVE_TASK
             then (Suc n,
                   w\<lparr>gw_tasks := snd (apply_at_safe_boundary True
                       \<lparr>ia_action_id = ''act_'' @ ge_uuid e (gw_next_id w), ia_task_id = task_id t,
                        ia_session_id = task_session_id t, ia_action_type = ''cancel'', ia_reason = reason,
                        ia_steer_text = None\<rparr> True None (gw_tasks w)),
                     gw_next_id := Suc (gw_next_id w)\<rparr>)
             else if action = ''pause'' \<and> status t = ''queued''
             then (let P = (\<lambda>r. task_id r = task_id t \<and> status r = ''queued'')
                   in (n + changed_rows P (gw_tasks w),
                       w\<lparr>gw_tasks := update_rows P (\<lambda>r. r\<lparr>status := ''paused'',
                           current_step := Some ''Paused with its goal'', updated_at := utc_now w\<rparr>) (gw_tasks w)\<rparr>))
             else if action = ''resume'' \<and> status t = ''paused''
             then (case store_resume_paused_routine (task_id t) (gw_tasks w) of
                     (b, tw) \<Rightarrow> (n + (if b then 1 else 0), w\<lparr>gw_tasks := tw\<rparr>))
             else (n, w)))"

definition interrupt_goal :: "goal_env \<Rightarrow> goal \<Rightarrow> string \<Rightarrow> string \<Rightarrow> goal_world \<Rightarrow> nat \<times> goal_world" where
  "interrupt_goal e g action reason w = fold (interrupt_step e action reason) (steps g) (0, w)"

definition pause_goal ::
  "goal_env \<Rightarrow> string \<Rightarrow> string \<Rightarrow> int option \<Rightarrow> string \<Rightarrow> goal_world \<Rightarrow> unit goal_result" where
  "pause_goal e owner gid base reason w =
     (case get_goal w owner gid of
        None \<Rightarrow> (Inl (''goal_not_found'', []), w)
      | Some g \<Rightarrow>
          (case (if base = None then None else require_action g ''pause'') of
             Some err \<Rightarrow> (Inl err, w)
           | None \<Rightarrow>
               (case goal_transition owner gid base [''running'', ''waiting''] ''paused'' reason [] (\<lambda>g. g) w of
                  (False, w1) \<Rightarrow> (Inl stale, w)
                | (True, w1) \<Rightarrow>
                    (case interrupt_goal e g ''pause''
                            (case map_of REASONS reason of None \<Rightarrow> reason | Some txt \<Rightarrow> txt) w1 of
                       (reached, w2) \<Rightarrow>
                         (Inr (), goal_event e owner gid ''goal_paused''
                            [(''reason'', PStr reason), (''steps_paused'', PInt (int reached))] w2)))))"

subsection \<open>The pass\<close>

definition wait_goal :: "goal_env \<Rightarrow> string \<Rightarrow> goal \<Rightarrow> string \<Rightarrow> string \<Rightarrow> goal_world \<Rightarrow> goal_world" where
  "wait_goal e owner g reason detail w =
     (if g_status g = ''waiting'' \<and> g_reason g = reason \<and> g_reason_detail g = detail then w
      else goal_event e owner (goal_id g) ''goal_waiting'' [(''reason'', PStr reason)]
        (snd (goal_transition owner (goal_id g) None [''running'', ''waiting''] ''waiting'' reason detail (\<lambda>g. g) w)))"

definition run_goal :: "string \<Rightarrow> goal \<Rightarrow> goal_world \<Rightarrow> goal_world" where
  "run_goal owner g w =
     (if g_status g = ''running'' \<and> g_reason g = [] then w
      else snd (goal_transition owner (goal_id g) None [''running'', ''waiting''] ''running'' [] [] (\<lambda>g. g) w))"

definition refresh_step :: "goal_env \<Rightarrow> string \<Rightarrow> goal_step \<Rightarrow> goal_world \<Rightarrow> goal_step \<times> goal_world" where
  "refresh_step e gid s w =
     (if s_state s \<in> set STEP_SETTLED then (s, w)
      else if s_task_id s = None \<or> s_task_id s = Some []
      then (if s_state s = ''running'' \<and> ge_older e (s_updated_at s)
            then (s\<lparr>s_state := ''failed'', s_reason := ''dispatch_interrupted''\<rparr>,
                  update_steps gid (\<lambda>x. step_id x = step_id s \<and> s_task_id x = None)
                    (\<lambda>x. x\<lparr>s_state := ''failed'', s_reason := ''dispatch_interrupted''\<rparr>) w)
            else (s, w))
      else (case step_from_task (map_option status (linked_task w s)) of
              (state, reason) \<Rightarrow>
                if (state, reason) \<noteq> (s_state s, s_reason s)
                then (s\<lparr>s_state := state, s_reason := reason\<rparr>,
                      update_steps gid (\<lambda>x. step_id x = step_id s) (\<lambda>x. x\<lparr>s_state := state, s_reason := reason\<rparr>) w)
                else (s, w)))"

fun refresh_each :: "goal_env \<Rightarrow> string \<Rightarrow> goal_step list \<Rightarrow> goal_world \<Rightarrow> goal_step list \<times> goal_world" where
  "refresh_each e gid [] w = ([], w)"
| "refresh_each e gid (s # ss) w =
     (case refresh_step e gid s w of
        (s1, w1) \<Rightarrow> (case refresh_each e gid ss w1 of (ss1, w2) \<Rightarrow> (s1 # ss1, w2)))"

definition refresh_steps :: "goal_env \<Rightarrow> goal \<Rightarrow> goal_world \<Rightarrow> goal \<times> goal_world" where
  "refresh_steps e g w =
     (case refresh_each e (goal_id g) (steps g) w of (ss, w1) \<Rightarrow> (g\<lparr>steps := ss\<rparr>, w1))"

definition dep_state :: "(string \<times> string) list \<Rightarrow> string \<Rightarrow> string" where
  "dep_state states d = (case map_of states d of None \<Rightarrow> ''failed'' | Some x \<Rightarrow> x)"

fun scan_steps :: "(string \<times> string) list \<Rightarrow> goal_step list \<Rightarrow> string list \<times> goal_step list" where
  "scan_steps states [] = ([], [])"
| "scan_steps states (s # ss) =
     (if s_state s \<noteq> ''pending'' then scan_steps states ss
      else (let deps = map (dep_state states) (depends_on s)
            in if \<exists>d \<in> set deps. d \<in> {''failed'', ''stopped'', ''blocked''}
               then (case scan_steps ((step_id s, ''blocked'') # states) ss of
                       (blocked, due) \<Rightarrow> (step_id s # blocked, due))
               else if \<forall>d \<in> set deps. d = ''done''
               then (case scan_steps states ss of (blocked, due) \<Rightarrow> (blocked, s # due))
               else scan_steps states ss))"

definition block_steps :: "goal \<Rightarrow> string list \<Rightarrow> goal_world \<Rightarrow> goal \<times> goal_world" where
  "block_steps g blocked w =
     (g\<lparr>steps := map (\<lambda>s. if s_state s = ''pending'' \<and> step_id s \<in> set blocked then s\<lparr>s_state := ''blocked''\<rparr> else s) (steps g)\<rparr>,
      update_steps (goal_id g) (\<lambda>s. step_id s \<in> set blocked \<and> s_state s = ''pending'')
        (\<lambda>s. s\<lparr>s_state := ''blocked'', s_reason := ''dependency_not_finished''\<rparr>) w)"

definition step_request :: "goal_env \<Rightarrow> string \<Rightarrow> goal \<Rightarrow> goal_step \<Rightarrow> task_request" where
  "step_request e owner g s =
     \<lparr>rq_title = take 160 (ge_title e (g_title g) (s_title s)), rq_objective = instruction s,
      rq_user_id = (case ge_principal e owner of None \<Rightarrow> None | Some u \<Rightarrow> u), rq_principal_id = owner,
      rq_project_id = g_project_id g, rq_surface = s_surface s, rq_model_profile = g_model_profile g,
      rq_model = g_model g\<rparr>"

definition reserve_run :: "string \<Rightarrow> goal_world \<Rightarrow> bool \<times> goal_world" where
  "reserve_run gid w =
     (let P = (\<lambda>g. goal_id g = gid \<and> g_status g \<in> {''running'', ''waiting''}
                 \<and> (case max_step_runs g of None \<Rightarrow> True | Some limit \<Rightarrow> int (step_runs g) < limit))
      in (changed_goals P w > 0,
          update_goals P (\<lambda>g. g\<lparr>step_runs := Suc (step_runs g), g_updated_at := utc_now w\<rparr>) w))"

definition claimable :: "string \<Rightarrow> goal_step \<Rightarrow> bool" where
  "claimable sid s \<longleftrightarrow> step_id s = sid \<and> s_state s = ''pending'' \<and> s_task_id s = None"

definition claim_step :: "string \<Rightarrow> string \<Rightarrow> goal_world \<Rightarrow> bool \<times> goal_world" where
  "claim_step gid sid w =
     (\<exists>g \<in> set (gw_goals w). goal_id g = gid \<and> (\<exists>s \<in> set (steps g). claimable sid s),
      update_steps gid (claimable sid) (\<lambda>s. s\<lparr>s_state := ''running'', s_reason := ''dispatching''\<rparr>) w)"

definition refund_run :: "string \<Rightarrow> goal_world \<Rightarrow> goal_world" where
  "refund_run gid = update_goals (\<lambda>g. goal_id g = gid) (\<lambda>g. g\<lparr>step_runs := step_runs g - 1\<rparr>)"

definition limit_task :: "goal_env \<Rightarrow> string \<Rightarrow> goal \<Rightarrow> ExecutionProfile \<Rightarrow> string \<Rightarrow> goal_world \<Rightarrow> goal_world" where
  "limit_task e owner g p tid w =
     (case xp_max_cost_usd p of
        None \<Rightarrow> w
      | Some cap \<Rightarrow>
          if load_task (gw_tasks w) tid = None then w
          else w\<lparr>gw_tasks := snd (set_task_cost_limit tid
                   (Some (max (1 / 100) (ge_round2 e (cap - spend e owner g w)))) (gw_tasks w))\<rparr>)"

definition withhold_task_memory :: "bool \<Rightarrow> string \<Rightarrow> TaskRecord option \<Rightarrow> goal_world \<Rightarrow> goal_world" where
  "withhold_task_memory withhold owner t w =
     (case t of
        None \<Rightarrow> w
      | Some r \<Rightarrow> if withhold then withhold_session_memory (run_session_id r) owner ''execution_profile'' w else w)"

definition file_step ::
  "goal_env \<Rightarrow> string \<Rightarrow> goal \<Rightarrow> goal_step \<Rightarrow> ExecutionProfile \<Rightarrow> bool \<Rightarrow> goal_world \<Rightarrow> goal_world" where
  "file_step e owner g s p withhold w =
     (case ge_create_task e (step_request e owner g s) (gw_tasks w) of
        (Inl reason, tw) \<Rightarrow>
          goal_event e owner (goal_id g) ''goal_step_refused''
            [(''step_id'', PStr (step_id s)), (''reason'', PStr (take 120 reason))]
            (update_steps (goal_id g) (\<lambda>x. step_id x = step_id s)
               (\<lambda>x. x\<lparr>s_state := ''failed'', s_reason := take 120 reason\<rparr>) (w\<lparr>gw_tasks := tw\<rparr>))
      | (Inr tid, tw) \<Rightarrow>
          (let w1 = w\<lparr>gw_tasks := tw\<rparr>;
               t = load_task tw tid
           in goal_event e owner (goal_id g) ''goal_step_started''
                [(''step_id'', PStr (step_id s)), (''task_id'', PStr tid), (''memory_withheld'', PBool withhold)]
                (update_steps (goal_id g) (\<lambda>x. step_id x = step_id s) (\<lambda>x. x\<lparr>s_task_id := Some tid, s_reason := []\<rparr>)
                   (withhold_task_memory withhold owner t (limit_task e owner g p tid w1)))))"

definition dispatch ::
  "goal_env \<Rightarrow> string \<Rightarrow> goal \<Rightarrow> ExecutionProfile \<Rightarrow> bool \<Rightarrow> goal_step \<Rightarrow> goal_world \<Rightarrow> bool \<times> goal_world" where
  "dispatch e owner g p withhold s w =
     (case reserve_run (goal_id g) w of
        (False, w1) \<Rightarrow> (False, w1)
      | (True, w1) \<Rightarrow>
          (case claim_step (goal_id g) (step_id s) w1 of
             (False, w2) \<Rightarrow> (True, refund_run (goal_id g) w2)
           | (True, w2) \<Rightarrow> (True, file_step e owner g s p withhold w2)))"

fun dispatch_all ::
  "goal_env \<Rightarrow> string \<Rightarrow> goal \<Rightarrow> ExecutionProfile \<Rightarrow> bool \<Rightarrow> goal_step list \<Rightarrow> goal_world \<Rightarrow> goal_world" where
  "dispatch_all e owner g p withhold [] w = w"
| "dispatch_all e owner g p withhold (s # ss) w =
     (case dispatch e owner g p withhold s w of
        (False, w1) \<Rightarrow> w1 | (True, w1) \<Rightarrow> dispatch_all e owner g p withhold ss w1)"

subsection \<open>Evidence and outcome\<close>

definition has_evidence :: "criterion \<Rightarrow> bool" where
  "has_evidence c \<longleftrightarrow> evidence_kind c \<noteq> None \<and> evidence_kind c \<noteq> Some []"

definition linked_steps :: "goal \<Rightarrow> criterion \<Rightarrow> goal_step list" where
  "linked_steps g c = filter (\<lambda>s. criterion_id c \<in> set (criterion_ids s)) (steps g)"

definition earns_evidence :: "goal \<Rightarrow> criterion \<Rightarrow> bool" where
  "earns_evidence g c \<longleftrightarrow>
     validator c = ''steps_finish'' \<and> \<not> has_evidence c
     \<and> linked_steps g c \<noteq> [] \<and> (\<forall>s \<in> set (linked_steps g c). s_state s = ''done'')"

fun join_with :: "string \<Rightarrow> string list \<Rightarrow> string" where
  "join_with sep [] = []"
| "join_with sep [x] = x"
| "join_with sep (x # y # xs) = x @ sep @ join_with sep (y # xs)"

definition evidence_refs :: "goal \<Rightarrow> criterion \<Rightarrow> string" where
  "evidence_refs g c =
     join_with '','' (map (\<lambda>s. case s_task_id s of None \<Rightarrow> ''None'' | Some t \<Rightarrow> t) (linked_steps g c))"

definition record_evidence :: "goal \<Rightarrow> criterion \<Rightarrow> goal_world \<Rightarrow> goal_world" where
  "record_evidence g c =
     update_criteria (goal_id g) (\<lambda>x. criterion_id x = criterion_id c)
       (\<lambda>x. x\<lparr>evidence_kind := Some ''steps_finished'', evidence_ref := Some (evidence_refs g c)\<rparr>)"

definition auto_evidence :: "goal \<Rightarrow> goal_world \<Rightarrow> goal \<times> goal_world" where
  "auto_evidence g w =
     (g\<lparr>criteria := map (\<lambda>c. if earns_evidence g c then c\<lparr>evidence_kind := Some ''steps_finished''\<rparr> else c) (criteria g)\<rparr>,
      fold (record_evidence g) (filter (earns_evidence g) (criteria g)) w)"

definition outcome_of :: "goal \<Rightarrow> string" where
  "outcome_of g =
     (if filter mandatory (criteria g) \<noteq> [] \<and> (\<forall>c \<in> set (filter mandatory (criteria g)). has_evidence c)
      then ''completed''
      else if filter has_evidence (criteria g) \<noteq> [] then ''partial'' else ''failed'')"

definition goal_assess :: "goal_env \<Rightarrow> string \<Rightarrow> string \<Rightarrow> string list \<Rightarrow> goal_world \<Rightarrow> unit goal_result" where
  "goal_assess e owner gid from_states w =
     (case get_goal w owner gid of
        None \<Rightarrow> (Inl (''goal_not_found'', []), w)
      | Some g0 \<Rightarrow>
          (case auto_evidence g0 w of
             (g, w1) \<Rightarrow>
               (let outcome = outcome_of g;
                    unmet = map criterion_id (filter (\<lambda>c. \<not> has_evidence c) (filter mandatory (criteria g)))
                in case goal_transition owner gid None from_states outcome [] (join_with '','' unmet)
                          (\<lambda>x. x\<lparr>settled_at := Some (utc_now w1)\<rparr>) w1 of
                     (False, w2) \<Rightarrow> (Inr (), w2)
                   | (True, w2) \<Rightarrow>
                       (Inr (), goal_event e owner gid (''goal_'' @ outcome)
                          [(''criteria_met'', PInt (int (length (filter has_evidence (criteria g))))),
                           (''criteria_unmet'', PInt (int (length unmet)))] w2))))"

definition settle_or_report :: "goal_env \<Rightarrow> string \<Rightarrow> goal \<Rightarrow> goal_world \<Rightarrow> unit goal_result" where
  "settle_or_report e owner g0 w0 =
     (case auto_evidence g0 w0 of
        (g, w) \<Rightarrow>
          if \<exists>s \<in> set (steps g). s_state s = ''running'' then (Inr (), run_goal owner g w)
          else (case List.find (\<lambda>s. s_state s = ''waiting'') (steps g) of
                  Some s \<Rightarrow> (Inr (), wait_goal e owner g (if s_reason s = [] then ''step_paused'' else s_reason s) [] w)
                | None \<Rightarrow>
                    if \<forall>s \<in> set (steps g). s_state s \<in> set STEP_SETTLED
                    then goal_assess e owner (goal_id g) [''running'', ''waiting''] w
                    else (Inr (), w)))"

definition file_due ::
  "goal_env \<Rightarrow> string \<Rightarrow> goal \<Rightarrow> ExecutionProfile \<Rightarrow> goal_step list \<Rightarrow> goal_world \<Rightarrow> unit goal_result" where
  "file_due e owner g p due w =
     (let chain = model_chain e owner p (g_model_profile g) (g_model g);
          refused = chain_refusal chain
      in if refused \<noteq> [] then (Inr (), wait_goal e owner g ''profile_blocks_model'' refused w)
         else if budget_exhausted e owner g w \<noteq> [] then pause_goal e owner (goal_id g) None ''budget_exhausted'' w
         else (let hosted = (\<exists>c \<in> set chain. \<not> ce_local c);
                   w1 = dispatch_all e owner g p (hosted \<and> \<not> memory_to_hosted p) due w
               in case get_goal w1 owner (goal_id g) of
                    None \<Rightarrow> (Inl (''goal_not_found'', []), w1)
                  | Some g1 \<Rightarrow> (case refresh_steps e g1 w1 of (g2, w2) \<Rightarrow> settle_or_report e owner g2 w2)))"

definition advance :: "goal_env \<Rightarrow> string \<Rightarrow> string \<Rightarrow> goal_world \<Rightarrow> unit goal_result" where
  "advance e owner gid w =
     (case get_goal w owner gid of
        None \<Rightarrow> (Inl (''goal_not_found'', []), w)
      | Some g0 \<Rightarrow>
          if g_status g0 \<notin> set ACTIVE_STATES then (Inr (), w)
          else (let current = fst (resolve_for w owner (g_project_id g0))
                in case pinned w owner g0 of
                     None \<Rightarrow> pause_goal e owner gid None ''profile_changed'' w
                   | Some p \<Rightarrow>
                       if \<not> same_profile current (Some p) then pause_goal e owner gid None ''profile_changed'' w
                       else (case refresh_steps e g0 w of
                               (g1, w1) \<Rightarrow>
                                 (case scan_steps (map (\<lambda>s. (step_id s, s_state s)) (steps g1)) (steps g1) of
                                    (blocked, due) \<Rightarrow>
                                      (case block_steps g1 blocked w1 of
                                         (g2, w2) \<Rightarrow>
                                           if due \<noteq> [] then file_due e owner g2 p due w2
                                           else settle_or_report e owner g2 w2)))))"

subsection \<open>The owner's actions\<close>

definition unlinked_criterion :: "goal \<Rightarrow> criterion option" where
  "unlinked_criterion g =
     List.find (\<lambda>c. validator c = ''steps_finish'' \<and> criterion_id c \<notin> set (concat (map criterion_ids (steps g)))) (criteria g)"

definition accept_blocker :: "goal_env \<Rightarrow> string \<Rightarrow> goal \<Rightarrow> goal_error option" where
  "accept_blocker e owner g =
     (if \<not> (\<exists>c \<in> set (criteria g). mandatory c) then Some (''goal_needs_mandatory_criterion'', [])
      else if steps g = [] then Some (''goal_needs_step'', [])
      else case (g_model_profile g, g_model g) of
        (Some mp, Some mdl) \<Rightarrow>
          if mp = [] \<or> mdl = [] then Some (''goal_needs_model'', [])
          else if \<not> ge_configured e owner mp mdl then Some (''goal_model_not_configured'', [])
          else map_option (\<lambda>c. (''goal_criterion_has_no_step'', criterion_id c)) (unlinked_criterion g)
      | _ \<Rightarrow> Some (''goal_needs_model'', []))"

definition accept :: "goal_env \<Rightarrow> string \<Rightarrow> string \<Rightarrow> int \<Rightarrow> goal_world \<Rightarrow> unit goal_result" where
  "accept e owner gid base =
     with_goal owner gid ''accept'' (\<lambda>g w.
       case accept_blocker e owner g of
         Some err \<Rightarrow> (Inl err, w)
       | None \<Rightarrow>
           (case fst (resolve_for w owner (g_project_id g)) of
              None \<Rightarrow> (Inl (''no_execution_profile'', []), w)
            | Some p \<Rightarrow>
                (case goal_transition owner gid (Some base) [''draft''] ''ready'' [] []
                        (\<lambda>x. x\<lparr>profile_id := Some (xp_id p), profile_version := Some (xp_version p),
                               max_step_runs := Some (xp_max_step_runs p), g_max_cost_usd := xp_max_cost_usd p,
                               accepted_at := Some (utc_now w)\<rparr>) w of
                   (False, w1) \<Rightarrow> (Inl stale, w)
                 | (True, w1) \<Rightarrow>
                     (Inr (), goal_event e owner gid ''goal_accepted''
                        [(''profile_id'', PStr (xp_id p)), (''profile_version'', PInt (xp_version p))] w1))))"

definition start :: "goal_env \<Rightarrow> string \<Rightarrow> string \<Rightarrow> int \<Rightarrow> goal_world \<Rightarrow> unit goal_result" where
  "start e owner gid base =
     with_goal owner gid ''start'' (\<lambda>g w.
       case revalidate e owner g w of
         (Some err, w1) \<Rightarrow> (Inl err, w1)
       | (None, w1) \<Rightarrow>
           (case get_goal w1 owner gid of
              None \<Rightarrow> (Inl (''goal_not_found'', []), w1)
            | Some g1 \<Rightarrow>
                (case goal_transition owner gid (Some (base + (revision g1 - revision g))) [''ready''] ''running'' [] []
                        (\<lambda>x. x) w1 of
                   (False, w2) \<Rightarrow> (Inl stale, w1)
                 | (True, w2) \<Rightarrow> advance e owner gid (goal_event e owner gid ''goal_started'' [] w2))))"

definition resume :: "goal_env \<Rightarrow> string \<Rightarrow> string \<Rightarrow> int \<Rightarrow> goal_world \<Rightarrow> unit goal_result" where
  "resume e owner gid base =
     with_goal owner gid ''resume'' (\<lambda>g w.
       case revalidate e owner g w of
         (Some err, w1) \<Rightarrow> (Inl err, w1)
       | (None, w1) \<Rightarrow>
           (case goal_transition owner gid (Some base) [''paused''] ''running'' [] [] (\<lambda>x. x) w1 of
              (False, w2) \<Rightarrow> (Inl stale, w1)
            | (True, w2) \<Rightarrow>
                (case get_goal w2 owner gid of
                   None \<Rightarrow> (Inl (''goal_not_found'', []), w2)
                 | Some g1 \<Rightarrow>
                     (case interrupt_goal e g1 ''resume'' ''Goal resumed'' w2 of
                        (reached, w3) \<Rightarrow>
                          advance e owner gid
                            (goal_event e owner gid ''goal_resumed'' [(''steps_resumed'', PInt (int reached))] w3)))))"

definition stop_goal :: "goal_env \<Rightarrow> string \<Rightarrow> string \<Rightarrow> int \<Rightarrow> goal_world \<Rightarrow> (nat \<times> nat \<times> nat) goal_result" where
  "stop_goal e owner gid base =
     with_goal owner gid ''stop'' (\<lambda>g w.
       case goal_transition owner gid (Some base) [''ready'', ''running'', ''waiting'', ''paused''] ''stopped'' [] []
              (\<lambda>x. x\<lparr>settled_at := Some (utc_now w)\<rparr>) w of
         (False, w1) \<Rightarrow> (Inl stale, w)
       | (True, w1) \<Rightarrow>
           (let w2 = update_steps gid (\<lambda>s. s_state s \<notin> set STEP_SETTLED)
                       (\<lambda>s. s\<lparr>s_state := ''stopped'', s_reason := ''goal_stopped''\<rparr>) w1;
                finished = length (filter (\<lambda>s. s_state s = ''done'') (steps g));
                unfinished = length (steps g) - finished
            in case interrupt_goal e g ''cancel'' ''The owner stopped the goal'' w2 of
                 (reached, w3) \<Rightarrow>
                   (Inr (finished, unfinished, reached),
                    goal_event e owner gid ''goal_stopped''
                      [(''steps_done'', PInt (int finished)), (''steps_stopped'', PInt (int unfinished)),
                       (''tasks_stopped'', PInt (int reached))] w3)))"

definition archive :: "goal_env \<Rightarrow> string \<Rightarrow> string \<Rightarrow> int \<Rightarrow> goal_world \<Rightarrow> unit goal_result" where
  "archive e owner gid base =
     with_goal owner gid ''archive'' (\<lambda>g w.
       case goal_transition owner gid (Some base) (''draft'' # SETTLED_STATES) ''archived'' (g_status g) []
              (\<lambda>x. x\<lparr>archived_at := Some (utc_now w)\<rparr>) w of
         (False, w1) \<Rightarrow> (Inl stale, w)
       | (True, w1) \<Rightarrow> (Inr (), goal_event e owner gid ''goal_archived'' [(''from'', PStr (g_status g))] w1))"

definition confirm :: "goal_env \<Rightarrow> string \<Rightarrow> string \<Rightarrow> string \<Rightarrow> int \<Rightarrow> string \<Rightarrow> goal_world \<Rightarrow> unit goal_result" where
  "confirm e owner gid cid base note =
     with_goal owner gid ''confirm'' (\<lambda>g w.
       if revision g \<noteq> base then (Inl stale, w)
       else if cid \<notin> set (map criterion_id (criteria g)) then (Inl (''goal_criterion_unknown'', []), w)
       else (let txt = take 300 (str_strip note);
                 w1 = update_criteria gid (\<lambda>c. criterion_id c = cid)
                        (\<lambda>c. c\<lparr>evidence_kind := Some ''owner_confirmed'', evidence_ref := None,
                               evidence_note := if txt = [] then None else Some txt\<rparr>) w;
                 w2 = update_goals (\<lambda>x. goal_id x = gid) (\<lambda>x. x\<lparr>revision := revision x + 1, g_updated_at := utc_now w1\<rparr>) w1;
                 w3 = goal_event e owner gid ''goal_criterion_confirmed'' [(''criterion_id'', PStr cid)] w2
             in if g_status g = ''partial'' then goal_assess e owner gid [''partial''] w3
                else if g_status g \<in> set ACTIVE_STATES then advance e owner gid w3
                else (Inr (), w3)))"

subsection \<open>The scheduler's guard and the passes over all goals\<close>

definition guard_task :: "goal_env \<Rightarrow> string \<Rightarrow> goal_world \<Rightarrow> goal_error option \<times> goal_world" where
  "guard_task e tid w =
     (case goal_for_task w tid of
        None \<Rightarrow> (None, w)
      | Some (owner, gid, sid) \<Rightarrow>
          (case get_goal w owner gid of
             None \<Rightarrow> (Some (''goal_not_running'', []), w)
           | Some g \<Rightarrow>
               if g_status g \<notin> set ACTIVE_STATES then (Some (''goal_not_running'', g_status g), w)
               else (case pinned w owner g of
                       None \<Rightarrow> (Some (''no_execution_profile'', []), w)
                     | Some p \<Rightarrow>
                         (let refused = chain_refusal (model_chain e owner p (g_model_profile g) (g_model g))
                          in if refused = [] then (None, w)
                             else (Some (''profile_blocks_model'', refused),
                                   wait_goal e owner g ''profile_blocks_model'' refused
                                     (refund_run gid
                                       (update_steps gid (\<lambda>s. step_id s = sid \<and> s_task_id s = Some tid)
                                         (\<lambda>s. s\<lparr>s_state := ''pending'', s_reason := [], s_task_id := None\<rparr>) w)))))))"

definition reconcile_all :: "goal_env \<Rightarrow> goal_world \<Rightarrow> nat \<times> goal_world" where
  "reconcile_all e w =
     fold (\<lambda>(owner, gid) (n, w). case advance e owner gid w of
               (Inl err, w1) \<Rightarrow> (n, w1) | (Inr (), w1) \<Rightarrow> (Suc n, w1)) (active_goals w) (0, w)"

text \<open>A goal that is gone when its turn comes raises, and the rest of the owner's goals is not looked at.\<close>

definition pause_if_moved :: "goal_env \<Rightarrow> string \<Rightarrow> string \<times> string \<Rightarrow> nat goal_result \<Rightarrow> nat goal_result" where
  "pause_if_moved e owner og r =
     (case r of
        (Inl err, w) \<Rightarrow> (Inl err, w)
      | (Inr n, w) \<Rightarrow>
          if fst og \<noteq> owner then (Inr n, w)
          else (case get_goal w owner (snd og) of
                  None \<Rightarrow> (Inl (''goal_not_found'', []), w)
                | Some g \<Rightarrow>
                    if same_profile (fst (resolve_for w owner (g_project_id g))) (pinned w owner g) then (Inr n, w)
                    else (case pause_goal e owner (snd og) None ''profile_changed'' w of
                            (Inl err, w1) \<Rightarrow> (Inr n, w1) | (Inr (), w1) \<Rightarrow> (Inr (Suc n), w1))))"

definition profile_changed :: "goal_env \<Rightarrow> string \<Rightarrow> goal_world \<Rightarrow> nat goal_result" where
  "profile_changed e owner w = fold (pause_if_moved e owner) (active_goals w) (Inr 0, w)"

end
