(* ===== verification/Goal_Invariants.thy ===== *)
theory Goal_Invariants
  imports Goal_Coordinator
begin

text \<open>
  What the goal coordinator keeps true of every goal. The locales state what an invariant of a goal row has to
  allow for the writes of a coordinator pass, and of the owner's actions; the preservation by the whole
  operations is proved once and used for each invariant.
\<close>

subsection \<open>Invariants of rows\<close>

definition goals_ok :: "(goal \<Rightarrow> bool) \<Rightarrow> goal_world \<Rightarrow> bool" where
  "goals_ok I w \<longleftrightarrow> distinct (map goal_id (gw_goals w)) \<and> (\<forall>g \<in> set (gw_goals w). I g)"

named_theorems goal_frame
named_theorems goal_keeps

lemma goals_frame [goal_frame]:
  "gw_goals (record_event gid owner kind detail w) = gw_goals w"
  "gw_goals (audit e owner kind payload w) = gw_goals w"
  "gw_goals (goal_event e owner gid kind detail w) = gw_goals w"
  "gw_goals (withhold_session_memory sid owner reason w) = gw_goals w"
  "gw_goals (withhold_task_memory b owner t w) = gw_goals w"
  "gw_goals (limit_task e owner g p tid w) = gw_goals w"
  "gw_goals (insert_profile owner p w) = gw_goals w"
  by (simp_all add: record_event_def audit_def goal_event_def withhold_session_memory_def withhold_task_memory_def
      limit_task_def insert_profile_def split: option.splits)

lemma goals_ok_frame: "gw_goals u = gw_goals w \<Longrightarrow> goals_ok I u = goals_ok I w"
  by (simp add: goals_ok_def)

lemma goals_ok_events [goal_keeps]: "goals_ok I (goal_event e owner gid kind detail w) = goals_ok I w"
  by (rule goals_ok_frame) (simp add: goal_frame)

lemma goals_interrupt_step: "gw_goals (snd (interrupt_step e action reason s nw)) = gw_goals (snd nw)"
  by (simp add: interrupt_step_def Let_def split: prod.splits option.splits)

lemma goals_interrupt [goal_frame]: "gw_goals (snd (interrupt_goal e g action reason w)) = gw_goals w"
proof -
  have "gw_goals (snd (fold (interrupt_step e action reason) ss nw)) = gw_goals (snd nw)" for ss nw
    by (induction ss arbitrary: nw) (simp_all add: goals_interrupt_step)
  then show ?thesis by (simp add: interrupt_goal_def)
qed

lemma goals_ok_change:
  assumes "goals_ok I w" and "\<And>g. g \<in> set (gw_goals w) \<Longrightarrow> P g \<Longrightarrow> I g \<Longrightarrow> goal_id (f g) = goal_id g \<and> J (f g)"
    and "\<And>g. g \<in> set (gw_goals w) \<Longrightarrow> \<not> P g \<Longrightarrow> I g \<Longrightarrow> J g"
  shows "goals_ok J (update_goals P f w)"
proof -
  have "goal_id (if P g then f g else g) = goal_id g" if "g \<in> set (gw_goals w)" for g
    using assms that by (simp add: goals_ok_def)
  then have "map goal_id (map (\<lambda>g. if P g then f g else g) (gw_goals w)) = map goal_id (gw_goals w)"
    unfolding map_map comp_def by (intro map_cong refl)
  moreover have rows: "gw_goals (update_goals P f w) = map (\<lambda>g. if P g then f g else g) (gw_goals w)"
    by (simp add: update_goals_def)
  ultimately have "distinct (map goal_id (gw_goals (update_goals P f w)))"
    using assms(1) unfolding goals_ok_def by metis
  moreover have "J (if P g then f g else g)" if "g \<in> set (gw_goals w)" for g
    using assms that by (simp add: goals_ok_def)
  then have "\<forall>g \<in> set (gw_goals (update_goals P f w)). J g"
    by (simp add: update_goals_def del: if_image_distrib split del: if_split)
  ultimately show ?thesis unfolding goals_ok_def by blast
qed

lemma goals_ok_update:
  assumes "goals_ok I w" and "\<And>g. P g \<Longrightarrow> I g \<Longrightarrow> goal_id (f g) = goal_id g \<and> I (f g)"
  shows "goals_ok I (update_goals P f w)"
  by (rule goals_ok_change [OF assms(1)]) (use assms(2) in auto)

lemma same_goal: "goals_ok I w \<Longrightarrow> g \<in> set (gw_goals w) \<Longrightarrow> h \<in> set (gw_goals w) \<Longrightarrow> goal_id g = goal_id h \<Longrightarrow> g = h"
  unfolding goals_ok_def by (metis distinct_map inj_on_eq_iff)

lemma get_goal_row: "get_goal w owner gid = Some g \<Longrightarrow> g \<in> set (gw_goals w) \<and> goal_id g = gid \<and> owner_principal_id g = owner"
  by (auto simp: get_goal_def dest: find_SomeD)

subsection \<open>A coordinator pass\<close>

text \<open>
  The writes of a pass: a goal moves to running, waiting or paused, a step changes state, a criterion gains
  evidence. Filing a step and assessing the outcome are the two writes that can break an invariant; each
  invariant discharges them for itself.
\<close>

locale pass_invariant =
  fixes I :: "goal \<Rightarrow> bool"
  assumes moved: "I g \<Longrightarrow> st \<notin> {''completed'', ''partial'', ''failed''} \<Longrightarrow>
      I (g\<lparr>g_status := st, g_reason := r, g_reason_detail := d, revision := n, g_updated_at := t\<rparr>)"
    and stepped: "I g \<Longrightarrow> (\<And>s. step_id (h s) = step_id s \<and> s_task_id (h s) = s_task_id s) \<Longrightarrow>
      I (g\<lparr>steps := map h (steps g)\<rparr>)"
    and evidenced: "I g \<Longrightarrow> (\<And>c. mandatory (k c) = mandatory c \<and> (has_evidence c \<longrightarrow> has_evidence (k c))) \<Longrightarrow>
      I (g\<lparr>criteria := map k (criteria g)\<rparr>)"
    and dispatched: "goals_ok I w \<Longrightarrow> goals_ok I (snd (dispatch e owner g p b s w))"
    and assessed: "goals_ok I w \<Longrightarrow> goals_ok I (snd (goal_assess e owner gid from_states w))"
begin

abbreviation ok :: "goal_world \<Rightarrow> bool" where
  "ok \<equiv> goals_ok I"

lemma ok_move:
  assumes "ok w" and "st \<notin> {''completed'', ''partial'', ''failed''}"
    and "\<And>g. I g \<Longrightarrow> goal_id (f g) = goal_id g \<and> I (f g)"
  shows "ok (snd (goal_transition owner gid base from_states st r d f w))"
  unfolding goal_transition_def Let_def snd_conv
  by (rule goals_ok_update [OF assms(1)]) (use assms(2,3) moved in auto)

lemma ok_steps:
  assumes "ok w" and "\<And>s. step_id (f s) = step_id s \<and> s_task_id (f s) = s_task_id s"
  shows "ok (update_steps gid P f w)"
  unfolding update_steps_def by (rule goals_ok_update [OF assms(1)]) (simp add: stepped assms(2))

lemma ok_criteria:
  assumes "ok w" and "\<And>c. mandatory (f c) = mandatory c \<and> (has_evidence c \<longrightarrow> has_evidence (f c))"
  shows "ok (update_criteria gid P f w)"
proof -
  have "has_evidence (c\<lparr>verified_at := t\<rparr>) = has_evidence c" for c t by (simp add: has_evidence_def)
  then show ?thesis
    unfolding update_criteria_def by (intro goals_ok_update [OF assms(1)]) (simp add: evidenced assms(2))
qed

lemma ok_wait: "ok w \<Longrightarrow> ok (wait_goal e owner g reason detail w)"
  by (simp add: wait_goal_def goal_keeps ok_move)

lemma ok_run: "ok w \<Longrightarrow> ok (run_goal owner g w)"
  by (simp add: run_goal_def ok_move)

lemma ok_pause: "ok w \<Longrightarrow> ok (snd (pause_goal e owner gid base reason w))"
proof -
  assume w: "ok w"
  have "ok w1" if "goal_transition owner gid base [''running'', ''waiting''] ''paused'' reason [] (\<lambda>g. g) w = (b, w1)" for b w1
    using ok_move [OF w, of "''paused''" "\<lambda>g. g" owner gid base "[''running'', ''waiting'']" reason "[]"] that by simp
  moreover have "ok w2" if "interrupt_goal e g action r w1 = (n, w2)" "ok w1" for g action r w1 n w2
    using goals_interrupt [of e g action r w1] that by (metis goals_ok_frame snd_conv)
  ultimately show ?thesis using w
    by (auto simp: pause_goal_def goal_keeps split: option.splits prod.splits bool.splits)
qed

lemma ok_refresh_step: "ok w \<Longrightarrow> ok (snd (refresh_step e gid s w))"
  by (simp add: refresh_step_def ok_steps split: prod.splits)

lemma ok_refresh: "ok w \<Longrightarrow> ok (snd (refresh_steps e g w))"
proof -
  have "ok w \<Longrightarrow> ok (snd (refresh_each e gid ss w))" for gid ss
  proof (induction ss arbitrary: w)
    case (Cons s ss)
    have "ok (snd (refresh_step e gid s w))" by (rule ok_refresh_step [OF Cons.prems])
    then show ?case using Cons.IH [of "snd (refresh_step e gid s w)"] by (simp add: case_prod_beta)
  qed simp
  then show "ok w \<Longrightarrow> ok (snd (refresh_steps e g w))" by (simp add: refresh_steps_def split: prod.splits) (metis snd_conv)
qed

lemma ok_auto_evidence: "ok w \<Longrightarrow> ok (snd (auto_evidence g w))"
proof -
  have "ok w \<Longrightarrow> ok (record_evidence g c w)" for c w
    unfolding record_evidence_def by (rule ok_criteria) (simp_all add: has_evidence_def)
  then have "ok w \<Longrightarrow> ok (fold (record_evidence g) cs w)" for cs by (induction cs arbitrary: w) simp_all
  then show "ok w \<Longrightarrow> ok (snd (auto_evidence g w))" by (simp add: auto_evidence_def)
qed

lemma ok_settle: "ok w \<Longrightarrow> ok (snd (settle_or_report e owner g w))"
  using ok_auto_evidence [of w g]
  by (cases "auto_evidence g w") (simp add: settle_or_report_def ok_run ok_wait assessed split: option.splits)

lemma ok_dispatch_all: "ok w \<Longrightarrow> ok (dispatch_all e owner g p b ss w)"
proof (induction ss arbitrary: w)
  case (Cons s ss)
  then have "ok (snd (dispatch e owner g p b s w))" by (intro dispatched)
  then show ?case using Cons.IH by (cases "dispatch e owner g p b s w") (simp split: bool.splits)
qed simp

lemma ok_file_due: "ok w \<Longrightarrow> ok (snd (file_due e owner g p due w))"
  unfolding file_due_def Let_def
  by (simp add: ok_wait ok_pause ok_dispatch_all split: option.splits prod.splits)
    (metis ok_dispatch_all ok_refresh ok_settle snd_conv)

lemma ok_advance: "ok w \<Longrightarrow> ok (snd (advance e owner gid w))"
proof -
  assume w: "ok w"
  have "ok w2" if "refresh_steps e g0 w = (g1, w1)" "block_steps g1 blocked w1 = (g2, w2)" for g0 g1 w1 g2 w2 blocked
  proof -
    have "ok w1" using ok_refresh [OF w, of e g0] that(1) by simp
    then show ?thesis using that(2) by (auto simp: block_steps_def ok_steps)
  qed
  then show ?thesis using w
    by (auto simp: advance_def Let_def ok_pause ok_file_due ok_settle split: option.splits prod.splits)
qed

lemma ok_reconcile: "ok w \<Longrightarrow> ok (snd (reconcile_all e w))"
proof -
  have "ok (snd nw) \<Longrightarrow> ok (snd (fold (\<lambda>(owner, gid) (n, w). case advance e owner gid w of
      (Inl err, w1) \<Rightarrow> (n, w1) | (Inr (), w1) \<Rightarrow> (Suc n, w1)) ogs nw))" for ogs nw
  proof (induction ogs arbitrary: nw)
    case (Cons og ogs)
    have "ok (snd ((\<lambda>(owner, gid) (n, w). case advance e owner gid w of
        (Inl err, w1) \<Rightarrow> (n, w1) | (Inr (), w1) \<Rightarrow> (Suc n, w1)) og nw))"
      using ok_advance [OF Cons.prems, of e "fst og" "snd og"]
      by (cases og; cases nw; cases "advance e (fst og) (snd og) (snd nw)") (simp split: sum.splits unit.splits)
    from Cons.IH [OF this] show ?case by simp
  qed simp
  then show "ok w \<Longrightarrow> ok (snd (reconcile_all e w))" by (simp add: reconcile_all_def)
qed

lemma ok_transition:
  "ok w \<Longrightarrow> st \<notin> {''completed'', ''partial'', ''failed''} \<Longrightarrow> (\<And>g. I g \<Longrightarrow> goal_id (f g) = goal_id g \<and> I (f g)) \<Longrightarrow>
     goal_transition owner gid base from_states st r d f w = (b, u) \<Longrightarrow> ok u"
  using ok_move [of w st f owner gid base from_states r d] by simp

lemma ok_interrupt: "ok w \<Longrightarrow> interrupt_goal e g action reason w = (n, u) \<Longrightarrow> ok u"
  using goals_interrupt [of e g action reason w] goals_ok_frame [of u w I] by simp

lemma ok_profile_changed: "ok w \<Longrightarrow> ok (snd (profile_changed e owner w))"
proof -
  have pause: "ok (snd nw) \<Longrightarrow> ok (snd (pause_if_moved e owner og nw))" for og nw
    using ok_pause [of "snd nw" e owner "snd og" None "''profile_changed''"]
    by (cases "fst nw"; cases nw; cases "pause_goal e owner (snd og) None ''profile_changed'' (snd nw)")
      (simp_all add: pause_if_moved_def split: option.splits sum.splits unit.splits)
  have "ok (snd nw) \<Longrightarrow> ok (snd (fold (pause_if_moved e owner) ogs nw))" for ogs nw
    by (induction ogs arbitrary: nw) (simp_all add: pause)
  then show "ok w \<Longrightarrow> ok (snd (profile_changed e owner w))" by (simp add: profile_changed_def)
qed

end

subsection \<open>The owner's actions\<close>

text \<open>A plan the routes accepted.\<close>

definition cleaned :: "plan \<Rightarrow> bool" where
  "cleaned p \<longleftrightarrow> (\<exists>now ttl obj cs ss project mp mdl. clean_plan now ttl obj cs ss project mp mdl = Inr p)"

locale goal_invariant = pass_invariant +
  assumes stamped: "I g \<Longrightarrow> I (g\<lparr>accepted_at := a\<rparr>) \<and> I (g\<lparr>settled_at := a\<rparr>) \<and> I (g\<lparr>archived_at := a\<rparr>)"
    and touched: "I g \<Longrightarrow> I (g\<lparr>g_updated_at := t\<rparr>) \<and> I (g\<lparr>revision := n\<rparr>)"
    and repinned: "I g \<Longrightarrow>
      I (g\<lparr>profile_id := a, profile_version := b, max_step_runs := c, g_max_cost_usd := d\<rparr>)"
    and planned: "I g \<Longrightarrow> g_status g = ''draft'' \<Longrightarrow> cleaned p \<Longrightarrow>
      I (g\<lparr>g_title := p_title p, g_objective := p_objective p, g_model_profile := p_model_profile p,
           g_model := p_model p, revision := n, g_updated_at := t, criteria := p_criteria p, steps := p_steps p\<rparr>)"
    and created: "cleaned p \<Longrightarrow> I (new_goal gid owner project p now)"
    and guarded: "goals_ok I w \<Longrightarrow> goals_ok I (snd (guard_task e tid w))"
begin

lemma ok_create: "ok w \<Longrightarrow> cleaned p \<Longrightarrow> ok (snd (create_goal e owner project p w))"
  using created by (auto simp: create_goal_def Let_def goals_ok_def goal_frame) (simp_all add: new_goal_def)

lemma ok_replace: "ok w \<Longrightarrow> cleaned p \<Longrightarrow> ok (snd (replace_plan owner gid base p w))"
  unfolding replace_plan_def Let_def goals_ok_frame [OF goals_frame(1)]
  by (auto simp: goals_ok_frame [OF goals_frame(1)] intro!: goals_ok_update planned)

lemma ok_with_goal:
  "ok w \<Longrightarrow> (\<And>g. get_goal w owner gid = Some g \<Longrightarrow> ok (snd (f g w))) \<Longrightarrow> ok (snd (with_goal owner gid action f w))"
  by (simp add: with_goal_def split: option.splits)

lemma ok_repin: "ok w \<Longrightarrow> ok (repin e owner g p w)"
  unfolding repin_def by (auto simp: goal_keeps intro!: goals_ok_update conjunct1 [OF touched] repinned)

lemma ok_revalidate: "ok w \<Longrightarrow> ok (snd (revalidate e owner g w))"
  by (simp add: revalidate_def Let_def ok_repin split: option.splits)

lemma ok_accept:
  assumes "ok w"
  shows "ok (snd (accept e owner gid base w))"
proof -
  have "ok u" if "goal_transition owner gid (Some base) [''draft''] ''ready'' [] []
      (\<lambda>x. x\<lparr>profile_id := Some (xp_id p), profile_version := Some (xp_version p),
             max_step_runs := Some (xp_max_step_runs p), g_max_cost_usd := xp_max_cost_usd p,
             accepted_at := Some (utc_now w)\<rparr>) w = (b, u)" for p b u
    by (rule ok_transition [OF assms _ _ that]) (simp_all add: conjunct1 [OF stamped] repinned)
  then show ?thesis unfolding accept_def
    by (intro ok_with_goal [OF assms]) (auto simp: goal_keeps assms split: option.splits prod.splits bool.splits)
qed

lemma ok_start:
  assumes "ok w"
  shows "ok (snd (start e owner gid base w))"
proof -
  have "ok u" if "revalidate e owner g w = (x, w1)" "goal_transition owner gid c [''ready''] ''running'' [] [] (\<lambda>x. x) w1 = (b, u)"
    for g x w1 c b u
    using ok_transition [OF _ _ _ that(2)] ok_revalidate [OF assms, of e owner g] that(1) by simp
  moreover have "ok w1" if "revalidate e owner g w = (x, w1)" for g x w1
    using ok_revalidate [OF assms, of e owner g] that by simp
  ultimately show ?thesis unfolding start_def
    by (intro ok_with_goal [OF assms])
      (auto simp: goal_keeps split: option.splits prod.splits bool.splits intro!: ok_advance)
qed

lemma ok_resume:
  assumes "ok w"
  shows "ok (snd (resume e owner gid base w))"
proof -
  have valid: "ok w1" if "revalidate e owner g w = (x, w1)" for g x w1
    using ok_revalidate [OF assms, of e owner g] that by simp
  have moved: "ok u" if "revalidate e owner g w = (x, w1)" "goal_transition owner gid c [''paused''] ''running'' [] [] (\<lambda>x. x) w1 = (b, u)"
    for g x w1 c b u
    using ok_transition [OF _ _ _ that(2)] valid [OF that(1)] by simp
  show ?thesis unfolding resume_def
    by (intro ok_with_goal [OF assms])
      (auto simp: goal_keeps valid split: option.splits prod.splits bool.splits
        intro!: ok_advance intro: moved ok_interrupt [OF moved])
qed

lemma ok_stop:
  assumes "ok w"
  shows "ok (snd (stop_goal e owner gid base w))"
proof -
  have "ok u" if "goal_transition owner gid (Some base) [''ready'', ''running'', ''waiting'', ''paused''] ''stopped'' [] []
      (\<lambda>x. x\<lparr>settled_at := Some (utc_now w)\<rparr>) w = (b, u)" for b u
    by (rule ok_transition [OF assms _ _ that]) (simp_all add: stamped)
  moreover have "ok v" if "interrupt_goal e g ''cancel'' r (update_steps gid (\<lambda>s. s_state s \<notin> set STEP_SETTLED)
      (\<lambda>s. s\<lparr>s_state := ''stopped'', s_reason := ''goal_stopped''\<rparr>) u) = (n, v)" "ok u" for g r n u v
    using ok_interrupt [OF ok_steps [OF that(2)] that(1)] by simp
  ultimately show ?thesis unfolding stop_goal_def Let_def
    by (intro ok_with_goal [OF assms]) (auto simp: goal_keeps assms split: prod.splits bool.splits)
qed

lemma ok_archive:
  assumes "ok w"
  shows "ok (snd (archive e owner gid base w))"
proof -
  have "ok u" if "goal_transition owner gid (Some base) (''draft'' # SETTLED_STATES) ''archived'' r []
      (\<lambda>x. x\<lparr>archived_at := Some (utc_now w)\<rparr>) w = (b, u)" for r b u
    by (rule ok_transition [OF assms _ _ that]) (simp_all add: stamped)
  then show ?thesis unfolding archive_def
    by (intro ok_with_goal [OF assms]) (auto simp: goal_keeps assms split: prod.splits bool.splits)
qed

lemma ok_confirm:
  assumes "ok w"
  shows "ok (snd (confirm e owner gid cid base note w))"
proof -
  have "ok (update_goals (\<lambda>x. goal_id x = gid) (\<lambda>x. x\<lparr>revision := revision x + 1, g_updated_at := t\<rparr>)
      (update_criteria gid (\<lambda>c. criterion_id c = cid)
         (\<lambda>c. c\<lparr>evidence_kind := Some ''owner_confirmed'', evidence_ref := None, evidence_note := n\<rparr>) w))" for t n
    by (intro goals_ok_update ok_criteria assms) (simp_all add: has_evidence_def touched)
  then show ?thesis unfolding confirm_def Let_def
    by (intro ok_with_goal [OF assms]) (simp add: goal_keeps assms assessed ok_advance)
qed

end

subsection \<open>Histories\<close>

text \<open>
  One operation on the goals, by their owners, the coordinator or Settings, or any change of the tasks. What
  the operations read from elsewhere may be different each time.
\<close>

inductive goal_move :: "goal_world \<Rightarrow> goal_world \<Rightarrow> bool" where
  create: "cleaned p \<Longrightarrow> goal_move w (snd (create_goal e owner project p w))"
| edit: "cleaned p \<Longrightarrow> goal_move w (snd (replace_plan owner gid base p w))"
| accept: "goal_move w (snd (accept e owner gid base w))"
| start: "goal_move w (snd (start e owner gid base w))"
| pause: "goal_move w (snd (pause_goal e owner gid (Some base) ''owner_paused'' w))"
| resume: "goal_move w (snd (resume e owner gid base w))"
| stop: "goal_move w (snd (stop_goal e owner gid base w))"
| archive: "goal_move w (snd (archive e owner gid base w))"
| confirm: "goal_move w (snd (confirm e owner gid cid base note w))"
| advance: "goal_move w (snd (advance e owner gid w))"
| reconcile: "goal_move w (snd (reconcile_all e w))"
| guard: "goal_move w (snd (guard_task e tid w))"
| profiles_changed: "goal_move w (snd (profile_changed e owner w))"
| new_profile: "goal_move w (snd (create_profile e owner template f w))"
| next_version: "goal_move w (snd (update_profile e owner pid version f w))"
| bind: "goal_move w (snd (bind_profile owner project pid' w))"
| tasks: "goal_move w (w\<lparr>gw_tasks := tw\<rparr>)"

lemma goals_profiles [goal_frame]:
  "gw_goals (snd (create_profile e owner template f w)) = gw_goals w"
  "gw_goals (snd (update_profile e owner pid version f w)) = gw_goals w"
  "gw_goals (snd (bind_profile owner project pid' w)) = gw_goals w"
  by (auto simp: create_profile_def update_profile_def bind_profile_def Let_def insert_profile_def
      split: option.splits sum.splits)

sublocale goal_invariant \<subseteq> history: step_invariant goal_move "goals_ok I"
proof
  fix w u
  assume "goal_move w u" and "goals_ok I w"
  then show "goals_ok I u"
  proof cases
    case (new_profile e owner template f)
    then show ?thesis using \<open>goals_ok I w\<close> by (simp add: goals_ok_frame [OF goals_profiles(1)])
  next
    case (next_version e owner pid version f)
    then show ?thesis using \<open>goals_ok I w\<close> by (simp add: goals_ok_frame [OF goals_profiles(2)])
  next
    case (bind owner project pid')
    then show ?thesis using \<open>goals_ok I w\<close> by (simp add: goals_ok_frame [OF goals_profiles(3)])
  next
    case (tasks tw)
    then show ?thesis using \<open>goals_ok I w\<close> by (simp add: goals_ok_def)
  qed (simp_all add: ok_create ok_replace ok_accept ok_start ok_pause ok_resume ok_stop ok_archive ok_confirm ok_advance
      ok_reconcile guarded ok_profile_changed)
qed

end
