(* ===== verification/Goal_Properties.thy ===== *)
theory Goal_Properties
  imports Goal_Invariants
begin

text \<open>
  Two promises of durable goals: a completed goal has evidence for every mandatory criterion in every reachable
  state, and a pass of the coordinator files no more steps than the step-run budget leaves.
\<close>

subsection \<open>Plans\<close>

lemma clean_steps_ids:
  "clean_steps now n b i ss = Inr ts \<Longrightarrow>
     map step_id ts = map (\<lambda>k. ''s'' @ nat_dec (Suc k)) [i..<i + length ss] \<and> (\<forall>t \<in> set ts. s_task_id t = None \<and> s_state t = ''pending'')"
proof (induction ss arbitrary: i ts)
  case (Cons s ss)
  then obtain t us where t: "clean_step now n b i s = Inr t" "clean_steps now n b (Suc i) ss = Inr us" "ts = t # us"
    by (auto split: sum.splits)
  have "step_id t = ''s'' @ nat_dec (Suc i) \<and> s_task_id t = None \<and> s_state t = ''pending''"
    using t(1) by (auto simp: clean_step_def Let_def split: if_splits option.splits sum.splits)
  moreover have "[i..<i + length (s # ss)] = i # [Suc i..<Suc i + length ss]"
    using upt_conv_Cons [of i "i + Suc (length ss)"] by simp
  ultimately show ?case using Cons.IH [OF t(2)] t(3) by (simp del: upt_Suc)
qed simp

lemma cleaned_steps:
  assumes "cleaned p"
  shows "distinct (map step_id (p_steps p))" and "\<forall>s \<in> set (p_steps p). s_task_id s = None"
proof -
  obtain now n b ss where "clean_steps now n b 0 ss = Inr (p_steps p)"
    using assms unfolding cleaned_def by (auto simp: clean_plan_def split: if_splits sum.splits)
  note ids = clean_steps_ids [OF this]
  show "\<forall>s \<in> set (p_steps p). s_task_id s = None" using ids by blast
  show "distinct (map step_id (p_steps p))" using ids by (simp add: distinct_map inj_on_def)
qed

subsection \<open>Completion is evidence\<close>

definition backed :: "goal \<Rightarrow> bool" where
  "backed g \<longleftrightarrow> (\<exists>c \<in> set (criteria g). mandatory c) \<and> (\<forall>c \<in> set (criteria g). mandatory c \<longrightarrow> has_evidence c)"

definition completed_backed :: "goal \<Rightarrow> bool" where
  "completed_backed g \<longleftrightarrow> (g_status g = ''completed'' \<longrightarrow> backed g)"

lemma completed_backed_criteria:
  assumes "completed_backed g" and "\<And>c. mandatory (k c) = mandatory c \<and> (has_evidence c \<longrightarrow> has_evidence (k c))"
  shows "completed_backed (g\<lparr>criteria := map k (criteria g)\<rparr>)"
  using assms by (simp add: completed_backed_def backed_def)

text \<open>The rows of a goal have at least the evidence of the copy the pass works on.\<close>

definition evidence_le :: "criterion set \<Rightarrow> criterion list \<Rightarrow> criterion list \<Rightarrow> bool" where
  "evidence_le K C D \<longleftrightarrow>
     list_all2 (\<lambda>a b. criterion_id b = criterion_id a \<and> mandatory b = mandatory a
       \<and> (has_evidence a \<or> criterion_id a \<in> criterion_id ` K \<longrightarrow> has_evidence b)) C D"

lemma recorded_rows:
  assumes "goals_ok (\<lambda>_. True) w" and "g0 \<in> set (gw_goals w)" and "goal_id g0 = goal_id g"
    and "r \<in> set (gw_goals (fold (record_evidence g) cs w))" and "goal_id r = goal_id g"
  shows "evidence_le (set cs) (criteria g0) (criteria r)"
  using assms
proof (induction cs arbitrary: w g0)
  case Nil
  then have "r = g0" using same_goal [OF Nil(1)] by simp
  then show ?case by (simp add: evidence_le_def list_all2_same)
next
  case (Cons c cs)
  let ?w = "record_evidence g c w"
  let ?f = "\<lambda>x. x\<lparr>evidence_kind := Some ''steps_finished'', evidence_ref := Some (evidence_refs g c)\<rparr>"
  let ?k = "\<lambda>x. if criterion_id x = criterion_id c then (?f x)\<lparr>verified_at := Some (utc_now w)\<rparr> else x"
  let ?g = "g0\<lparr>criteria := map ?k (criteria g0)\<rparr>"
  have rows: "gw_goals ?w = map (\<lambda>x. if goal_id x = goal_id g then x\<lparr>criteria := map ?k (criteria x)\<rparr> else x) (gw_goals w)"
    by (simp add: record_evidence_def update_criteria_def update_goals_def)
  have "goals_ok (\<lambda>_. True) ?w"
    unfolding record_evidence_def update_criteria_def
    by (rule goals_ok_update) (use Cons.prems(1) in \<open>simp_all add: goals_ok_def\<close>)
  moreover have "?g \<in> set (gw_goals ?w)"
    unfolding rows set_map using Cons.prems(2,3) by (intro rev_image_eqI [of g0]) simp_all
  ultimately have "evidence_le (set cs) (criteria ?g) (criteria r)"
    using Cons.IH [of ?w ?g] Cons.prems(3-5) by simp
  then have "list_all2 (\<lambda>a b. criterion_id b = criterion_id (?k a) \<and> mandatory b = mandatory (?k a)
      \<and> (has_evidence (?k a) \<or> criterion_id (?k a) \<in> criterion_id ` set cs \<longrightarrow> has_evidence b)) (criteria g0) (criteria r)"
    by (simp add: evidence_le_def list_all2_map1)
  then show ?case unfolding evidence_le_def
    by (rule list_all2_mono) (auto simp: has_evidence_def split: if_splits)
qed

lemma all2_left: "list_all2 P xs ys \<Longrightarrow> x \<in> set xs \<Longrightarrow> \<exists>y \<in> set ys. P x y"
  by (induction rule: list_all2_induct) auto

lemma all2_right: "list_all2 P xs ys \<Longrightarrow> y \<in> set ys \<Longrightarrow> \<exists>x \<in> set xs. P x y"
  by (induction rule: list_all2_induct) auto

lemma backed_le:
  assumes "evidence_le K C (criteria r)"
    and "\<exists>c \<in> set C. mandatory c" and "\<forall>c \<in> set C. mandatory c \<longrightarrow> has_evidence c \<or> criterion_id c \<in> criterion_id ` K"
  shows "backed r"
proof -
  note le = assms(1) [unfolded evidence_le_def]
  obtain a where "a \<in> set C" "mandatory a" using assms(2) by blast
  then obtain b where "b \<in> set (criteria r)" "mandatory b" using all2_left [OF le] by blast
  moreover have "has_evidence d" if d: "d \<in> set (criteria r)" "mandatory d" for d
    using all2_right [OF le d(1)] d(2) assms(3) by metis
  ultimately show ?thesis unfolding backed_def by blast
qed

lemma outcome_completed: "outcome_of g = ''completed'' \<longleftrightarrow> backed g"
proof -
  have "filter mandatory (criteria g) \<noteq> [] \<longleftrightarrow> (\<exists>c \<in> set (criteria g). mandatory c)" by (simp add: filter_empty_conv)
  then show ?thesis unfolding outcome_of_def backed_def by simp blast
qed

lemma backed_auto:
  assumes "backed (fst (auto_evidence g w))"
  shows "\<exists>c \<in> set (criteria g). mandatory c"
    and "\<forall>c \<in> set (criteria g). mandatory c \<longrightarrow> has_evidence c \<or> c \<in> set (filter (earns_evidence g) (criteria g))"
proof -
  let ?k = "\<lambda>c. if earns_evidence g c then c\<lparr>evidence_kind := Some ''steps_finished''\<rparr> else c"
  have k: "mandatory (?k c) = mandatory c" for c by simp
  have cs: "criteria (fst (auto_evidence g w)) = map ?k (criteria g)" by (simp add: auto_evidence_def)
  have "\<exists>d \<in> set (map ?k (criteria g)). mandatory d" using assms unfolding backed_def cs by (rule conjunct1)
  then show "\<exists>c \<in> set (criteria g). mandatory c" unfolding set_map bex_simps(7) k .
  show "\<forall>c \<in> set (criteria g). mandatory c \<longrightarrow> has_evidence c \<or> c \<in> set (filter (earns_evidence g) (criteria g))"
  proof (intro ballI impI)
    fix c
    assume c: "c \<in> set (criteria g)" "mandatory c"
    then have "?k c \<in> set (map ?k (criteria g))" unfolding set_map by (intro imageI)
    moreover have "\<forall>d \<in> set (map ?k (criteria g)). mandatory d \<longrightarrow> has_evidence d"
      using assms unfolding backed_def cs by (rule conjunct2)
    ultimately have "has_evidence (?k c)" using k [of c] c(2) by simp
    then show "has_evidence c \<or> c \<in> set (filter (earns_evidence g) (criteria g))"
      using c(1) by (cases "earns_evidence g c") simp_all
  qed
qed

lemma assess_backs:
  assumes "goals_ok completed_backed w"
  shows "goals_ok completed_backed (snd (goal_assess e owner gid from_states w))"
proof (cases "get_goal w owner gid")
  case (Some g0)
  let ?w1 = "fold (record_evidence g0) (filter (earns_evidence g0) (criteria g0)) w"
  define g where "g = fst (auto_evidence g0 w)"
  have w: "goals_ok (\<lambda>_. True) w" using assms by (simp add: goals_ok_def)
  have g0: "g0 \<in> set (gw_goals w)" "goal_id g0 = gid" using get_goal_row [OF Some] by simp_all
  have "goals_ok completed_backed (record_evidence g0 c w)" if "goals_ok completed_backed w" for c w
    unfolding record_evidence_def update_criteria_def
    by (rule goals_ok_update [OF that]) (simp add: completed_backed_criteria has_evidence_def)
  then have "goals_ok completed_backed (fold (record_evidence g0) cs w)" if "goals_ok completed_backed w" for cs w
    using that by (induction cs arbitrary: w) simp_all
  then have ok1: "goals_ok completed_backed ?w1" using assms by blast
  have done1: "backed r" if "outcome_of g = ''completed''" "r \<in> set (gw_goals ?w1)" "goal_id r = gid" for r
  proof (rule backed_le [OF recorded_rows [OF w g0(1) refl that(2)]])
    show "goal_id r = goal_id g0" using that(3) g0(2) by simp
    have b: "backed (fst (auto_evidence g0 w))" using that(1) by (simp add: outcome_completed flip: g_def)
    show "\<exists>c \<in> set (criteria g0). mandatory c" by (rule backed_auto(1) [OF b])
    show "\<forall>c \<in> set (criteria g0). mandatory c \<longrightarrow>
        has_evidence c \<or> criterion_id c \<in> criterion_id ` set (filter (earns_evidence g0) (criteria g0))"
    proof (intro ballI impI)
      fix c
      assume c: "c \<in> set (criteria g0)" "mandatory c"
      have "has_evidence c \<or> c \<in> set (filter (earns_evidence g0) (criteria g0))"
        by (rule mp [OF bspec [OF backed_auto(2) [OF b] c(1)] c(2)])
      then show "has_evidence c \<or> criterion_id c \<in> criterion_id ` set (filter (earns_evidence g0) (criteria g0))"
        by (rule disj_forward) (assumption, rule imageI)
    qed
  qed
  have "goals_ok completed_backed (snd (goal_transition owner gid None from_states (outcome_of g) [] d
      (\<lambda>x. x\<lparr>settled_at := t\<rparr>) ?w1))" for d t
    unfolding goal_transition_def Let_def snd_conv
  proof (rule goals_ok_change [OF ok1])
    fix r
    assume r: "r \<in> set (gw_goals ?w1)" "goal_id r = gid \<and> owner_principal_id r = owner \<and> g_status r \<in> set from_states
        \<and> (case None of None \<Rightarrow> True | Some b \<Rightarrow> revision r = b)" "completed_backed r"
    have "outcome_of g = ''completed'' \<longrightarrow> backed r" using done1 [OF _ r(1)] r(2) by blast
    then show "goal_id (r\<lparr>settled_at := t, g_status := outcome_of g, g_reason := [], g_reason_detail := d,
          revision := revision r + 1, g_updated_at := utc_now ?w1\<rparr>) = goal_id r
        \<and> completed_backed (r\<lparr>settled_at := t, g_status := outcome_of g, g_reason := [], g_reason_detail := d,
          revision := revision r + 1, g_updated_at := utc_now ?w1\<rparr>)"
      by (simp add: completed_backed_def backed_def)
  qed
  note moved = this
  have ae: "auto_evidence g0 w = (g, ?w1)" by (simp add: g_def auto_evidence_def)
  show ?thesis
    unfolding goal_assess_def Some option.case ae prod.case Let_def case_prod_beta
    using moved by (simp only: goal_keeps snd_conv split: bool.splits) (simp add: goal_keeps)
qed (simp add: goal_assess_def assms)

text \<open>Filing a step, and giving it back, writes steps and the run counter only.\<close>

lemma dispatch_frame:
  assumes "goals_ok I w"
    and "\<And>g t. I g \<Longrightarrow> (case max_step_runs g of None \<Rightarrow> True | Some limit \<Rightarrow> int (step_runs g) < limit) \<Longrightarrow>
      I (g\<lparr>step_runs := Suc (step_runs g), g_updated_at := t\<rparr>)"
    and "\<And>g. I g \<Longrightarrow> I (g\<lparr>step_runs := step_runs g - 1\<rparr>)"
    and "\<And>g h. I g \<Longrightarrow> I (g\<lparr>steps := map h (steps g)\<rparr>)"
  shows "goals_ok I (snd (dispatch e owner g p b s w))"
proof -
  have steps: "goals_ok I (update_steps gid P f w)" if "goals_ok I w" for gid P f w
    unfolding update_steps_def by (rule goals_ok_update [OF that]) (simp add: assms(4))
  have "goals_ok I w1" if "reserve_run gid w = (c, w1)" for gid c w1
  proof -
    have "goals_ok I (snd (reserve_run gid w))"
      unfolding reserve_run_def Let_def snd_conv by (rule goals_ok_update [OF assms(1)]) (simp add: assms(2))
    then show ?thesis using that by simp
  qed
  moreover have "goals_ok I w2" if "claim_step gid sid w1 = (c, w2)" "goals_ok I w1" for gid sid w1 c w2
    using steps [OF that(2)] that(1) by (auto simp: claim_step_def)
  moreover have "goals_ok I (refund_run gid w2)" if "goals_ok I w2" for gid w2
    unfolding refund_run_def by (rule goals_ok_update [OF that]) (simp add: assms(3) [simplified])
  moreover have "goals_ok I (file_step e owner g s p b w2)" if "goals_ok I w2" for w2
  proof -
    have tasks: "goals_ok I (w2\<lparr>gw_tasks := tw\<rparr>)" for tw using that by (simp add: goals_ok_def)
    have "gw_goals (withhold_task_memory b owner t (limit_task e owner g p tid (w2\<lparr>gw_tasks := tw\<rparr>))) = gw_goals (w2\<lparr>gw_tasks := tw\<rparr>)"
      for t tid tw by (simp add: goal_frame)
    from goals_ok_frame [OF this] tasks show ?thesis
      unfolding file_step_def Let_def by (simp add: goal_keeps steps split: prod.splits sum.splits)
  qed
  ultimately show ?thesis
    unfolding dispatch_def by (cases "reserve_run (goal_id g) w"; cases "claim_step (goal_id g) (step_id s) (snd (reserve_run (goal_id g) w))")
      (simp split: bool.splits)
qed

lemma guard_cases:
  assumes "guard_task e tid w = (x, u)"
  shows "u = w \<or> (\<exists>owner gid sid g r. goal_for_task w tid = Some (owner, gid, sid) \<and> get_goal w owner gid = Some g
    \<and> g_status g \<in> set ACTIVE_STATES
    \<and> u = wait_goal e owner g ''profile_blocks_model'' r
        (refund_run gid (update_steps gid (\<lambda>s. step_id s = sid \<and> s_task_id s = Some tid)
           (\<lambda>s. s\<lparr>s_state := ''pending'', s_reason := [], s_task_id := None\<rparr>) w)))"
  using assms by (auto simp: guard_task_def Let_def split: option.splits if_splits)

lemma completed_backed_status: "st \<noteq> ''completed'' \<Longrightarrow>
    completed_backed (g\<lparr>g_status := st, g_reason := r, g_reason_detail := d, revision := n, g_updated_at := t\<rparr>)"
  by (simp add: completed_backed_def)

lemma guard_backs:
  assumes "goals_ok completed_backed w"
  shows "goals_ok completed_backed (snd (guard_task e tid w))"
proof -
  have given: "goals_ok completed_backed (refund_run gid (update_steps gid P f w))" for gid P f
    unfolding refund_run_def update_steps_def
    by (intro goals_ok_update assms) (simp_all add: completed_backed_def backed_def)
  have "goals_ok completed_backed (wait_goal e owner g r d (refund_run gid (update_steps gid P f w)))" for owner g r d gid P f
    unfolding wait_goal_def goal_transition_def Let_def snd_conv
    by (auto simp: goal_keeps given completed_backed_status intro!: goals_ok_update)
  then show ?thesis using guard_cases [of e tid w "fst (guard_task e tid w)" "snd (guard_task e tid w)"] assms by auto
qed

interpretation completion: goal_invariant completed_backed
proof
  show "completed_backed (g\<lparr>steps := map h (steps g)\<rparr>)" if "completed_backed g" for g h
    using that by (simp add: completed_backed_def backed_def)
  show "goals_ok completed_backed (snd (dispatch e owner g p b s w))" if "goals_ok completed_backed w" for e owner g p b s w
    by (rule dispatch_frame [OF that]) (simp_all add: completed_backed_def backed_def)
qed (simp_all add: completed_backed_criteria assess_backs guard_backs completed_backed_status new_goal_def,
  simp_all add: completed_backed_def backed_def)

definition empty_goals :: goal_world where
  "empty_goals = \<lparr>gw_tasks = new_world, gw_goals = [], gw_events = [], gw_audit = [], gw_profiles = [],
     gw_bindings = [], gw_withheld = [], gw_next_id = 0\<rparr>"

lemma empty_ok: "goals_ok I empty_goals"
  by (simp add: goals_ok_def empty_goals_def)

text \<open>A desk where every model is admitted and each filed step becomes a task.\<close>

definition file_task :: "task_request \<Rightarrow> task_world \<Rightarrow> (string + string) \<times> task_world" where
  "file_task r tw =
     (case create_task quiet_env ((request_for None)\<lparr>title := rq_title r, objective := rq_objective r, surface := rq_surface r\<rparr>) tw of
        (Inl msg, tw1) \<Rightarrow> (Inl msg, tw1) | (Inr t, tw1) \<Rightarrow> (Inr (task_id t), tw1))"

definition desk_env :: goal_env where
  "desk_env = \<lparr>ge_uuid = nat_dec, ge_audit = True, ge_round2 = (\<lambda>x. x), ge_usd = (\<lambda>_. ''1.0''),
     ge_title = (\<lambda>a b. a @ '' - '' @ b), ge_principal = (\<lambda>_. Some None), ge_configured = (\<lambda>_ _ _. True),
     ge_primary = (\<lambda>_ mp _. mp), ge_fallbacks = (\<lambda>_. []), ge_resolve = (\<lambda>pid. Some (pid, ''ollama'', True)),
     ge_older = (\<lambda>_. False), ge_spend = (\<lambda>_ _. 0), ge_create_task = file_task\<rparr>"

definition no_fields :: profile_fields where
  "no_fields = \<lparr>pf_name = None, pf_allow_local = None, pf_allow_hosted = None, pf_providers = None,
     pf_memory_to_hosted = None, pf_max_step_runs = None, pf_max_cost_usd = None\<rparr>"

definition draft_plan :: plan where
  "draft_plan = \<lparr>p_model_profile = Some ''p'', p_model = Some ''m'', p_title = ''Trip'', p_objective = [],
     p_criteria = [\<lparr>criterion_id = ''c1'', c_text = ''A draft'', mandatory = True, validator = ''steps_finish'',
       evidence_kind = None, evidence_ref = None, evidence_note = None, verified_at = None\<rparr>],
     p_steps = [\<lparr>step_id = ''s1'', s_title = ''Draft'', instruction = ''Write'', s_surface = ''chat'', depends_on = [],
       criterion_ids = [''c1''], s_state = ''pending'', s_reason = [], s_task_id = None, s_updated_at = []\<rparr>]\<rparr>"

lemma draft_cleaned: "cleaned draft_plan"
proof -
  have "clean_plan [] ''Trip'' [] [\<lparr>ci_text = ''A draft'', ci_mandatory = True, ci_validator = ''steps_finish''\<rparr>]
      [\<lparr>si_title = ''Draft'', si_instruction = ''Write'', si_surface = [], si_depends_on = [], si_criteria = [0]\<rparr>]
      False (Some ''p'') (Some ''m'') = Inr draft_plan" by code_simp
  then show ?thesis unfolding cleaned_def by blast
qed

definition profiled_world :: goal_world where
  "profiled_world = snd (bind_profile ''o'' [] (Some ''xprof_0'') (snd (create_profile desk_env ''o'' ''balanced'' no_fields empty_goals)))"

definition ready_world :: goal_world where
  "ready_world = snd (accept desk_env ''o'' ''goal_1'' 1 (snd (create_goal desk_env ''o'' None draft_plan profiled_world)))"

definition running_world :: goal_world where
  "running_world = snd (start desk_env ''o'' ''goal_1'' 2 ready_world)"

definition settled_world :: goal_world where
  "settled_world = snd (advance desk_env ''o'' ''goal_1''
     (running_world\<lparr>gw_tasks := snd (complete_task quiet_env ''task_0'' None (gw_tasks running_world))\<rparr>))"

lemma ready_reachable: "goal_move\<^sup>*\<^sup>* empty_goals ready_world"
proof -
  have "goal_move\<^sup>*\<^sup>* empty_goals profiled_world"
    unfolding profiled_world_def
    using goal_move.new_profile goal_move.bind by (blast intro: rtranclp.rtrancl_into_rtrancl)
  then have "goal_move\<^sup>*\<^sup>* empty_goals (snd (create_goal desk_env ''o'' None draft_plan profiled_world))"
    by (rule rtranclp.rtrancl_into_rtrancl) (rule goal_move.create [OF draft_cleaned])
  then show ?thesis
    unfolding ready_world_def by (rule rtranclp.rtrancl_into_rtrancl) (rule goal_move.accept)
qed

lemma running_reachable: "goal_move\<^sup>*\<^sup>* empty_goals running_world"
  unfolding running_world_def by (rule rtranclp.rtrancl_into_rtrancl [OF ready_reachable goal_move.start])

lemma settled_reachable: "goal_move\<^sup>*\<^sup>* empty_goals settled_world"
  unfolding settled_world_def
  by (rule rtranclp.rtrancl_into_rtrancl [OF rtranclp.rtrancl_into_rtrancl [OF running_reachable goal_move.tasks] goal_move.advance])

lemma settled_completed: "map g_status (gw_goals settled_world) = [''completed'']"
  by code_simp

text \<open>
  C32: Completion is evidence. However goals are made, run, confirmed, paused, stopped, blocked and resumed,
  and whatever the tasks, the profiles and the models do meanwhile, a goal is completed only if it has a
  mandatory criterion and evidence is recorded for every mandatory criterion.
\<close>

theorem completed_goal_has_evidence:
  assumes "goal_move\<^sup>*\<^sup>* empty_goals w" and "g \<in> set (gw_goals w)" and "g_status g = ''completed''"
  shows "(\<exists>c \<in> set (criteria g). mandatory c) \<and> (\<forall>c \<in> set (criteria g). mandatory c \<longrightarrow> has_evidence c)"
  using completion.history.keep_star [OF assms(1) empty_ok] assms(2,3)
  by (simp add: goals_ok_def completed_backed_def backed_def)

theorem completed_goal_has_evidence_witness:
  "\<exists>g \<in> set (gw_goals settled_world). g_status g = ''completed'' \<and> (\<exists>c \<in> set (criteria g). mandatory c \<and> has_evidence c)"
proof -
  obtain g where "g \<in> set (gw_goals settled_world)" "g_status g = ''completed''"
    using settled_completed by (cases "gw_goals settled_world") simp_all
  with completed_goal_has_evidence [OF settled_reachable this] show ?thesis by blast
qed

subsection \<open>The step-run budget\<close>

definition linked :: "goal \<Rightarrow> nat" where
  "linked g = length (filter (\<lambda>s. s_task_id s \<noteq> None) (steps g))"

definition counted :: "goal \<Rightarrow> bool" where
  "counted g \<longleftrightarrow> distinct (map step_id (steps g)) \<and> linked g \<le> step_runs g"

text \<open>Between the reservation and the link, the goal has a run to spare.\<close>

definition reserved :: "string \<Rightarrow> goal \<Rightarrow> bool" where
  "reserved gid g \<longleftrightarrow> counted g \<and> (goal_id g = gid \<longrightarrow> linked g < step_runs g)"

lemma kept_steps:
  assumes "\<And>s. step_id (h s) = step_id s \<and> s_task_id (h s) = s_task_id s"
  shows "map step_id (map h ss) = map step_id ss"
    and "length (filter (\<lambda>s. s_task_id s \<noteq> None) (map h ss)) = length (filter (\<lambda>s. s_task_id s \<noteq> None) ss)"
  using assms by (simp_all add: filter_map comp_def)

lemma counted_steps:
  assumes "\<And>s. step_id (h s) = step_id s \<and> s_task_id (h s) = s_task_id s"
  shows "counted (g\<lparr>steps := map h (steps g)\<rparr>) = counted g" "linked (g\<lparr>steps := map h (steps g)\<rparr>) = linked g"
  by (simp_all add: counted_def linked_def kept_steps [OF assms] del: map_map length_filter_map not_None_eq)

lemma counted_frame:
  "counted (g\<lparr>g_status := st\<rparr>) = counted g" "counted (g\<lparr>g_reason := r\<rparr>) = counted g"
  "counted (g\<lparr>g_reason_detail := d\<rparr>) = counted g" "counted (g\<lparr>criteria := cs\<rparr>) = counted g"
  "counted (g\<lparr>g_updated_at := t\<rparr>) = counted g" "counted (g\<lparr>revision := n\<rparr>) = counted g"
  "counted (g\<lparr>accepted_at := a\<rparr>) = counted g" "counted (g\<lparr>settled_at := a\<rparr>) = counted g"
  "counted (g\<lparr>archived_at := a\<rparr>) = counted g" "counted (g\<lparr>profile_id := pid\<rparr>) = counted g"
  "counted (g\<lparr>profile_version := v\<rparr>) = counted g" "counted (g\<lparr>max_step_runs := m\<rparr>) = counted g"
  "counted (g\<lparr>g_max_cost_usd := c\<rparr>) = counted g"
  by (simp_all add: counted_def linked_def)

lemma one_step_linked:
  assumes "distinct (map step_id ss)" and "\<And>s. step_id (h s) = step_id s" and "\<And>s. step_id s \<noteq> sid \<Longrightarrow> h s = s"
  shows "length (filter (\<lambda>s. s_task_id s \<noteq> None) (map h ss)) \<le> Suc (length (filter (\<lambda>s. s_task_id s \<noteq> None) ss))"
  using assms(1)
proof (induction ss)
  case (Cons s ss)
  have "map h ss = ss" if "step_id s = sid"
  proof (rule map_idI)
    fix x
    assume "x \<in> set ss"
    then have "step_id x \<noteq> sid" using Cons.prems that by (metis distinct.simps(2) image_eqI list.map(2) list.set_map)
    then show "h x = x" by (rule assms(3))
  qed
  then show ?case using Cons assms(3) [of s] by (cases "step_id s = sid") auto
qed simp

lemma one_step_unlinked:
  assumes "distinct (map step_id ss)" and "s \<in> set ss" and "s_task_id s \<noteq> None"
    and "h s = s\<lparr>s_state := a, s_reason := r, s_task_id := None, s_updated_at := t\<rparr>"
    and "\<And>x. x \<in> set ss \<Longrightarrow> x \<noteq> s \<Longrightarrow> h x = x"
  shows "Suc (length (filter (\<lambda>s. s_task_id s \<noteq> None) (map h ss))) = length (filter (\<lambda>s. s_task_id s \<noteq> None) ss)"
  using assms
proof (induction ss)
  case (Cons x ss)
  show ?case
  proof (cases "x = s")
    case True
    have "x \<notin> set ss" using Cons.prems(1) by (metis distinct.simps(2) image_eqI list.map(2) list.set_map)
    then have "map h ss = ss" using Cons.prems(5) True by (intro map_idI) (metis list.set_intros(2))
    then show ?thesis using True Cons.prems by simp
  next
    case False
    then show ?thesis using Cons by auto
  qed
qed simp

lemma dispatch_counts:
  assumes "goals_ok counted w"
  shows "goals_ok counted (snd (dispatch e owner g p b s w))"
proof -
  have weaken: "goals_ok counted u" if "goals_ok (reserved gid) u" for gid u
    using that by (simp add: goals_ok_def reserved_def)
  have reserve: "goals_ok (reserved gid) w1" if r: "reserve_run gid w = (True, w1)" for gid w1
  proof -
    let ?P = "\<lambda>g. goal_id g = gid \<and> g_status g \<in> {''running'', ''waiting''}
        \<and> (case max_step_runs g of None \<Rightarrow> True | Some limit \<Rightarrow> int (step_runs g) < limit)"
    have w1: "w1 = update_goals ?P (\<lambda>g. g\<lparr>step_runs := Suc (step_runs g), g_updated_at := utc_now w\<rparr>) w"
      and "filter ?P (gw_goals w) \<noteq> []"
      using r by (auto simp: reserve_run_def Let_def changed_goals_def)
    then obtain x where x: "x \<in> set (gw_goals w)" "?P x" by (auto simp: filter_empty_conv)
    show ?thesis
      unfolding w1
    proof (rule goals_ok_change [OF assms])
      fix y
      assume "y \<in> set (gw_goals w)" "\<not> ?P y" "counted y"
      moreover from this x have "goal_id y \<noteq> gid" using same_goal [OF assms x(1), of y] by metis
      ultimately show "reserved gid y" by (simp add: reserved_def)
    qed (simp add: reserved_def counted_def linked_def)
  qed
  have claim: "goals_ok (reserved gid) w2" if "claim_step gid' sid w1 = (c, w2)" "goals_ok (reserved gid) w1" for gid gid' sid w1 c w2
  proof -
    have "goals_ok (reserved gid) (snd (claim_step gid' sid w1))"
      unfolding claim_step_def snd_conv update_steps_def
      by (rule goals_ok_update [OF that(2)]) (simp add: reserved_def counted_steps)
    then show ?thesis using that(1) by simp
  qed
  have refund: "goals_ok counted (refund_run gid u)" if "goals_ok (reserved gid) u" for gid u
    unfolding refund_run_def
    by (rule goals_ok_change [OF that]; simp add: reserved_def counted_def linked_def; linarith)
  have link: "goals_ok counted (update_steps gid (\<lambda>x. step_id x = sid) (\<lambda>x. x\<lparr>s_task_id := Some tid, s_reason := r\<rparr>) u)"
    if "goals_ok (reserved gid) u" for gid sid tid r u
    unfolding update_steps_def
  proof (rule goals_ok_change [OF that])
    fix y
    assume y: "goal_id y = gid" "reserved gid y"
    let ?h = "\<lambda>x. if step_id x = sid then x\<lparr>s_task_id := Some tid, s_reason := r\<rparr>\<lparr>s_updated_at := utc_now u\<rparr> else x"
    have "map step_id (map ?h (steps y)) = map step_id (steps y)" by simp
    moreover have "length (filter (\<lambda>s. s_task_id s \<noteq> None) (map ?h (steps y))) \<le> Suc (linked y)"
      unfolding linked_def using y(2) by (intro one_step_linked [where sid = sid]) (simp_all add: reserved_def counted_def)
    ultimately show "goal_id (y\<lparr>steps := map ?h (steps y)\<rparr>) = goal_id y \<and> counted (y\<lparr>steps := map ?h (steps y)\<rparr>)"
      using y unfolding reserved_def counted_def linked_def
      by (simp del: map_map length_filter_map not_None_eq)
  qed (simp add: reserved_def)
  have "goals_ok counted (file_step e owner g s p b u)" if "goals_ok (reserved (goal_id g)) u" for u
  proof -
    have tasks: "goals_ok (reserved (goal_id g)) (u\<lparr>gw_tasks := tw\<rparr>)" for tw using that by (simp add: goals_ok_def)
    have "gw_goals (withhold_task_memory b owner t (limit_task e owner g p tid (u\<lparr>gw_tasks := tw\<rparr>))) = gw_goals (u\<lparr>gw_tasks := tw\<rparr>)"
      for t tid tw by (simp add: goal_frame)
    then have linked: "goals_ok (reserved (goal_id g)) (withhold_task_memory b owner t (limit_task e owner g p tid (u\<lparr>gw_tasks := tw\<rparr>)))"
      for t tid tw using tasks goals_ok_frame by blast
    have refused: "goals_ok counted (update_steps (goal_id g) P (\<lambda>x. x\<lparr>s_state := st, s_reason := r\<rparr>) (u\<lparr>gw_tasks := tw\<rparr>))"
      for P st r tw
      unfolding update_steps_def by (rule goals_ok_update [OF weaken [OF tasks]]) (simp add: counted_steps)
    show ?thesis
      unfolding file_step_def Let_def by (simp add: goal_keeps refused link [OF linked] split: prod.splits sum.splits)
  qed
  note filed = this
  show ?thesis
  proof (cases "reserve_run (goal_id g) w")
    case (Pair c w1)
    show ?thesis
    proof (cases c)
      case True
      obtain d w2 where "claim_step (goal_id g) (step_id s) w1 = (d, w2)" by force
      then show ?thesis using Pair True claim [OF _ reserve] refund filed by (simp add: dispatch_def split: bool.splits)
    next
      case False
      have "goals_ok counted (snd (reserve_run (goal_id g) w))"
        unfolding reserve_run_def Let_def snd_conv
        by (rule goals_ok_update [OF assms]) (simp add: counted_def linked_def)
      then show ?thesis using Pair False by (simp add: dispatch_def)
    qed
  qed
qed

lemma assess_frame:
  assumes "goals_ok I w" and "\<And>g cs. I g \<Longrightarrow> I (g\<lparr>criteria := cs\<rparr>)" and "\<And>g a. I g \<Longrightarrow> I (g\<lparr>settled_at := a\<rparr>)"
    and "\<And>g st r d n t. I g \<Longrightarrow> I (g\<lparr>g_status := st, g_reason := r, g_reason_detail := d, revision := n, g_updated_at := t\<rparr>)"
  shows "goals_ok I (snd (goal_assess e owner gid from_states w))"
proof (cases "get_goal w owner gid")
  case (Some g0)
  have "goals_ok I (record_evidence g c w)" if "goals_ok I w" for g c w
    unfolding record_evidence_def update_criteria_def by (rule goals_ok_update [OF that]) (simp add: assms(2))
  then have "goals_ok I (fold (record_evidence g0) cs w)" for cs
    using assms(1) by (induction cs arbitrary: w) simp_all
  then have ok1: "goals_ok I (snd (auto_evidence g0 w))" by (simp add: auto_evidence_def)
  obtain g w1 where ae: "auto_evidence g0 w = (g, w1)" by force
  have w1: "goals_ok I w1" using ok1 ae by simp
  have "goals_ok I (snd (goal_transition owner gid None from_states (outcome_of g) [] d (\<lambda>x. x\<lparr>settled_at := t\<rparr>) w1))" for d t
    unfolding goal_transition_def Let_def snd_conv by (rule goals_ok_update [OF w1]) (simp add: assms(3,4))
  then show ?thesis
    unfolding goal_assess_def Some option.case ae prod.case Let_def case_prod_beta
    by (simp add: goal_keeps split: bool.splits)
qed (simp add: goal_assess_def assms)

lemma goal_for_task_row:
  assumes "goal_for_task w tid = Some (owner, gid, sid)"
  shows "\<exists>x \<in> set (gw_goals w). goal_id x = gid \<and> (\<exists>s \<in> set (steps x). step_id s = sid \<and> s_task_id s = Some tid)"
proof -
  let ?found = "concat (map (\<lambda>g. map (\<lambda>s. (owner_principal_id g, goal_id g, step_id s))
             (filter (\<lambda>s. s_task_id s = Some tid) (steps g))) (gw_goals w))"
  have "(owner, gid, sid) \<in> set ?found"
    using assms unfolding goal_for_task_def by (cases ?found) simp_all
  then obtain x where x: "x \<in> set (gw_goals w)" "(owner, gid, sid) \<in>
      set (map (\<lambda>s. (owner_principal_id x, goal_id x, step_id s)) (filter (\<lambda>s. s_task_id s = Some tid) (steps x)))"
    by (simp only: set_concat set_map image_image UN_iff) (elim bexE, simp)
  then obtain s where "s \<in> set (steps x)" "s_task_id s = Some tid" "goal_id x = gid" "step_id s = sid"
    unfolding set_map set_filter by (elim imageE CollectE conjE) (simp only: prod.inject)
  with x(1) show ?thesis by blast
qed

lemma guard_counts:
  assumes "goals_ok counted w"
  shows "goals_ok counted (snd (guard_task e tid w))"
proof -
  have wait: "goals_ok counted (wait_goal e owner g r d u)" if "goals_ok counted u" for owner g r d u
    unfolding wait_goal_def goal_transition_def Let_def snd_conv
    by (simp add: goal_keeps that, intro impI goals_ok_update [OF that]) (simp add: counted_frame)
  have "goals_ok counted (refund_run gid (update_steps gid (\<lambda>s. step_id s = sid \<and> s_task_id s = Some tid)
      (\<lambda>s. s\<lparr>s_state := ''pending'', s_reason := [], s_task_id := None\<rparr>) w))"
    if found: "goal_for_task w tid = Some (owner, gid, sid)" for owner gid sid
  proof -
    obtain x s where x: "x \<in> set (gw_goals w)" "goal_id x = gid" and s: "s \<in> set (steps x)" "step_id s = sid" "s_task_id s = Some tid"
      using goal_for_task_row [OF found] by blast
    let ?P = "\<lambda>s. step_id s = sid \<and> s_task_id s = Some tid"
    let ?h = "\<lambda>s. if ?P s then s\<lparr>s_state := ''pending'', s_reason := [], s_task_id := None\<rparr>\<lparr>s_updated_at := utc_now w\<rparr> else s"
    have ids: "distinct (map step_id (steps x))" using assms x(1) by (simp add: goals_ok_def counted_def)
    have other: "?h y = y" if "y \<in> set (steps x)" "y \<noteq> s" for y
      using ids that s by (metis distinct_map inj_on_eq_iff)
    have less: "Suc (length (filter (\<lambda>s. s_task_id s \<noteq> None) (map ?h (steps x)))) = linked x"
      unfolding linked_def by (rule one_step_unlinked [OF ids s(1) _ _ other]) (simp_all add: s)
    have "goals_ok (reserved gid) (update_steps gid ?P (\<lambda>s. s\<lparr>s_state := ''pending'', s_reason := [], s_task_id := None\<rparr>) w)"
      unfolding update_steps_def
    proof (rule goals_ok_change [OF assms])
      fix y
      assume y: "y \<in> set (gw_goals w)" "goal_id y = gid" "counted y"
      then have yx: "y = x" using same_goal [OF assms y(1) x(1)] x(2) by simp
      have "map step_id (map ?h (steps y)) = map step_id (steps y)" by simp
      then show "goal_id (y\<lparr>steps := map ?h (steps y)\<rparr>) = goal_id y \<and> reserved gid (y\<lparr>steps := map ?h (steps y)\<rparr>)"
        using y(2,3) less unfolding yx reserved_def counted_def
        by (simp add: linked_def [of "x\<lparr>steps := map ?h (steps x)\<rparr>"] del: map_map length_filter_map not_None_eq)
    qed (simp add: reserved_def)
    note given = this
    show ?thesis unfolding refund_run_def
      by (rule goals_ok_change [OF given]; simp add: reserved_def counted_def linked_def; linarith)
  qed
  then show ?thesis
    using guard_cases [of e tid w "fst (guard_task e tid w)" "snd (guard_task e tid w)"] assms wait by auto
qed

interpretation budget: goal_invariant counted
proof
  show "goals_ok counted (snd (dispatch e owner g p b s w))" if "goals_ok counted w" for e owner g p b s w
    by (rule dispatch_counts [OF that])
  show "goals_ok counted (snd (goal_assess e owner gid from_states w))" if "goals_ok counted w" for e owner gid from_states w
    by (rule assess_frame [OF that]) (simp_all add: counted_frame)
  show "counted (g\<lparr>g_title := p_title p, g_objective := p_objective p, g_model_profile := p_model_profile p,
      g_model := p_model p, revision := n, g_updated_at := t, criteria := p_criteria p, steps := p_steps p\<rparr>)"
    if "cleaned p" for g p n t
    using cleaned_steps [OF that] by (simp add: counted_def linked_def)
  show "counted (new_goal gid owner project p now)" if "cleaned p" for gid owner project p now
    using cleaned_steps [OF that] by (simp add: counted_def linked_def new_goal_def)
qed (simp_all add: counted_frame counted_steps guard_counts)

text \<open>A pass over a goal whose limit is \<open>m\<close> and whose counter started at \<open>k\<close>.\<close>

definition within_limit :: "string \<Rightarrow> int \<Rightarrow> nat \<Rightarrow> goal \<Rightarrow> bool" where
  "within_limit gid m k g \<longleftrightarrow>
     (goal_id g = gid \<longrightarrow> max_step_runs g = Some m \<and> int (step_runs g) \<le> max m (int k))"

lemma limit_frame:
  "within_limit gid m k (g\<lparr>g_status := st\<rparr>) = within_limit gid m k g"
  "within_limit gid m k (g\<lparr>g_reason := r\<rparr>) = within_limit gid m k g"
  "within_limit gid m k (g\<lparr>g_reason_detail := d\<rparr>) = within_limit gid m k g"
  "within_limit gid m k (g\<lparr>revision := n\<rparr>) = within_limit gid m k g"
  "within_limit gid m k (g\<lparr>g_updated_at := t\<rparr>) = within_limit gid m k g"
  "within_limit gid m k (g\<lparr>steps := ss\<rparr>) = within_limit gid m k g"
  "within_limit gid m k (g\<lparr>criteria := cs\<rparr>) = within_limit gid m k g"
  "within_limit gid m k (g\<lparr>settled_at := a\<rparr>) = within_limit gid m k g"
  by (simp_all add: within_limit_def)

lemma limit_runs:
  "within_limit gid m k g \<Longrightarrow> (case max_step_runs g of None \<Rightarrow> True | Some limit \<Rightarrow> int (step_runs g) < limit) \<Longrightarrow>
     within_limit gid m k (g\<lparr>step_runs := Suc (step_runs g), g_updated_at := t\<rparr>)"
  "within_limit gid m k g \<Longrightarrow> within_limit gid m k (g\<lparr>step_runs := step_runs g - 1\<rparr>)"
proof -
  show "within_limit gid m k (g\<lparr>step_runs := Suc (step_runs g), g_updated_at := t\<rparr>)"
    if "within_limit gid m k g" "case max_step_runs g of None \<Rightarrow> True | Some limit \<Rightarrow> int (step_runs g) < limit"
  proof (cases "goal_id g = gid")
    case True
    then have "max_step_runs g = Some m" "int (step_runs g) < m" using that by (simp_all add: within_limit_def)
    then have "1 + int (step_runs g) \<le> max m (int k)" by linarith
    then show ?thesis using \<open>max_step_runs g = Some m\<close> by (simp add: within_limit_def)
  qed (simp add: within_limit_def)
  have "int (n - 1) \<le> max m (int k)" if "int n \<le> max m (int k)" for n using that by linarith
  then show "within_limit gid m k g \<Longrightarrow> within_limit gid m k (g\<lparr>step_runs := step_runs g - 1\<rparr>)"
    by (simp add: within_limit_def)
qed

interpretation limited: pass_invariant "within_limit gid m k" for gid m k
proof
  show "goals_ok (within_limit gid m k) (snd (dispatch e owner g p b s w))"
    if "goals_ok (within_limit gid m k) w" for e owner g p b s and w :: goal_world
    by (rule dispatch_frame [OF that limit_runs]) (simp_all add: limit_frame)
  show "goals_ok (within_limit gid m k) (snd (goal_assess e owner gid' from_states w))"
    if "goals_ok (within_limit gid m k) w" for e owner gid' from_states and w :: goal_world
    by (rule assess_frame [OF that]) (simp_all add: limit_frame)
qed (simp_all add: limit_frame)

text \<open>
  C33: The step-run budget is never overrun. In every reachable state a goal has at most as many steps filed as
  tasks as its run counter says, failed filings counted; and whatever one pass of the coordinator does, it
  leaves the counter within the goal's limit, unless a later profile had already put the limit below it, in
  which case it files nothing more.
\<close>

theorem filed_steps_within_budget:
  assumes "goal_move\<^sup>*\<^sup>* empty_goals w" and "g \<in> set (gw_goals w)" and "max_step_runs g = Some m"
    and "h \<in> set (gw_goals (snd (advance e owner gid w)))" and "goal_id h = goal_id g"
  shows "length (filter (\<lambda>s. s_task_id s \<noteq> None) (steps h)) \<le> step_runs h
    \<and> int (step_runs h) \<le> max m (int (step_runs g))"
proof -
  have w: "goals_ok counted w" by (rule budget.history.keep_star [OF assms(1) empty_ok])
  have "goals_ok (within_limit (goal_id g) m (step_runs g)) w"
    unfolding goals_ok_def
  proof (intro conjI ballI)
    show "distinct (map goal_id (gw_goals w))" using w by (simp add: goals_ok_def)
    show "within_limit (goal_id g) m (step_runs g) x" if "x \<in> set (gw_goals w)" for x
      using same_goal [OF w that assms(2)] assms(3) by (auto simp: within_limit_def)
  qed
  then have "goals_ok (within_limit (goal_id g) m (step_runs g)) (snd (advance e owner gid w))" by (rule limited.ok_advance)
  moreover have "goals_ok counted (snd (advance e owner gid w))" by (rule budget.ok_advance [OF w])
  ultimately show ?thesis using assms(4,5) by (simp add: goals_ok_def within_limit_def counted_def linked_def)
qed


theorem filed_steps_within_budget_witness:
  "\<exists>h \<in> set (gw_goals (snd (advance desk_env ''o'' ''goal_1'' running_world))). step_runs h = 1
     \<and> length (filter (\<lambda>s. s_task_id s \<noteq> None) (steps h)) \<le> step_runs h \<and> int (step_runs h) \<le> 10"
proof -
  have "map (\<lambda>g. (goal_id g, max_step_runs g, step_runs g)) (gw_goals running_world) = [(''goal_1'', Some 10, 1)]"
    by code_simp
  then obtain g where g: "g \<in> set (gw_goals running_world)" "goal_id g = ''goal_1''" "max_step_runs g = Some 10" "step_runs g = 1"
    by (cases "gw_goals running_world") auto
  have "map (\<lambda>g. (goal_id g, step_runs g)) (gw_goals (snd (advance desk_env ''o'' ''goal_1'' running_world))) = [(''goal_1'', 1)]"
    by code_simp
  then obtain h where h: "h \<in> set (gw_goals (snd (advance desk_env ''o'' ''goal_1'' running_world)))" "goal_id h = goal_id g" "step_runs h = 1"
    using g(2) by (cases "gw_goals (snd (advance desk_env ''o'' ''goal_1'' running_world))") auto
  from filed_steps_within_budget [OF running_reachable g(1,3) h(1,2)] g(4) h show ?thesis by (intro bexI [of _ h]) auto
qed

end
