(* ===== verification/Goal_Guards.thy ===== *)
theory Goal_Guards
  imports Goal_Properties
begin

text \<open>
  The guards of a goal: nothing is filed unless the goal is active under its pinned profile with models and
  budget admitted, an owner's stale view changes nothing but for the profile a refused Start or Resume has
  already adopted, and Stop reaches every linked task.
\<close>

subsection \<open>Filing\<close>

text \<open>The pass does not depend on the service that files tasks, but for the dispatch.\<close>

lemma filing_free [simp]:
  "model_chain (e\<lparr>ge_create_task := f\<rparr>) = model_chain e"
  "spend (e\<lparr>ge_create_task := f\<rparr>) = spend e"
  "budget_exhausted (e\<lparr>ge_create_task := f\<rparr>) = budget_exhausted e"
  "audit (e\<lparr>ge_create_task := f\<rparr>) = audit e"
  "goal_event (e\<lparr>ge_create_task := f\<rparr>) = goal_event e"
  "wait_goal (e\<lparr>ge_create_task := f\<rparr>) = wait_goal e"
  "interrupt_step (e\<lparr>ge_create_task := f\<rparr>) = interrupt_step e"
  "interrupt_goal (e\<lparr>ge_create_task := f\<rparr>) = interrupt_goal e"
  "pause_goal (e\<lparr>ge_create_task := f\<rparr>) = pause_goal e"
  "refresh_step (e\<lparr>ge_create_task := f\<rparr>) = refresh_step e"
  "goal_assess (e\<lparr>ge_create_task := f\<rparr>) = goal_assess e"
  "settle_or_report (e\<lparr>ge_create_task := f\<rparr>) = settle_or_report e"
proof -
  have fields: "ge_uuid (e\<lparr>ge_create_task := f\<rparr>) = ge_uuid e"
    "ge_audit (e\<lparr>ge_create_task := f\<rparr>) = ge_audit e"
    "ge_round2 (e\<lparr>ge_create_task := f\<rparr>) = ge_round2 e"
    "ge_usd (e\<lparr>ge_create_task := f\<rparr>) = ge_usd e"
    "ge_title (e\<lparr>ge_create_task := f\<rparr>) = ge_title e"
    "ge_principal (e\<lparr>ge_create_task := f\<rparr>) = ge_principal e"
    "ge_configured (e\<lparr>ge_create_task := f\<rparr>) = ge_configured e"
    "ge_primary (e\<lparr>ge_create_task := f\<rparr>) = ge_primary e"
    "ge_fallbacks (e\<lparr>ge_create_task := f\<rparr>) = ge_fallbacks e"
    "ge_resolve (e\<lparr>ge_create_task := f\<rparr>) = ge_resolve e"
    "ge_older (e\<lparr>ge_create_task := f\<rparr>) = ge_older e"
    "ge_spend (e\<lparr>ge_create_task := f\<rparr>) = ge_spend e"
    by simp_all
  have entry: "chain_entry (e\<lparr>ge_create_task := f\<rparr>) = chain_entry e"
    by (intro ext) (unfold chain_entry_def fields, rule refl)
  show chain: "model_chain (e\<lparr>ge_create_task := f\<rparr>) = model_chain e"
    by (intro ext) (unfold model_chain_def entry fields, rule refl)
  show spend: "spend (e\<lparr>ge_create_task := f\<rparr>) = spend e"
    by (intro ext) (unfold spend_def fields, rule refl)
  show budget: "budget_exhausted (e\<lparr>ge_create_task := f\<rparr>) = budget_exhausted e"
    by (intro ext) (unfold budget_exhausted_def spend fields, rule refl)
  show audit: "audit (e\<lparr>ge_create_task := f\<rparr>) = audit e"
    by (intro ext) (unfold audit_def fields, rule refl)
  show event: "goal_event (e\<lparr>ge_create_task := f\<rparr>) = goal_event e"
    by (intro ext) (unfold goal_event_def audit, rule refl)
  show waits: "wait_goal (e\<lparr>ge_create_task := f\<rparr>) = wait_goal e"
    by (intro ext) (unfold wait_goal_def event, rule refl)
  show istep: "interrupt_step (e\<lparr>ge_create_task := f\<rparr>) = interrupt_step e"
    by (intro ext) (unfold interrupt_step_def fields, rule refl)
  show interrupt: "interrupt_goal (e\<lparr>ge_create_task := f\<rparr>) = interrupt_goal e"
    by (intro ext) (unfold interrupt_goal_def istep, rule refl)
  show pauses: "pause_goal (e\<lparr>ge_create_task := f\<rparr>) = pause_goal e"
    by (intro ext) (unfold pause_goal_def interrupt event, rule refl)
  show refresh: "refresh_step (e\<lparr>ge_create_task := f\<rparr>) = refresh_step e"
    by (intro ext) (unfold refresh_step_def fields, rule refl)
  show assess: "goal_assess (e\<lparr>ge_create_task := f\<rparr>) = goal_assess e"
    by (intro ext) (unfold goal_assess_def event, rule refl)
  show settle: "settle_or_report (e\<lparr>ge_create_task := f\<rparr>) = settle_or_report e"
    by (intro ext) (unfold settle_or_report_def waits assess, rule refl)
qed

lemma filing_free_refresh [simp]: "refresh_steps (e\<lparr>ge_create_task := f\<rparr>) g w = refresh_steps e g w"
proof -
  have "refresh_each (e\<lparr>ge_create_task := f\<rparr>) gid ss w = refresh_each e gid ss w" for gid ss w
    by (induction ss arbitrary: w) simp_all
  then show ?thesis by (simp add: refresh_steps_def)
qed

text \<open>What holds of the working copy after the steps were read back and blocked.\<close>

definition same_terms :: "goal \<Rightarrow> goal \<Rightarrow> bool" where
  "same_terms g h \<longleftrightarrow> max_step_runs h = max_step_runs g \<and> step_runs h = step_runs g \<and> g_max_cost_usd h = g_max_cost_usd g
     \<and> g_model_profile h = g_model_profile g \<and> g_model h = g_model g \<and> goal_id h = goal_id g
     \<and> map s_task_id (steps h) = map s_task_id (steps g)"

lemma tasks_refresh: "refresh_steps e g w = (h, u) \<Longrightarrow> gw_tasks u = gw_tasks w \<and> same_terms g h"
proof -
  have step: "gw_tasks (snd (refresh_step e gid s w)) = gw_tasks w \<and> s_task_id (fst (refresh_step e gid s w)) = s_task_id s" for gid s w
    by (simp add: refresh_step_def update_steps_def update_goals_def split: prod.splits)
  have "gw_tasks (snd (refresh_each e gid ss w)) = gw_tasks w
      \<and> map s_task_id (fst (refresh_each e gid ss w)) = map s_task_id ss" for gid ss w
  proof (induction ss arbitrary: w)
    case (Cons s ss)
    then show ?case using step [of gid s w] by (simp add: case_prod_beta)
  qed simp
  from this [of "goal_id g" "steps g" w] show "refresh_steps e g w = (h, u) \<Longrightarrow> ?thesis"
    by (auto simp: refresh_steps_def same_terms_def split: prod.splits)
qed

lemma refresh_ids: "refresh_steps e g w = (h, u) \<Longrightarrow> map step_id (steps h) = map step_id (steps g)"
proof -
  have step: "step_id (fst (refresh_step e gid s w)) = step_id s" for gid s w
    by (simp add: refresh_step_def split: prod.splits)
  have "map step_id (fst (refresh_each e gid ss w)) = map step_id ss" for gid ss w
    by (induction ss arbitrary: w) (simp_all add: case_prod_beta step)
  from this [of "goal_id g" "steps g" w] show "refresh_steps e g w = (h, u) \<Longrightarrow> ?thesis"
    by (auto simp: refresh_steps_def split: prod.splits)
qed

lemma spend_terms: "map s_task_id (steps h) = map s_task_id (steps g) \<Longrightarrow> gw_tasks u = gw_tasks w \<Longrightarrow>
    spend e owner h u = spend e owner g w"
proof -
  assume ids: "map s_task_id (steps h) = map s_task_id (steps g)" and tasks: "gw_tasks u = gw_tasks w"
  let ?task = "\<lambda>x. case x of None \<Rightarrow> None | Some tid \<Rightarrow> if tid = [] then None else load_task (gw_tasks w) tid"
  have "linked_task u s = ?task (s_task_id s)" "linked_task w s = ?task (s_task_id s)" for s
    by (cases "s_task_id s", simp_all add: linked_task_def tasks)+
  then have "map (linked_task u) (steps h) = map (linked_task w) (steps g)"
  proof -
    have "map (linked_task u) (steps h) = map ?task (map s_task_id (steps h))"
      "map (linked_task w) (steps g) = map ?task (map s_task_id (steps g))"
      using \<open>\<And>s. linked_task u s = ?task (s_task_id s)\<close> \<open>\<And>s. linked_task w s = ?task (s_task_id s)\<close>
      unfolding map_map comp_def by (intro map_cong refl, blast)+
    then show ?thesis using ids by simp
  qed
  moreover have "List.map_filter f xs = map the (filter (\<lambda>x. x \<noteq> None) (map f xs))" for f :: "goal_step \<Rightarrow> TaskRecord option" and xs
    by (simp add: List.map_filter_def filter_map comp_def)
  ultimately have "List.map_filter (linked_task u) (steps h) = List.map_filter (linked_task w) (steps g)" by metis
  then show "spend e owner h u = spend e owner g w" by (simp add: spend_def)
qed

lemma scan_due: "scan_steps states ss = (blocked, due) \<Longrightarrow> set due \<subseteq> {s \<in> set ss. s_state s = ''pending''}"
proof (induction ss arbitrary: states blocked due)
  case (Cons s ss)
  show ?case
  proof
    fix x
    assume x: "x \<in> set due"
    show "x \<in> {y \<in> set (s # ss). s_state y = ''pending''}"
      using Cons.prems x by (auto simp: Let_def split: if_splits prod.splits dest: Cons.IH [THEN subsetD])
  qed
qed simp

lemma scan_apart:
  "scan_steps states ss = (blocked, due) \<Longrightarrow> distinct (map step_id ss) \<Longrightarrow>
     set blocked \<subseteq> step_id ` set ss \<and> step_id ` set due \<inter> set blocked = {}"
proof (induction ss arbitrary: states blocked due)
  case (Cons s ss)
  have in_ss: "step_id ` set d \<subseteq> step_id ` set ss" if "scan_steps st ss = (b, d)" for st b d
    using scan_due [OF that] by (intro image_mono) blast
  consider "scan_steps states ss = (blocked, due)"
    | b where "scan_steps ((step_id s, ''blocked'') # states) ss = (b, due)" "blocked = step_id s # b"
    | d where "scan_steps states ss = (blocked, d)" "due = s # d"
    using Cons.prems(1) by (auto simp: Let_def split: if_splits prod.splits)
  then show ?case
  proof cases
    case 1
    then show ?thesis using Cons.IH [OF 1] Cons.prems(2) by auto
  next
    case 2
    then show ?thesis using Cons.IH [OF 2(1)] Cons.prems(2) in_ss [OF 2(1)] by auto
  next
    case 3
    then show ?thesis using Cons.IH [OF 3(1)] Cons.prems(2) by auto
  qed
qed simp

text \<open>The conditions under which a pass may file a step of the goal.\<close>

definition may_file :: "goal_env \<Rightarrow> string \<Rightarrow> string \<Rightarrow> goal_world \<Rightarrow> bool" where
  "may_file e owner gid w \<longleftrightarrow>
     (case get_goal w owner gid of
        None \<Rightarrow> False
      | Some g \<Rightarrow>
          g_status g \<in> set ACTIVE_STATES
          \<and> (case pinned w owner g of
               None \<Rightarrow> False
             | Some p \<Rightarrow>
                 same_profile (fst (resolve_for w owner (g_project_id g))) (Some p)
                 \<and> list_all ce_allowed (model_chain e owner p (g_model_profile g) (g_model g)))
          \<and> (case max_step_runs g of None \<Rightarrow> True | Some limit \<Rightarrow> int (step_runs g) < limit)
          \<and> (case g_max_cost_usd g of None \<Rightarrow> True | Some cap \<Rightarrow> spend e owner g w < cap))"


text \<open>
  C34: Nothing is filed outside the goal's terms. Unless the goal is running or waiting, its pinned profile is
  the one Settings binds now, that profile admits every model of the chain the turn could run on, fallbacks
  included, and neither the step-run limit nor the cost limit is used up, a pass of the coordinator ends the
  same whatever the service that files tasks would do: it is not asked.
\<close>

theorem nothing_filed_outside_terms:
  assumes "goal_move\<^sup>*\<^sup>* empty_goals w" and "\<not> may_file e owner gid w"
  shows "advance (e\<lparr>ge_create_task := f\<rparr>) owner gid w = advance e owner gid w"
proof (cases "get_goal w owner gid")
  case None
  then show ?thesis by (simp add: advance_def)
next
  case (Some g)
  have same: "file_due (e\<lparr>ge_create_task := f\<rparr>) owner g2 p due w2 = file_due e owner g2 p due w2"
    if act: "g_status g \<in> set ACTIVE_STATES" and p: "pinned w owner g = Some p"
      "same_profile (fst (resolve_for w owner (g_project_id g))) (Some p)"
      and h: "refresh_steps e g w = (g1, w1)" "scan_steps st (steps g1) = (blocked, due)"
      "block_steps g1 blocked w1 = (g2, w2)" "due \<noteq> []" for p g1 w1 st blocked due g2 w2
  proof (cases "chain_refusal (model_chain e owner p (g_model_profile g2) (g_model g2)) = []")
    case False
    then show ?thesis by (simp add: file_due_def)
  next
    case True
    have terms: "same_terms g g1" "gw_tasks w1 = gw_tasks w" using tasks_refresh [OF h(1)] by auto
    have g2: "same_terms g g2" "gw_tasks w2 = gw_tasks w"
      using h(3) terms unfolding block_steps_def same_terms_def 
      by (auto simp: update_steps_def update_goals_def comp_def if_distrib [of s_task_id] cong: if_cong)
    have spend: "spend e owner g2 w2 = spend e owner g w"
      by (rule spend_terms) (use g2 in \<open>simp_all add: same_terms_def\<close>)
    have allowed: "list_all ce_allowed (model_chain e owner p (g_model_profile g) (g_model g))"
      using True g2(1) by (auto simp: chain_refusal_def same_terms_def list_all_iff find_None_iff split: option.splits)
    have "distinct (map step_id (steps g))"
      using budget.history.keep_star [OF assms(1) empty_ok] get_goal_row [OF Some] by (simp add: goals_ok_def counted_def)
    then have ids: "distinct (map step_id (steps g1))" using refresh_ids [OF h(1)] by simp
    obtain s where s: "s \<in> set due" using h(4) by (cases due) auto
    have s1: "s \<in> set (steps g1)" "s_state s = ''pending''" "step_id s \<notin> set blocked"
      using subsetD [OF scan_due [OF h(2)] s] scan_apart [OF h(2) ids] s by auto
    have "steps g2 = map (\<lambda>s. if s_state s = ''pending'' \<and> step_id s \<in> set blocked then s\<lparr>s_state := ''blocked''\<rparr> else s) (steps g1)"
      using h(3) by (auto simp: block_steps_def)
    then have "s \<in> set (steps g2)" using s1 by (auto intro!: rev_image_eqI [of s])
    then have pend: "\<exists>s \<in> set (steps g2). s_state s = ''pending''" using s1(2) by blast
    have "budget_exhausted e owner g2 w2 \<noteq> []"
      using assms(2) Some act p allowed g2(1) spend pend
      by (auto simp: may_file_def budget_exhausted_def same_terms_def Let_def split: option.splits)
    then show ?thesis using True by (simp add: file_due_def Let_def)
  qed
  then show ?thesis using Some
    by (auto simp: advance_def Let_def split: option.splits prod.splits)
qed

theorem nothing_filed_outside_terms_witness:
  "advance (desk_env\<lparr>ge_create_task := \<lambda>r tw. (Inl ''never asked'', tw)\<rparr>) ''o'' ''goal_1'' ready_world
     = advance desk_env ''o'' ''goal_1'' ready_world"
proof -
  have "\<not> may_file desk_env ''o'' ''goal_1'' ready_world" by code_simp
  then show ?thesis by (rule nothing_filed_outside_terms [OF ready_reachable])
qed

subsection \<open>Stale views\<close>

lemma stale_transition:
  assumes "goals_ok I w" and "get_goal w owner gid = Some g" and "base \<noteq> revision g"
  shows "fst (goal_transition owner gid (Some base) from_states st r d f w) = False"
proof -
  have "x = g" if "x \<in> set (gw_goals w)" "goal_id x = gid" for x
    using same_goal [OF assms(1) that(1)] get_goal_row [OF assms(2)] that(2) by simp
  then show ?thesis
    using assms(3) by (auto simp: goal_transition_def changed_goals_def filter_empty_conv Let_def)
qed

lemma stale_transitionD:
  "goals_ok I w \<Longrightarrow> get_goal w owner gid = Some g \<Longrightarrow> base \<noteq> revision g \<Longrightarrow>
     goal_transition owner gid (Some base) from_states st r d f w = (b, u) \<Longrightarrow> \<not> b"
  using stale_transition [of I w owner gid g base from_states st r d f] by simp

text \<open>
  A second tab cannot overwrite a newer decision. An owner action made against another revision than the
  goal has now, an edit, an acceptance, a pause, a stop, an archiving or a confirmation, is refused, and the
  refusal writes nothing: no row, task, event or profile changes.
\<close>

theorem stale_action_changes_nothing:
  assumes "goal_move\<^sup>*\<^sup>* empty_goals w" and "get_goal w owner gid = Some g" and "base \<noteq> revision g"
  shows "(\<exists>err. accept e owner gid base w = (Inl err, w))
    \<and> (\<exists>err. pause_goal e owner gid (Some base) reason w = (Inl err, w))
    \<and> (\<exists>err. stop_goal e owner gid base w = (Inl err, w))
    \<and> (\<exists>err. archive e owner gid base w = (Inl err, w))
    \<and> (\<exists>err. confirm e owner gid cid base note w = (Inl err, w))
    \<and> (\<exists>err. replace_plan owner gid base p w = (Inl err, w))"
proof (intro conjI)
  note ok = budget.history.keep_star [OF assms(1) empty_ok]
  note stale = stale_transitionD [OF ok assms(2,3)]
  show "\<exists>err. accept e owner gid base w = (Inl err, w)"
    using assms(2) by (auto dest: stale simp: accept_def with_goal_def split: option.splits prod.splits bool.splits)
  show "\<exists>err. pause_goal e owner gid (Some base) reason w = (Inl err, w)"
    using assms(2) by (auto dest: stale simp: pause_goal_def split: option.splits prod.splits bool.splits)
  show "\<exists>err. stop_goal e owner gid base w = (Inl err, w)"
    using assms(2) by (auto dest: stale simp: stop_goal_def with_goal_def Let_def split: option.splits prod.splits bool.splits)
  show "\<exists>err. archive e owner gid base w = (Inl err, w)"
    using assms(2) by (auto dest: stale simp: archive_def with_goal_def split: option.splits prod.splits bool.splits)
  show "\<exists>err. confirm e owner gid cid base note w = (Inl err, w)"
    using assms(2,3) by (auto simp: confirm_def with_goal_def split: option.splits)
  have "x = g" if "x \<in> set (gw_goals w)" "goal_id x = gid" for x
    using same_goal [OF ok that(1)] get_goal_row [OF assms(2)] that(2) by simp
  then show "\<exists>err. replace_plan owner gid base p w = (Inl err, w)"
    using assms(3) by (auto simp: replace_plan_def changed_goals_def filter_empty_conv Let_def)
qed

theorem stale_action_changes_nothing_witness:
  "\<exists>err. stop_goal desk_env ''o'' ''goal_1'' 1 ready_world = (Inl err, ready_world)"
proof -
  have "map_option revision (get_goal ready_world ''o'' ''goal_1'') = Some 2" by code_simp
  then obtain g where "get_goal ready_world ''o'' ''goal_1'' = Some g" "1 \<noteq> revision g" by auto
  from stale_action_changes_nothing [OF ready_reachable this] show ?thesis by blast
qed


subsection \<open>A refused Start\<close>

lemma find_map: "List.find P (map h xs) = map_option h (List.find (\<lambda>x. P (h x)) xs)"
  by (induction xs) auto

text \<open>
  A refused Start can still change the boundary. When the profile Settings binds has moved since acceptance
  and admits the models, Start, also one made against a stale revision and refused for it, has already pinned
  the goal to the new profile and taken over its budget.
\<close>

theorem refused_start_repins:
  assumes "goal_move\<^sup>*\<^sup>* empty_goals w" and "get_goal w owner gid = Some g" and "g_status g = ''ready''"
    and "base \<noteq> revision g" and "ge_principal e owner \<noteq> None"
    and "fst (resolve_for w owner (g_project_id g)) = Some p" and "\<not> same_profile (pinned w owner g) (Some p)"
    and "list_all ce_allowed (model_chain e owner p (g_model_profile g) (g_model g))"
    and "(profile_id g, profile_version g) \<noteq> (Some (xp_id p), Some (xp_version p))"
  shows "isl (fst (start e owner gid base w))
    \<and> (\<exists>h. get_goal (snd (start e owner gid base w)) owner gid = Some h \<and> revision h = revision g
        \<and> profile_id h = Some (xp_id p) \<and> profile_version h = Some (xp_version p)
        \<and> max_step_runs h = Some (xp_max_step_runs p))"
proof -
  note ok = budget.history.keep_star [OF assms(1) empty_ok]
  let ?w1 = "repin e owner g p w"
  let ?f = "\<lambda>x. x\<lparr>profile_id := Some (xp_id p), profile_version := Some (xp_version p),
      max_step_runs := Some (xp_max_step_runs p), g_max_cost_usd := xp_max_cost_usd p, g_updated_at := utc_now w\<rparr>"
  have g: "g \<in> set (gw_goals w)" "goal_id g = gid" "owner_principal_id g = owner" using get_goal_row [OF assms(2)] by auto
  have rows: "gw_goals ?w1 = map (\<lambda>x. if goal_id x = gid then ?f x else x) (gw_goals w)"
    by (simp add: repin_def goal_frame update_goals_def g(2))
  have "(\<lambda>x. goal_id (if goal_id x = gid then ?f x else x) = gid \<and> owner_principal_id (if goal_id x = gid then ?f x else x) = owner)
      = (\<lambda>x. goal_id x = gid \<and> owner_principal_id x = owner)" by (intro ext) simp
  then have "get_goal ?w1 owner gid = map_option (\<lambda>x. if goal_id x = gid then ?f x else x) (get_goal w owner gid)"
    unfolding get_goal_def rows find_map by (rule arg_cong)
  then have h: "get_goal ?w1 owner gid = Some (?f g)" using assms(2) g(2) by simp
  have refused: "chain_refusal (model_chain e owner p (g_model_profile g) (g_model g)) = []"
    using assms(8) by (auto simp: chain_refusal_def list_all_iff find_None_iff split: option.splits dest: find_SomeD)
  have reval: "snd (revalidate e owner g w) = ?w1"
    using assms(5-9) refused h g(2) by (auto simp: revalidate_def Let_def same_profile_def split: option.splits)
  have ok1: "goals_ok counted ?w1" by (rule budget.ok_repin [OF ok])
  have "isl (fst (start e owner gid base w)) \<and> snd (start e owner gid base w) = ?w1"
  proof (cases "revalidate e owner g w")
    case (Pair x u)
    then have u: "u = ?w1" using reval by simp
    show ?thesis
    proof (cases x)
      case (Some err)
      then show ?thesis using Pair u assms(2,3)
        by (simp add: start_def with_goal_def require_action_def allowed_actions_def ALLOWED_ACTIONS_def)
    next
      case None
      have stale: "\<not> b" if "goal_transition owner gid (Some base) from_states st r d f ?w1 = (b, v)" for from_states st r d f b v
        using stale_transitionD [OF ok1 h _ that] assms(4) by simp
      show ?thesis using Pair None u assms(2,3) h
        by (auto dest: stale simp: start_def with_goal_def require_action_def allowed_actions_def ALLOWED_ACTIONS_def
            split: prod.splits bool.splits)
    qed
  qed
  then show ?thesis using h by simp
qed

text \<open>Settings raised the version of the bound profile after the goal was accepted.\<close>

definition moved_world :: goal_world where
  "moved_world = snd (update_profile desk_env ''o'' ''xprof_0'' 1 (no_fields\<lparr>pf_max_step_runs := Some 3\<rparr>) ready_world)"

theorem refused_start_repins_witness:
  "isl (fst (start desk_env ''o'' ''goal_1'' 1 moved_world))
   \<and> (\<exists>h. get_goal (snd (start desk_env ''o'' ''goal_1'' 1 moved_world)) ''o'' ''goal_1'' = Some h \<and> max_step_runs h = Some 3)"
proof -
  have reach: "goal_move\<^sup>*\<^sup>* empty_goals moved_world"
    unfolding moved_world_def by (rule rtranclp.rtrancl_into_rtrancl [OF ready_reachable goal_move.next_version])
  have "(case (get_goal moved_world ''o'' ''goal_1'', fst (resolve_for moved_world ''o'' None)) of
        (Some g, Some p) \<Rightarrow> g_status g = ''ready'' \<and> revision g = 2 \<and> g_project_id g = None
          \<and> \<not> same_profile (pinned moved_world ''o'' g) (Some p)
          \<and> list_all ce_allowed (model_chain desk_env ''o'' p (g_model_profile g) (g_model g))
          \<and> profile_version g = Some 1 \<and> xp_version p = 2 \<and> xp_max_step_runs p = 3
      | _ \<Rightarrow> False)" by code_simp
  then obtain g p where "get_goal moved_world ''o'' ''goal_1'' = Some g" "g_status g = ''ready''" "1 \<noteq> revision g"
    "fst (resolve_for moved_world ''o'' (g_project_id g)) = Some p" "\<not> same_profile (pinned moved_world ''o'' g) (Some p)"
    "list_all ce_allowed (model_chain desk_env ''o'' p (g_model_profile g) (g_model g))"
    "(profile_id g, profile_version g) \<noteq> (Some (xp_id p), Some (xp_version p))" "xp_max_step_runs p = 3"
    by (auto split: option.splits)
  moreover have "ge_principal desk_env ''o'' \<noteq> None" by (simp add: desk_env_def)
  ultimately show ?thesis using refused_start_repins [OF reach, of "''o''" "''goal_1''" g 1 desk_env p] by metis
qed

subsection \<open>Stop\<close>

definition ends_cancelled :: "task_world \<Rightarrow> task_world \<Rightarrow> bool" where
  "ends_cancelled w u \<longleftrightarrow> wf_tree (tree u) \<and>
     (\<forall>i st. state_of w i = Some st \<longrightarrow> state_of u i = Some st \<or> state_of u i = Some ''cancelled'')"

lemma mapped_states:
  assumes "wf_tree (tree w)" and "tree u = map (\<lambda>(i, p, s). (i, p, F i s)) (tree w)"
  shows "wf_tree (tree u)" and "state_of w i = Some s \<Longrightarrow> state_of u i = Some (F i s)"
proof -
  have fsts: "map fst (tree u) = map fst (tree w)"
    unfolding assms(2) map_map by (rule map_cong) (auto split: prod.splits)
  then have "fst ` set (tree u) = fst ` set (tree w)" by (metis list.set_map)
  then show wf: "wf_tree (tree u)" using assms(1) fsts by (simp add: wf_tree_def)
  show "state_of u i = Some (F i s)" if "state_of w i = Some s"
  proof -
    from that obtain p where p: "(i, p, s) \<in> set (tree w)" unfolding state_of_tree [OF assms(1)] by (elim exE)
    have "(i, p, F i s) \<in> set (tree u)" unfolding assms(2) set_map by (rule rev_image_eqI [OF p]) simp
    then show ?thesis unfolding state_of_tree [OF wf] by (rule exI)
  qed
qed

lemma cancel_tree:
  assumes "wf_tree (tree w)" and "ia_action_type a = ''cancel''"
  shows "ends_cancelled w (snd (apply_at_safe_boundary writer a True None w))"
    and "state_of w (ia_task_id a) = Some st \<Longrightarrow>
      state_of (snd (apply_at_safe_boundary writer a True None w)) (ia_task_id a) = Some ''cancelled''"
proof -
  obtain reach where reach: "CASCADE_FROM (ia_action_type a) = Some reach"
    unfolding assms(2) CASCADE_FROM_def by simp
  have cancelled: "interrupted_state ''cancel'' = ''cancelled''" by (simp add: interrupted_state_def)
  note u = interrupt_tree [OF assms(1) reach, of writer None, unfolded assms(2) cancelled]
  note moved = mapped_states [OF assms(1) u]
  have "state_of (snd (apply_at_safe_boundary writer a True None w)) i = Some st
      \<or> state_of (snd (apply_at_safe_boundary writer a True None w)) i = Some ''cancelled''" if "state_of w i = Some st" for i st
    unfolding moved(2) [OF that] by (simp split: if_split)
  then show "ends_cancelled w (snd (apply_at_safe_boundary writer a True None w))"
    unfolding ends_cancelled_def using moved(1) by blast
  show "state_of (snd (apply_at_safe_boundary writer a True None w)) (ia_task_id a) = Some ''cancelled''"
    if "state_of w (ia_task_id a) = Some st"
    unfolding moved(2) [OF that] by simp
qed

lemma ends_cancelled_refl: "wf_tree (tree w) \<Longrightarrow> ends_cancelled w w"
  by (simp add: ends_cancelled_def)

lemma ends_cancelled_trans: "ends_cancelled u v \<Longrightarrow> ends_cancelled v w \<Longrightarrow> ends_cancelled u w"
  unfolding ends_cancelled_def by (metis (no_types, opaque_lifting))

lemma cancel_step:
  assumes "wf_tree (tree (gw_tasks (snd nw)))"
  shows "ends_cancelled (gw_tasks (snd nw)) (gw_tasks (snd (interrupt_step e ''cancel'' reason s nw)))"
    and "s_task_id s = Some tid \<Longrightarrow> tid \<noteq> [] \<Longrightarrow> state_of (gw_tasks (snd nw)) tid = Some st \<Longrightarrow> st \<in> set ACTIVE_TASK \<Longrightarrow>
      state_of (gw_tasks (snd (interrupt_step e ''cancel'' reason s nw))) tid = Some ''cancelled''"
proof -
  obtain n w where nw: "nw = (n, w)" by (cases nw)
  let ?a = "\<lambda>t. \<lparr>ia_action_id = ''act_'' @ ge_uuid e (gw_next_id w), ia_task_id = task_id t,
      ia_session_id = task_session_id t, ia_action_type = ''cancel'', ia_reason = reason, ia_steer_text = None\<rparr>"
  have "gw_tasks (snd (interrupt_step e ''cancel'' reason s nw)) = (case linked_task w s of
      None \<Rightarrow> gw_tasks w
    | Some t \<Rightarrow> if status t \<in> set ACTIVE_TASK then snd (apply_at_safe_boundary True (?a t) True None (gw_tasks w)) else gw_tasks w)"
    by (simp add: interrupt_step_def nw split: option.splits)
  note step = this
  have wf: "wf_tree (tree (gw_tasks w))" using assms nw by simp
  show "ends_cancelled (gw_tasks (snd nw)) (gw_tasks (snd (interrupt_step e ''cancel'' reason s nw)))"
    unfolding step using cancel_tree(1) [OF wf] ends_cancelled_refl [OF wf] by (simp add: nw split: option.splits)
  show "state_of (gw_tasks (snd (interrupt_step e ''cancel'' reason s nw))) tid = Some ''cancelled''"
    if s: "s_task_id s = Some tid" "tid \<noteq> []" "state_of (gw_tasks (snd nw)) tid = Some st" "st \<in> set ACTIVE_TASK"
  proof -
    obtain t where t: "load_task (gw_tasks w) tid = Some t" "status t = st"
      using s(3) nw by (cases "load_task (gw_tasks w) tid") (simp_all add: state_of_def)
    then have "linked_task w s = Some t" "task_id t = tid" using s(1,2) load_task_tree [OF t(1)] by (simp_all add: linked_task_def)
    then show ?thesis
      unfolding step using cancel_tree(2) [OF wf, of "?a t" st] s(3,4) t(2) nw by simp
  qed
qed

lemma cancel_all:
  assumes "wf_tree (tree (gw_tasks (snd nw)))"
  shows "ends_cancelled (gw_tasks (snd nw)) (gw_tasks (snd (fold (interrupt_step e ''cancel'' reason) ss nw)))"
    and "s \<in> set ss \<Longrightarrow> s_task_id s = Some tid \<Longrightarrow> tid \<noteq> [] \<Longrightarrow> state_of (gw_tasks (snd nw)) tid = Some st \<Longrightarrow>
      st \<in> set ACTIVE_TASK \<Longrightarrow>
      state_of (gw_tasks (snd (fold (interrupt_step e ''cancel'' reason) ss nw))) tid = Some ''cancelled''"
  using assms
proof (induction ss arbitrary: nw st)
  case Nil
  {
    case 1
    then show ?case by (simp add: ends_cancelled_refl)
  next
    case 2
    then show ?case by simp
  }
next
  case (Cons x ss)
  let ?nw = "\<lambda>nw. interrupt_step e ''cancel'' reason x nw"
  {
    case 1
    have head: "ends_cancelled (gw_tasks (snd nw)) (gw_tasks (snd (?nw nw)))" by (rule cancel_step(1) [OF 1])
    then have "wf_tree (tree (gw_tasks (snd (?nw nw))))" by (simp add: ends_cancelled_def)
    from ends_cancelled_trans [OF head Cons.IH(1) [OF this]] show ?case by simp
  next
    case 2
    have head: "ends_cancelled (gw_tasks (snd nw)) (gw_tasks (snd (?nw nw)))" by (rule cancel_step(1) [OF 2(6)])
    then have wf: "wf_tree (tree (gw_tasks (snd (?nw nw))))" by (simp add: ends_cancelled_def)
    have rest: "ends_cancelled (gw_tasks (snd (?nw nw))) (gw_tasks (snd (fold (interrupt_step e ''cancel'' reason) ss (?nw nw))))"
      by (rule Cons.IH(1) [OF wf])
    consider "state_of (gw_tasks (snd (?nw nw))) tid = Some ''cancelled''"
      | "state_of (gw_tasks (snd (?nw nw))) tid = Some st" "s \<in> set ss"
      using 2 head cancel_step(2) [OF 2(6), of s tid st] unfolding ends_cancelled_def by fastforce
    then show ?case
    proof cases
      case 1
      then show ?thesis using rest unfolding ends_cancelled_def by auto
    next
      case other: 2
      then show ?thesis using Cons.IH(2) [OF other(2) 2(2,3) other(1) 2(5) wf] by simp
    qed
  }
qed

lemma get_goal_update:
  assumes "\<And>x. goal_id (f x) = goal_id x \<and> owner_principal_id (f x) = owner_principal_id x"
  shows "get_goal (update_goals P f w) owner gid = map_option (\<lambda>x. if P x then f x else x) (get_goal w owner gid)"
proof -
  have "(\<lambda>x. goal_id (if P x then f x else x) = gid \<and> owner_principal_id (if P x then f x else x) = owner)
      = (\<lambda>x. goal_id x = gid \<and> owner_principal_id x = owner)" using assms by (intro ext) simp
  then show ?thesis unfolding get_goal_def update_goals_def by (simp add: find_map del: not_None_eq)
qed

lemma get_goal_frame: "gw_goals u = gw_goals w \<Longrightarrow> get_goal u owner gid = get_goal w owner gid"
  by (simp add: get_goal_def)

text \<open>
  C35: Stop reaches every step. When the owner stops a goal, the goal is stopped, every step of it has settled
  while the finished ones keep their state, each linked task that had not ended is cancelled, and no later
  pass of the coordinator does anything with the goal.
\<close>

theorem stop_reaches_every_step:
  assumes "stop_goal e owner gid base w = (Inr r, u)" and "get_goal w owner gid = Some g"
    and "goal_move\<^sup>*\<^sup>* empty_goals w" and "wf_tree (tree (gw_tasks w))"
  shows "(\<exists>h. get_goal u owner gid = Some h \<and> g_status h = ''stopped''
        \<and> map s_state (steps h) = map (\<lambda>s. if s_state s \<in> set STEP_SETTLED then s_state s else ''stopped'') (steps g))
    \<and> (\<forall>s \<in> set (steps g). \<forall>tid st. s_task_id s = Some tid \<and> tid \<noteq> [] \<and> state_of (gw_tasks w) tid = Some st
        \<and> st \<in> set ACTIVE_TASK \<longrightarrow> state_of (gw_tasks u) tid = Some ''cancelled'')
    \<and> advance e' owner gid u = (Inr (), u)"
proof -
  let ?P = "\<lambda>g. goal_id g = gid \<and> owner_principal_id g = owner \<and> g_status g \<in> set [''ready'', ''running'', ''waiting'', ''paused'']
      \<and> revision g = base"
  let ?f = "\<lambda>g. g\<lparr>settled_at := Some (utc_now w), g_status := ''stopped'', g_reason := [], g_reason_detail := [],
      revision := revision g + 1, g_updated_at := utc_now w\<rparr>"
  let ?w1 = "update_goals ?P ?f w"
  let ?w2 = "update_steps gid (\<lambda>s. s_state s \<notin> set STEP_SETTLED) (\<lambda>s. s\<lparr>s_state := ''stopped'', s_reason := ''goal_stopped''\<rparr>) ?w1"
  let ?w3 = "snd (interrupt_goal e g ''cancel'' ''The owner stopped the goal'' ?w2)"
  have tr: "goal_transition owner gid (Some base) [''ready'', ''running'', ''waiting'', ''paused''] ''stopped'' [] []
      (\<lambda>x. x\<lparr>settled_at := Some (utc_now w)\<rparr>) w = (changed_goals ?P w > 0, ?w1)"
    by (simp add: goal_transition_def Let_def)
  have allowed: "require_action g ''stop'' = None"
    using assms(1,2) by (cases "require_action g ''stop''") (simp_all add: stop_goal_def with_goal_def)
  have u: "changed_goals ?P w > 0" "gw_goals u = gw_goals ?w3" "gw_tasks u = gw_tasks ?w3"
    using assms(1,2) allowed unfolding stop_goal_def with_goal_def tr
    by (auto simp: Let_def goal_event_def audit_def record_event_def split: prod.splits bool.splits)
  have g: "g \<in> set (gw_goals w)" "goal_id g = gid" "owner_principal_id g = owner" using get_goal_row [OF assms(2)] by auto
  obtain x where x: "x \<in> set (gw_goals w)" "?P x" using u(1) by (auto simp: changed_goals_def filter_empty_conv)
  then have "x = g" using same_goal [OF budget.history.keep_star [OF assms(3) empty_ok] x(1) g(1)] g(2) by simp
  then have P: "?P g" using x(2) by simp
  let ?h = "(?f g)\<lparr>steps := map (\<lambda>s. if s_state s \<notin> set STEP_SETTLED
      then s\<lparr>s_state := ''stopped'', s_reason := ''goal_stopped''\<rparr>\<lparr>s_updated_at := utc_now ?w1\<rparr> else s) (steps g)\<rparr>"
  have "get_goal ?w1 owner gid = Some (?f g)" using P assms(2) by (subst get_goal_update) simp_all
  then have "get_goal ?w2 owner gid = Some ?h" using g(2) unfolding update_steps_def by (subst get_goal_update) simp_all
  then have h: "get_goal u owner gid = Some ?h"
    using get_goal_frame [OF u(2)] get_goal_frame [OF goals_interrupt] by simp
  have settled: "map s_state (steps ?h) = map (\<lambda>s. if s_state s \<in> set STEP_SETTLED then s_state s else ''stopped'') (steps g)"
    by simp
  have idle: "advance e' owner gid u = (Inr (), u)"
    using h by (simp add: advance_def ACTIVE_STATES_def)
  have tasks: "gw_tasks ?w2 = gw_tasks w" by (simp add: update_steps_def update_goals_def)
  have "state_of (gw_tasks u) tid = Some ''cancelled''"
    if "s \<in> set (steps g)" "s_task_id s = Some tid" "tid \<noteq> []" "state_of (gw_tasks w) tid = Some st" "st \<in> set ACTIVE_TASK" for s tid st
    using cancel_all(2) [of "(0, ?w2)" s "steps g" tid st e "''The owner stopped the goal''"] that assms(4) tasks
    unfolding u(3) interrupt_goal_def by simp
  moreover have "g_status ?h = ''stopped''" by simp
  ultimately show ?thesis using h settled idle by blast
qed

theorem stop_reaches_every_step_witness:
  "state_of (gw_tasks (snd (stop_goal desk_env ''o'' ''goal_1'' 3 running_world))) ''task_0'' = Some ''cancelled''"
proof -
  have "fst (stop_goal desk_env ''o'' ''goal_1'' 3 running_world) = Inr (0, 1, 1)" by code_simp
  then have stopped: "stop_goal desk_env ''o'' ''goal_1'' 3 running_world
      = (Inr (0, 1, 1), snd (stop_goal desk_env ''o'' ''goal_1'' 3 running_world))"
    by (cases "stop_goal desk_env ''o'' ''goal_1'' 3 running_world") simp
  have "(case get_goal running_world ''o'' ''goal_1'' of
        Some g \<Rightarrow> map s_task_id (steps g) = [Some ''task_0''] | None \<Rightarrow> False)
      \<and> tree (gw_tasks running_world) = [(''task_0'', None, ''queued'')]" by code_simp
  then obtain g s where g: "get_goal running_world ''o'' ''goal_1'' = Some g" "s \<in> set (steps g)" "s_task_id s = Some ''task_0''"
    and tree: "tree (gw_tasks running_world) = [(''task_0'', None, ''queued'')]"
    by (cases "get_goal running_world ''o'' ''goal_1''") (auto simp: map_eq_Cons_conv)
  have wf: "wf_tree (tree (gw_tasks running_world))" by (simp add: tree wf_tree_def)
  have "state_of (gw_tasks running_world) ''task_0'' = Some ''queued''"
    unfolding state_of_tree [OF wf] tree by simp
  then show ?thesis
    using stop_reaches_every_step [OF stopped g(1) running_reachable wf, of desk_env] g(2,3) by (simp add: ACTIVE_TASK_def)
qed

end
