(* ===== verification/Command_Policy.thy ===== *)
theory Command_Policy
  imports Code_Placement
begin

text \<open>
  What a governed command may be (\<^verbatim>\<open>runtime/command_policy.py\<close>): the scanner that names every shell
  construct of a text, the refusals of \<^verbatim>\<open>validate_command\<close> over an argv list in the order of the code,
  the reading of Python's own options, and the environment a command runs with.

  Paths are POSIX paths of \<^verbatim>\<open>pathlib\<close>. \<open>resolve\<close> is \<^verbatim>\<open>Path.resolve()\<close>, which follows the links of the file
  system; it answers \<open>None\<close> when it raises.
\<close>

subsection \<open>The shell scanner\<close>

datatype NodeKind =
    COMMAND | SEQUENCE | AND_IF | OR_IF | PIPELINE | BACKGROUND | REDIRECT | SUBSHELL | GROUP
  | SUBSTITUTION | EXPANSION | GLOB | TILDE | PROCESS_SUB

datatype ShellNode = ShellNode (kind: NodeKind) (node_text: string) (words: "string list") (children: "ShellNode list")

fun node_walk :: "ShellNode \<Rightarrow> ShellNode list" where
  "node_walk (ShellNode k t ws cs) = ShellNode k t ws cs # concat (map node_walk cs)"

abbreviation leaf :: "NodeKind \<Rightarrow> string \<Rightarrow> ShellNode" where
  "leaf k t \<equiv> ShellNode k t [] []"

definition OPERATORS :: "(string \<times> NodeKind) list" where
  "OPERATORS =
     [(''&&'', AND_IF), (''||'', OR_IF), (''>>'', REDIRECT), (''<<'', REDIRECT), ('';'', SEQUENCE), (''|'', PIPELINE),
      (''&'', BACKGROUND), (''>'', REDIRECT), (''<'', REDIRECT), ([CHR 0x0A], SEQUENCE)]"

definition name_start :: "char \<Rightarrow> bool" where
  "name_start c =
     (let n = (of_char c :: nat) in 65 \<le> n \<and> n \<le> 90 \<or> n = 95 \<or> 97 \<le> n \<and> n \<le> 122)"

definition name_char :: "char \<Rightarrow> bool" where
  "name_char c = (name_start c \<or> (let n = (of_char c :: nat) in 48 \<le> n \<and> n \<le> 57))"

text \<open>The match of \<^verbatim>\<open>\$\{?([A-Za-z_][A-Za-z0-9_]*)\}?\<close> after the dollar: the name and what follows the match.\<close>

definition expansion :: "string \<Rightarrow> (string \<times> string) option" where
  "expansion r =
     (let r1 = (case r of c # r' \<Rightarrow> if c = CHR ''{'' then r' else r | [] \<Rightarrow> r);
          name = takeWhile name_char r1;
          after = dropWhile name_char r1
      in case name of
           [] \<Rightarrow> None
         | c # _ \<Rightarrow>
             if name_start c
             then Some (name, case after of d # r' \<Rightarrow> if d = CHR ''}'' then r' else after | [] \<Rightarrow> after)
             else None)"

text \<open>The text up to a closing character and what follows it; the whole text when nothing closes it.\<close>

definition until :: "char \<Rightarrow> string \<Rightarrow> string \<times> string" where
  "until close r = (takeWhile (\<lambda>c. c \<noteq> close) r, drop 1 (dropWhile (\<lambda>c. c \<noteq> close) r))"

definition flush_word :: "string \<Rightarrow> string list \<Rightarrow> string list" where
  "flush_word w ws = (if w = [] then ws else ws @ [w])"

lemma expansion_shorter:
  assumes e: "expansion r = Some (n, r')"
  shows "length r' \<le> length r"
proof -
  define r1 where "r1 = (case r of c # r' \<Rightarrow> if c = CHR ''{'' then r' else r | [] \<Rightarrow> r)"
  have "length r1 \<le> length r" by (auto simp: r1_def split: list.splits)
  moreover have "length r' \<le> length (dropWhile name_char r1)"
    using e by (auto simp: expansion_def Let_def r1_def [symmetric] split: list.splits if_splits)
  ultimately show ?thesis using length_dropWhile_le [of name_char r1] by linarith
qed

lemma until_shorter:
  assumes "(b, r') = until close (drop n r)"
  shows "length r' < Suc (length r)"
proof -
  from assms have "length r' \<le> length (dropWhile (\<lambda>c. c \<noteq> close) (drop n r))" by (simp add: until_def)
  then show ?thesis using length_dropWhile_le [of "\<lambda>c. c \<noteq> close" "drop n r"] by simp
qed

lemmas until_shorter_0 = until_shorter [where n = 0, simplified]

text \<open>
  One turn of the loop at the character \<open>c\<close> with \<open>r\<close> after it. \<open>spaced\<close> says that the character before is white
  space or that there is none, \<open>quote\<close> is the quotation the scanner is in, \<open>w\<close> the word under way, \<open>ws\<close> the words
  so far. The result adds the constructs found and the text that is left.
\<close>

type_synonym scan_state = "bool \<times> char option \<times> string \<times> string list \<times> ShellNode list \<times> string"

definition scan_escaped :: "char option \<Rightarrow> string \<Rightarrow> string list \<Rightarrow> string \<Rightarrow> scan_state" where
  "scan_escaped quote w ws r =
     (case r of
        [] \<Rightarrow> (False, quote, w @ [CHR 0x5C], ws, [], [])
      | d # r' \<Rightarrow> (is_space d, quote, w @ [CHR 0x5C, d], ws, [], r'))"

definition scan_plain :: "bool \<Rightarrow> string \<Rightarrow> string list \<Rightarrow> char \<Rightarrow> string \<Rightarrow> scan_state" where
  "scan_plain spaced w ws c r =
     (if c = CHR ''('' then (False, None, w, ws, [leaf SUBSHELL ''(''], r)
      else if c = CHR ''{'' \<and> spaced then (False, None, w, ws, [leaf GROUP ''{''], r)
      else case List.find (\<lambda>(t, k). starts_with (c # r) t) OPERATORS of
        Some (t, k) \<Rightarrow> (is_space (last t), None, [], flush_word w ws, [leaf k t], drop (length t - 1) r)
      | None \<Rightarrow>
          if is_space c then (True, None, [], flush_word w ws, [], r)
          else (False, None, w @ [c], ws,
                (if c = CHR ''*'' \<or> c = CHR ''?'' \<or> c = CHR ''['' then [leaf GLOB [c]] else [])
                  @ (if c = CHR ''~'' \<and> w = [] then [leaf TILDE ''~''] else []), r))"

definition scan_unquoted :: "bool \<Rightarrow> string \<Rightarrow> string list \<Rightarrow> char \<Rightarrow> string \<Rightarrow> scan_state" where
  "scan_unquoted spaced w ws c r =
     (if c = CHR 0x27 \<or> c = CHR 0x22 then (False, Some c, w, ws, [], r)
      else if c = CHR ''$'' \<and> starts_with r ''('' then
        (case until (CHR '')'') (drop 1 r) of (body, r') \<Rightarrow> (False, None, w, ws, [leaf SUBSTITUTION (str_strip body)], r'))
      else if c = CHR ''`'' then
        (case until (CHR ''`'') r of (body, r') \<Rightarrow> (False, None, w, ws, [leaf SUBSTITUTION (str_strip body)], r'))
      else if (c = CHR ''<'' \<or> c = CHR ''>'') \<and> starts_with r ''('' then
        (case until (CHR '')'') (drop 1 r) of (body, r') \<Rightarrow> (False, None, w, ws, [leaf PROCESS_SUB body], r'))
      else case (if c = CHR ''$'' then expansion r else None) of
        Some (name, r') \<Rightarrow> (False, None, w, ws, [leaf EXPANSION name], r')
      | None \<Rightarrow> scan_plain spaced w ws c r)"

definition scan_step :: "bool \<Rightarrow> char option \<Rightarrow> string \<Rightarrow> string list \<Rightarrow> char \<Rightarrow> string \<Rightarrow> scan_state" where
  "scan_step spaced quote w ws c r =
     (if c = CHR 0x5C \<and> quote \<noteq> Some (CHR 0x27) then scan_escaped quote w ws r
      else case quote of
        Some q \<Rightarrow> if c = q then (is_space c, None, w, ws, [], r) else (is_space c, quote, w @ [c], ws, [], r)
      | None \<Rightarrow> scan_unquoted spaced w ws c r)"

lemma scan_plain_shorter: "(sp', q', w', ws', new, r') = scan_plain sp w ws c r \<Longrightarrow> length r' \<le> length r"
  by (simp add: scan_plain_def split: if_splits option.splits prod.splits)

lemma scan_until_shorter:
  "(sp', q', w', ws', new, r') = (case until close (drop n r) of (body, t) \<Rightarrow> (False, None, w, ws, f body, t))
   \<Longrightarrow> length r' \<le> length r"
  using until_shorter [of "fst (until close (drop n r))" "snd (until close (drop n r))" close n r]
  by (simp split: prod.splits)

lemma scan_unquoted_shorter:
  assumes "(sp', q', w', ws', new, r') = scan_unquoted sp w ws c r"
  shows "length r' \<le> length r"
  using assms unfolding scan_unquoted_def
  by (simp add: scan_until_shorter scan_plain_shorter expansion_shorter scan_until_shorter [where n = 0, simplified]
       del: One_nat_def split: if_splits option.splits prod.splits)

lemma scan_step_shorter:
  assumes "(sp', q', w', ws', new, r') = scan_step sp q w ws c r"
  shows "length r' \<le> length r"
proof (cases "c = CHR 0x5C \<and> q \<noteq> Some (CHR 0x27) \<or> q \<noteq> None")
  case True
  with assms show ?thesis by (auto simp: scan_step_def scan_escaped_def split: if_splits list.splits option.splits)
next
  case False
  with assms scan_unquoted_shorter show ?thesis by (auto simp: scan_step_def)
qed

function scan ::
  "bool \<Rightarrow> char option \<Rightarrow> string \<Rightarrow> string list \<Rightarrow> ShellNode list \<Rightarrow> string \<Rightarrow> string list \<times> ShellNode list" where
  "scan spaced quote w ws cs [] = (flush_word w ws, cs)"
| "scan spaced quote w ws cs (c # r) =
     (case scan_step spaced quote w ws c r of
        (spaced', quote', w', ws', new, r') \<Rightarrow> scan spaced' quote' w' ws' (cs @ new) r')"
  by pat_completeness auto
termination
  by (relation "measure (\<lambda>(spaced, quote, w, ws, cs, r). length r)") (auto dest!: scan_step_shorter)

definition parse_shell :: "string \<Rightarrow> ShellNode" where
  "parse_shell source =
     (case scan True None [] [] [] source of (ws, cs) \<Rightarrow> ShellNode COMMAND source ws cs)"

datatype command_refusal = CommandRejected string string | PathRaised

definition FORBIDDEN :: "(NodeKind \<times> string) list" where
  "FORBIDDEN =
     [(SEQUENCE, ''command_chaining_denied''), (AND_IF, ''command_chaining_denied''), (OR_IF, ''command_chaining_denied''),
      (PIPELINE, ''command_pipe_denied''), (BACKGROUND, ''command_background_denied''),
      (REDIRECT, ''command_redirect_denied''), (SUBSHELL, ''command_subshell_denied''), (GROUP, ''command_group_denied''),
      (SUBSTITUTION, ''command_substitution_denied''), (PROCESS_SUB, ''command_process_substitution_denied''),
      (EXPANSION, ''command_expansion_denied''), (GLOB, ''command_glob_denied''), (TILDE, ''command_tilde_denied'')]"

fun first_forbidden :: "ShellNode list \<Rightarrow> command_refusal option" where
  "first_forbidden [] = None"
| "first_forbidden (n # ns) =
     (case map_of FORBIDDEN (kind n) of
        Some reason \<Rightarrow> Some (CommandRejected reason (take 80 (str_strip (node_text n))))
      | None \<Rightarrow> first_forbidden ns)"

definition assert_single_command :: "string \<Rightarrow> command_refusal + string list" where
  "assert_single_command source =
     (let tree = parse_shell source
      in case first_forbidden (children tree) of
           Some err \<Rightarrow> Inl err
         | None \<Rightarrow> if words tree = [] then Inl (CommandRejected ''empty_command'' []) else Inr (words tree))"

subsection \<open>Binaries\<close>

definition INTERPRETERS :: "string list" where
  "INTERPRETERS =
     [''bash'', ''sh'', ''zsh'', ''dash'', ''ksh'', ''csh'', ''tcsh'', ''fish'', ''busybox'',
      ''env'', ''eval'', ''exec'', ''xargs'', ''nice'', ''nohup'', ''setsid'', ''timeout'',
      ''watch'', ''script'', ''expect'', ''perl'', ''ruby'', ''php'', ''lua'',
      ''ssh'', ''scp'', ''sftp'', ''rsync'', ''telnet'', ''nc'', ''ncat'', ''netcat'', ''socat'',
      ''curl'', ''wget'', ''sudo'', ''su'', ''doas'', ''chroot'', ''unshare'', ''docker'',
      ''podman'', ''kubectl'', ''systemctl'', ''launchctl'', ''at'', ''crontab'', ''make'']"

definition DANGEROUS_FLAGS :: "(string \<times> string list) list" where
  "DANGEROUS_FLAGS =
     [(''git'', [''-c'', ''--exec-path'', ''--upload-pack'', ''--receive-pack'', ''--exec'', ''-u'', ''--upload-archive'']),
      (''cargo'', [''--config'', ''-Z'']),
      (''node'', [''-e'', ''--eval'', ''-p'', ''--print'', ''--require'', ''-r'']),
      (''npm'', [''--ignore-scripts=false'']),
      (''find'', [''-exec'', ''-execdir'', ''-ok'', ''-okdir'', ''-delete'', ''-fprintf'']),
      (''grep'', [''-f'', ''--file'']),
      (''sort'', [''--compress-program'', ''-o'']),
      (''tar'', [''--to-command'', ''--use-compress-program'', ''-I'']),
      (''awk'', [''-f'']),
      (''sed'', [''-i'', ''--in-place'', ''-f'', ''--file'', ''-s''])]"

definition PYTHON_MODULES :: "string list" where
  "PYTHON_MODULES = [''venv'', ''pip'', ''pytest'', ''unittest'']"

definition CARGO_SUBCOMMANDS :: "string list" where
  "CARGO_SUBCOMMANDS =
     [''build'', ''check'', ''test'', ''fetch'', ''run'', ''fmt'', ''clippy'', ''doc'', ''bench'',
      ''metadata'', ''tree'', ''clean'']"

definition DEFAULT_ALLOWED_BINARIES :: "string list" where
  "DEFAULT_ALLOWED_BINARIES =
     [''ls'', ''cat'', ''head'', ''tail'', ''echo'', ''pwd'', ''which'', ''stat'', ''file'',
      ''git'', ''python'', ''python3'', ''pip'', ''node'', ''npm'', ''npx'',
      ''diff'', ''grep'', ''rg'', ''find'', ''sort'', ''wc'', ''uniq'', ''cut'', ''tr'', ''sed'', ''awk'',
      ''date'', ''true'', ''false'', ''basename'', ''dirname'', ''realpath'', ''md5sum'', ''sha256sum'']"

definition ALLOWED_SHELL_COMMANDS :: "string list" where
  "ALLOWED_SHELL_COMMANDS =
     [''ls'', ''cat'', ''head'', ''tail'', ''echo'', ''pwd'', ''which'',
      ''git'', ''python'', ''python3'', ''pip'', ''node'', ''npm'', ''cargo'',
      ''diff'', ''grep'', ''find'', ''sort'', ''wc'', ''uniq'']"

subsection \<open>Paths\<close>

text \<open>A POSIX path of \<^verbatim>\<open>pathlib\<close>: the root (nothing, one slash, or exactly two) and the parts.\<close>

record posix_path =
  anchor :: string
  parts :: "string list"

definition to_path :: "string \<Rightarrow> posix_path" where
  "to_path t =
     \<lparr>anchor = (if \<not> starts_with t ''/'' then []
                else if starts_with t ''//'' \<and> \<not> starts_with t ''///'' then ''//'' else ''/''),
      parts = filter (\<lambda>p. p \<noteq> [] \<and> p \<noteq> ''.'') (path_parts t)\<rparr>"

definition is_absolute :: "posix_path \<Rightarrow> bool" where
  "is_absolute p = (anchor p \<noteq> [])"

definition under :: "posix_path \<Rightarrow> posix_path \<Rightarrow> posix_path" where
  "under root p = (if is_absolute p then p else root\<lparr>parts := parts root @ parts p\<rparr>)"

definition relative_to :: "posix_path \<Rightarrow> posix_path \<Rightarrow> string list option" where
  "relative_to p root =
     (if anchor p = anchor root \<and> take (length (parts root)) (parts p) = parts root
      then Some (drop (length (parts root)) (parts p)) else None)"

definition PROTECTED :: "string list" where
  "PROTECTED = [''.raiker'', ''.git'']"

text \<open>The check of one resolved path; the text and the path it was read from are the caller's.\<close>

definition contained :: "string \<Rightarrow> string \<Rightarrow> posix_path \<Rightarrow> posix_path \<Rightarrow> command_refusal option" where
  "contained value reason root p =
     (case relative_to p root of
        None \<Rightarrow> Some (CommandRejected reason (take 80 value))
      | Some ps \<Rightarrow>
          (let head = (case ps of [] \<Rightarrow> [] | h # _ \<Rightarrow> h)
           in if head \<in> set PROTECTED then Some (CommandRejected ''command_path_protected'' head) else None))"

definition assert_contained ::
  "(posix_path \<Rightarrow> posix_path option) \<Rightarrow> string \<Rightarrow> posix_path \<Rightarrow> string \<Rightarrow> command_refusal option" where
  "assert_contained resolve value root reason =
     (if starts_with value ''~'' then Some (CommandRejected ''command_tilde_denied'' (take 80 value))
      else case resolve (under root (to_path value)) of
        None \<Rightarrow> Some PathRaised
      | Some p \<Rightarrow> contained value reason root p)"

definition path_text :: "posix_path \<Rightarrow> string" where
  "path_text p = anchor p @ concat (map (\<lambda>(i, x). if i = 0 then x else CHR ''/'' # x) (enumerate 0 (parts p)))"

text \<open>The binary's own location: its folder is resolved, the link it may be is not followed.\<close>

definition assert_binary_inside ::
  "(posix_path \<Rightarrow> posix_path option) \<Rightarrow> string \<Rightarrow> posix_path \<Rightarrow> command_refusal option" where
  "assert_binary_inside resolve program root =
     (let named = under root (to_path program)
      in case resolve (named\<lparr>parts := butlast (parts named)\<rparr>) of
           None \<Rightarrow> Some PathRaised
         | Some folder \<Rightarrow>
             (let located = folder\<lparr>parts := parts folder @ (if path_name program = [] then [] else [path_name program])\<rparr>
              in contained (path_text located) ''command_binary_outside_workspace'' root located))"

subsection \<open>Python's own options\<close>

datatype cluster_end = Refused command_refusal | EndOfOptions | NextArgument bool

text \<open>\<open>NextArgument True\<close> also passes over the value of an option that takes one.\<close>

fun read_cluster :: "string \<Rightarrow> string list \<Rightarrow> string \<Rightarrow> cluster_end" where
  "read_cluster binary later [] = NextArgument False"
| "read_cluster binary later (c # rest) =
     (if c = CHR ''c'' then Refused (CommandRejected ''command_flag_denied'' (binary @ '' -c''))
      else if c = CHR ''m'' then
        (let module = (if rest \<noteq> [] then rest else case later of [] \<Rightarrow> [] | x # _ \<Rightarrow> x)
         in if module \<notin> set PYTHON_MODULES
            then Refused (CommandRejected ''command_module_denied'' (take 80 (binary @ '' -m '' @ module)))
            else EndOfOptions)
      else if c \<in> set ''WXQ'' then NextArgument (rest = [])
      else read_cluster binary later rest)"

function assert_python_options :: "string \<Rightarrow> string list \<Rightarrow> command_refusal option" where
  "assert_python_options binary [] = None"
| "assert_python_options binary (argument # later) =
     (if argument = ''--'' \<or> \<not> starts_with argument ''-'' \<or> argument = ''-'' then None
      else if starts_with argument ''--'' then assert_python_options binary later
      else case read_cluster binary later (drop 1 argument) of
        Refused err \<Rightarrow> Some err
      | EndOfOptions \<Rightarrow> None
      | NextArgument skip \<Rightarrow> assert_python_options binary (if skip then drop 1 later else later))"
  by pat_completeness auto
termination
  by (relation "measure (\<lambda>(b, l). length l)") auto

subsection \<open>One argv list\<close>

record SafeCommand =
  sc_argv :: "string list"
  sc_binary :: string
  sc_workspace_root :: posix_path

definition program_name :: "string \<Rightarrow> string" where
  "program_name program =
     (let low = str_lower (path_name program) in if ends_with low ''.exe'' then take (length low - 4) low else low)"

definition pathish :: "string \<Rightarrow> bool" where
  "pathish t = (CHR ''/'' \<in> set t \<or> CHR 0x5C \<in> set t \<or> starts_with t ''~'' \<or> starts_with t ''.'')"

definition flag_of :: "string \<Rightarrow> string" where
  "flag_of = takeWhile (\<lambda>c. c \<noteq> CHR ''='')"

definition SOURCE_FLAGS :: "string list" where
  "SOURCE_FLAGS = [''-c'', ''--command'', ''-e'', ''--eval'']"

definition SHELL_SYNTAX :: "NodeKind list" where
  "SHELL_SYNTAX = [SUBSTITUTION, PROCESS_SUB, AND_IF, OR_IF, PIPELINE, SEQUENCE, BACKGROUND]"

definition assert_no_shell_syntax :: "string \<Rightarrow> command_refusal option" where
  "assert_no_shell_syntax argument =
     (case List.find (\<lambda>n. kind n \<in> set SHELL_SYNTAX) (children (parse_shell argument)) of
        None \<Rightarrow> None
      | Some n \<Rightarrow>
          Some (CommandRejected
            (case map_of FORBIDDEN (kind n) of None \<Rightarrow> ''command_syntax_denied'' | Some r \<Rightarrow> r) (take 80 argument)))"

definition refusal_of :: "command_refusal + 'a \<Rightarrow> command_refusal option" where
  "refusal_of x = (case x of Inl err \<Rightarrow> Some err | Inr _ \<Rightarrow> None)"

fun first_rejection :: "command_refusal option list \<Rightarrow> command_refusal option" where
  "first_rejection [] = None"
| "first_rejection (Some err # rest) = Some err"
| "first_rejection (None # rest) = first_rejection rest"

text \<open>The checks of one argument, in the order of the loop body.\<close>

definition check_argument ::
  "(posix_path \<Rightarrow> posix_path option) \<Rightarrow> posix_path \<Rightarrow> string \<Rightarrow> string \<Rightarrow> string \<Rightarrow> command_refusal option" where
  "check_argument resolve root binary previous argument =
     (let flag = flag_of argument;
          dangerous = (case map_of DANGEROUS_FLAGS binary of None \<Rightarrow> [] | Some fs \<Rightarrow> fs)
      in first_rejection
        [if flag \<in> set dangerous then Some (CommandRejected ''command_flag_denied'' (binary @ '' '' @ flag)) else None,
         if previous \<in> set SOURCE_FLAGS \<or> flag \<in> {''-c'', ''--command''}
         then refusal_of (assert_single_command argument) else None,
         assert_no_shell_syntax argument,
         if pathish argument \<and> \<not> starts_with argument ''-''
         then assert_contained resolve argument root ''command_path_outside_workspace'' else None])"

fun check_arguments ::
  "(posix_path \<Rightarrow> posix_path option) \<Rightarrow> posix_path \<Rightarrow> string \<Rightarrow> string \<Rightarrow> string list \<Rightarrow> command_refusal option" where
  "check_arguments resolve root binary previous [] = None"
| "check_arguments resolve root binary previous (argument # later) =
     (case check_argument resolve root binary previous argument of
        Some err \<Rightarrow> Some err
      | None \<Rightarrow> check_arguments resolve root binary argument later)"

definition cargo_subcommand :: "string list \<Rightarrow> string" where
  "cargo_subcommand args = (case List.find (\<lambda>p. \<not> starts_with p ''-'') args of None \<Rightarrow> [] | Some p \<Rightarrow> p)"

text \<open>The checks of an argv list, in the order of the code.\<close>

definition command_checks ::
  "(posix_path \<Rightarrow> posix_path option) \<Rightarrow> posix_path \<Rightarrow> string list \<Rightarrow> bool \<Rightarrow> string \<Rightarrow> string list
     \<Rightarrow> command_refusal option list" where
  "command_checks resolve root permitted allow_interpreters program args =
     (let binary = program_name program;
          subcommand = cargo_subcommand args
      in [if binary \<notin> set permitted then Some (CommandRejected ''command_not_allowed'' binary) else None,
          if binary \<in> set INTERPRETERS \<and> \<not> allow_interpreters
          then Some (CommandRejected ''command_interpreter_denied'' binary) else None,
          if CHR ''/'' \<in> set program \<or> CHR 0x5C \<in> set program
          then assert_binary_inside resolve program root else None,
          if binary = ''cargo'' \<and> subcommand \<notin> set CARGO_SUBCOMMANDS
          then Some (CommandRejected ''command_subcommand_denied'' (take 80 (''cargo '' @ subcommand))) else None,
          if binary \<in> {''python'', ''python3''} then assert_python_options binary args else None,
          check_arguments resolve root binary program args])"

definition validate_command ::
  "(posix_path \<Rightarrow> posix_path option) \<Rightarrow> string list \<Rightarrow> string \<Rightarrow> string list option \<Rightarrow> bool
     \<Rightarrow> command_refusal + SafeCommand" where
  "validate_command resolve argv workspace_root allowlist allow_interpreters =
     (case argv of
        [] \<Rightarrow> Inl (CommandRejected ''empty_command'' [])
      | program # args \<Rightarrow>
          if str_strip program = [] then Inl (CommandRejected ''empty_command'' [])
          else case resolve (to_path workspace_root) of
            None \<Rightarrow> Inl PathRaised
          | Some root \<Rightarrow>
              (case first_rejection (command_checks resolve root
                      (case allowlist of None \<Rightarrow> DEFAULT_ALLOWED_BINARIES | Some l \<Rightarrow> l) allow_interpreters program args) of
                 Some err \<Rightarrow> Inl err
               | None \<Rightarrow> Inr \<lparr>sc_argv = argv, sc_binary = program_name program, sc_workspace_root = root\<rparr>))"

subsection \<open>The environment\<close>

definition PASSTHROUGH :: "string list" where
  "PASSTHROUGH =
     [''SSL_CERT_FILE'', ''SSL_CERT_DIR'', ''REQUESTS_CA_BUNDLE'', ''CURL_CA_BUNDLE'', ''GIT_SSL_CAINFO'', ''GIT_SSL_CAPATH'',
      ''HTTP_PROXY'', ''HTTPS_PROXY'', ''NO_PROXY'', ''http_proxy'', ''https_proxy'', ''no_proxy'',
      ''SYSTEMROOT'', ''COMSPEC'', ''LOCALAPPDATA'']"

definition get_or :: "(string \<rightharpoonup> string) \<Rightarrow> string \<Rightarrow> string \<Rightarrow> string" where
  "get_or m k d = (case m k of None \<Rightarrow> d | Some v \<Rightarrow> v)"

text \<open>\<open>root\<close> is the text of the resolved workspace root and \<open>source\<close> the environment it is built from.\<close>

definition sandbox_environment ::
  "(string \<rightharpoonup> string) \<Rightarrow> string \<Rightarrow> (string \<rightharpoonup> string) \<Rightarrow> (string \<rightharpoonup> string)" where
  "sandbox_environment source root extra =
     (let fixed = map_of
            [(''PATH'', get_or source ''PATH'' ''/usr/local/bin:/usr/bin:/bin''), (''HOME'', root), (''PWD'', root),
             (''TMPDIR'', get_or source ''TMPDIR'' ''/tmp''), (''LANG'', get_or source ''LANG'' ''C.UTF-8''),
             (''LC_ALL'', get_or source ''LC_ALL'' ''C.UTF-8''), (''GIT_CONFIG_NOSYSTEM'', ''1''),
             (''GIT_TERMINAL_PROMPT'', ''0''), (''GIT_ASKPASS'', [])];
          passed = (\<lambda>k. if k \<in> set PASSTHROUGH \<and> source k \<noteq> Some [] then source k else None)
      in (fixed ++ passed ++ extra)(''GIT_CONFIG_NOSYSTEM'' \<mapsto> ''1'', ''GIT_CONFIG_GLOBAL'' \<mapsto> ''/dev/null''))"

text \<open>On a POSIX host a command is run as it is; on Windows \<open>echo\<close> and \<open>cat\<close> become Python one-liners.\<close>

definition portable_command :: "bool \<Rightarrow> string \<Rightarrow> string list \<Rightarrow> string list" where
  "portable_command windows python command =
     (case command of
        [] \<Rightarrow> []
      | program # args \<Rightarrow>
          if \<not> windows then command
          else if str_lower program = ''echo'' then
            python # ''-c'' # (''import sys;sys.stdout.write('' @ [CHR 0x27, CHR '' '', CHR 0x27] @ ''.join(sys.argv[1:])+''
                       @ [CHR 0x27, CHR 0x5C, CHR ''n'', CHR 0x27] @ '')'') # args
          else if str_lower program \<noteq> ''cat'' then command
          else python # ''-c'' # (''import pathlib,sys;out=sys.stdout.buffer;''
                 @ ''[out.write(pathlib.Path(name).read_bytes()) for name in sys.argv[1:]]'') # args)"

end
