(* ===== verification/Command_Grammar.thy ===== *)
theory Command_Grammar
  imports Command_Policy
begin

text \<open>
  What the scanner of \<^verbatim>\<open>runtime/command_policy.py\<close> accepts, as a grammar: a text is one simple command exactly
  when it is a sequence of plain characters, blanks, escapes and quotations none of which opens a shell
  construct, and its words are what lies between the blanks.
\<close>

subsection \<open>The grammar\<close>

datatype shell_token = Plain char | Blank char | Escaped string | Quoted char string | Unclosed char string

abbreviation backslash :: char where "backslash \<equiv> CHR 0x5C"

fun quoted_body :: "bool \<Rightarrow> char \<Rightarrow> string \<Rightarrow> bool" where
  "quoted_body final q [] = True"
| "quoted_body final q (c # r) =
     (if c = backslash \<and> q \<noteq> CHR 0x27 then (case r of [] \<Rightarrow> final | d # r' \<Rightarrow> quoted_body final q r')
      else c \<noteq> q \<and> quoted_body final q r)"

definition literal :: "char \<Rightarrow> bool" where
  "literal c = (c \<notin> {backslash, CHR 0x27, CHR 0x22, CHR ''`'', CHR ''('', CHR '';'', CHR ''|'', CHR ''&'', CHR ''>'',
     CHR ''<'', CHR ''*'', CHR ''?'', CHR ''['', CHR 0x0A} \<and> \<not> is_space c)"

fun render_token :: "shell_token \<Rightarrow> string" where
  "render_token (Plain c) = [c]"
| "render_token (Blank c) = [c]"
| "render_token (Escaped d) = backslash # d"
| "render_token (Quoted q b) = q # b @ [q]"
| "render_token (Unclosed q b) = q # b"

definition render :: "shell_token list \<Rightarrow> string" where
  "render ts = concat (map render_token ts)"

lemma render_simps [simp]: "render [] = []" "render (t # ts) = render_token t @ render ts"
  by (simp_all add: render_def)

text \<open>\<open>spaced\<close>: white space or nothing stands before the token. \<open>fresh\<close>: no character of a word stands before it.\<close>

fun well_formed :: "bool \<Rightarrow> bool \<Rightarrow> shell_token list \<Rightarrow> bool" where
  "well_formed spaced fresh [] = True"
| "well_formed spaced fresh (Plain c # ts) =
     (literal c \<and> (c = CHR ''$'' \<longrightarrow> \<not> starts_with (render ts) ''('' \<and> expansion (render ts) = None)
      \<and> (c = CHR ''{'' \<longrightarrow> \<not> spaced) \<and> (c = CHR ''~'' \<longrightarrow> \<not> fresh) \<and> well_formed False False ts)"
| "well_formed spaced fresh (Blank c # ts) = (is_space c \<and> c \<noteq> CHR 0x0A \<and> well_formed True True ts)"
| "well_formed spaced fresh (Escaped d # ts) =
     (case d of [] \<Rightarrow> ts = [] | x # d' \<Rightarrow> d' = [] \<and> well_formed (is_space x) False ts)"
| "well_formed spaced fresh (Quoted q b # ts) =
     (q \<in> {CHR 0x27, CHR 0x22} \<and> quoted_body False q b \<and> well_formed False (fresh \<and> b = []) ts)"
| "well_formed spaced fresh (Unclosed q b # ts) = (q \<in> {CHR 0x27, CHR 0x22} \<and> quoted_body True q b \<and> ts = [])"

fun word_text :: "shell_token \<Rightarrow> string" where
  "word_text (Plain c) = [c]"
| "word_text (Blank c) = []"
| "word_text (Escaped d) = backslash # d"
| "word_text (Quoted q b) = b"
| "word_text (Unclosed q b) = b"

fun token_words :: "string \<Rightarrow> shell_token list \<Rightarrow> string list" where
  "token_words w [] = flush_word w []"
| "token_words w (t # ts) =
     (case t of Blank c \<Rightarrow> flush_word w [] @ token_words [] ts | _ \<Rightarrow> token_words (w @ word_text t) ts)"

subsection \<open>The steps of the scanner\<close>

lemma flush_word_append: "flush_word w ws = ws @ flush_word w []"
  by (simp add: flush_word_def)

lemma scan_escape:
  "q \<noteq> Some (CHR 0x27) \<Longrightarrow>
   scan sp q w ws cs (backslash # r) =
     (case r of [] \<Rightarrow> (flush_word (w @ [backslash]) ws, cs) | d # r' \<Rightarrow> scan (is_space d) q (w @ [backslash, d]) ws cs r')"
  by (simp add: scan_step_def scan_escaped_def split: list.splits)

lemma scan_quoted:
  "c \<noteq> backslash \<or> q = CHR 0x27 \<Longrightarrow>
   scan sp (Some q) w ws cs (c # r) =
     (if c = q then scan (is_space c) None w ws cs r else scan (is_space c) (Some q) (w @ [c]) ws cs r)"
  by (auto simp: scan_step_def)

lemma scan_open:
  "c = CHR 0x27 \<or> c = CHR 0x22 \<Longrightarrow> scan sp None w ws cs (c # r) = scan False (Some c) w ws cs r"
  by (auto simp: scan_step_def scan_unquoted_def)

lemma no_operator:
  "c \<notin> {CHR '';'', CHR ''|'', CHR ''&'', CHR ''>'', CHR ''<'', CHR 0x0A} \<Longrightarrow>
   List.find (\<lambda>(t, k). starts_with (c # r) t) OPERATORS = None"
  by (simp add: OPERATORS_def starts_with_def)

lemma scan_blank:
  assumes "is_space c" and "c \<noteq> CHR 0x0A"
  shows "scan sp None w ws cs (c # r) = scan True None [] (flush_word w ws) cs r"
proof -
  have "c \<notin> {backslash, CHR 0x27, CHR 0x22, CHR ''`'', CHR ''('', CHR ''{'', CHR '';'', CHR ''|'', CHR ''&'', CHR ''>'',
     CHR ''<'', CHR ''$''}"
    using assms(1) by (auto simp: is_space_def)
  with assms show ?thesis by (simp add: scan_step_def scan_unquoted_def scan_plain_def no_operator)
qed

lemma scan_literal:
  assumes "literal c" and "c = CHR ''$'' \<longrightarrow> \<not> starts_with r ''('' \<and> expansion r = None"
    and "c = CHR ''{'' \<longrightarrow> \<not> sp" and "c = CHR ''~'' \<longrightarrow> w \<noteq> []"
  shows "scan sp None w ws cs (c # r) = scan False None (w @ [c]) ws cs r"
proof -
  consider "c = CHR ''$''" | "c = CHR ''{''" | "c = CHR ''~''" | "c \<notin> {CHR ''$'', CHR ''{'', CHR ''~''}" by blast
  then show ?thesis
    using assms by cases (simp_all add: scan_step_def scan_unquoted_def scan_plain_def literal_def no_operator is_space_def)
qed

declare scan.simps(2) [simp del]

lemma scan_body:
  assumes "quoted_body final q b" and "q = CHR 0x27 \<or> q = CHR 0x22"
  shows "final \<Longrightarrow> scan sp (Some q) w ws cs b = (flush_word (w @ b) ws, cs)"
    and "\<not> final \<Longrightarrow> scan sp (Some q) w ws cs (b @ q # r) = scan False None (w @ b) ws cs r"
  using assms
proof (induction final q b arbitrary: sp w rule: quoted_body.induct)
  case (1 final q)
  { case 1 then show ?case by simp
  next case 2 then show ?case by (auto simp: scan_quoted is_space_def) }
next
  case (2 final q c b)
  { case 1
    show ?case
    proof (cases "c = backslash \<and> q \<noteq> CHR 0x27")
      case True
      with 1 2(1) show ?thesis by (cases b) (auto simp: scan_escape)
    next
      case False
      with 1 2(3) show ?thesis by (auto simp: scan_quoted)
    qed
  next case 2
    show ?case
    proof (cases "c = backslash \<and> q \<noteq> CHR 0x27")
      case True
      with 2 "2.IH"(2) show ?thesis by (cases b) (auto simp: scan_escape)
    next
      case False
      with 2 "2.IH"(4) show ?thesis by (auto simp: scan_quoted)
    qed }
qed

lemma scan_render:
  "well_formed sp (w = []) ts \<Longrightarrow> scan sp None w ws cs (render ts) = (ws @ token_words w ts, cs)"
proof (induction ts arbitrary: sp w ws)
  case Nil
  then show ?case by (simp add: flush_word_append [of w ws])
next
  case (Cons t ts)
  show ?case
  proof (cases t)
    case (Plain c)
    with Cons show ?thesis by (simp add: scan_literal)
  next
    case (Blank c)
    with Cons show ?thesis using flush_word_append [of w ws] by (simp add: scan_blank)
  next
    case (Escaped d)
    show ?thesis
    proof (cases d)
      case Nil
      with Cons.prems Escaped show ?thesis using flush_word_append [of "w @ [backslash]" ws] by (simp add: scan_escape)
    next
      case (Cons x d')
      with Cons.prems Cons.IH [of "is_space x" "w @ [backslash, x]"] Escaped show ?thesis by (simp add: scan_escape)
    qed
  next
    case (Quoted q b)
    with Cons.prems have q: "q = CHR 0x27 \<or> q = CHR 0x22" "quoted_body False q b"
      and ts: "well_formed False (w @ b = []) ts" by auto
    have "scan sp None w ws cs (render (t # ts)) = scan False (Some q) w ws cs (b @ q # render ts)"
      using scan_open [OF q(1)] by (simp add: Quoted)
    also have "\<dots> = scan False None (w @ b) ws cs (render ts)" using scan_body(2) [OF q(2,1)] by simp
    also have "\<dots> = (ws @ token_words (w @ b) ts, cs)" by (rule Cons.IH [OF ts])
    finally show ?thesis by (simp add: Quoted)
  next
    case (Unclosed q b)
    with Cons.prems have q: "q = CHR 0x27 \<or> q = CHR 0x22" "quoted_body True q b" "ts = []" by auto
    have "scan sp None w ws cs (render (t # ts)) = scan False (Some q) w ws cs b"
      using scan_open [OF q(1)] q(3) by (simp add: Unclosed)
    also have "\<dots> = (flush_word (w @ b) ws, cs)" using scan_body(1) [OF q(2,1)] by simp
    finally show ?thesis using flush_word_append [of "w @ b" ws] q(3) by (simp add: Unclosed)
  qed
qed

subsection \<open>Everything the scanner accepts is of the grammar\<close>

lemma operator_kind: "List.find (\<lambda>(t, k). starts_with s t) OPERATORS = Some (t, k) \<Longrightarrow> k \<noteq> COMMAND"
  by (drule find_SomeD) (auto simp: OPERATORS_def)

definition found :: "scan_state \<Rightarrow> ShellNode list" where
  "found x = fst (snd (snd (snd (snd x))))"

lemma found_simps [simp]: "found (sp, q, w, ws, new, r) = new"
  by (simp add: found_def)

lemma plain_kinds: "n \<in> set (found (scan_plain sp w ws c r)) \<Longrightarrow> kind n \<noteq> COMMAND"
  using operator_kind [of "c # r"] by (fastforce simp: scan_plain_def split: if_splits option.splits)

lemma unquoted_kinds: "n \<in> set (found (scan_unquoted sp w ws c r)) \<Longrightarrow> kind n \<noteq> COMMAND"
  using plain_kinds by (simp add: scan_unquoted_def split: if_splits option.splits prod.splits)

lemma step_kinds: "n \<in> set (found (scan_step sp q w ws c r)) \<Longrightarrow> kind n \<noteq> COMMAND"
  using unquoted_kinds by (simp add: scan_step_def scan_escaped_def split: if_splits option.splits list.splits)

lemma scan_grows: "\<exists>ds. snd (scan sp q w ws cs s) = cs @ ds \<and> (\<forall>d \<in> set ds. kind d \<noteq> COMMAND)"
proof (induction sp q w ws cs s rule: scan.induct)
  case (2 sp q w ws cs c r)
  obtain sp' q' w' ws' new r' where step: "scan_step sp q w ws c r = (sp', q', w', ws', new, r')" by (cases "scan_step sp q w ws c r")
  have "\<forall>n \<in> set new. kind n \<noteq> COMMAND" using step_kinds [of _ sp q w ws c r] by (simp add: step)
  with 2 [OF step [symmetric]] show ?case by (force simp: scan.simps(2) step)
qed simp

text \<open>Scanning that finds nothing finds nothing at any step.\<close>

lemma scan_silent:
  assumes "snd (scan sp q w ws cs (c # r)) = cs"
    and "scan_step sp q w ws c r = (sp', q', w', ws', new, r')"
  shows "new = [] \<and> snd (scan sp' q' w' ws' cs r') = cs"
proof -
  from assms have "snd (scan sp' q' w' ws' (cs @ new) r') = cs" by (simp add: scan.simps(2))
  moreover from this scan_grows [of sp' q' w' ws' "cs @ new" r'] have "new = []" by auto
  ultimately show ?thesis by simp
qed

lemma quoted_split: "quoted_body True q s \<or> (\<exists>b r. s = b @ q # r \<and> quoted_body False q b)"
proof (induction s rule: length_induct)
  case (1 s)
  show ?case
  proof (cases s)
    case (Cons c r)
    show ?thesis
    proof (cases "c = backslash \<and> q \<noteq> CHR 0x27")
      case esc: True
      show ?thesis
      proof (cases r)
        case (Cons d r')
        with 1 \<open>s = c # r\<close> have "quoted_body True q r' \<or> (\<exists>b t. r' = b @ q # t \<and> quoted_body False q b)" by simp
        then show ?thesis
        proof
          assume "\<exists>b t. r' = b @ q # t \<and> quoted_body False q b"
          then obtain b t where "r' = b @ q # t" "quoted_body False q b" by blast
          with esc Cons \<open>s = c # r\<close> have "s = (c # d # b) @ q # t \<and> quoted_body False q (c # d # b)" by simp
          then show ?thesis by blast
        qed (use esc Cons \<open>s = c # r\<close> in simp)
      qed (use esc \<open>s = c # r\<close> in simp)
    next
      case False
      show ?thesis
      proof (cases "c = q")
        case True
        with Cons have "s = [] @ q # r \<and> quoted_body False q []" by simp
        then show ?thesis by blast
      next
        case ne: False
        from 1 Cons have "quoted_body True q r \<or> (\<exists>b t. r = b @ q # t \<and> quoted_body False q b)" by simp
        then show ?thesis
        proof
          assume "\<exists>b t. r = b @ q # t \<and> quoted_body False q b"
          then obtain b t where "r = b @ q # t" "quoted_body False q b" by blast
          with False ne Cons have "s = (c # b) @ q # t \<and> quoted_body False q (c # b)" by auto
          then show ?thesis by blast
        qed (use False ne Cons in auto)
      qed
    qed
  qed simp
qed

lemma operator_found:
  "c \<in> {CHR '';'', CHR ''|'', CHR ''&'', CHR ''>'', CHR ''<'', CHR 0x0A} \<Longrightarrow>
   List.find (\<lambda>(t, k). starts_with (c # r) t) OPERATORS \<noteq> None"
  by (simp add: OPERATORS_def starts_with_def) blast

lemma silent_plain:
  assumes "found (scan_plain sp w ws c r) = []"
  shows "c \<notin> {CHR ''('', CHR '';'', CHR ''|'', CHR ''&'', CHR ''>'', CHR ''<'', CHR 0x0A}
    \<and> (is_space c \<or> c \<notin> {CHR ''*'', CHR ''?'', CHR ''[''}) \<and> (c = CHR ''{'' \<longrightarrow> \<not> sp) \<and> (c = CHR ''~'' \<longrightarrow> w \<noteq> [])"
proof -
  have paren: "c \<noteq> CHR ''(''" and brace: "\<not> (c = CHR ''{'' \<and> sp)" using assms by (auto simp: scan_plain_def)
  with assms have none: "List.find (\<lambda>(t, k). starts_with (c # r) t) OPERATORS = None"
    by (cases "List.find (\<lambda>(t, k). starts_with (c # r) t) OPERATORS") (simp_all add: scan_plain_def split: prod.splits)
  with operator_found [of c r] have op: "c \<notin> {CHR '';'', CHR ''|'', CHR ''&'', CHR ''>'', CHR ''<'', CHR 0x0A}" by blast
  have word: "c \<notin> {CHR ''*'', CHR ''?'', CHR ''[''} \<and> (c = CHR ''~'' \<longrightarrow> w \<noteq> [])" if "\<not> is_space c"
    using assms that paren none brace by (auto simp: scan_plain_def split: if_splits)
  have "\<not> is_space (CHR ''~'')" by (simp add: is_space_def)
  with word have "c = CHR ''~'' \<longrightarrow> w \<noteq> []" by metis
  with paren brace op word show ?thesis by (cases "is_space c") simp_all
qed

lemma silent_literal:
  assumes "found (scan_step sp None w ws c r) = []" and "c \<noteq> backslash" and "c \<noteq> CHR 0x27" and "c \<noteq> CHR 0x22"
  shows "c \<noteq> CHR 0x0A"
    and "\<not> is_space c \<Longrightarrow> literal c \<and> (c = CHR ''$'' \<longrightarrow> \<not> starts_with r ''('' \<and> expansion r = None)
      \<and> (c = CHR ''{'' \<longrightarrow> \<not> sp) \<and> (c = CHR ''~'' \<longrightarrow> w \<noteq> [])"
proof -
  have plain: "found (scan_plain sp w ws c r) = []" and c: "c \<noteq> CHR ''`''"
    and dollar: "c = CHR ''$'' \<longrightarrow> \<not> starts_with r ''('' \<and> expansion r = None"
    using assms by (auto simp: scan_step_def scan_unquoted_def split: if_splits option.splits prod.splits)
  from silent_plain [OF plain] show "c \<noteq> CHR 0x0A" by blast
  show "literal c \<and> (c = CHR ''$'' \<longrightarrow> \<not> starts_with r ''('' \<and> expansion r = None)
      \<and> (c = CHR ''{'' \<longrightarrow> \<not> sp) \<and> (c = CHR ''~'' \<longrightarrow> w \<noteq> [])" if "\<not> is_space c"
    using silent_plain [OF plain] c dollar assms(2-4) that by (simp add: literal_def)
qed

lemma scan_sound:
  "snd (scan sp None w ws cs s) = cs \<Longrightarrow> \<exists>ts. well_formed sp (w = []) ts \<and> render ts = s"
proof (induction s arbitrary: sp w ws rule: length_induct)
  case (1 s)
  show ?case
  proof (cases s)
    case Nil
    then have "well_formed sp (w = []) [] \<and> render [] = s" by simp
    then show ?thesis by blast
  next
    case (Cons c r)
    have extend: "\<exists>ts. well_formed sp (w = []) ts \<and> render ts = s"
      if "snd (scan sp' None w' ws' cs t) = cs" "length t < length s"
        "\<And>ts. well_formed sp' (w' = []) ts \<Longrightarrow> render ts = t \<Longrightarrow> well_formed sp (w = []) (tok # ts)"
        "render_token tok @ t = s" for sp' w' ws' t tok
    proof -
      from 1(1) that(1,2) obtain ts where ts: "well_formed sp' (w' = []) ts" "render ts = t" by blast
      with that(3,4) have "well_formed sp (w = []) (tok # ts) \<and> render (tok # ts) = s" by simp
      then show ?thesis by blast
    qed
    consider (esc) "c = backslash" | (quo) "c = CHR 0x27 \<or> c = CHR 0x22"
      | (plain) "c \<noteq> backslash" "c \<noteq> CHR 0x27" "c \<noteq> CHR 0x22" by blast
    then show ?thesis
    proof cases
      case esc
      show ?thesis
      proof (cases r)
        case Nil
        with esc Cons have "well_formed sp (w = []) [Escaped []] \<and> render [Escaped []] = s" by simp
        then show ?thesis by blast
      next
        case (Cons d r')
        with 1(2) \<open>s = c # r\<close> esc have "snd (scan (is_space d) None (w @ [backslash, d]) ws cs r') = cs" by (simp add: scan_escape)
        from extend [OF this, where tok = "Escaped [d]"] show ?thesis using Cons \<open>s = c # r\<close> esc by simp
      qed
    next
      case quo
      from quoted_split [of c r] show ?thesis
      proof
        assume "quoted_body True c r"
        with quo Cons have "well_formed sp (w = []) [Unclosed c r] \<and> render [Unclosed c r] = s" by auto
        then show ?thesis by blast
      next
        assume "\<exists>b t. r = b @ c # t \<and> quoted_body False c b"
        then obtain b t where b: "r = b @ c # t" "quoted_body False c b" by blast
        have "scan sp None w ws cs s = scan False None (w @ b) ws cs t"
          using scan_open [OF quo] scan_body(2) [OF b(2) quo] by (simp add: Cons b(1))
        with 1(2) have "snd (scan False None (w @ b) ws cs t) = cs" by simp
        from extend [OF this, where tok = "Quoted c b"] show ?thesis using Cons b quo by auto
      qed
    next
      case plain
      obtain sp' q' w' ws' new r' where step: "scan_step sp None w ws c r = (sp', q', w', ws', new, r')"
        by (cases "scan_step sp None w ws c r")
      have silent: "found (scan_step sp None w ws c r) = []" using scan_silent [OF _ step] 1(2) Cons step by simp
      show ?thesis
      proof (cases "is_space c")
        case True
        with 1(2) Cons silent_literal(1) [OF silent plain] have "snd (scan True None [] (flush_word w ws) cs r) = cs"
          by (simp add: scan_blank)
        from extend [OF this, where tok = "Blank c"] show ?thesis
          using Cons True silent_literal(1) [OF silent plain] by simp
      next
        case False
        note lit = silent_literal(2) [OF silent plain False]
        with 1(2) Cons have "snd (scan False None (w @ [c]) ws cs r) = cs" by (simp add: scan_literal)
        from extend [OF this, where tok = "Plain c"] show ?thesis using Cons lit by auto
      qed
    qed
  qed
qed

subsection \<open>One simple command\<close>

lemma first_forbidden_None: "(\<forall>n \<in> set ns. kind n \<noteq> COMMAND) \<Longrightarrow> first_forbidden ns = None \<longleftrightarrow> ns = []"
proof (cases ns)
  case (Cons n ns')
  assume "\<forall>n \<in> set ns. kind n \<noteq> COMMAND"
  with Cons have "map_of FORBIDDEN (kind n) \<noteq> None" by (cases "kind n") (auto simp: FORBIDDEN_def)
  with Cons show ?thesis by (auto split: option.splits)
qed simp

lemma accepted_iff:
  "assert_single_command s = Inr ws \<longleftrightarrow>
   ws \<noteq> [] \<and> (\<exists>ts. well_formed True True ts \<and> render ts = s \<and> token_words [] ts = ws)"
proof -
  obtain vs cs where vc: "scan True None [] [] [] s = (vs, cs)" by (cases "scan True None [] [] [] s")
  have kinds: "\<forall>n \<in> set cs. kind n \<noteq> COMMAND" using scan_grows [of True None "[]" "[]" "[]" s] vc by simp
  have "assert_single_command s = Inr ws \<longleftrightarrow> cs = [] \<and> vs = ws \<and> ws \<noteq> []"
    using first_forbidden_None [OF kinds] by (auto simp: assert_single_command_def parse_shell_def vc split: option.splits if_splits)
  also have "\<dots> \<longleftrightarrow> ws \<noteq> [] \<and> (\<exists>ts. well_formed True True ts \<and> render ts = s \<and> token_words [] ts = ws)"
  proof (cases "cs = []")
    case True
    with scan_sound [of True "[]" "[]" "[]" s] vc obtain ts where ts: "well_formed True True ts" "render ts = s" by auto
    have "vs = token_words [] us" if "well_formed True True us" "render us = s" for us
      using scan_render [of True "[]" us "[]" "[]"] that vc by simp
    with True ts show ?thesis by metis
  next
    case False
    have "\<not> (well_formed True True us \<and> render us = s)" for us
      using scan_render [of True "[]" us "[]" "[]"] False vc by auto
    with False show ?thesis by blast
  qed
  finally show ?thesis .
qed

text \<open>
  C17: The scanner refuses exactly what is more than one simple command. A text is accepted with words \<open>ws\<close> if and
  only if it is written by the grammar of plain characters, blanks, escapes and quotations, with no separator,
  pipe, redirection, group, substitution, expansion, wildcard or home directory outside quotation marks, and
  \<open>ws\<close>, of which there is at least one, are the texts between its blanks.
\<close>

theorem single_command_grammar:
  "assert_single_command s = Inr ws \<longleftrightarrow>
   ws \<noteq> [] \<and> (\<exists>ts. well_formed True True ts \<and> render ts = s \<and> token_words [] ts = ws)"
  by (rule accepted_iff)

end
