(* ===== verification/Command_Guards.thy ===== *)
theory Command_Guards
  imports Command_Grammar
begin

text \<open>
  What an accepted command is (\<^verbatim>\<open>validate_command\<close> of \<^verbatim>\<open>runtime/command_policy.py\<close>), what its environment
  shows of the host, and two commands the policy means to refuse and accepts.
\<close>

subsection \<open>An accepted argv list\<close>

lemma first_rejection_None [simp]: "first_rejection xs = None \<longleftrightarrow> (\<forall>x \<in> set xs. x = None)"
  by (induction xs rule: first_rejection.induct) auto

lemma check_arguments_None:
  "check_arguments resolve root binary previous args = None \<Longrightarrow> a \<in> set args \<Longrightarrow>
   \<exists>before. check_argument resolve root binary before a = None"
  by (induction resolve root binary previous args rule: check_arguments.induct) (auto split: option.splits)

definition inside :: "posix_path \<Rightarrow> posix_path \<Rightarrow> bool" where
  "inside root p \<longleftrightarrow> (\<exists>ps. p = root\<lparr>parts := parts root @ ps\<rparr> \<and> (ps = [] \<or> hd ps \<notin> set PROTECTED))"

lemma contained_None:
  assumes "contained value reason root p = None"
  shows "inside root p"
proof -
  from assms obtain ps where rel: "relative_to p root = Some ps" and head: "ps = [] \<or> hd ps \<notin> set PROTECTED"
    by (cases "relative_to p root") (auto simp: contained_def Let_def split: list.splits if_splits)
  from rel have "anchor p = anchor root" "parts p = parts root @ ps"
    by (auto simp: relative_to_def split: if_splits) (metis append_take_drop_id)
  then have "p = root\<lparr>parts := parts root @ ps\<rparr>" by (cases p; cases root) simp
  with head show ?thesis by (auto simp: inside_def)
qed

definition silent_argument :: "string \<Rightarrow> bool" where
  "silent_argument a \<longleftrightarrow> (\<forall>n \<in> set (children (parse_shell a)). kind n \<notin> set SHELL_SYNTAX)"

lemma check_argument_None:
  assumes "check_argument resolve root binary previous a = None"
  shows "(\<forall>fs. map_of DANGEROUS_FLAGS binary = Some fs \<longrightarrow> flag_of a \<notin> set fs) \<and> silent_argument a
    \<and> (pathish a \<and> \<not> starts_with a ''-'' \<longrightarrow> (\<exists>p. resolve (under root (to_path a)) = Some p \<and> inside root p))"
proof (intro conjI impI allI)
  note checks = assms [unfolded check_argument_def Let_def first_rejection_None]
  show "flag_of a \<notin> set fs" if "map_of DANGEROUS_FLAGS binary = Some fs" for fs
    using checks that by (auto split: if_splits)
  have "assert_no_shell_syntax a = None" using checks by simp
  then show "silent_argument a" by (auto simp: assert_no_shell_syntax_def silent_argument_def split: option.splits)
  assume "pathish a \<and> \<not> starts_with a ''-''"
  with checks have "assert_contained resolve a root ''command_path_outside_workspace'' = None" by simp
  then show "\<exists>p. resolve (under root (to_path a)) = Some p \<and> inside root p"
    by (auto simp: assert_contained_def intro: contained_None split: if_splits option.splits)
qed

lemma validate_command_Inr:
  assumes "validate_command resolve argv ws allowlist interp = Inr sc"
  obtains program args root where "argv = program # args" "resolve (to_path ws) = Some root"
    "sc = \<lparr>sc_argv = argv, sc_binary = program_name program, sc_workspace_root = root\<rparr>"
    "\<forall>x \<in> set (command_checks resolve root
        (case allowlist of None \<Rightarrow> DEFAULT_ALLOWED_BINARIES | Some l \<Rightarrow> l) interp program args). x = None"
proof (cases argv)
  case (Cons program args)
  show ?thesis
  proof (cases "resolve (to_path ws)")
    case (Some root)
    from assms Cons Some show ?thesis
      by (intro that [of program args root]) (simp_all add: validate_command_def split: if_splits option.splits)
  qed (use assms Cons in \<open>simp add: validate_command_def split: if_splits\<close>)
qed (use assms in \<open>simp add: validate_command_def\<close>)

text \<open>
  C16: An accepted command stays in the workspace. The list \<^verbatim>\<open>validate_command\<close> accepts is the one it was given; its
  binary is permitted and no interpreter unless the caller allows one; no argument is a flag that makes the
  binary run something else or carries a substitution or a separator outside quotation marks; and every
  argument that looks like a path and is no option resolves, through the links of the file system, to a place
  inside the workspace that is not in \<^verbatim>\<open>.raiker\<close> or \<^verbatim>\<open>.git\<close>.
\<close>

theorem accepted_command_confined:
  assumes "validate_command resolve argv ws allowlist interp = Inr sc"
  shows "sc_argv sc = argv
    \<and> sc_binary sc \<in> set (case allowlist of None \<Rightarrow> DEFAULT_ALLOWED_BINARIES | Some l \<Rightarrow> l)
    \<and> (sc_binary sc \<in> set INTERPRETERS \<longrightarrow> interp)
    \<and> resolve (to_path ws) = Some (sc_workspace_root sc)
    \<and> (\<forall>a \<in> set (tl argv).
         (\<forall>fs. map_of DANGEROUS_FLAGS (sc_binary sc) = Some fs \<longrightarrow> flag_of a \<notin> set fs) \<and> silent_argument a
         \<and> (pathish a \<and> \<not> starts_with a ''-'' \<longrightarrow>
              (\<exists>p. resolve (under (sc_workspace_root sc) (to_path a)) = Some p \<and> inside (sc_workspace_root sc) p)))"
proof -
  from validate_command_Inr [OF assms] obtain program args root where argv: "argv = program # args"
    and root: "resolve (to_path ws) = Some root"
    and sc: "sc = \<lparr>sc_argv = argv, sc_binary = program_name program, sc_workspace_root = root\<rparr>"
    and checks: "\<forall>x \<in> set (command_checks resolve root
        (case allowlist of None \<Rightarrow> DEFAULT_ALLOWED_BINARIES | Some l \<Rightarrow> l) interp program args). x = None" .
  have "check_arguments resolve root (program_name program) program args = None" using checks by (simp add: command_checks_def Let_def)
  with check_arguments_None check_argument_None have args: "\<forall>a \<in> set args.
      (\<forall>fs. map_of DANGEROUS_FLAGS (program_name program) = Some fs \<longrightarrow> flag_of a \<notin> set fs) \<and> silent_argument a
      \<and> (pathish a \<and> \<not> starts_with a ''-'' \<longrightarrow> (\<exists>p. resolve (under root (to_path a)) = Some p \<and> inside root p))" by meson
  have "program_name program \<in> set (case allowlist of None \<Rightarrow> DEFAULT_ALLOWED_BINARIES | Some l \<Rightarrow> l)"
    and "program_name program \<in> set INTERPRETERS \<longrightarrow> interp"
    using checks by (simp_all add: command_checks_def Let_def split: if_splits)
  with args show ?thesis by (simp add: sc root argv)
qed

definition no_links :: "posix_path \<Rightarrow> posix_path option" where
  "no_links p = (if ''..'' \<in> set (parts p) then None else Some p)"

theorem accepted_command_confined_witness:
  "validate_command no_links [''cat'', ''notes/today.txt''] ''/w'' None False
     = Inr \<lparr>sc_argv = [''cat'', ''notes/today.txt''], sc_binary = ''cat'', sc_workspace_root = to_path ''/w''\<rparr>
   \<and> (\<exists>p. no_links (under (to_path ''/w'') (to_path ''notes/today.txt'')) = Some p \<and> inside (to_path ''/w'') p)"
proof -
  have v: "validate_command no_links [''cat'', ''notes/today.txt''] ''/w'' None False
     = Inr \<lparr>sc_argv = [''cat'', ''notes/today.txt''], sc_binary = ''cat'', sc_workspace_root = to_path ''/w''\<rparr>"
    by code_simp
  have "pathish ''notes/today.txt'' \<and> \<not> starts_with ''notes/today.txt'' ''-''" by code_simp
  with accepted_command_confined [OF v] v show ?thesis by simp
qed

subsection \<open>The environment\<close>

text \<open>
  A command sees nothing else of the host's environment. Two hosts that agree on the search path, the
  temporary folder, the locale and the listed proxy and certificate variables give a command the same
  environment, whatever else they hold; and no grant turns the owner's Git configuration back on.
\<close>

theorem environment_hides_host:
  assumes "\<forall>k \<in> set ([''PATH'', ''TMPDIR'', ''LANG'', ''LC_ALL''] @ PASSTHROUGH). source k = source' k"
  shows "sandbox_environment source root extra = sandbox_environment source' root extra
    \<and> sandbox_environment source root extra ''GIT_CONFIG_GLOBAL'' = Some ''/dev/null''
    \<and> sandbox_environment source root extra ''GIT_CONFIG_NOSYSTEM'' = Some ''1''"
proof (intro conjI)
  have "get_or source k d = get_or source' k d" if "k \<in> {''PATH'', ''TMPDIR'', ''LANG'', ''LC_ALL''}" for k d
    using assms that by (auto simp: get_or_def)
  moreover have "(\<lambda>k. if k \<in> set PASSTHROUGH \<and> source k \<noteq> Some [] then source k else None)
      = (\<lambda>k. if k \<in> set PASSTHROUGH \<and> source' k \<noteq> Some [] then source' k else None)"
    using assms by fastforce
  ultimately show "sandbox_environment source root extra = sandbox_environment source' root extra"
    by (simp add: sandbox_environment_def)
qed (simp_all add: sandbox_environment_def Let_def)

theorem environment_hides_host_witness:
  "sandbox_environment [''PATH'' \<mapsto> ''/bin'', ''API_KEY'' \<mapsto> ''secret''] ''/w'' Map.empty
     = sandbox_environment [''PATH'' \<mapsto> ''/bin''] ''/w'' Map.empty"
  using environment_hides_host [of "[''PATH'' \<mapsto> ''/bin'', ''API_KEY'' \<mapsto> ''secret'']" "[''PATH'' \<mapsto> ''/bin'']"]
  by (simp add: PASSTHROUGH_def)

subsection \<open>Substitution in double quotation marks\<close>

lemma plain_letters:
  assumes "\<forall>c \<in> set s. literal c \<and> c \<notin> {CHR ''$'', CHR ''{'', CHR ''~''}"
  shows "well_formed sp fresh (map Plain s @ ts) = (if s = [] then well_formed sp fresh ts else well_formed False False ts)"
    and "render (map Plain s @ ts) = s @ render ts" and "token_words w (map Plain s @ ts) = token_words (w @ s) ts"
  using assms by (induction s arbitrary: sp fresh w) auto

lemma quoted_body_append: "quoted_body final q b \<Longrightarrow> \<not> final \<Longrightarrow> quoted_body final' q (b @ b') = quoted_body final' q b'"
proof (induction final q b rule: quoted_body.induct)
  case (2 final q c r)
  then show ?case by (cases r) (auto split: if_splits)
qed simp

text \<open>
  A substitution in double quotation marks passes. For every text without an unescaped double quotation mark,
  the source \<^verbatim>\<open>echo "$(text)"\<close> is accepted as one simple command of two words, although a shell runs the text
  inside double quotation marks too.
\<close>

theorem quoted_substitution_accepted:
  assumes "quoted_body False (CHR 0x22) body"
  shows "assert_single_command (''echo '' @ [CHR 0x22] @ ''$('' @ body @ '')'' @ [CHR 0x22]) = Inr [''echo'', ''$('' @ body @ '')'']"
  proof -
  let ?ts = "map Plain ''echo'' @ [Blank (CHR '' ''), Quoted (CHR 0x22) (''$('' @ body @ '')'')]"
  have "quoted_body False (CHR 0x22) (''$('' @ body @ '')'')" using quoted_body_append [OF assms] by simp
  then have "well_formed True True ?ts" by (simp add: plain_letters(1) literal_def is_space_def)
  moreover have "render ?ts = ''echo '' @ [CHR 0x22] @ ''$('' @ body @ '')'' @ [CHR 0x22]" by simp
  moreover have "token_words [] ?ts = [''echo'', ''$('' @ body @ '')'']" by (simp add: flush_word_def)
  ultimately show ?thesis unfolding accepted_iff by blast
qed

theorem quoted_substitution_accepted_witness:
  "assert_single_command (''echo '' @ [CHR 0x22] @ ''$(rm -r notes; id)'' @ [CHR 0x22]) = Inr [''echo'', ''$(rm -r notes; id)'']"
  using quoted_substitution_accepted [of "''rm -r notes; id''"] by simp

subsection \<open>Python's options\<close>

text \<open>
  What Python runs for a list of arguments, by its own reading of the options: \<open>-c\<close> and \<open>-m\<close> end them and
  take the rest of their cluster or the next argument, an option with a value takes either too. \<open>valued\<close> says
  which long options take the next argument as their value.
\<close>

datatype python_run = RunsCode string | RunsModule string | RunsScript string | RunsInput

definition next_value :: "string \<Rightarrow> string list \<Rightarrow> string" where
  "next_value rest later = (if rest \<noteq> [] then rest else case later of [] \<Rightarrow> [] | x # _ \<Rightarrow> x)"

fun cluster_reads :: "string list \<Rightarrow> string \<Rightarrow> python_run + bool" where
  "cluster_reads later [] = Inr False"
| "cluster_reads later (c # rest) =
     (if c = CHR ''c'' then Inl (RunsCode (next_value rest later))
      else if c = CHR ''m'' then Inl (RunsModule (next_value rest later))
      else if c \<in> set ''WXQ'' then Inr (rest = [])
      else cluster_reads later rest)"

function python_reads :: "(string \<Rightarrow> bool) \<Rightarrow> string list \<Rightarrow> python_run" where
  "python_reads valued [] = RunsInput"
| "python_reads valued (a # later) =
     (if a = ''--'' then (case later of [] \<Rightarrow> RunsInput | x # _ \<Rightarrow> RunsScript x)
      else if \<not> starts_with a ''-'' \<or> a = ''-'' then RunsScript a
      else if starts_with a ''--'' then python_reads valued (if valued a then drop 1 later else later)
      else case cluster_reads later (drop 1 a) of
        Inl run \<Rightarrow> run
      | Inr skip \<Rightarrow> python_reads valued (if skip then drop 1 later else later))"
  by pat_completeness auto
termination
  by (relation "measure (\<lambda>(v, l). length l)") auto

definition permitted_run :: "python_run \<Rightarrow> bool" where
  "permitted_run r = (case r of RunsCode _ \<Rightarrow> False | RunsModule m \<Rightarrow> m \<in> set PYTHON_MODULES | _ \<Rightarrow> True)"

lemma cluster_reads_same:
  "case read_cluster binary later cl of
     Refused err \<Rightarrow> (\<exists>r. cluster_reads later cl = Inl r \<and> \<not> permitted_run r)
   | EndOfOptions \<Rightarrow> (\<exists>r. cluster_reads later cl = Inl r \<and> permitted_run r)
   | NextArgument skip \<Rightarrow> cluster_reads later cl = Inr skip"
  by (induction binary later cl rule: read_cluster.induct)
    (auto simp: permitted_run_def next_value_def Let_def split: cluster_end.splits list.splits)

text \<open>
  Python runs no code of the command line. The reading of \<^verbatim>\<open>_assert_python_options\<close>, with clustered options and
  attached values, passes exactly the argument lists for which Python, where no long option takes a value, runs a
  script, its input or one of the listed modules, and none for which it runs the text of \<open>-c\<close>.
\<close>

theorem python_options_exact:
  "assert_python_options binary args = None \<longleftrightarrow> permitted_run (python_reads (\<lambda>_. False) args)"
proof (induction binary args rule: assert_python_options.induct)
  case (1 binary)
  then show ?case by (simp add: permitted_run_def)
next
  case (2 binary a later)
  show ?case
  proof (cases "a = ''--'' \<or> \<not> starts_with a ''-'' \<or> a = ''-'' \<or> starts_with a ''--''")
    case True
    with 2 show ?thesis by (auto simp: permitted_run_def split: list.splits)
  next
    case False
    with 2 cluster_reads_same [where binary = binary and later = later and cl = "drop 1 a"] show ?thesis by (auto split: cluster_end.splits)
  qed
qed

text \<open>
  A long option with a value hides \<open>-c\<close>. Python's \<^verbatim>\<open>--check-hash-based-pycs\<close> takes the next argument as its value;
  the policy takes that argument for the script and stops reading. Then \<^verbatim>\<open>-c\<close> with attached code passes every check,
  for all code without a substitution or separator outside quotation marks, and Python runs it.
\<close>

theorem long_option_hides_code:
  assumes "silent_argument (''-c'' @ code)" and "code \<noteq> []" and "hd code \<noteq> CHR ''=''" and "resolve (to_path ws) = Some root"
  defines "argv \<equiv> [''python3'', ''--check-hash-based-pycs'', ''always'', ''-c'' @ code]"
  shows "validate_command resolve argv ws None False
      = Inr \<lparr>sc_argv = argv, sc_binary = ''python3'', sc_workspace_root = root\<rparr>
    \<and> python_reads (\<lambda>o1. o1 = ''--check-hash-based-pycs'') (tl argv) = RunsCode code"
proof
  have binary: "program_name ''python3'' = ''python3''" "map_of DANGEROUS_FLAGS ''python3'' = None"
    "''python3'' \<in> set DEFAULT_ALLOWED_BINARIES" "''python3'' \<notin> set INTERPRETERS" "str_strip ''python3'' \<noteq> []" by code_simp+
  have option: "check_argument resolve root ''python3'' ''python3'' ''--check-hash-based-pycs'' = None"
    and script: "check_argument resolve root ''python3'' ''--check-hash-based-pycs'' ''always'' = None"
    by (simp_all add: check_argument_def Let_def binary) code_simp+
  have "flag_of (''-c'' @ code) \<notin> {''-c'', ''--command''}" using assms(2,3) by (cases code) (auto simp: flag_of_def)
  moreover have "assert_no_shell_syntax (''-c'' @ code) = None"
    using assms(1) by (simp add: assert_no_shell_syntax_def silent_argument_def split: option.splits)
  ultimately have last: "check_argument resolve root ''python3'' ''always'' (''-c'' @ code) = None"
    by (simp add: check_argument_def Let_def binary SOURCE_FLAGS_def starts_with_def)
  have "assert_python_options ''python3'' (tl argv) = None" by (simp add: argv_def starts_with_def)
  then show "validate_command resolve argv ws None False
      = Inr \<lparr>sc_argv = argv, sc_binary = ''python3'', sc_workspace_root = root\<rparr>"
    using option script last binary assms(4)
    by (simp add: validate_command_def command_checks_def Let_def argv_def)
  show "python_reads (\<lambda>o1. o1 = ''--check-hash-based-pycs'') (tl argv) = RunsCode code"
    using assms(2) by (simp add: argv_def starts_with_def next_value_def)
qed

theorem long_option_hides_code_witness:
  "\<exists>argv. argv = [''python3'', ''--check-hash-based-pycs'', ''always'', ''-cprint(open(name).read())''] \<and>
     validate_command no_links argv ''/w'' None False
       = Inr \<lparr>sc_argv = argv, sc_binary = ''python3'', sc_workspace_root = to_path ''/w''\<rparr>"
proof -
  have "silent_argument (''-c'' @ ''print(open(name).read())'')" by code_simp
  moreover have "no_links (to_path ''/w'') = Some (to_path ''/w'')" by code_simp
  ultimately show ?thesis
    using long_option_hides_code [of "''print(open(name).read())''" no_links "''/w''" "to_path ''/w''"] by simp
qed

end
