(* ===== verification/Capability_Admission.thy ===== *)
theory Capability_Admission
  imports Capability_Gates
begin

text \<open>
  The gate as the paths read it that do not route an action (\<^verbatim>\<open>runtime/authority/admission.py\<close>), and the
  capabilities a new account starts with (\<^verbatim>\<open>runtime/authority/baseline.py\<close>).

  A read of the store may raise; which of the four reads do is an argument of the lookup.
\<close>

definition ENABLED_GATE_STATES :: "string list" where
  "ENABLED_GATE_STATES = [''enabled_read_only'', ''enabled_policy_gated'', ''enabled_runtime'']"

definition REASON_GATE_DISABLED :: string where "REASON_GATE_DISABLED = ''disabled_by_capability_gate''"
definition REASON_DENIED_BY_MODE :: string where "REASON_DENIED_BY_MODE = ''denied_by_decision_mode''"
definition UNSET_OFF :: string where "UNSET_OFF = ''off''"
definition UNSET_SHIPPED_DEFAULT_UNSCOPED :: string where "UNSET_SHIPPED_DEFAULT_UNSCOPED = ''shipped_default_unscoped''"
definition UNSET_SHIPPED_DEFAULT :: string where "UNSET_SHIPPED_DEFAULT = ''shipped_default''"

definition UNSET_RESOLUTIONS :: "string list" where
  "UNSET_RESOLUTIONS = [UNSET_OFF, UNSET_SHIPPED_DEFAULT_UNSCOPED, UNSET_SHIPPED_DEFAULT]"

definition CAPABILITY_UNSET_RESOLUTION :: "(string \<times> string) list" where
  "CAPABILITY_UNSET_RESOLUTION =
     [(''web_fetch'', UNSET_SHIPPED_DEFAULT), (''image_generation'', UNSET_SHIPPED_DEFAULT),
      (''code_map_indexing'', UNSET_SHIPPED_DEFAULT_UNSCOPED), (''language_intelligence'', UNSET_SHIPPED_DEFAULT_UNSCOPED),
      (''subagents'', UNSET_SHIPPED_DEFAULT_UNSCOPED)]"

definition unset_resolution_for :: "string \<Rightarrow> string" where
  "unset_resolution_for cap = (case map_of CAPABILITY_UNSET_RESOLUTION cap of None \<Rightarrow> UNSET_OFF | Some u \<Rightarrow> u)"

record CapabilityAdmission =
  ca_capability :: string
  ca_control_scope :: "string option"
  ca_state :: string
  ca_decision_mode :: DecisionMode
  ca_runtime_active :: bool

definition gate_enabled :: "CapabilityAdmission \<Rightarrow> bool" where
  "gate_enabled a = (ca_state a \<in> set ENABLED_GATE_STATES)"

definition denied_by_mode :: "CapabilityAdmission \<Rightarrow> bool" where
  "denied_by_mode a = (gate_enabled a \<and> ca_decision_mode a = DENY)"

definition admitted :: "CapabilityAdmission \<Rightarrow> bool" where
  "admitted a = (gate_enabled a \<and> \<not> denied_by_mode a)"

definition refusal :: "CapabilityAdmission \<Rightarrow> string option" where
  "refusal a =
     (if \<not> gate_enabled a then Some REASON_GATE_DISABLED
      else if denied_by_mode a then Some REASON_DENIED_BY_MODE else None)"

subsection \<open>The reads\<close>

record read_faults =
  scope_raises :: bool
  gate_raises :: bool
  mode_raises :: bool
  runtime_raises :: bool

definition no_read_faults :: read_faults where
  "no_read_faults = \<lparr>scope_raises = False, gate_raises = False, mode_raises = False, runtime_raises = False\<rparr>"

definition admission_scope :: "read_faults \<Rightarrow> store \<Rightarrow> string option \<Rightarrow> string option" where
  "admission_scope f s pid = (if scope_raises f then None else account_scope s pid)"

definition read_gate :: "read_faults \<Rightarrow> store \<Rightarrow> string option \<Rightarrow> string \<Rightarrow> string option \<times> bool" where
  "read_gate f s scope cap =
     (if gate_raises f then (None, False)
      else (case scope of
              Some sc \<Rightarrow> get_principal_capability_gate_state s sc cap
            | None \<Rightarrow> get_capability_gate_state s cap, True))"

definition shipped_default_state :: "string \<Rightarrow> string" where
  "shipped_default_state cap = (case default_capability_gates cap of None \<Rightarrow> [] | Some g \<Rightarrow> state_value (cg_state g))"

definition gate_state :: "read_faults \<Rightarrow> store \<Rightarrow> string option \<Rightarrow> string \<Rightarrow> string \<Rightarrow> string" where
  "gate_state f s scope cap unset =
     (case read_gate f s scope cap of
        (Some st, readable) \<Rightarrow> st
      | (None, readable) \<Rightarrow>
          if \<not> readable then []
          else if unset = UNSET_SHIPPED_DEFAULT then shipped_default_state cap
          else if unset = UNSET_SHIPPED_DEFAULT_UNSCOPED \<and> scope = None then shipped_default_state cap
          else [])"

definition admission_mode :: "read_faults \<Rightarrow> store \<Rightarrow> string option \<Rightarrow> string \<Rightarrow> DecisionMode" where
  "admission_mode f s scope cap =
     (let persisted = (if mode_raises f then None
                       else case scope of Some sc \<Rightarrow> mode_principal s (sc, cap) | None \<Rightarrow> mode_global s cap);
          mode = (case persisted of None \<Rightarrow> None | Some v \<Rightarrow> if v = [] then None else parse_decision_mode v)
      in case mode of None \<Rightarrow> ASK | Some m \<Rightarrow> m)"

definition runtime_active :: "read_faults \<Rightarrow> store \<Rightarrow> string option \<Rightarrow> bool" where
  "runtime_active f s scope =
     (if runtime_raises f then True
      else case (case scope of Some sc \<Rightarrow> get_principal_runtime_mode s sc | None \<Rightarrow> get_latest_runtime_mode s) of
        None \<Rightarrow> True
      | Some r \<Rightarrow> rm_status r = ''active'')"

definition capability_admission ::
  "read_faults \<Rightarrow> store \<Rightarrow> string option \<Rightarrow> string \<Rightarrow> string option \<Rightarrow> string + CapabilityAdmission" where
  "capability_admission f s pid cap unset_arg =
     (let unset = (case unset_arg of None \<Rightarrow> unset_resolution_for cap | Some u \<Rightarrow> u);
          scope = admission_scope f s pid
      in if unset \<notin> set UNSET_RESOLUTIONS then Inl (''capability_admission_unset_invalid:'' @ unset)
         else Inr \<lparr>ca_capability = cap, ca_control_scope = scope, ca_state = gate_state f s scope cap unset,
                   ca_decision_mode = admission_mode f s scope cap, ca_runtime_active = runtime_active f s scope\<rparr>)"

subsection \<open>The baseline of a new account\<close>

definition BASELINE_CAPABILITIES :: "string list" where
  "BASELINE_CAPABILITIES =
     [''language_intelligence'', ''code_map_indexing'', ''task_management_runtime'', ''project_assignment_runtime'',
      ''audit_export'']"

text \<open>\<^verbatim>\<open>INSERT OR IGNORE\<close>: a row that exists stays.\<close>

definition apply_account_capability_baseline :: "string \<Rightarrow> store \<Rightarrow> store" where
  "apply_account_capability_baseline pid s =
     fold (\<lambda>cap s. if gate_principal s (pid, cap) \<noteq> None then s
                   else upsert_principal_capability_gate_state pid cap ''enabled_runtime'' s) BASELINE_CAPABILITIES s"

subsection \<open>What the lookup answers\<close>

lemma enabled_not_closed: "st \<in> set ENABLED_GATE_STATES \<Longrightarrow> st \<notin> {''disabled'', ''planned''}"
  by (auto simp: ENABLED_GATE_STATES_def)

lemma state_value_open: "state_value c \<in> set ENABLED_GATE_STATES \<Longrightarrow> c \<notin> {DISABLED, PLANNED}"
  by (cases c) (auto simp: ENABLED_GATE_STATES_def)

lemma empty_not_enabled [simp]: "[] \<notin> set ENABLED_GATE_STATES"
  by (simp add: ENABLED_GATE_STATES_def)

lemma shipped_open:
  "shipped_default_state cap \<in> set ENABLED_GATE_STATES \<Longrightarrow>
   \<exists>g. default_capability_gates cap = Some g \<and> cg_state g \<notin> {DISABLED, PLANNED}"
  using state_value_open by (cases "default_capability_gates cap") (simp_all add: shipped_default_state_def)

lemma resolution_cases:
  "unset_resolution_for cap = UNSET_SHIPPED_DEFAULT \<longleftrightarrow> cap = ''web_fetch'' \<or> cap = ''image_generation''"
  by (auto simp: unset_resolution_for_def CAPABILITY_UNSET_RESOLUTION_def UNSET_OFF_def UNSET_SHIPPED_DEFAULT_def
      UNSET_SHIPPED_DEFAULT_UNSCOPED_def)

text \<open>
  C18: The two readings of a gate agree on what is off. When every read of the store works, whatever the lookup for
  paths that do not route an action finds enabled passes the gate of the runtime authority too, for every
  action or tool of that capability, and has no deny mode when it is admitted; the one exception is
  \<^verbatim>\<open>web_fetch\<close> for an account that has not decided, which the lookup reads as shipped and the authority as off.
\<close>

theorem admission_within_authority:
  assumes "capability_admission no_read_faults s pid cap None = Inr a" and "gate_enabled a"
    and "capability_of atype tool = Some cap"
  shows "(check_capability_gate s atype tool pid = None
       \<or> cap = ''web_fetch'' \<and> uses_principal_controls s pid \<and> get_persisted_capability_state s cap pid = None)
    \<and> (admitted a \<longrightarrow> resolve_decision_mode s cap pid \<noteq> DENY)"
proof
  let ?p = "get_persisted_capability_state s cap pid"
  have persisted: "read_gate no_read_faults s (account_scope s pid) cap = (?p, True)"
    by (simp add: read_gate_def no_read_faults_def get_persisted_capability_state_def control_scope_def)
  have a: "a = \<lparr>ca_capability = cap, ca_control_scope = account_scope s pid,
      ca_state = gate_state no_read_faults s (account_scope s pid) cap (unset_resolution_for cap),
      ca_decision_mode = admission_mode no_read_faults s (account_scope s pid) cap,
      ca_runtime_active = runtime_active no_read_faults s (account_scope s pid)\<rparr>"
    using assms(1) by (simp add: capability_admission_def Let_def admission_scope_def no_read_faults_def split: if_splits)
  show "check_capability_gate s atype tool pid = None
      \<or> cap = ''web_fetch'' \<and> uses_principal_controls s pid \<and> ?p = None"
  proof (cases ?p)
    case (Some st)
    with assms(2) a persisted have "st \<in> set ENABLED_GATE_STATES" by (simp add: gate_enabled_def gate_state_def)
    with Some assms(3) enabled_not_closed show ?thesis by (simp add: check_capability_gate_def)
  next
    case None
    with assms(2) a persisted have shipped: "shipped_default_state cap \<in> set ENABLED_GATE_STATES"
      and scope: "cap = ''web_fetch'' \<or> cap = ''image_generation'' \<or> account_scope s pid = None"
      by (auto simp: gate_enabled_def gate_state_def resolution_cases split: if_splits)
    from shipped_open [OF shipped] obtain g where "default_capability_gates cap = Some g" "cg_state g \<notin> {DISABLED, PLANNED}"
      by blast
    with None scope assms(3) show ?thesis by (auto simp: check_capability_gate_def uses_principal_controls_def)
  qed
  have "parse_decision_mode [] = None" by code_simp
  then have "admission_mode no_read_faults s (account_scope s pid) cap = resolve_decision_mode s cap pid"
    by (auto simp: admission_mode_def resolve_decision_mode_def no_read_faults_def control_scope_def Let_def split: option.splits)
  then show "admitted a \<longrightarrow> resolve_decision_mode s cap pid \<noteq> DENY"
    by (simp add: a admitted_def denied_by_mode_def)
qed

subsection \<open>What a new account may do\<close>

lemma baseline_row:
  "gate_principal (apply_account_capability_baseline pid s) (q, cap) =
     (if gate_principal s (q, cap) = None \<and> q = pid \<and> cap \<in> set BASELINE_CAPABILITIES
      then Some ''enabled_runtime'' else gate_principal s (q, cap))"
proof -
  have "gate_principal (fold (\<lambda>cap s. if gate_principal s (pid, cap) \<noteq> None then s
          else upsert_principal_capability_gate_state pid cap ''enabled_runtime'' s) caps s) (q, cap) =
        (if gate_principal s (q, cap) = None \<and> q = pid \<and> cap \<in> set caps
         then Some ''enabled_runtime'' else gate_principal s (q, cap))" for caps
    by (induction caps arbitrary: s) (auto simp: upsert_principal_capability_gate_state_def)
  then show ?thesis by (simp add: apply_account_capability_baseline_def)
qed

lemma baseline_frame:
  "principals (apply_account_capability_baseline pid s) = principals s"
  "accounts (apply_account_capability_baseline pid s) = accounts s"
  "mode_principal (apply_account_capability_baseline pid s) = mode_principal s"
proof -
  have "principals (fold g caps s) = principals s \<and> accounts (fold g caps s) = accounts s \<and> mode_principal (fold g caps s) = mode_principal s"
    if "g = (\<lambda>cap s. if gate_principal s (pid, cap) \<noteq> None then s
          else upsert_principal_capability_gate_state pid cap ''enabled_runtime'' s)" for g and caps :: "string list"
    unfolding that by (induction caps arbitrary: s) (simp_all add: upsert_principal_capability_gate_state_def)
  then show "principals (apply_account_capability_baseline pid s) = principals s"
    "accounts (apply_account_capability_baseline pid s) = accounts s"
    "mode_principal (apply_account_capability_baseline pid s) = mode_principal s"
    by (simp_all add: apply_account_capability_baseline_def)
qed

lemma shipped_enabled: "shipped_default_state cap \<in> set ENABLED_GATE_STATES \<longleftrightarrow> cap \<in> set REAL_EXECUTOR_CAPABILITIES"
proof (cases "declared_capability_gates cap")
  case None
  then have "default_capability_gates cap = None" by (simp add: default_capability_gates_def)
  with default_gate_enabled_iff_executor [of cap] show ?thesis by (simp add: shipped_default_state_def)
next
  case (Some g)
  then show ?thesis using declared_not_enabled [OF Some]
    by (auto simp: shipped_default_state_def default_capability_gates_def ENABLED_GATE_STATES_def)
qed

lemma seeded_audit_export:
  "\<exists>a. capability_admission no_read_faults (apply_account_capability_baseline ''own'' owned_store) (Some ''own'') ''audit_export'' None = Inr a
     \<and> gate_enabled a"
proof -
  let ?s = "apply_account_capability_baseline ''own'' owned_store"
  have scope: "account_scope ?s (Some ''own'') = Some ''own''"
    using account_scope_cong [of ?s owned_store "Some ''own''"] baseline_frame
    by (simp add: account_scope_def get_account_def owned_store_unfold)
  have row: "gate_principal ?s (''own'', ''audit_export'') = Some ''enabled_runtime''"
    by (simp add: baseline_row) (simp add: owned_store_unfold BASELINE_CAPABILITIES_def)
  have "unset_resolution_for ''audit_export'' \<in> set UNSET_RESOLUTIONS" by code_simp
  then show ?thesis
    by (simp add: capability_admission_def Let_def admission_scope_def no_read_faults_def scope gate_enabled_def gate_state_def
        read_gate_def get_principal_capability_gate_state_def row) (simp add: ENABLED_GATE_STATES_def)
qed

theorem admission_within_authority_witness:
  "check_capability_gate (apply_account_capability_baseline ''own'' owned_store) ''audit_export'' ''audit_export'' (Some ''own'') = None"
proof -
  have "capability_of ''audit_export'' ''audit_export'' = Some ''audit_export''" by code_simp
  with admission_within_authority [where s = "apply_account_capability_baseline ''own'' owned_store" and pid = "Some ''own''"]
    seeded_audit_export show ?thesis by fastforce
qed

text \<open>
  A new account starts with exactly its baseline. Right after an account without gate or mode rows was seeded,
  the enabled capabilities are the five of the baseline and the two that ship on, web reading and image
  generation, and each of them asks; every other capability is off.
\<close>

theorem new_account_has_baseline:
  assumes "pid \<noteq> []" and "get_account s pid \<noteq> None"
    and "\<forall>cap. gate_principal s (pid, cap) = None \<and> mode_principal s (pid, cap) = None"
    and "capability_admission no_read_faults (apply_account_capability_baseline pid s) (Some pid) cap None = Inr a"
  shows "(gate_enabled a \<longleftrightarrow> cap \<in> set (BASELINE_CAPABILITIES @ [''web_fetch'', ''image_generation'']))
    \<and> ca_decision_mode a = ASK"
proof -
  let ?s = "apply_account_capability_baseline pid s"
  have scope: "account_scope ?s (Some pid) = Some pid"
    using assms(1,2) account_scope_cong [of ?s s "Some pid"] baseline_frame by (simp add: account_scope_def)
  have a: "ca_state a = gate_state no_read_faults ?s (Some pid) cap (unset_resolution_for cap)"
    "ca_decision_mode a = admission_mode no_read_faults ?s (Some pid) cap"
    using assms(4) scope by (auto simp: capability_admission_def Let_def admission_scope_def no_read_faults_def split: if_splits)
  have gate: "read_gate no_read_faults ?s (Some pid) cap = (if cap \<in> set BASELINE_CAPABILITIES then Some ''enabled_runtime'' else None, True)"
    using assms(3) by (simp add: read_gate_def no_read_faults_def get_principal_capability_gate_state_def baseline_row)
  have shipped: "''web_fetch'' \<in> set REAL_EXECUTOR_CAPABILITIES" "''image_generation'' \<in> set REAL_EXECUTOR_CAPABILITIES"
    by code_simp+
  have "gate_enabled a \<longleftrightarrow> cap \<in> set BASELINE_CAPABILITIES \<or> cap = ''web_fetch'' \<or> cap = ''image_generation''"
  proof (cases "cap \<in> set BASELINE_CAPABILITIES")
    case True
    then show ?thesis by (simp add: gate_enabled_def a(1) gate_state_def gate) (simp add: ENABLED_GATE_STATES_def)
  next
    case False
    have "\<not> (unset_resolution_for cap = UNSET_SHIPPED_DEFAULT_UNSCOPED \<and> Some pid = None)" by simp
    with False shipped show ?thesis
      by (auto simp: gate_enabled_def a(1) gate_state_def gate resolution_cases shipped_enabled)
  qed
  moreover have "ca_decision_mode a = ASK"
    using assms(3) by (simp add: a(2) admission_mode_def no_read_faults_def baseline_frame)
  ultimately show ?thesis by auto
qed

text \<open>A read of the gate that fails is off, whatever ships.\<close>

lemma broken_gate_read_is_off:
  assumes "gate_raises f" and "capability_admission f s pid cap unset = Inr a"
  shows "\<not> admitted a"
  using assms by (auto simp: capability_admission_def Let_def admitted_def gate_enabled_def gate_state_def read_gate_def split: if_splits)

text \<open>
  A read of the account that fails is not: the workspace-wide rows and the shipped table answer in place of the
  owner's, so a capability the owner turned off reads as enabled.
\<close>

lemma broken_account_read_enables:
  assumes "scope_raises f" and "\<not> gate_raises f" and "gate_global s ''code_map_indexing'' = None"
    and "gate_principal s (pid, ''code_map_indexing'') = Some ''disabled''"
    and "capability_admission f s (Some pid) ''code_map_indexing'' None = Inr a"
  shows "gate_enabled a"
proof -
  have real: "''code_map_indexing'' \<in> set REAL_EXECUTOR_CAPABILITIES" by code_simp
  have unset: "unset_resolution_for ''code_map_indexing'' = UNSET_SHIPPED_DEFAULT_UNSCOPED" by code_simp
  have "ca_state a = gate_state f s None ''code_map_indexing'' UNSET_SHIPPED_DEFAULT_UNSCOPED"
    using assms(1,5) by (auto simp: capability_admission_def Let_def admission_scope_def unset split: if_splits)
  then have "ca_state a = shipped_default_state ''code_map_indexing''"
    using assms(2,3) by (simp add: gate_state_def read_gate_def get_capability_gate_state_def)
  with real shipped_enabled show ?thesis by (simp add: gate_enabled_def)
qed

theorem new_account_has_baseline_witness:
  "\<exists>a. capability_admission no_read_faults (apply_account_capability_baseline ''own'' owned_store) (Some ''own'') ''shell_execution'' None = Inr a
     \<and> \<not> gate_enabled a"
proof -
  have "get_account owned_store ''own'' \<noteq> None" by (simp add: get_account_def owned_store_unfold)
  moreover have "\<forall>cap. gate_principal owned_store (''own'', cap) = None \<and> mode_principal owned_store (''own'', cap) = None"
    by (simp add: owned_store_unfold)
  moreover obtain a where a: "capability_admission no_read_faults (apply_account_capability_baseline ''own'' owned_store) (Some ''own'') ''shell_execution'' None = Inr a"
  proof -
    have "unset_resolution_for ''shell_execution'' \<in> set UNSET_RESOLUTIONS" by code_simp
    then show ?thesis by (intro that) (simp add: capability_admission_def Let_def)
  qed
  moreover have "''shell_execution'' \<notin> set (BASELINE_CAPABILITIES @ [''web_fetch'', ''image_generation''])" by code_simp
  ultimately have "\<not> gate_enabled a" using new_account_has_baseline [of "''own''" owned_store "''shell_execution''" a] by simp
  with a show ?thesis by blast
qed

end
