(* ===== verification/Agent_Plan.thy ===== *)
theory Agent_Plan
  imports Raiker_Prelude
begin

text \<open>
  The agent's plan of a conversation (\<^verbatim>\<open>runtime/agent_plan.py\<close>): the validation of the steps a model proposes,
  with its check that no step waits on itself through others, and the plan row of
  \<^verbatim>\<open>storage/stores/conversations.py\<close>. A proposed plan is decoded JSON.
\<close>

definition PLAN_STATUSES :: "string list" where
  "PLAN_STATUSES = [''pending'', ''in_progress'', ''completed'', ''blocked'']"

definition ACTIVE_STATUS :: string where "ACTIVE_STATUS = ''in_progress''"
definition MAX_PLAN_STEPS :: nat where "MAX_PLAN_STEPS = 20"
definition MAX_TITLE_CHARS :: nat where "MAX_TITLE_CHARS = 200"
definition MAX_NOTE_CHARS :: nat where "MAX_NOTE_CHARS = 280"
definition MAX_BLOCKED_BY :: nat where "MAX_BLOCKED_BY = 5"

type_synonym plan_error = string

record PlanStep =
  ps_title :: string
  ps_status :: string
  ps_note :: string
  ps_blocked_by :: "nat list"

definition to_dict :: "PlanStep \<Rightarrow> pyval" where
  "to_dict s = PDict ([(''title'', PStr (ps_title s)), (''status'', PStr (ps_status s))]
     @ (if ps_note s = [] then [] else [(''note'', PStr (ps_note s))])
     @ (if ps_blocked_by s = [] then [] else [(''blocked_by'', PList (map (\<lambda>n. PInt (int n)) (ps_blocked_by s)))]))"

subsection \<open>Validation\<close>

fun blocked_numbers :: "nat \<Rightarrow> nat \<Rightarrow> pyval list \<Rightarrow> plan_error + nat list" where
  "blocked_numbers index count [] = Inr []"
| "blocked_numbers index count (v # vs) =
     (case v of
        PInt n \<Rightarrow>
          if \<not> (1 \<le> n \<and> n \<le> int count) \<or> n = int index + 1
          then Inl (''plan_step_blocked_by_unknown_step:'' @ nat_dec index @ '':'' @ int_dec n)
          else (case blocked_numbers index count vs of Inl err \<Rightarrow> Inl err | Inr ns \<Rightarrow> Inr (nat n # ns))
      | _ \<Rightarrow> Inl (''plan_step_blocked_by_invalid:'' @ nat_dec index))"

definition read_blocked_by :: "pyval \<Rightarrow> nat \<Rightarrow> nat \<Rightarrow> plan_error + nat list" where
  "read_blocked_by raw index count =
     (if raw = PNone \<or> raw = PList [] then Inr []
      else case raw of
        PList vs \<Rightarrow>
          if length vs > MAX_BLOCKED_BY then Inl (''plan_step_blocked_by_invalid:'' @ nat_dec index)
          else (case blocked_numbers index count vs of Inl err \<Rightarrow> Inl err | Inr ns \<Rightarrow> Inr (sort (remdups ns)))
      | _ \<Rightarrow> Inl (''plan_step_blocked_by_invalid:'' @ nat_dec index))"

definition get_or_text :: "pydict \<Rightarrow> string \<Rightarrow> string \<Rightarrow> string" where
  "get_or_text d k dflt = (case map_of d k of None \<Rightarrow> dflt | Some v \<Rightarrow> py_str v)"

definition read_step :: "nat \<Rightarrow> nat \<Rightarrow> pyval \<Rightarrow> plan_error + PlanStep" where
  "read_step index count entry =
     (case entry of
        PDict d \<Rightarrow>
          (let ttl = str_strip (get_or_text d ''title'' []);
               given = str_strip (get_or_text d ''status'' ''pending'');
               st = (if given = [] then ''pending'' else given);
               nt = str_strip (get_or_text d ''note'' [])
           in if ttl = [] then Inl (''plan_step_missing_title:'' @ nat_dec index)
              else if length ttl > MAX_TITLE_CHARS then Inl (''plan_step_title_too_long:'' @ nat_dec index)
              else if st \<notin> set PLAN_STATUSES then Inl (''plan_step_invalid_status:'' @ nat_dec index @ '':'' @ st)
              else if length nt > MAX_NOTE_CHARS then Inl (''plan_step_note_too_long:'' @ nat_dec index)
              else (case read_blocked_by (dict_get d ''blocked_by'') index count of
                      Inl err \<Rightarrow> Inl err
                    | Inr ns \<Rightarrow> Inr \<lparr>ps_title = ttl, ps_status = st, ps_note = nt, ps_blocked_by = ns\<rparr>))
      | _ \<Rightarrow> Inl (''plan_step_not_an_object:'' @ nat_dec index))"

fun read_steps :: "nat \<Rightarrow> nat \<Rightarrow> pyval list \<Rightarrow> plan_error + PlanStep list" where
  "read_steps index count [] = Inr []"
| "read_steps index count (entry # rest) =
     (case read_step index count entry of
        Inl err \<Rightarrow> Inl err
      | Inr s \<Rightarrow> (case read_steps (Suc index) count rest of Inl err \<Rightarrow> Inl err | Inr ss \<Rightarrow> Inr (s # ss)))"

text \<open>A step that has started or finished while a step it waits on is not completed.\<close>

definition ahead_of :: "PlanStep list \<Rightarrow> (nat \<times> nat) option" where
  "ahead_of steps =
     List.find (\<lambda>(i, n). ps_status (steps ! i) \<in> {ACTIVE_STATUS, ''completed''}
                      \<and> ps_status (steps ! (n - 1)) \<noteq> ''completed'')
       (concat (map (\<lambda>i. map (Pair i) (ps_blocked_by (steps ! i))) [0..<length steps]))"

lemma longer_path:
  fixes n k :: nat
  assumes "n \<notin> set visiting" and "1 \<le> n" and "n \<le> k"
  shows "card ({1..k} - insert n (set visiting)) < card ({1..k} - set visiting)"
proof -
  have "n \<in> {1..k} - set visiting" using assms by simp
  moreover have "{1..k} - insert n (set visiting) = ({1..k} - set visiting) - {n}" by blast
  moreover have "finite ({1..k} - set visiting)" by simp
  ultimately show ?thesis using card_Diff1_less by metis
qed

text \<open>
  The depth-first walk. \<open>visiting\<close> is the path of the walk, \<open>finished\<close> what it has left behind; the walk ends
  because the path never repeats. A number outside the plan does not occur in a validated step.
\<close>

function visit :: "PlanStep list \<Rightarrow> nat list \<Rightarrow> nat list \<Rightarrow> nat \<Rightarrow> plan_error + nat list"
  and visit_all :: "PlanStep list \<Rightarrow> nat list \<Rightarrow> nat list \<Rightarrow> nat list \<Rightarrow> plan_error + nat list" where
  "visit steps visiting finished n =
     (if n \<in> set finished then Inr finished
      else if n \<in> set visiting then Inl (''plan_dependency_cycle:'' @ nat_dec n)
      else if \<not> (1 \<le> n \<and> n \<le> length steps) then Inl ''IndexError''
      else (case visit_all steps (n # visiting) finished (ps_blocked_by (steps ! (n - 1))) of
              Inl err \<Rightarrow> Inl err | Inr later \<Rightarrow> Inr (n # later)))"
| "visit_all steps visiting finished [] = Inr finished"
| "visit_all steps visiting finished (n # ns) =
     (case visit steps visiting finished n of Inl err \<Rightarrow> Inl err | Inr later \<Rightarrow> visit_all steps visiting later ns)"
  by pat_completeness simp_all
termination
proof (relation "inv_image (less_than <*lex*> less_than) (\<lambda>x. case x of
      Inl (steps, visiting, _, _) \<Rightarrow> (card ({1..length steps} - set visiting), 0)
    | Inr (steps, visiting, _, ns) \<Rightarrow> (card ({1..length steps} - set visiting), Suc (length ns)))", goal_cases)
  case 1
  then show ?case by (intro wf_inv_image wf_lex_prod wf_less_than)
next
  case (2 steps visiting finished n)
  then show ?case using longer_path [of n visiting "length steps"] by simp
qed simp_all

declare visit.simps [simp del]

definition check_dependencies :: "PlanStep list \<Rightarrow> plan_error option" where
  "check_dependencies steps =
     (case ahead_of steps of
        Some (i, n) \<Rightarrow> Some (''plan_step_ahead_of_dependency:'' @ nat_dec i @ '':'' @ nat_dec n)
      | None \<Rightarrow> (case visit_all steps [] [] [1..<Suc (length steps)] of Inl err \<Rightarrow> Some err | Inr _ \<Rightarrow> None))"

definition active :: "PlanStep list \<Rightarrow> PlanStep list" where
  "active = filter (\<lambda>s. ps_status s = ACTIVE_STATUS)"

definition normalize_steps :: "pyval \<Rightarrow> plan_error + PlanStep list" where
  "normalize_steps raw =
     (case raw of
        PList entries \<Rightarrow>
          if entries = [] then Inl ''plan_steps_empty''
          else if length entries > MAX_PLAN_STEPS
          then Inl (''plan_too_many_steps:'' @ nat_dec (length entries) @ ''>'' @ nat_dec MAX_PLAN_STEPS)
          else (case read_steps 0 (length entries) entries of
                  Inl err \<Rightarrow> Inl err
                | Inr steps \<Rightarrow>
                    if length (active steps) > 1
                    then Inl (''plan_multiple_steps_in_progress:'' @ nat_dec (length (active steps)))
                    else (case check_dependencies steps of Some err \<Rightarrow> Inl err | None \<Rightarrow> Inr steps))
      | _ \<Rightarrow> Inl ''plan_steps_not_a_list'')"

subsection \<open>The stored plan\<close>

record plan_summary =
  sm_total :: nat
  sm_completed :: nat
  sm_in_progress :: nat
  sm_pending :: nat
  sm_blocked :: nat
  sm_current_step :: string

definition summarize :: "PlanStep list \<Rightarrow> plan_summary" where
  "summarize steps =
     (let count = (\<lambda>st. length (filter (\<lambda>s. ps_status s = st) steps))
      in \<lparr>sm_total = length steps, sm_completed = count ''completed'', sm_in_progress = count ''in_progress'',
          sm_pending = count ''pending'', sm_blocked = count ''blocked'',
          sm_current_step = (case List.find (\<lambda>s. ps_status s = ACTIVE_STATUS) steps of None \<Rightarrow> [] | Some s \<Rightarrow> ps_title s)\<rparr>)"

record plan_row =
  pr_turn_id :: string
  pr_steps :: pyval
  pr_created_at :: string
  pr_updated_at :: string

record plan_store =
  plan_clock :: string
  plan_rows :: "string \<times> string \<rightharpoonup> plan_row"

record plan_view =
  pv_session_id :: string
  pv_turn_id :: string
  pv_steps :: "pyval list"
  pv_created_at :: "string option"
  pv_updated_at :: string
  pv_summary :: plan_summary

definition save_agent_plan :: "string \<Rightarrow> string \<Rightarrow> string \<Rightarrow> pyval \<Rightarrow> plan_store \<Rightarrow> string \<times> plan_store" where
  "save_agent_plan sid pid turn steps w =
     (let created = (case plan_rows w (sid, pid) of None \<Rightarrow> plan_clock w | Some r \<Rightarrow> pr_created_at r)
      in (plan_clock w, w\<lparr>plan_rows := (plan_rows w)((sid, pid) \<mapsto>
            \<lparr>pr_turn_id = turn, pr_steps = steps, pr_created_at = created, pr_updated_at = plan_clock w\<rparr>)\<rparr>))"

definition clear_agent_plan :: "string \<Rightarrow> string \<Rightarrow> plan_store \<Rightarrow> bool \<times> plan_store" where
  "clear_agent_plan sid pid w = (plan_rows w (sid, pid) \<noteq> None, w\<lparr>plan_rows := (plan_rows w)((sid, pid) := None)\<rparr>)"

definition save_plan :: "string \<Rightarrow> string \<Rightarrow> string \<Rightarrow> PlanStep list \<Rightarrow> plan_store \<Rightarrow> plan_view \<times> plan_store" where
  "save_plan sid pid turn steps w =
     (case save_agent_plan sid pid turn (PList (map to_dict steps)) w of
        (updated, w1) \<Rightarrow>
          (\<lparr>pv_session_id = sid, pv_turn_id = turn, pv_steps = map to_dict steps, pv_created_at = None,
            pv_updated_at = updated, pv_summary = summarize steps\<rparr>, w1))"

definition load_plan :: "plan_store \<Rightarrow> string \<Rightarrow> string \<Rightarrow> plan_view option" where
  "load_plan w sid pid =
     (case plan_rows w (sid, pid) of
        None \<Rightarrow> None
      | Some r \<Rightarrow>
          (case normalize_steps (pr_steps r) of
             Inl err \<Rightarrow> None
           | Inr steps \<Rightarrow>
               Some \<lparr>pv_session_id = sid, pv_turn_id = pr_turn_id r, pv_steps = map to_dict steps,
                     pv_created_at = Some (pr_created_at r), pv_updated_at = pr_updated_at r,
                     pv_summary = summarize steps\<rparr>))"

text \<open>The executor of the tool \<^verbatim>\<open>update_plan\<close>; no store, no plan.\<close>

definition update_plan ::
  "pydict \<Rightarrow> string \<Rightarrow> string \<Rightarrow> string \<Rightarrow> plan_store option \<Rightarrow> (plan_error + plan_view) \<times> plan_store option" where
  "update_plan args sid owner turn store =
     (case store of
        None \<Rightarrow> (Inl ''plan_store_unavailable'', None)
      | Some w \<Rightarrow>
          (case normalize_steps (dict_get args ''steps'') of
             Inl err \<Rightarrow> (Inl err, Some w)
           | Inr steps \<Rightarrow> (case save_plan sid owner turn steps w of (view, w1) \<Rightarrow> (Inr view, Some w1))))"

subsection \<open>The walk finds every cycle and nothing else\<close>

definition waits_on :: "PlanStep list \<Rightarrow> (nat \<times> nat) set" where
  "waits_on steps = {(i, j). 1 \<le> i \<and> i \<le> length steps \<and> j \<in> set (ps_blocked_by (steps ! (i - 1)))}"

text \<open>An order of work: every step comes after the steps it waits on, the last one first.\<close>

fun in_order :: "PlanStep list \<Rightarrow> nat list \<Rightarrow> bool" where
  "in_order steps [] = True"
| "in_order steps (n # ns) \<longleftrightarrow> set (ps_blocked_by (steps ! (n - 1))) \<subseteq> set ns \<and> in_order steps ns"

lemma visit_in_order:
  "visit steps visiting finished n = Inr later \<Longrightarrow> in_order steps finished \<Longrightarrow>
     in_order steps later \<and> set finished \<subseteq> set later \<and> n \<in> set later"
  "visit_all steps visiting finished ns = Inr later \<Longrightarrow> in_order steps finished \<Longrightarrow>
     in_order steps later \<and> set finished \<subseteq> set later \<and> set ns \<subseteq> set later"
proof (induction steps visiting finished n and steps visiting finished ns arbitrary: later and later rule: visit_visit_all.induct)
  case (1 steps visiting finished n)
  then show ?case by (subst (asm) visit.simps) (auto split: if_splits sum.splits)
next
  case (2 steps visiting finished)
  then show ?case by simp
next
  case (3 steps visiting finished n ns)
  then show ?case by (fastforce split: sum.splits)
qed

lemma visit_acyclic:
  "acyclic (waits_on steps) \<Longrightarrow> \<forall>(i, j) \<in> waits_on steps. 1 \<le> j \<and> j \<le> length steps \<Longrightarrow>
     1 \<le> n \<Longrightarrow> n \<le> length steps \<Longrightarrow> \<forall>v \<in> set visiting. (v, n) \<in> (waits_on steps)\<^sup>+ \<Longrightarrow>
     \<exists>later. visit steps visiting finished n = Inr later"
  "acyclic (waits_on steps) \<Longrightarrow> \<forall>(i, j) \<in> waits_on steps. 1 \<le> j \<and> j \<le> length steps \<Longrightarrow>
     \<forall>n \<in> set ns. 1 \<le> n \<and> n \<le> length steps \<and> (\<forall>v \<in> set visiting. (v, n) \<in> (waits_on steps)\<^sup>+) \<Longrightarrow>
     \<exists>later. visit_all steps visiting finished ns = Inr later"
proof (induction steps visiting finished n and steps visiting finished ns rule: visit_visit_all.induct)
  case (1 steps visiting finished n)
  show ?case
  proof (cases "n \<in> set finished \<or> n \<in> set visiting")
    case True
    with 1(2,6) show ?thesis by (subst visit.simps) (auto simp: acyclic_def)
  next
    case False
    have "\<forall>m \<in> set (ps_blocked_by (steps ! (n - 1))). 1 \<le> m \<and> m \<le> length steps
        \<and> (\<forall>v \<in> set (n # visiting). (v, m) \<in> (waits_on steps)\<^sup>+)"
    proof
      fix m
      assume "m \<in> set (ps_blocked_by (steps ! (n - 1)))"
      with 1(4,5) have edge: "(n, m) \<in> waits_on steps" by (simp add: waits_on_def)
      with 1(3) have "1 \<le> m \<and> m \<le> length steps" by blast
      moreover have "\<forall>v \<in> set (n # visiting). (v, m) \<in> (waits_on steps)\<^sup>+"
        using edge 1(6) by (auto intro: trancl_into_trancl)
      ultimately show "1 \<le> m \<and> m \<le> length steps \<and> (\<forall>v \<in> set (n # visiting). (v, m) \<in> (waits_on steps)\<^sup>+)" by blast
    qed
    with 1 False obtain later where "visit_all steps (n # visiting) finished (ps_blocked_by (steps ! (n - 1))) = Inr later"
      by blast
    with 1(4,5) False show ?thesis by (subst visit.simps) simp
  qed
next
  case (2 steps visiting finished)
  then show ?case by simp
next
  case (3 steps visiting finished n ns)
  then obtain later where "visit steps visiting finished n = Inr later" by auto
  with 3 show ?case by auto
qed

fun order_rank :: "nat list \<Rightarrow> nat \<Rightarrow> nat" where
  "order_rank [] x = 0"
| "order_rank (n # ns) x = (if x = n \<and> n \<notin> set ns then Suc (length ns) else order_rank ns x)"

lemma order_rank_bound: "order_rank ns x \<le> length ns"
  by (induction ns) auto

lemma in_order_rank:
  "in_order steps ns \<Longrightarrow> i \<in> set ns \<Longrightarrow> j \<in> set (ps_blocked_by (steps ! (i - 1))) \<Longrightarrow> j \<in> set ns \<and> order_rank ns j < order_rank ns i"
proof (induction ns)
  case (Cons n ns)
  show ?case
  proof (cases "i = n \<and> n \<notin> set ns")
    case True
    with Cons.prems have "j \<in> set ns" by auto
    with True order_rank_bound [of ns j] show ?thesis by auto
  next
    case False
    with Cons show ?thesis by auto
  qed
qed simp

lemma in_order_acyclic:
  assumes "in_order steps ns" and "\<forall>(i, j) \<in> waits_on steps. i \<in> set ns"
  shows "acyclic (waits_on steps)"
proof -
  have "(waits_on steps)\<inverse> \<subseteq> measure (order_rank ns)" using assms in_order_rank by (fastforce simp: waits_on_def)
  then have "acyclic ((waits_on steps)\<inverse>)" by (meson wf_acyclic wf_measure wf_subset)
  then show ?thesis by simp
qed

definition numbers_known :: "PlanStep list \<Rightarrow> bool" where
  "numbers_known steps \<longleftrightarrow> (\<forall>s \<in> set steps. \<forall>n \<in> set (ps_blocked_by s). 1 \<le> n \<and> n \<le> length steps)"

lemma known_edges: "numbers_known steps \<Longrightarrow> (i, j) \<in> waits_on steps \<Longrightarrow> 1 \<le> j \<and> j \<le> length steps"
  unfolding numbers_known_def waits_on_def by (clarsimp simp: in_set_conv_nth) (metis One_nat_def Suc_pred less_eq_Suc_le nth_mem)

lemma walk_iff:
  assumes "numbers_known steps"
  shows "(\<exists>later. visit_all steps [] [] [1..<Suc (length steps)] = Inr later) \<longleftrightarrow> acyclic (waits_on steps)"
proof
  assume "\<exists>later. visit_all steps [] [] [1..<Suc (length steps)] = Inr later"
  then obtain later where "in_order steps later" "set [1..<Suc (length steps)] \<subseteq> set later"
    using visit_in_order(2) [of steps "[]" "[]"] by fastforce
  then show "acyclic (waits_on steps)" by (intro in_order_acyclic [of steps later]) (auto simp: waits_on_def)
next
  assume "acyclic (waits_on steps)"
  then show "\<exists>later. visit_all steps [] [] [1..<Suc (length steps)] = Inr later"
    using known_edges [OF assms] by (intro visit_acyclic(2)) auto
qed

subsection \<open>What an accepted plan is\<close>

definition nothing_ahead :: "PlanStep list \<Rightarrow> bool" where
  "nothing_ahead steps \<longleftrightarrow>
     (\<forall>i < length steps. \<forall>j \<in> set (ps_blocked_by (steps ! i)).
        ps_status (steps ! i) \<in> {ACTIVE_STATUS, ''completed''} \<longrightarrow> ps_status (steps ! (j - 1)) = ''completed'')"

lemma ahead_of_None: "ahead_of steps = None \<longleftrightarrow> nothing_ahead steps"
  by (auto simp: ahead_of_def nothing_ahead_def)

lemma blocked_numbers_Inr:
  "blocked_numbers index count vs = Inr ns \<Longrightarrow>
     vs = map (\<lambda>n. PInt (int n)) ns \<and> (\<forall>n \<in> set ns. 1 \<le> n \<and> n \<le> count \<and> n \<noteq> Suc index)"
proof (induction vs arbitrary: ns)
  case (Cons v vs)
  from Cons.prems obtain n ms where step: "v = PInt n" "1 \<le> n" "n \<le> int count" "n \<noteq> int index + 1"
    "blocked_numbers index count vs = Inr ms" "ns = nat n # ms"
    by (auto split: pyval.splits if_splits sum.splits)
  then have "1 \<le> nat n \<and> nat n \<le> count \<and> nat n \<noteq> Suc index" and "int (nat n) = n" by linarith+
  with Cons.IH [OF step(5)] step(1,6) show ?case by simp
qed simp

lemma blocked_numbers_numbers:
  "\<forall>n \<in> set ns. 1 \<le> n \<and> n \<le> count \<and> n \<noteq> Suc index \<Longrightarrow> blocked_numbers index count (map (\<lambda>n. PInt (int n)) ns) = Inr ns"
  by (induction ns) auto

text \<open>What a validated step is.\<close>

definition step_ok :: "nat \<Rightarrow> nat \<Rightarrow> PlanStep \<Rightarrow> bool" where
  "step_ok index count s \<longleftrightarrow>
     ps_title s \<noteq> [] \<and> str_strip (ps_title s) = ps_title s \<and> length (ps_title s) \<le> MAX_TITLE_CHARS
     \<and> ps_status s \<in> set PLAN_STATUSES
     \<and> str_strip (ps_note s) = ps_note s \<and> length (ps_note s) \<le> MAX_NOTE_CHARS
     \<and> (\<forall>n \<in> set (ps_blocked_by s). 1 \<le> n \<and> n \<le> count \<and> n \<noteq> Suc index)
     \<and> sorted (ps_blocked_by s) \<and> distinct (ps_blocked_by s) \<and> length (ps_blocked_by s) \<le> MAX_BLOCKED_BY"

lemma str_strip_idem: "str_strip (str_strip s) = str_strip s"
proof -
  define t where "t = dropWhile is_space s"
  have front: "dropWhile is_space t = t" by (simp add: t_def)
  obtain u where u: "t = rev (dropWhile is_space (rev t)) @ u"
    by (metis rev_append rev_rev_ident takeWhile_dropWhile_id)
  define v where "v = rev (dropWhile is_space (rev t))"
  have "dropWhile is_space v = v"
  proof (cases v)
    case (Cons c r)
    from u have "t = v @ u" by (fold v_def)
    with Cons have "t = c # r @ u" by simp
    moreover from front have "\<not> is_space c" if "t = c # w" for w
      by (metis dropWhile.simps(2) impossible_Cons length_dropWhile_le order_refl that)
    ultimately have "\<not> is_space c" by blast
    with Cons show ?thesis by simp
  qed simp
  then have "str_strip v = rev (dropWhile is_space (rev v))" by (simp add: str_strip_def)
  also have "\<dots> = v" by (simp add: v_def)
  finally show ?thesis by (simp add: v_def t_def str_strip_def)
qed

lemma read_blocked_by_ok:
  assumes "read_blocked_by raw index count = Inr ns"
  shows "(\<forall>n \<in> set ns. 1 \<le> n \<and> n \<le> count \<and> n \<noteq> Suc index) \<and> sorted ns \<and> distinct ns \<and> length ns \<le> MAX_BLOCKED_BY"
proof (cases "raw = PNone \<or> raw = PList []")
  case True
  with assms show ?thesis by (auto simp: read_blocked_by_def)
next
  case False
  with assms obtain vs ms where vs: "raw = PList vs" "length vs \<le> MAX_BLOCKED_BY" "blocked_numbers index count vs = Inr ms"
    "ns = sort (remdups ms)"
    by (auto simp: read_blocked_by_def split: pyval.splits if_splits sum.splits)
  from blocked_numbers_Inr [OF vs(3)] have "length ms = length vs" and "\<forall>n \<in> set ms. 1 \<le> n \<and> n \<le> count \<and> n \<noteq> Suc index" by auto
  moreover have "length ns \<le> length ms" by (simp add: vs(4) length_remdups_leq)
  ultimately show ?thesis using vs(2,4) by simp
qed

lemma read_blocked_by_numbers:
  assumes "\<forall>n \<in> set ns. 1 \<le> n \<and> n \<le> count \<and> n \<noteq> Suc index" "sorted ns" "distinct ns" "length ns \<le> MAX_BLOCKED_BY"
  shows "read_blocked_by (PList (map (\<lambda>n. PInt (int n)) ns)) index count = Inr ns"
  using assms blocked_numbers_numbers [OF assms(1)]
  by (auto simp: read_blocked_by_def sorted_sort_id distinct_remdups_id)

lemma read_step_ok:
  assumes "read_step index count entry = Inr s"
  shows "step_ok index count s"
proof -
  from assms obtain d where d: "entry = PDict d" by (auto simp: read_step_def split: pyval.splits)
  from assms [unfolded read_step_def d] have blocked: "read_blocked_by (dict_get d ''blocked_by'') index count = Inr (ps_blocked_by s)"
    by (simp add: Let_def split: if_splits sum.splits) auto
  from assms d show ?thesis
    unfolding step_ok_def using read_blocked_by_ok [OF blocked]
    by (simp add: read_step_def Let_def split: if_splits sum.splits) (auto simp: str_strip_idem PLAN_STATUSES_def)
qed

lemma status_stripped: "st \<in> set PLAN_STATUSES \<Longrightarrow> str_strip st = st \<and> st \<noteq> []"
  by (auto simp: PLAN_STATUSES_def str_strip_def is_space_def)

lemma to_dict_fields:
  "get_or_text d ''title'' [] = ps_title s \<and> get_or_text d ''status'' ''pending'' = ps_status s
     \<and> get_or_text d ''note'' [] = ps_note s
     \<and> dict_get d ''blocked_by'' = (if ps_blocked_by s = [] then PNone else PList (map (\<lambda>n. PInt (int n)) (ps_blocked_by s)))"
  if "to_dict s = PDict d"
  using that by (auto simp: to_dict_def get_or_text_def dict_get_def)

lemma read_step_to_dict:
  assumes "step_ok index count s"
  shows "read_step index count (to_dict s) = Inr s"
proof -
  obtain d where d: "to_dict s = PDict d" by (simp add: to_dict_def)
  have numbers: "read_blocked_by (dict_get d ''blocked_by'') index count = Inr (ps_blocked_by s)"
    using assms to_dict_fields [OF d] read_blocked_by_numbers [of "ps_blocked_by s" count index]
    by (auto simp: step_ok_def read_blocked_by_def)
  have "str_strip (ps_status s) = ps_status s \<and> ps_status s \<noteq> []" using assms by (intro status_stripped) (simp add: step_ok_def)
  with assms numbers to_dict_fields [OF d] show ?thesis by (simp add: d read_step_def Let_def step_ok_def)
qed

lemma read_steps_ok:
  "read_steps index count entries = Inr ss \<Longrightarrow>
     length ss = length entries \<and> (\<forall>k < length ss. step_ok (index + k) count (ss ! k))"
proof (induction entries arbitrary: index ss)
  case (Cons e es)
  from Cons.prems obtain s rest where step: "read_step index count e = Inr s" "read_steps (Suc index) count es = Inr rest" "ss = s # rest"
    by (auto split: sum.splits)
  have "step_ok (index + k) count (ss ! k)" if "k < length ss" for k
    using that Cons.IH [OF step(2)] read_step_ok [OF step(1)] by (cases k) (auto simp: step(3))
  with Cons.IH [OF step(2)] step(3) show ?case by simp
qed simp

lemma read_steps_to_dict:
  "\<forall>k < length ss. step_ok (index + k) count (ss ! k) \<Longrightarrow> read_steps index count (map to_dict ss) = Inr ss"
proof (induction ss arbitrary: index)
  case (Cons s ss)
  from Cons.prems have "read_step index count (to_dict s) = Inr s" using read_step_to_dict by fastforce
  moreover from Cons.prems have "read_steps (Suc index) count (map to_dict ss) = Inr ss" by (intro Cons.IH) fastforce
  ultimately show ?case by simp
qed simp

text \<open>What an accepted plan is.\<close>

definition plan_ok :: "PlanStep list \<Rightarrow> bool" where
  "plan_ok ss \<longleftrightarrow>
     1 \<le> length ss \<and> length ss \<le> MAX_PLAN_STEPS \<and> (\<forall>k < length ss. step_ok k (length ss) (ss ! k))
     \<and> length (active ss) \<le> 1 \<and> nothing_ahead ss \<and> acyclic (waits_on ss)"

lemma steps_known: "\<forall>k < length ss. step_ok k (length ss) (ss ! k) \<Longrightarrow> numbers_known ss"
  by (force simp: numbers_known_def step_ok_def in_set_conv_nth)

lemma check_dependencies_iff:
  "numbers_known ss \<Longrightarrow> check_dependencies ss = None \<longleftrightarrow> nothing_ahead ss \<and> acyclic (waits_on ss)"
  by (simp add: check_dependencies_def ahead_of_None [symmetric] walk_iff [symmetric] split: option.splits sum.splits)

lemma normalize_steps_ok:
  assumes "normalize_steps raw = Inr ss"
  shows "plan_ok ss"
proof -
  from assms obtain entries where read: "entries \<noteq> []" "length entries \<le> MAX_PLAN_STEPS"
    "read_steps 0 (length entries) entries = Inr ss" "length (active ss) \<le> 1" "check_dependencies ss = None"
    by (auto simp: normalize_steps_def split: pyval.splits if_splits sum.splits option.splits)
  with read_steps_ok [OF read(3)] have "length ss = length entries" and ok: "\<forall>k < length ss. step_ok k (length ss) (ss ! k)" by auto
  with read check_dependencies_iff [OF steps_known [OF ok]] show ?thesis by (cases entries) (auto simp: plan_ok_def)
qed

lemma normalize_steps_to_dict:
  assumes "plan_ok ss"
  shows "normalize_steps (PList (map to_dict ss)) = Inr ss"
proof -
  from assms have ok: "\<forall>k < length ss. step_ok k (length ss) (ss ! k)" by (simp add: plan_ok_def)
  have "read_steps 0 (length ss) (map to_dict ss) = Inr ss" using ok by (intro read_steps_to_dict) simp
  moreover have "check_dependencies ss = None" using assms check_dependencies_iff [OF steps_known [OF ok]] by (simp add: plan_ok_def)
  moreover have "ss \<noteq> []" "length ss \<le> MAX_PLAN_STEPS" "\<not> length (active ss) > 1" using assms by (auto simp: plan_ok_def)
  ultimately show ?thesis by (simp add: normalize_steps_def)
qed

subsection \<open>Properties\<close>

text \<open>
  C19: A list of steps is a plan the validation accepts, for some proposal of the model, exactly when it has one to
  twenty well-formed steps, at most one in progress, none that has started or finished while a step it waits on is not
  completed, and no step that waits on itself through others: the depth-first search refuses exactly the plans
  whose waiting relation has a cycle.
\<close>

theorem accepted_plans_exact:
  "(\<exists>raw. normalize_steps raw = Inr ss) \<longleftrightarrow>
     1 \<le> length ss \<and> length ss \<le> MAX_PLAN_STEPS
     \<and> list_all (\<lambda>k. step_ok k (length ss) (ss ! k)) [0..<length ss]
     \<and> length (active ss) \<le> 1 \<and> nothing_ahead ss \<and> acyclic (waits_on ss)"
proof -
  have "plan_ok ss \<longleftrightarrow> 1 \<le> length ss \<and> length ss \<le> MAX_PLAN_STEPS
     \<and> list_all (\<lambda>k. step_ok k (length ss) (ss ! k)) [0..<length ss]
     \<and> length (active ss) \<le> 1 \<and> nothing_ahead ss \<and> acyclic (waits_on ss)"
    by (auto simp: plan_ok_def list_all_iff)
  then show ?thesis using normalize_steps_ok normalize_steps_to_dict by blast
qed

text \<open>
  C20: A plan the executor refuses leaves the store exactly as it was. One it accepts replaces the plan of this
  conversation and account and no other, and reading it back validates and gives exactly the steps, turn, counts and
  current step that the call returned, with the creation time of the first plan of the conversation.
\<close>

theorem updated_plan_reads_back:
  "case update_plan args sid owner turn (Some w) of
     (Inl err, w') \<Rightarrow> w' = Some w
   | (Inr view, w') \<Rightarrow>
       (case w' of None \<Rightarrow> False
        | Some w1 \<Rightarrow>
            plan_rows w1 = (plan_rows w)((sid, owner) := plan_rows w1 (sid, owner))
            \<and> load_plan w1 sid owner = Some (view\<lparr>pv_created_at := Some
                (case plan_rows w (sid, owner) of None \<Rightarrow> plan_clock w | Some r \<Rightarrow> pr_created_at r)\<rparr>)
            \<and> pv_turn_id view = turn)"
proof (cases "normalize_steps (dict_get args ''steps'')")
  case (Inl err)
  then show ?thesis by (simp add: update_plan_def)
next
  case (Inr ss)
  then have "normalize_steps (PList (map to_dict ss)) = Inr ss" using normalize_steps_ok normalize_steps_to_dict by blast
  with Inr show ?thesis by (simp add: update_plan_def save_plan_def save_agent_plan_def load_plan_def Let_def)
qed

end
