(* ===== verification/Text_Edit.thy ===== *)
theory Text_Edit
  imports Patch_Selection
begin

text \<open>
  Editing the text of a file (\<^verbatim>\<open>tools/filesystem.py\<close>): the comparison of two lines up to white space, the one
  place a quoted text identifies, and the three modes of an edit. Texts are decoded; reading and writing files is
  in \<open>File_Writes\<close>.
\<close>

text \<open>A refusal the code returns: its type, its details and the hunks it rejects.\<close>

datatype edit_failure = Failure (failure_type: string) (failure_details: pydict) (rejected_hunks: "nat list")

abbreviation refuse :: "string \<Rightarrow> edit_failure" where
  "refuse t \<equiv> Failure t [] []"

subsection \<open>White space\<close>

definition lstrip :: "string \<Rightarrow> string" where
  "lstrip s = dropWhile is_space s"

definition rstrip :: "string \<Rightarrow> string" where
  "rstrip s = rev (dropWhile is_space (rev s))"

definition end_of_line :: "char \<Rightarrow> bool" where
  "end_of_line c \<longleftrightarrow> c = CHR 0x0D \<or> c = CHR 0x0A"

text \<open>\<^verbatim>\<open>rstrip("\r\n")\<close>.\<close>

definition rstrip_eol :: "string \<Rightarrow> string" where
  "rstrip_eol s = rev (dropWhile end_of_line (rev s))"

definition leading_whitespace :: "string \<Rightarrow> string" where
  "leading_whitespace line = take (length line - length (lstrip line)) line"

definition tabs_as_spaces :: "string \<Rightarrow> string" where
  "tabs_as_spaces s = map (\<lambda>c. if c = CHR 0x09 then CHR '' '' else c) s"

definition same_line :: "string \<Rightarrow> string \<Rightarrow> bool" where
  "same_line left right =
     (if left = right then True
      else (let l = rstrip left; r = rstrip right
            in l = r
               \<or> lstrip l = lstrip r \<and> lstrip l \<noteq> []
                  \<and> str_strip (tabs_as_spaces (leading_whitespace l)) = []
                  \<and> str_strip (tabs_as_spaces (leading_whitespace r)) = []))"

text \<open>A line of \<^verbatim>\<open>splitlines(keepends=True)\<close> without its line break.\<close>

definition line_text :: "string \<Rightarrow> string" where
  "line_text l =
     (if ends_with l [CHR 0x0D, CHR 0x0A] then take (length l - 2) l
      else if l \<noteq> [] \<and> line_break (last l) then butlast l else l)"

definition bare_lines :: "string \<Rightarrow> string list" where
  "bare_lines s = map line_text (splitlines s)"

subsection \<open>The place a quoted text identifies\<close>

definition occurs_at :: "string \<Rightarrow> string \<Rightarrow> nat \<Rightarrow> bool" where
  "occurs_at s pat i \<longleftrightarrow> i + length pat \<le> length s \<and> take (length pat) (drop i s) = pat"

definition str_find :: "string \<Rightarrow> string \<Rightarrow> nat \<Rightarrow> nat option" where
  "str_find s pat from = List.find (occurs_at s pat) [from..<length s + 1 - length pat]"

definition offset_of :: "string list \<Rightarrow> nat \<Rightarrow> nat" where
  "offset_of ls k = length (concat (take k ls))"

definition lines_match_at :: "string list \<Rightarrow> string list \<Rightarrow> nat \<Rightarrow> bool" where
  "lines_match_at ls needle k \<longleftrightarrow> (\<forall>d < length needle. same_line (rstrip_eol (ls ! (k + d))) (needle ! d))"

definition whitespace_tolerant_spans :: "string \<Rightarrow> string \<Rightarrow> (nat \<times> nat) list" where
  "whitespace_tolerant_spans s old =
     (let needle = bare_lines old; ls = splitlines s
      in if needle = [] then []
         else map (\<lambda>k. (offset_of ls k, offset_of ls (k + length needle)))
                (filter (lines_match_at ls needle) [0..<length ls + 1 - length needle]))"

definition unique_match :: "string \<Rightarrow> string \<Rightarrow> edit_failure + nat \<times> nat" where
  "unique_match s old =
     (if old = [] then Inl (refuse ''old_text_empty'')
      else case str_find s old 0 of
        Some first \<Rightarrow>
          if str_find s old (first + 1) \<noteq> None then Inl (refuse ''old_text_not_unique'')
          else Inr (first, first + length old)
      | None \<Rightarrow>
          (case whitespace_tolerant_spans s old of
             [] \<Rightarrow> Inl (refuse ''old_text_not_found'')
           | [span] \<Rightarrow> Inr span
           | _ \<Rightarrow> Inl (refuse ''old_text_not_unique'')))"

subsection \<open>The edits\<close>

definition indent_delta :: "string \<Rightarrow> string \<Rightarrow> string" where
  "indent_delta matched quoted =
     (case (filter (\<lambda>l. str_strip l \<noteq> []) (bare_lines matched), filter (\<lambda>l. str_strip l \<noteq> []) (bare_lines quoted)) of
        (m # _, q # _) \<Rightarrow>
          (let file_indent = leading_whitespace m; quote_indent = leading_whitespace q
           in if starts_with file_indent quote_indent then drop (length quote_indent) file_indent else [])
      | _ \<Rightarrow> [])"

definition reindented :: "string \<Rightarrow> string \<Rightarrow> string" where
  "reindented s delta =
     (if delta = [] then s else concat (map (\<lambda>l. if str_strip l \<noteq> [] then delta @ l else l) (splitlines s)))"

text \<open>The replacement of a matched text: as given, or moved to the file's indentation.\<close>

definition adapted :: "string \<Rightarrow> string \<Rightarrow> string \<Rightarrow> string" where
  "adapted matched old new =
     (if matched = old then new
      else (let r = reindented new (indent_delta matched old)
            in if ends_with matched [CHR 0x0A] \<and> \<not> ends_with r [CHR 0x0A] then r @ [CHR 0x0A] else r))"

definition replace_once :: "string \<Rightarrow> string \<Rightarrow> string \<Rightarrow> edit_failure + string" where
  "replace_once before old new =
     (case unique_match before old of
        Inl f \<Rightarrow> Inl f
      | Inr (i, j) \<Rightarrow> Inr (take i before @ adapted (take (j - i) (drop i before)) old new @ drop j before))"

function str_replace :: "string \<Rightarrow> string \<Rightarrow> string \<Rightarrow> string" where
  "str_replace s old new =
     (if old = [] \<or> s = [] then s
      else if starts_with s old then new @ str_replace (drop (length old) s) old new
      else hd s # str_replace (tl s) old new)"
  by pat_completeness auto
termination
  by (relation "measure (\<lambda>(s, old, new). length s)") auto

declare str_replace.simps [simp del]

definition insert_after :: "string \<Rightarrow> string \<Rightarrow> int \<Rightarrow> edit_failure + string" where
  "insert_after before new n =
     (let ls = splitlines before; k = nat n
      in if n < 0 \<or> n > int (length ls)
         then Inl (Failure ''insert_line_out_of_range'' [(''line_count'', PInt (int (length ls)))] [])
         else (let ls1 = (if k \<noteq> 0 \<and> \<not> ends_with (ls ! (k - 1)) [CHR 0x0A] then ls[k - 1 := ls ! (k - 1) @ [CHR 0x0A]] else ls);
                   inserted = (if ends_with new [CHR 0x0A] \<or> new = [] then new else new @ [CHR 0x0A])
               in Inr (concat (take k ls1) @ inserted @ concat (drop k ls1))))"

definition replace_every :: "string \<Rightarrow> string \<Rightarrow> string \<Rightarrow> edit_failure + string" where
  "replace_every before old new =
     (if str_find before old 0 = None then Inl (refuse ''old_text_not_found'') else Inr (str_replace before old new))"

subsection \<open>Two lines are the same up to white space at their ends\<close>

lemma strip_alt: "str_strip s = rstrip (lstrip s)"
  by (simp add: str_strip_def rstrip_def lstrip_def)

lemma dropWhile_all: "(\<forall>x \<in> set (dropWhile P s). P x) \<longleftrightarrow> (\<forall>x \<in> set s. P x)"
  by (induction s) auto

lemma dropWhile_rev_commute: "dropWhile P (rev (dropWhile P (rev s))) = rev (dropWhile P (rev (dropWhile P s)))"
proof (induction s)
  case (Cons c s)
  show ?case
  proof (cases "\<forall>x \<in> set s. P x")
    case True
    then have e1: "dropWhile P s = []" and e2: "dropWhile P (rev s) = []" by simp_all
    then have "dropWhile P (rev s @ [c]) = (if P c then [] else [c])" by (simp add: dropWhile_append)
    then show ?thesis by (simp add: e1 del: dropWhile_eq_Nil_conv)
  next
    case False
    then have "dropWhile P (rev s) \<noteq> []" by auto
    then have "dropWhile P (rev (c # s)) = dropWhile P (rev s) @ [c]" by (simp add: dropWhile_append)
    with Cons show ?thesis by (auto simp: dropWhile_append)
  qed
qed simp

lemma strip_rstrip: "lstrip (rstrip s) = str_strip s"
  by (simp add: strip_alt lstrip_def rstrip_def dropWhile_rev_commute)

lemma take_lead: "take (length s - length (dropWhile P s)) s = takeWhile P s"
  by (metis add_diff_cancel_right' append_eq_conv_conj length_append takeWhile_dropWhile_id)

lemma leading_blank: "str_strip (tabs_as_spaces (leading_whitespace s)) = []"
proof -
  have "is_space (CHR '' '')" by (simp add: is_space_def)
  then have "\<forall>c \<in> set (tabs_as_spaces (leading_whitespace s)). is_space c"
    by (auto simp: tabs_as_spaces_def leading_whitespace_def lstrip_def take_lead dest: set_takeWhileD)
  then show ?thesis by (simp add: str_strip_def dropWhile_all)
qed

lemma rstrip_nothing: "str_strip s = [] \<Longrightarrow> rstrip s = []"
  by (simp add: str_strip_def rstrip_def dropWhile_all)

lemma same_line_iff: "same_line l r \<longleftrightarrow> str_strip l = str_strip r"
proof
  assume "same_line l r"
  then show "str_strip l = str_strip r"
    by (auto simp: same_line_def Let_def strip_rstrip [symmetric] split: if_splits)
next
  assume s: "str_strip l = str_strip r"
  then have "str_strip l = [] \<Longrightarrow> rstrip l = rstrip r" using rstrip_nothing by metis
  with s show "same_line l r" by (auto simp: same_line_def Let_def strip_rstrip leading_blank)
qed

lemma strip_rstrip_eol: "str_strip (rstrip_eol s) = str_strip s"
proof -
  have "dropWhile is_space (dropWhile end_of_line t) = dropWhile is_space t" for t
    by (induction t) (auto simp: end_of_line_def is_space_def)
  then have "rstrip (rstrip_eol s) = rstrip s" by (simp add: rstrip_def rstrip_eol_def)
  then show ?thesis by (metis strip_rstrip)
qed

subsection \<open>An edit replaces the one text it names\<close>

lemma occurs_at_iff: "occurs_at s pat i \<longleftrightarrow> (\<exists>a c. s = a @ pat @ c \<and> length a = i)"
proof
  assume o: "occurs_at s pat i"
  then have "s = take i s @ pat @ drop (i + length pat) s"
    by (metis append_take_drop_id drop_drop occurs_at_def add.commute)
  moreover have "length (take i s) = i" using o by (simp add: occurs_at_def)
  ultimately show "\<exists>a c. s = a @ pat @ c \<and> length a = i" by blast
qed (auto simp: occurs_at_def)

lemma find_upt_None: "List.find P [a..<b] = None \<longleftrightarrow> (\<forall>i. a \<le> i \<and> i < b \<longrightarrow> \<not> P i)"
  by (auto simp: find_None_iff)

lemma find_upt_Some: "List.find P [a..<b] = Some i \<longleftrightarrow> a \<le> i \<and> i < b \<and> P i \<and> (\<forall>j. a \<le> j \<and> j < i \<longrightarrow> \<not> P j)"
proof
  assume "List.find P [a..<b] = Some i"
  then obtain k where k: "k < b - a" "P (a + k)" "i = a + k" "\<forall>j < k. \<not> P (a + j)"
    by (auto simp: find_Some_iff)
  then show "a \<le> i \<and> i < b \<and> P i \<and> (\<forall>j. a \<le> j \<and> j < i \<longrightarrow> \<not> P j)"
    by (metis add_diff_inverse_nat le_add1 less_diff_conv add.commute nat_add_left_cancel_less not_less)
next
  assume "a \<le> i \<and> i < b \<and> P i \<and> (\<forall>j. a \<le> j \<and> j < i \<longrightarrow> \<not> P j)"
  then show "List.find P [a..<b] = Some i" by (auto simp: find_Some_iff intro!: exI [of _ "i - a"])
qed

lemma str_find_None: "str_find s pat from = None \<longleftrightarrow> (\<forall>i \<ge> from. \<not> occurs_at s pat i)"
  by (auto simp: str_find_def find_upt_None occurs_at_def)

lemma str_find_Some: "str_find s pat from = Some i \<longleftrightarrow> from \<le> i \<and> occurs_at s pat i \<and> (\<forall>j. from \<le> j \<and> j < i \<longrightarrow> \<not> occurs_at s pat j)"
  by (auto simp: str_find_def find_upt_Some occurs_at_def)

lemma filter_upt_one: "filter P [0..<n] = [k] \<longleftrightarrow> k < n \<and> P k \<and> (\<forall>j < n. P j \<longrightarrow> j = k)"
proof
  assume f: "filter P [0..<n] = [k]"
  have "j \<in> set (filter P [0..<n]) \<longleftrightarrow> j = k" for j by (simp only: f) simp
  then have "j < n \<and> P j \<longleftrightarrow> j = k" for j by simp
  then show "k < n \<and> P k \<and> (\<forall>j < n. P j \<longrightarrow> j = k)" by blast
next
  assume k: "k < n \<and> P k \<and> (\<forall>j < n. P j \<longrightarrow> j = k)"
  then have s: "set (filter P [0..<n]) = {k}" by auto
  then have "length (filter P [0..<n]) = 1" using distinct_card [of "filter P [0..<n]"] by simp
  then obtain x where "filter P [0..<n] = [x]" by (metis One_nat_def length_0_conv length_Suc_conv)
  with s show "filter P [0..<n] = [k]" by simp
qed

text \<open>The text occurs, and only there; the lines occur up to white space, and only there.\<close>

definition one_occurrence :: "string \<Rightarrow> string \<Rightarrow> string \<Rightarrow> string \<Rightarrow> bool" where
  "one_occurrence s pat a c \<longleftrightarrow> s = a @ pat @ c \<and> (\<forall>a' c'. s = a' @ pat @ c' \<longrightarrow> a' = a)"

definition same_lines :: "string list \<Rightarrow> string list \<Rightarrow> bool" where
  "same_lines ls ls' \<longleftrightarrow> map str_strip ls = map str_strip ls'"

definition one_block :: "string \<Rightarrow> string \<Rightarrow> string list \<Rightarrow> string list \<Rightarrow> string list \<Rightarrow> bool" where
  "one_block s old ls ms rs \<longleftrightarrow>
     splitlines s = ls @ ms @ rs \<and> same_lines ms (bare_lines old)
     \<and> (\<forall>ls' ms' rs'. splitlines s = ls' @ ms' @ rs' \<and> same_lines ms' (bare_lines old) \<longrightarrow> ls' = ls)"

lemma lines_match_iff:
  assumes "k + length needle \<le> length ls"
  shows "lines_match_at ls needle k \<longleftrightarrow> same_lines (take (length needle) (drop k ls)) needle"
  using assms by (auto simp: lines_match_at_def same_lines_def same_line_iff strip_rstrip_eol list_eq_iff_nth_eq)

lemma block_at_iff:
  "(\<exists>ms rs. ls = ps @ ms @ rs \<and> same_lines ms needle) \<longleftrightarrow>
     ps = take (length ps) ls \<and> length ps + length needle \<le> length ls \<and> lines_match_at ls needle (length ps)"
proof
  assume "\<exists>ms rs. ls = ps @ ms @ rs \<and> same_lines ms needle"
  then obtain ms rs where ls: "ls = ps @ ms @ rs" and s: "same_lines ms needle" by blast
  then have "length ms = length needle" by (metis length_map same_lines_def)
  with ls s show "ps = take (length ps) ls \<and> length ps + length needle \<le> length ls \<and> lines_match_at ls needle (length ps)"
    by (auto simp: lines_match_iff)
next
  assume r: "ps = take (length ps) ls \<and> length ps + length needle \<le> length ls \<and> lines_match_at ls needle (length ps)"
  let ?k = "length ps" and ?w = "length needle"
  have "ls = ps @ take ?w (drop ?k ls) @ drop (?k + ?w) ls" using r by (metis append_take_drop_id drop_drop add.commute)
  with r show "\<exists>ms rs. ls = ps @ ms @ rs \<and> same_lines ms needle" by (metis lines_match_iff)
qed

lemma unique_match_exact:
  assumes "old \<noteq> []" and "occurs_at s old k"
  shows "unique_match s old = Inr (i, j) \<longleftrightarrow> (\<forall>m. occurs_at s old m \<longleftrightarrow> m = i) \<and> j = i + length old"
proof -
  obtain f where f: "str_find s old 0 = Some f" using assms(2) str_find_None [of s old 0] by (cases "str_find s old 0") auto
  have first: "occurs_at s old f" and least: "occurs_at s old m \<Longrightarrow> f \<le> m" for m
    using f by (auto simp: str_find_Some) (metis not_less)
  show ?thesis
  proof (cases "str_find s old (f + 1) = None")
    case True
    then have "occurs_at s old m \<longleftrightarrow> m = f" for m
      using first least [of m] by (cases "m = f") (auto simp: str_find_None)
    with True assms(1) f show ?thesis by (auto simp: unique_match_def)
  next
    case False
    then obtain m where "f + 1 \<le> m" "occurs_at s old m" unfolding str_find_None by blast
    with False assms(1) f first show ?thesis by (auto simp: unique_match_def)
  qed
qed

lemma bare_lines_nil: "bare_lines old = [] \<longleftrightarrow> old = []"
proof -
  have "splitlines old = [] \<longleftrightarrow> old = []" using concat_splitlines [of old] by (cases old) (auto dest: arg_cong [where f = concat])
  then show ?thesis by (simp add: bare_lines_def)
qed

lemma one_block_iff:
  "(\<exists>ms rs. one_block s old ls ms rs) \<longleftrightarrow>
     ls = take (length ls) (splitlines s)
     \<and> filter (lines_match_at (splitlines s) (bare_lines old)) [0..<length (splitlines s) + 1 - length (bare_lines old)] = [length ls]"
  (is "?L \<longleftrightarrow> ?R")
proof -
  let ?ls = "splitlines s" and ?n = "bare_lines old"
  have here: "(\<exists>ms rs. ?ls = ps @ ms @ rs \<and> same_lines ms ?n) \<longleftrightarrow>
      ps = take (length ps) ?ls \<and> length ps < length ?ls + 1 - length ?n \<and> lines_match_at ?ls ?n (length ps)" for ps
    unfolding block_at_iff by auto
  show ?thesis
  proof
    assume ?L
    then have one: "\<exists>ms rs. ?ls = ls @ ms @ rs \<and> same_lines ms ?n"
      and only: "(\<exists>ms rs. ?ls = ps @ ms @ rs \<and> same_lines ms ?n) \<Longrightarrow> ps = ls" for ps
      by (auto simp: one_block_def)
    have "j = length ls" if "j < length ?ls + 1 - length ?n" "lines_match_at ?ls ?n j" for j
    proof -
      have "length (take j ?ls) = j" using that(1) by simp
      with that have "\<exists>ms rs. ?ls = take j ?ls @ ms @ rs \<and> same_lines ms ?n" unfolding here by simp
      with only \<open>length (take j ?ls) = j\<close> show ?thesis by metis
    qed
    with one show ?R unfolding here filter_upt_one by blast
  next
    assume r: ?R
    then have "\<exists>ms rs. ?ls = ls @ ms @ rs \<and> same_lines ms ?n" unfolding here filter_upt_one by blast
    moreover have "ps = ls" if "\<exists>ms rs. ?ls = ps @ ms @ rs \<and> same_lines ms ?n" for ps
    proof -
      from that r have "length ps = length ls" unfolding here filter_upt_one by blast
      with that r show ?thesis unfolding here by metis
    qed
    ultimately show ?L unfolding one_block_def by blast
  qed
qed

lemma take_two: "length a = k \<Longrightarrow> length b = w \<Longrightarrow> take (k + w) (a @ b @ c) = a @ b"
  by auto

lemma one_block_parts:
  assumes "one_block s old ls ms rs"
  shows "splitlines s = ls @ ms @ rs" and "length ms = length (bare_lines old)"
proof -
  note b = assms [unfolded one_block_def]
  show "splitlines s = ls @ ms @ rs" by (rule conjunct1 [OF b])
  from conjunct1 [OF conjunct2 [OF b]] show "length ms = length (bare_lines old)"
    unfolding same_lines_def by (rule map_eq_imp_length_eq)
qed

abbreviation block_starts :: "string \<Rightarrow> string \<Rightarrow> nat list" where
  "block_starts s old \<equiv>
     filter (lines_match_at (splitlines s) (bare_lines old)) [0..<length (splitlines s) + 1 - length (bare_lines old)]"

lemma tolerant_Inr:
  assumes "old \<noteq> []" and "\<And>m. \<not> occurs_at s old m"
  shows "unique_match s old = Inr (i, j) \<longleftrightarrow>
    (\<exists>k. block_starts s old = [k] \<and> i = offset_of (splitlines s) k \<and> j = offset_of (splitlines s) (k + length (bare_lines old)))"
proof -
  have "str_find s old 0 = None" using assms(2) by (simp add: str_find_None)
  then show ?thesis
    using assms(1) by (auto simp: unique_match_def whitespace_tolerant_spans_def Let_def bare_lines_nil split: list.splits)
qed

lemma block_offsets:
  assumes "one_block s old ls ms rs"
  shows "offset_of (splitlines s) (length ls) = length (concat ls)"
    and "offset_of (splitlines s) (length ls + length (bare_lines old)) = length (concat (ls @ ms))"
  using take_two [OF refl one_block_parts(2) [OF assms], of ls rs]
  by (simp_all add: offset_of_def one_block_parts(1) [OF assms])

lemma unique_match_tolerant:
  assumes "old \<noteq> []" and "\<And>m. \<not> occurs_at s old m"
  shows "unique_match s old = Inr (i, j) \<longleftrightarrow>
    (\<exists>ls ms rs. one_block s old ls ms rs \<and> i = length (concat ls) \<and> j = length (concat (ls @ ms)))"
proof
  assume "unique_match s old = Inr (i, j)"
  then obtain k where k: "block_starts s old = [k]" and ij: "i = offset_of (splitlines s) k"
    "j = offset_of (splitlines s) (k + length (bare_lines old))" using tolerant_Inr [OF assms] by metis
  define ls where "ls = take k (splitlines s)"
  from k have "k \<le> length (splitlines s)" unfolding filter_upt_one by linarith
  then have len: "length ls = k" and "ls = take (length ls) (splitlines s)" by (simp_all add: ls_def)
  with k have "\<exists>ms rs. one_block s old ls ms rs" unfolding one_block_iff len by blast
  then obtain ms rs where b: "one_block s old ls ms rs" by blast
  from block_offsets [OF b] ij have "i = length (concat ls)" "j = length (concat (ls @ ms))" unfolding len by simp_all
  with b show "\<exists>ls ms rs. one_block s old ls ms rs \<and> i = length (concat ls) \<and> j = length (concat (ls @ ms))" by blast
next
  assume "\<exists>ls ms rs. one_block s old ls ms rs \<and> i = length (concat ls) \<and> j = length (concat (ls @ ms))"
  then obtain ls ms rs where b: "one_block s old ls ms rs" and ij: "i = length (concat ls)" "j = length (concat (ls @ ms))" by blast
  then have "block_starts s old = [length ls]" using one_block_iff [of s old ls] by blast
  with block_offsets [OF b] ij show "unique_match s old = Inr (i, j)" unfolding tolerant_Inr [OF assms] by metis
qed

lemma one_occurrence_iff:
  "one_occurrence s pat a c \<longleftrightarrow> s = a @ pat @ c \<and> (\<forall>m. occurs_at s pat m \<longleftrightarrow> m = length a)"
proof
  assume "one_occurrence s pat a c"
  then show "s = a @ pat @ c \<and> (\<forall>m. occurs_at s pat m \<longleftrightarrow> m = length a)"
    unfolding occurs_at_iff one_occurrence_def by blast
next
  assume a: "s = a @ pat @ c \<and> (\<forall>m. occurs_at s pat m \<longleftrightarrow> m = length a)"
  have "a' = a" if "s = a' @ pat @ c'" for a' c'
  proof -
    from that have "occurs_at s pat (length a')" unfolding occurs_at_iff by blast
    with a have "length a' = length a" by blast
    with a that show ?thesis by simp
  qed
  with a show "one_occurrence s pat a c" by (auto simp: one_occurrence_def)
qed

lemma replace_once_Inr:
  "replace_once before old new = Inr after \<longleftrightarrow> (\<exists>i j. unique_match before old = Inr (i, j)
      \<and> after = take i before @ adapted (take (j - i) (drop i before)) old new @ drop j before)"
  by (auto simp: replace_once_def split: sum.splits)

lemma replace_occurrence:
  assumes "old \<noteq> []" and "occurs_at before old k"
  shows "replace_once before old new = Inr after \<longleftrightarrow> (\<exists>a c. one_occurrence before old a c \<and> after = a @ new @ c)"
proof
  assume "replace_once before old new = Inr after"
  then obtain i where i: "\<forall>m. occurs_at before old m \<longleftrightarrow> m = i"
    and after: "after = take i before @ adapted (take (i + length old - i) (drop i before)) old new @ drop (i + length old) before"
    unfolding replace_once_Inr unique_match_exact [OF assms] by blast
  then obtain a c where "before = a @ old @ c" "length a = i" using occurs_at_iff by metis
  with i after show "\<exists>a c. one_occurrence before old a c \<and> after = a @ new @ c"
    unfolding one_occurrence_iff by (intro exI [of _ a] exI [of _ c]) (auto simp: adapted_def)
next
  assume "\<exists>a c. one_occurrence before old a c \<and> after = a @ new @ c"
  then obtain a c where ac: "before = a @ old @ c" "\<forall>m. occurs_at before old m \<longleftrightarrow> m = length a" "after = a @ new @ c"
    unfolding one_occurrence_iff by blast
  then show "replace_once before old new = Inr after" unfolding replace_once_Inr unique_match_exact [OF assms]
    by (intro exI [of _ "length a"] exI [of _ "length a + length old"]) (simp add: adapted_def)
qed

lemma splice_block:
  assumes "one_block before old ls ms rs"
  shows "take (length (concat ls)) before
      @ adapted (take (length (concat (ls @ ms)) - length (concat ls)) (drop (length (concat ls)) before)) old new
      @ drop (length (concat (ls @ ms))) before
    = concat ls @ adapted (concat ms) old new @ concat rs"
proof -
  have "before = concat ls @ concat ms @ concat rs"
    using assms concat_splitlines [of before] by (metis concat_append one_block_def)
  then show ?thesis by simp
qed

lemma replace_block:
  assumes "old \<noteq> []" and "\<And>m. \<not> occurs_at before old m"
  shows "replace_once before old new = Inr after \<longleftrightarrow>
    (\<exists>ls ms rs. one_block before old ls ms rs \<and> after = concat ls @ adapted (concat ms) old new @ concat rs)"
  (is "_ = ?R")
proof
  assume "replace_once before old new = Inr after"
  then obtain i j where u: "unique_match before old = Inr (i, j)"
    and after: "after = take i before @ adapted (take (j - i) (drop i before)) old new @ drop j before"
    unfolding replace_once_Inr by blast
  from u obtain ls ms rs where b: "one_block before old ls ms rs" "i = length (concat ls)" "j = length (concat (ls @ ms))"
    unfolding unique_match_tolerant [OF assms] by blast
  with after splice_block [OF b(1)] show ?R by metis
next
  assume ?R
  then obtain ls ms rs where b: "one_block before old ls ms rs" and after: "after = concat ls @ adapted (concat ms) old new @ concat rs" by blast
  have "unique_match before old = Inr (length (concat ls), length (concat (ls @ ms)))"
    unfolding unique_match_tolerant [OF assms] using b by blast
  with splice_block [OF b, of new] after show "replace_once before old new = Inr after" unfolding replace_once_Inr by metis
qed

text \<open>
  C13: An edit replaces the one text it names. It succeeds exactly when the quoted text occurs in the file exactly once,
  and then replaces that occurrence by the new text and nothing else; or when it does not occur at all, but its lines
  do, up to white space at the ends of lines, and in one place only, and then replaces those whole lines by the new
  text at their indentation. Nothing before or after changes.
\<close>

theorem edit_replaces_named_text:
  "replace_once before old new = Inr after \<longleftrightarrow>
     old \<noteq> [] \<and>
     ((\<exists>a c. one_occurrence before old a c \<and> after = a @ new @ c)
      \<or> (\<nexists>a c. before = a @ old @ c) \<and>
        (\<exists>ls ms rs. one_block before old ls ms rs \<and> after = concat ls @ adapted (concat ms) old new @ concat rs))"
proof (cases "old = []")
  case True
  then show ?thesis by (simp add: replace_once_def unique_match_def)
next
  case ne: False
  show ?thesis
  proof (cases "\<exists>k. occurs_at before old k")
    case True
    then obtain k where k: "occurs_at before old k" by blast
    then have "\<exists>a c. before = a @ old @ c" unfolding occurs_at_iff by blast
    with replace_occurrence [OF ne k] ne show ?thesis by blast
  next
    case False
    then have "\<nexists>a c. before = a @ old @ c" unfolding occurs_at_iff by blast
    moreover from this have "\<not> one_occurrence before old a c" for a c by (auto simp: one_occurrence_def)
    moreover have "replace_once before old new = Inr after \<longleftrightarrow>
      (\<exists>ls ms rs. one_block before old ls ms rs \<and> after = concat ls @ adapted (concat ms) old new @ concat rs)"
      using False by (intro replace_block [OF ne]) blast
    ultimately show ?thesis using ne by blast
  qed
qed

end
