(* ===== verification/Patch_Apply.thy ===== *)
theory Patch_Apply
  imports Text_Edit
begin

text \<open>
  Applying a unified diff to the text of one file (\<^verbatim>\<open>tools/filesystem.py\<close>): parsing its headers and hunks,
  finding the place of each hunk, and putting its lines there; and what a diff of two texts does.
\<close>

subsection \<open>Parsing\<close>

record PatchHunk =
  old_start :: nat
  old_lines :: "string list"
  new_lines :: "string list"

definition slashes :: "string \<Rightarrow> string" where
  "slashes s = map (\<lambda>c. if c = CHR 0x5C then CHR ''/'' else c) s"

definition normalized_patch_path :: "string \<Rightarrow> string" where
  "normalized_patch_path value =
     (let path = slashes (str_strip (takeWhile (\<lambda>c. c \<noteq> CHR 0x09) value))
      in if starts_with path ''a/'' \<or> starts_with path ''b/'' then drop 2 path else path)"

definition digit_char :: "char \<Rightarrow> bool" where
  "digit_char c \<longleftrightarrow> 48 \<le> (of_char c :: nat) \<and> (of_char c :: nat) \<le> 57"

definition read_number :: "string \<Rightarrow> (nat \<times> string) option" where
  "read_number s =
     (case takeWhile digit_char s of [] \<Rightarrow> None | ds \<Rightarrow> Some (dec_value ds, dropWhile digit_char s))"

text \<open>A position and its count, which is one when it is left out.\<close>

definition read_range :: "string \<Rightarrow> (nat \<times> nat \<times> string) option" where
  "read_range s =
     (case read_number s of
        None \<Rightarrow> None
      | Some (start, r) \<Rightarrow>
          if starts_with r '','' then map_option (\<lambda>(count, r'). (start, count, r')) (read_number (tl r))
          else Some (start, 1, r))"

text \<open>The match of \<^verbatim>\<open>_HUNK_HEADER\<close>: the old start and the two counts.\<close>

definition hunk_range :: "string \<Rightarrow> (nat \<times> nat \<times> nat) option" where
  "hunk_range h =
     (if \<not> starts_with h ''@@ -'' then None
      else case read_range (drop 4 h) of
        None \<Rightarrow> None
      | Some (start, old_count, r) \<Rightarrow>
          if \<not> starts_with r '' +'' then None
          else case read_range (drop 2 r) of
            None \<Rightarrow> None
          | Some (_, new_count, r') \<Rightarrow>
              if starts_with r' '' @@'' \<and> (drop 3 r' = [] \<or> hd (drop 3 r') = CHR '' '')
              then Some (start, old_count, new_count) else None)"

definition malformed :: "string \<Rightarrow> edit_failure" where
  "malformed msg = Failure ''malformed_patch'' [(''message'', PStr msg)] []"

definition trim_last :: "string list \<Rightarrow> string list" where
  "trim_last ls = (if ls = [] then ls else butlast ls @ [rstrip_eol (last ls)])"

text \<open>
  The lines of one hunk: \<open>index\<close> is the position of the next line, \<open>previous\<close> the line before it. The result is the
  old and the new lines, the position after the hunk and the lines from there.
\<close>

fun read_hunk :: "nat \<Rightarrow> string \<Rightarrow> string list \<Rightarrow> string list \<Rightarrow> string list
    \<Rightarrow> edit_failure + string list \<times> string list \<times> nat \<times> string list" where
  "read_hunk index previous old new [] = Inr (old, new, index, [])"
| "read_hunk index previous old new (line # rest) =
     (if starts_with line ''@@ '' then Inr (old, new, index, line # rest)
      else if starts_with line ''--- '' \<or> starts_with line ''+++ ''
      then Inl (malformed ''multiple file targets are not supported'')
      else if starts_with line (CHR 0x5C # '' No newline at end of file'')
      then (if starts_with previous ''-'' then read_hunk (index + 1) line (trim_last old) new rest
            else read_hunk (index + 1) line old (trim_last new) rest)
      else case line of
        [] \<Rightarrow> Inl (malformed (''invalid hunk line at line '' @ nat_dec (index + 1)))
      | c # text \<Rightarrow>
          if c = CHR '' '' then read_hunk (index + 1) line (old @ [text]) (new @ [text]) rest
          else if c = CHR ''-'' then read_hunk (index + 1) line (old @ [text]) new rest
          else if c = CHR ''+'' then read_hunk (index + 1) line old (new @ [text]) rest
          else Inl (malformed (''invalid hunk line at line '' @ nat_dec (index + 1))))"

lemma read_hunk_shorter: "read_hunk index previous old new ls = Inr (old', new', index', ls') \<Longrightarrow> length ls' \<le> length ls"
  by (induction index previous old new ls rule: read_hunk.induct) (auto split: if_splits list.splits)

function read_hunks :: "nat \<Rightarrow> string list \<Rightarrow> edit_failure + PatchHunk list" where
  "read_hunks index [] = Inr []"
| "read_hunks index (line # rest) =
     (case hunk_range (rstrip_eol line) of
        None \<Rightarrow> Inl (malformed (''invalid hunk header at line '' @ nat_dec (index + 1)))
      | Some (start, old_count, new_count) \<Rightarrow>
          (case read_hunk (index + 1) line [] [] rest of
             Inl f \<Rightarrow> Inl f
           | Inr (old, new, index', rest') \<Rightarrow>
               if length old \<noteq> old_count \<or> length new \<noteq> new_count then Inl (malformed ''invalid hunk line counts'')
               else (case read_hunks index' rest' of
                       Inl f \<Rightarrow> Inl f
                     | Inr hunks \<Rightarrow> Inr (\<lparr>old_start = start, old_lines = old, new_lines = new\<rparr> # hunks))))"
  by pat_completeness auto
termination
  by (relation "measure (\<lambda>(index, ls). length ls)") (auto dest: read_hunk_shorter)

definition parse_unified_patch :: "string \<Rightarrow> string \<Rightarrow> edit_failure + string \<times> PatchHunk list" where
  "parse_unified_patch patch expected =
     (let lines = splitlines patch
      in if length lines < 3 \<or> \<not> starts_with (lines ! 0) ''--- '' \<or> \<not> starts_with (lines ! 1) ''+++ ''
         then Inl (malformed ''expected unified diff file headers'')
         else (let old_path = normalized_patch_path (drop 4 (lines ! 0));
                   new_path = normalized_patch_path (drop 4 (lines ! 1));
                   operation = (if old_path = ''/dev/null'' then ''create''
                                else if new_path = ''/dev/null'' then ''delete'' else ''update'');
                   target = (if operation = ''create'' then new_path else old_path)
               in if target \<noteq> expected \<or> operation = ''update'' \<and> new_path \<noteq> expected
                  then Inl (Failure ''patch_path_mismatch'' [(''old_path'', PStr old_path), (''new_path'', PStr new_path)] [])
                  else (case read_hunks 2 (drop 2 lines) of
                          Inl f \<Rightarrow> Inl f
                        | Inr [] \<Rightarrow> Inl (malformed ''patch contains no hunks'')
                        | Inr hunks \<Rightarrow> Inr (operation, hunks))))"

subsection \<open>Placing the hunks\<close>

definition matching_starts :: "string list \<Rightarrow> string list \<Rightarrow> nat list" where
  "matching_starts lines needle =
     (let width = length needle;
          places = [0..<length lines + 1 - width];
          exact = filter (\<lambda>i. take width (drop i lines) = needle) places
      in if exact \<noteq> [] then exact
         else filter (\<lambda>i. \<forall>d < width. same_line (rstrip_eol (lines ! (i + d))) (rstrip_eol (needle ! d))) places)"

definition distance :: "nat \<Rightarrow> nat \<Rightarrow> nat" where
  "distance expected i = nat \<bar>int i - int expected\<bar>"

definition nearest_starts :: "nat \<Rightarrow> nat list \<Rightarrow> nat list" where
  "nearest_starts expected starts =
     (let nearest = Min (set (map (distance expected) starts))
      in filter (\<lambda>i. distance expected i = nearest) starts)"

definition hunk_place :: "string list \<Rightarrow> int \<Rightarrow> nat \<Rightarrow> PatchHunk \<Rightarrow> edit_failure + nat" where
  "hunk_place candidate offset number h =
     (let expected = nat (max 0 (int (old_start h) - 1 + offset))
      in if old_lines h = [] then Inr (min expected (length candidate))
         else (let starts = matching_starts candidate (old_lines h)
               in if starts = [] then Inl (Failure ''hunk_context_mismatch'' [] [number])
                  else (case nearest_starts expected starts of
                          [start] \<Rightarrow> Inr start
                        | _ \<Rightarrow> Inl (Failure ''hunk_context_not_unique'' [] [number]))))"

fun apply_hunks :: "string list \<Rightarrow> int \<Rightarrow> nat \<Rightarrow> PatchHunk list \<Rightarrow> edit_failure + string list" where
  "apply_hunks candidate offset number [] = Inr candidate"
| "apply_hunks candidate offset number (h # hs) =
     (case hunk_place candidate offset number h of
        Inl f \<Rightarrow> Inl f
      | Inr start \<Rightarrow>
          apply_hunks (take start candidate @ new_lines h @ drop (start + length (old_lines h)) candidate)
            (offset + int (length (new_lines h)) - int (length (old_lines h))) (number + 1) hs)"

definition patched_text :: "string \<Rightarrow> string \<Rightarrow> PatchHunk list \<Rightarrow> edit_failure + string" where
  "patched_text operation before hunks =
     (case apply_hunks (splitlines before) 0 1 hunks of
        Inl f \<Rightarrow> Inl f
      | Inr lines \<Rightarrow>
          if operation = ''delete'' \<and> concat lines \<noteq> [] then Inl (refuse ''delete_patch_not_empty'') else Inr (concat lines))"

subsection \<open>A diff of two texts\<close>

datatype diff_line = Context string | Removed string | Added string

fun old_side :: "diff_line \<Rightarrow> string list" where
  "old_side (Context l) = [l]" | "old_side (Removed l) = [l]" | "old_side (Added l) = []"

fun new_side :: "diff_line \<Rightarrow> string list" where
  "new_side (Context l) = [l]" | "new_side (Removed l) = []" | "new_side (Added l) = [l]"

fun reversed :: "diff_line \<Rightarrow> diff_line" where
  "reversed (Context l) = Context l" | "reversed (Removed l) = Added l" | "reversed (Added l) = Removed l"

text \<open>A diff is a list of blocks: lines both texts have, and the lines of one hunk; and the lines after the last.\<close>

type_synonym diff = "(string list \<times> diff_line list) list"

definition olds :: "diff_line list \<Rightarrow> string list" where "olds b = concat (map old_side b)"
definition news :: "diff_line list \<Rightarrow> string list" where "news b = concat (map new_side b)"

definition old_text :: "diff \<Rightarrow> string list \<Rightarrow> string list" where
  "old_text d tail = concat (map (\<lambda>(k, b). k @ olds b) d) @ tail"

definition new_text :: "diff \<Rightarrow> string list \<Rightarrow> string list" where
  "new_text d tail = concat (map (\<lambda>(k, b). k @ news b) d) @ tail"

fun diff_hunks :: "nat \<Rightarrow> diff \<Rightarrow> PatchHunk list" where
  "diff_hunks pos [] = []"
| "diff_hunks pos ((k, b) # d) =
     \<lparr>old_start = pos + length k + 1, old_lines = olds b, new_lines = news b\<rparr>
       # diff_hunks (pos + length k + length (olds b)) d"

lemma nearest_exact:
  assumes "distinct starts" and "e \<in> set starts"
  shows "nearest_starts e starts = [e]"
proof -
  have "Min (set (map (distance e) starts)) = 0"
    using assms(2) by (intro Min_eqI) (auto simp: distance_def image_iff intro!: bexI [of _ e])
  moreover have "distance e i = 0 \<longleftrightarrow> i = e" for i by (auto simp: distance_def)
  moreover have "filter (\<lambda>i. i = e) starts = [e]" using assms
    by (induction starts) (auto simp: filter_empty_conv)
  ultimately show ?thesis by (simp add: nearest_starts_def Let_def)
qed

lemma exact_place:
  assumes "old_lines h \<noteq> []" and "candidate = before @ old_lines h @ after" and "int (old_start h) - 1 + offset = int (length before)"
  shows "hunk_place candidate offset number h = Inr (length before)"
proof -
  let ?exact = "filter (\<lambda>i. take (length (old_lines h)) (drop i candidate) = old_lines h) [0..<length candidate + 1 - length (old_lines h)]"
  have "length before \<in> set ?exact" using assms(2) by simp
  then have ne: "?exact \<noteq> []" by (metis empty_iff list.set(1))
  have "matching_starts candidate (old_lines h) = ?exact" unfolding matching_starts_def Let_def by (rule if_P) (rule ne)
  moreover have near: "nearest_starts (length before) ?exact = [length before]"
    using \<open>length before \<in> set ?exact\<close> by (intro nearest_exact) simp_all
  moreover have "nat (max 0 (int (old_start h) - 1 + offset)) = length before" using assms(3) by simp
  ultimately show ?thesis using assms(1) ne unfolding hunk_place_def Let_def by simp
qed

lemma apply_diff:
  assumes "\<forall>(k, b) \<in> set d. olds b \<noteq> []" and "int pos + offset = int (length front)"
  shows "apply_hunks (front @ old_text d tail) offset number (diff_hunks pos d) = Inr (front @ new_text d tail)"
  using assms
proof (induction d arbitrary: front pos offset number)
  case Nil
  then show ?case by (simp add: old_text_def new_text_def)
next
  case (Cons block d)
  obtain k b where block: "block = (k, b)" by fastforce
  let ?h = "\<lparr>old_start = pos + length k + 1, old_lines = olds b, new_lines = news b\<rparr>"
  have split: "front @ old_text ((k, b) # d) tail = (front @ k) @ olds b @ old_text d tail" by (simp add: old_text_def)
  have "hunk_place ((front @ k) @ olds b @ old_text d tail) offset number ?h = Inr (length (front @ k))"
    using Cons.prems block by (intro exact_place) auto
  moreover have "apply_hunks ((front @ k @ news b) @ old_text d tail) (offset + int (length (news b)) - int (length (olds b)))
      (number + 1) (diff_hunks (pos + length k + length (olds b)) d) = Inr ((front @ k @ news b) @ new_text d tail)"
    using Cons.prems by (intro Cons.IH) auto
  ultimately show ?case unfolding block split by (simp add: new_text_def)
qed

subsection \<open>Printing a diff and reading it back\<close>

definition text_line :: "string \<Rightarrow> bool" where
  "text_line l \<longleftrightarrow> l \<noteq> [] \<and> last l = CHR 0x0A \<and> (\<forall>c \<in> set (butlast l). \<not> line_break c)"

fun render_line :: "diff_line \<Rightarrow> string" where
  "render_line (Context l) = CHR '' '' # l"
| "render_line (Removed l) = CHR ''-'' # l"
| "render_line (Added l) = CHR ''+'' # l"

definition range_text :: "nat \<Rightarrow> nat \<Rightarrow> string" where
  "range_text start count = nat_dec start @ '','' @ nat_dec count"

definition render_header :: "nat \<Rightarrow> nat \<Rightarrow> nat \<Rightarrow> nat \<Rightarrow> string" where
  "render_header s n s' n' = ''@@ -'' @ range_text s n @ '' +'' @ range_text s' n' @ '' @@'' @ [CHR 0x0A]"

fun render_hunks :: "nat \<Rightarrow> nat \<Rightarrow> diff \<Rightarrow> string list" where
  "render_hunks pos pos' [] = []"
| "render_hunks pos pos' ((k, b) # d) =
     render_header (pos + length k + 1) (length (olds b)) (pos' + length k + 1) (length (news b))
       # map render_line b @ render_hunks (pos + length k + length (olds b)) (pos' + length k + length (news b)) d"

definition render_diff :: "string \<Rightarrow> diff \<Rightarrow> string" where
  "render_diff path d =
     concat ((''--- a/'' @ path @ [CHR 0x0A]) # (''+++ b/'' @ path @ [CHR 0x0A]) # render_hunks 0 0 d)"

definition plain_path :: "string \<Rightarrow> bool" where
  "plain_path path \<longleftrightarrow> path \<noteq> [] \<and> path \<noteq> ''/dev/null'' \<and> \<not> is_space (last path)
     \<and> (\<forall>c \<in> set path. c \<noteq> CHR 0x09 \<and> c \<noteq> CHR 0x5C \<and> \<not> line_break c)"

fun printable_line :: "diff_line \<Rightarrow> bool" where
  "printable_line (Context l) \<longleftrightarrow> text_line l"
| "printable_line (Removed l) \<longleftrightarrow> text_line l \<and> \<not> starts_with l ''-- ''"
| "printable_line (Added l) \<longleftrightarrow> text_line l \<and> \<not> starts_with l ''++ ''"

definition printable_diff :: "diff \<Rightarrow> bool" where
  "printable_diff d \<longleftrightarrow> d \<noteq> [] \<and> (\<forall>(k, b) \<in> set d. olds b \<noteq> [] \<and> list_all text_line k \<and> list_all printable_line b)"

lemma line_break_newline [simp]: "line_break (CHR 0x0A)"
  by (simp add: line_break_def)

lemma splitlines_line:
  "\<forall>c \<in> set t. \<not> line_break c \<Longrightarrow> splitlines (t @ CHR 0x0A # r) = (t @ [CHR 0x0A]) # splitlines r"
proof (induction t)
  case Nil
  then show ?case by (cases r) simp_all
next
  case (Cons c t)
  have "c \<noteq> CHR 0x0D" using Cons.prems by (auto simp: line_break_def)
  with Cons show ?case by (cases "t @ CHR 0x0A # r") auto
qed

lemma text_lineE:
  assumes "text_line l"
  obtains t where "l = t @ [CHR 0x0A]" "\<forall>c \<in> set t. \<not> line_break c"
  using assms by (metis append_butlast_last_id text_line_def)

lemma splitlines_concat: "list_all text_line ls \<Longrightarrow> splitlines (concat ls) = ls"
proof (induction ls)
  case (Cons l ls)
  then obtain t where "l = t @ [CHR 0x0A]" "\<forall>c \<in> set t. \<not> line_break c" by (auto elim: text_lineE)
  with Cons show ?case using splitlines_line [of t "concat ls"] by simp
qed simp

lemma starts_with_Cons [simp]: "starts_with (c # s) (d # p) \<longleftrightarrow> c = d \<and> starts_with s p"
  "starts_with s []" "\<not> starts_with [] (d # p)"
  by (auto simp: starts_with_def)

lemma read_rendered:
  "list_all printable_line b \<Longrightarrow> rest = [] \<or> starts_with (hd rest) ''@@ '' \<Longrightarrow>
   read_hunk index previous old new (map render_line b @ rest) = Inr (old @ olds b, new @ news b, index + length b, rest)"
proof (induction b arbitrary: index previous old new)
  case Nil
  then show ?case by (cases rest) (auto simp: olds_def news_def)
next
  case (Cons x b)
  then show ?case by (cases x) (auto simp: olds_def news_def)
qed

lemma digits_nat_dec: "\<forall>c \<in> set (nat_dec n). digit_char c" "nat_dec n \<noteq> []"
proof -
  have d: "digit_char (dec_digit k)" if "k < 10" for k using of_char_dec_digit [OF that] that by (simp add: digit_char_def)
  show "\<forall>c \<in> set (nat_dec n). digit_char c"
    by (induction n rule: nat_dec.induct) (subst nat_dec.simps, auto simp: d)
  show "nat_dec n \<noteq> []" by (subst nat_dec.simps) simp
qed

lemma read_number_nat_dec: "s = [] \<or> \<not> digit_char (hd s) \<Longrightarrow> read_number (nat_dec n @ s) = Some (n, s)"
proof -
  assume s: "s = [] \<or> \<not> digit_char (hd s)"
  then have "takeWhile digit_char s = []" "dropWhile digit_char s = s" by (cases s; simp)+
  then have ends: "takeWhile digit_char (nat_dec n @ s) = nat_dec n" "dropWhile digit_char (nat_dec n @ s) = s"
    using digits_nat_dec by (simp_all add: takeWhile_append dropWhile_append)
  have "(case ds of [] \<Rightarrow> None | ds' \<Rightarrow> Some (dec_value ds', s)) = Some (dec_value ds, s)" if "ds \<noteq> []" for ds
    using that by (cases ds) auto
  from this [OF digits_nat_dec(2)] show ?thesis unfolding read_number_def ends by simp
qed

lemma read_range_text: "s = [] \<or> \<not> digit_char (hd s) \<Longrightarrow> read_range (range_text a n @ s) = Some (a, n, s)"
  by (simp add: range_text_def read_range_def read_number_nat_dec digit_char_def)

lemma header_read: "hunk_range (rstrip_eol (render_header s n s' n')) = Some (s, n, n')"
proof -
  have "rstrip_eol (h @ ''@@'' @ [CHR 0x0A]) = h @ ''@@''" for h by (simp add: rstrip_eol_def end_of_line_def)
  from this [of "''@@ -'' @ range_text s n @ '' +'' @ range_text s' n' @ '' ''"]
  have "rstrip_eol (render_header s n s' n') = ''@@ -'' @ range_text s n @ '' +'' @ range_text s' n' @ '' @@''"
    by (simp add: render_header_def)
  then show ?thesis by (simp add: hunk_range_def read_range_text digit_char_def)
qed

lemma hunks_head: "render_hunks pos pos' d = [] \<or> starts_with (hd (render_hunks pos pos' d)) ''@@ ''"
  by (cases d) (auto simp: render_header_def)

lemma read_rendered_hunks:
  "\<forall>(k, b) \<in> set d. list_all printable_line b \<Longrightarrow> read_hunks index (render_hunks pos pos' d) = Inr (diff_hunks pos d)"
proof (induction d arbitrary: index pos pos')
  case (Cons block d)
  then show ?case using hunks_head by (cases block) (simp add: header_read read_rendered)
qed simp

lemma text_line_append: "\<forall>c \<in> set s. \<not> line_break c \<Longrightarrow> text_line (s @ [CHR 0x0A])"
  by (simp add: text_line_def)

lemma text_line_Cons: "text_line l \<Longrightarrow> \<not> line_break c \<Longrightarrow> text_line (c # l)"
  by (auto simp: text_line_def)

lemma printable_text: "printable_line x \<Longrightarrow> text_line (render_line x)"
  by (cases x) (auto intro!: text_line_Cons simp: line_break_def)

lemma digit_no_break: "digit_char c \<Longrightarrow> \<not> line_break c"
  by (auto simp: digit_char_def line_break_def)

lemma header_text: "text_line (render_header s n s' n')"
proof -
  have "\<forall>c \<in> set (''@@ -'' @ range_text s n @ '' +'' @ range_text s' n' @ '' @@''). \<not> line_break c"
    using digits_nat_dec(1) digit_no_break by (auto simp: range_text_def line_break_def)
  from text_line_append [OF this] show ?thesis by (simp add: render_header_def)
qed

lemma hunks_text: "\<forall>(k, b) \<in> set d. list_all printable_line b \<Longrightarrow> list_all text_line (render_hunks pos pos' d)"
proof (induction d arbitrary: pos pos')
  case (Cons block d)
  then show ?case by (cases block) (auto simp: header_text list_all_iff intro: printable_text)
qed simp

lemma path_header:
  assumes "plain_path path" and "x \<in> {CHR ''a'', CHR ''b''}"
  shows "normalized_patch_path ((x # CHR ''/'' # path) @ [CHR 0x0A]) = path"
    and "text_line (''--- '' @ (x # CHR ''/'' # path) @ [CHR 0x0A])" and "text_line (''+++ '' @ (x # CHR ''/'' # path) @ [CHR 0x0A])"
proof -
  let ?p = "x # CHR ''/'' # path"
  have x: "x \<noteq> CHR 0x09 \<and> x \<noteq> CHR 0x5C \<and> \<not> line_break x \<and> \<not> is_space x"
    using assms(2) by (auto simp: line_break_def is_space_def)
  have slash: "CHR ''/'' \<noteq> CHR 0x09 \<and> CHR ''/'' \<noteq> CHR 0x5C \<and> \<not> line_break (CHR ''/'') \<and> \<not> is_space (CHR ''/'')"
    by (simp add: line_break_def is_space_def)
  have path: "\<forall>c \<in> set path. c \<noteq> CHR 0x09 \<and> c \<noteq> CHR 0x5C \<and> \<not> line_break c" and last: "path \<noteq> []" "\<not> is_space (last path)"
    using assms(1) by (simp_all add: plain_path_def)
  have "takeWhile (\<lambda>c. c \<noteq> CHR 0x09) (?p @ [CHR 0x0A]) = ?p @ [CHR 0x0A]"
    using x path by (intro takeWhile_eq_all_conv [THEN iffD2]) simp
  moreover have "str_strip (?p @ [CHR 0x0A]) = ?p"
  proof -
    obtain q c where "path = q @ [c]" "\<not> is_space c" using last by (metis append_butlast_last_id)
    moreover have "is_space (CHR 0x0A)" by (simp add: is_space_def)
    ultimately show ?thesis using x by (simp add: str_strip_def)
  qed
  moreover have "slashes ?p = ?p" using x slash path by (simp add: slashes_def map_idI)
  moreover have "starts_with ?p ''a/'' \<or> starts_with ?p ''b/''" using assms(2) by auto
  ultimately show "normalized_patch_path (?p @ [CHR 0x0A]) = path" by (simp add: normalized_patch_path_def Let_def)
  have "\<forall>c \<in> set ?p. \<not> line_break c" using x slash path by simp
  then have "\<forall>c \<in> set (''--- '' @ ?p). \<not> line_break c" "\<forall>c \<in> set (''+++ '' @ ?p). \<not> line_break c"
    by (simp_all add: line_break_def)
  from this [THEN text_line_append] show "text_line (''--- '' @ ?p @ [CHR 0x0A])" "text_line (''+++ '' @ ?p @ [CHR 0x0A])" by simp_all
qed

lemma parse_rendered:
  assumes "plain_path path" and "printable_diff d"
  shows "parse_unified_patch (render_diff path d) path = Inr (''update'', diff_hunks 0 d)"
proof -
  have body: "\<forall>(k, b) \<in> set d. list_all printable_line b" using assms(2) by (auto simp: printable_diff_def)
  have "splitlines (render_diff path d) = (''--- a/'' @ path @ [CHR 0x0A]) # (''+++ b/'' @ path @ [CHR 0x0A]) # render_hunks 0 0 d"
    unfolding render_diff_def using hunks_text [OF body] path_header(2,3) [OF assms(1)] by (intro splitlines_concat) simp
  moreover obtain h hs where "diff_hunks 0 d = h # hs" "render_hunks 0 0 d \<noteq> []"
    using assms(2) by (cases d) (auto simp: printable_diff_def)
  moreover have "path \<noteq> ''/dev/null''" using assms(1) by (simp add: plain_path_def)
  ultimately show ?thesis using path_header(1) [OF assms(1)] read_rendered_hunks [OF body, of 2 0 0]
    by (simp add: parse_unified_patch_def Let_def Suc_le_eq numeral_2_eq_2 numeral_3_eq_3 split: list.splits)
qed

lemma patched_rendered:
  assumes "printable_diff d" and "list_all text_line tail"
  shows "patched_text ''update'' (concat (old_text d tail)) (diff_hunks 0 d) = Inr (concat (new_text d tail))"
proof -
  have "list_all text_line (olds b)" if "list_all printable_line b" for b
    using that by (induction b) (auto simp: olds_def elim: printable_line.elims)
  with assms have "list_all text_line (old_text d tail)"
    by (fastforce simp: old_text_def printable_diff_def list_all_iff)
  moreover have "\<forall>(k, b) \<in> set d. olds b \<noteq> []" using assms(1) by (auto simp: printable_diff_def)
  ultimately show ?thesis using apply_diff [of d 0 0 "[]" tail 1] by (simp add: patched_text_def splitlines_concat)
qed

definition reversed_diff :: "diff \<Rightarrow> diff" where
  "reversed_diff d = map (\<lambda>(k, b). (k, map reversed b)) d"

lemma reversed_sides: "olds (map reversed b) = news b" "news (map reversed b) = olds b"
proof -
  have "old_side (reversed x) = new_side x \<and> new_side (reversed x) = old_side x" for x by (cases x) simp_all
  then show "olds (map reversed b) = news b" "news (map reversed b) = olds b" by (simp_all add: olds_def news_def comp_def)
qed

lemma reversed_texts: "old_text (reversed_diff d) tail = new_text d tail" "new_text (reversed_diff d) tail = old_text d tail"
  by (induction d) (auto simp: reversed_diff_def old_text_def new_text_def reversed_sides)

text \<open>
  C14: A diff that can be printed and read back turns the first text into the second, and its reverse back. Take a
  diff with at least one hunk, each with an old and a new line, of lines that end in a newline and hold no other
  line break, in which no removed line starts with two dashes and a blank and no added line with two plus signs
  and a blank (printed, those look like file headers), and a path without tabs, backslashes and line breaks. Its
  printed unified diff parses to its hunks; applied to the first text they give exactly the second, wherever else
  their lines also occur; and the printed diff with its sides exchanged, applied to the second, restores the first.
\<close>

theorem unified_diff_round_trip:
  assumes "plain_path path" and "printable_diff d" and "printable_diff (reversed_diff d)" and "list_all text_line tail"
  shows "parse_unified_patch (render_diff path d) path = Inr (''update'', diff_hunks 0 d)
    \<and> patched_text ''update'' (concat (old_text d tail)) (diff_hunks 0 d) = Inr (concat (new_text d tail))
    \<and> parse_unified_patch (render_diff path (reversed_diff d)) path = Inr (''update'', diff_hunks 0 (reversed_diff d))
    \<and> patched_text ''update'' (concat (new_text d tail)) (diff_hunks 0 (reversed_diff d)) = Inr (concat (old_text d tail))"
  using parse_rendered patched_rendered [of d tail] patched_rendered [of "reversed_diff d" tail] assms reversed_texts by simp

definition one_change :: diff where
  "one_change = [([''title'' @ [CHR 0x0A]], [Context (''a'' @ [CHR 0x0A]), Removed (''b'' @ [CHR 0x0A]), Added (''c'' @ [CHR 0x0A])])]"

theorem unified_diff_round_trip_witness:
  "plain_path ''notes.txt'' \<and>
   patched_text ''update'' (concat (old_text one_change [''a'' @ [CHR 0x0A]])) (diff_hunks 0 one_change)
     = Inr (concat (new_text one_change [''a'' @ [CHR 0x0A]]))"
proof -
  have p: "plain_path ''notes.txt''" by code_simp
  moreover have "printable_diff one_change" "printable_diff (reversed_diff one_change)" "list_all text_line [''a'' @ [CHR 0x0A]]"
    by code_simp+
  ultimately show ?thesis using unified_diff_round_trip [of "''notes.txt''" one_change "[''a'' @ [CHR 0x0A]]"] by blast
qed

text \<open>
  A hunk that only inserts, without context lines, names the line before the insertion. The code takes the number for
  the place itself and inserts one line too early.
\<close>

theorem bare_insertion_lands_early:
  assumes "1 \<le> s" and "s \<le> length lines"
  shows "apply_hunks lines 0 1 [\<lparr>old_start = s, old_lines = [], new_lines = new\<rparr>] = Inr (take (s - 1) lines @ new @ drop (s - 1) lines)"
proof -
  have "nat (int s - 1) = s - 1" by simp
  moreover have "min (s - 1) (length lines) = s - 1" using assms by simp
  ultimately show ?thesis using assms by (simp add: hunk_place_def Let_def)
qed

end
