(* ===== verification/Path_Authority.thy ===== *)
theory Path_Authority
  imports Command_Policy
begin

text \<open>
  Which roots a scope may touch and what a path inside one is called (\<^verbatim>\<open>tools/path_authority.py\<close>), with the key
  a checkpoint stores for a file. An authority is the list of its roots, resolved, the workspace first.
  \<open>resolve\<close> is \<^verbatim>\<open>Path.resolve(strict=False)\<close>; it answers \<open>None\<close> when it raises.
\<close>

definition WORKSPACE_ROOT_ID :: string where "WORKSPACE_ROOT_ID = ''workspace''"

definition PROTECTED_WORKSPACE_DIRS :: "string list" where
  "PROTECTED_WORKSPACE_DIRS = [''.raiker'', ''.git'']"

type_synonym resolver = "posix_path \<Rightarrow> posix_path option"

datatype path_error = SafetyError string | Raises

record AuthorityRoot =
  root_id :: string
  root_path :: posix_path
  root_writable :: bool
  root_label :: string

record ResolvedPath =
  rp_path :: posix_path
  rp_root_id :: string
  rp_relative :: string
  rp_display :: string
  rp_writable :: bool

fun resolve_roots :: "resolver \<Rightarrow> AuthorityRoot list \<Rightarrow> AuthorityRoot list option" where
  "resolve_roots resolve [] = Some []"
| "resolve_roots resolve (r # rs) =
     (case resolve (root_path r) of
        None \<Rightarrow> None
      | Some p \<Rightarrow> map_option ((#) (r\<lparr>root_path := p\<rparr>)) (resolve_roots resolve rs))"

definition path_authority :: "resolver \<Rightarrow> string \<Rightarrow> AuthorityRoot list \<Rightarrow> AuthorityRoot list option" where
  "path_authority resolve workspace roots =
     (case resolve (to_path workspace) of
        None \<Rightarrow> None
      | Some p \<Rightarrow>
          map_option ((#) \<lparr>root_id = WORKSPACE_ROOT_ID, root_path = p, root_writable = True, root_label = ''workspace''\<rparr>)
            (resolve_roots resolve roots))"

subsection \<open>The closest root\<close>

definition part_count :: "posix_path \<Rightarrow> nat" where
  "part_count p = length (parts p) + (if anchor p = [] then 0 else 1)"

definition closer :: "posix_path \<Rightarrow> AuthorityRoot \<Rightarrow> AuthorityRoot option \<Rightarrow> AuthorityRoot option" where
  "closer p root matched =
     (if relative_to p (root_path root) = None then matched
      else case matched of
        None \<Rightarrow> Some root
      | Some m \<Rightarrow> if part_count (root_path root) > part_count (root_path m) then Some root else matched)"

definition match_root :: "AuthorityRoot list \<Rightarrow> posix_path \<Rightarrow> AuthorityRoot option" where
  "match_root roots p = fold (closer p) roots None"

fun slash_join :: "string list \<Rightarrow> string" where
  "slash_join [] = []"
| "slash_join [p] = p"
| "slash_join (p # ps) = p @ ''/'' @ slash_join ps"

definition write_refusal :: "AuthorityRoot \<Rightarrow> string list \<Rightarrow> string option" where
  "write_refusal root ps =
     (case ps of
        [] \<Rightarrow> Some ''protected_workspace_path''
      | head # _ \<Rightarrow>
          if \<not> root_writable root then Some ''root_not_writable''
          else if head \<in> set PROTECTED_WORKSPACE_DIRS then Some ''protected_workspace_path''
          else None)"

definition name_resolved :: "posix_path \<Rightarrow> AuthorityRoot \<Rightarrow> string list \<Rightarrow> ResolvedPath" where
  "name_resolved p root ps =
     (let relative = slash_join ps
      in \<lparr>rp_path = p, rp_root_id = root_id root, rp_relative = relative,
          rp_display = (if root_id root = WORKSPACE_ROOT_ID then relative
                        else if relative \<noteq> [] then root_label root @ ''/'' @ relative else root_label root),
          rp_writable = root_writable root\<rparr>)"

definition resolve_path :: "resolver \<Rightarrow> AuthorityRoot list \<Rightarrow> bool \<Rightarrow> posix_path \<Rightarrow> path_error + ResolvedPath" where
  "resolve_path resolve roots for_write requested =
     (case resolve (under (root_path (hd roots)) requested) of
        None \<Rightarrow> Inl Raises
      | Some p \<Rightarrow>
          (case match_root roots p of
             None \<Rightarrow> Inl (SafetyError ''outside_workspace'')
           | Some root \<Rightarrow>
               (case relative_to p (root_path root) of
                  None \<Rightarrow> Inl Raises
                | Some ps \<Rightarrow>
                    (case (if for_write then write_refusal root ps else None) of
                       Some reason \<Rightarrow> Inl (SafetyError reason)
                     | None \<Rightarrow> Inr (name_resolved p root ps)))))"

definition resolve_read :: "resolver \<Rightarrow> AuthorityRoot list \<Rightarrow> posix_path \<Rightarrow> path_error + ResolvedPath" where
  "resolve_read resolve roots = resolve_path resolve roots False"

definition resolve_write :: "resolver \<Rightarrow> AuthorityRoot list \<Rightarrow> posix_path \<Rightarrow> path_error + ResolvedPath" where
  "resolve_write resolve roots = resolve_path resolve roots True"

subsection \<open>Stored keys\<close>

definition encode_root_path :: "ResolvedPath \<Rightarrow> string" where
  "encode_root_path r =
     (if rp_root_id r = WORKSPACE_ROOT_ID then rp_relative r else rp_root_id r @ '':'' @ rp_relative r)"

definition read_or_decline :: "path_error + ResolvedPath \<Rightarrow> path_error + posix_path option" where
  "read_or_decline x =
     (case x of Inl Raises \<Rightarrow> Inl Raises | Inl (SafetyError _) \<Rightarrow> Inr None | Inr r \<Rightarrow> Inr (Some (rp_path r)))"

definition decode_root_path :: "resolver \<Rightarrow> AuthorityRoot list \<Rightarrow> string \<Rightarrow> path_error + posix_path option" where
  "decode_root_path resolve roots stored =
     (case dropWhile (\<lambda>c. c \<noteq> CHR '':'') stored of
        [] \<Rightarrow> read_or_decline (resolve_read resolve roots (to_path stored))
      | _ # relative \<Rightarrow>
          (case List.find (\<lambda>r. root_id r = takeWhile (\<lambda>c. c \<noteq> CHR '':'') stored) roots of
             None \<Rightarrow> Inr None
           | Some root \<Rightarrow>
               read_or_decline (resolve_read resolve roots (under (root_path root) (to_path relative)))))"

subsection \<open>The closest root is the deepest one\<close>

definition holds :: "posix_path \<Rightarrow> AuthorityRoot \<Rightarrow> bool" where
  "holds p root \<longleftrightarrow> relative_to p (root_path root) \<noteq> None"

text \<open>The first of the deepest roots that hold the path.\<close>

definition nearest_root :: "AuthorityRoot list \<Rightarrow> posix_path \<Rightarrow> AuthorityRoot \<Rightarrow> bool" where
  "nearest_root roots p root \<longleftrightarrow>
     (\<exists>before after. roots = before @ root # after \<and> holds p root
        \<and> (\<forall>r \<in> set before. holds p r \<longrightarrow> part_count (root_path r) < part_count (root_path root))
        \<and> (\<forall>r \<in> set after. holds p r \<longrightarrow> part_count (root_path r) \<le> part_count (root_path root)))"

lemma match_root_snoc: "match_root (roots @ [r]) p = closer p r (match_root roots p)"
  by (simp add: match_root_def)

lemma match_root_Some: "match_root roots p = Some root \<Longrightarrow> nearest_root roots p root"
proof (induction roots arbitrary: root rule: rev_induct)
  case (snoc r roots)
  show ?case
  proof (cases "match_root roots p = Some root \<and> (holds p r \<longrightarrow> part_count (root_path r) \<le> part_count (root_path root))")
    case True
    with snoc.IH obtain before after where "roots = before @ root # after" "holds p root"
      "\<forall>r \<in> set before. holds p r \<longrightarrow> part_count (root_path r) < part_count (root_path root)"
      "\<forall>r \<in> set after. holds p r \<longrightarrow> part_count (root_path r) \<le> part_count (root_path root)"
      unfolding nearest_root_def by blast
    with True show ?thesis unfolding nearest_root_def
      by (intro exI [of _ before] exI [of _ "after @ [r]"]) auto
  next
    case False
    with snoc.prems have r: "root = r" "holds p r"
      and less: "match_root roots p = Some m \<Longrightarrow> part_count (root_path m) < part_count (root_path r)" for m
      by (auto simp: match_root_snoc closer_def holds_def split: option.splits if_splits)
    have "part_count (root_path q) < part_count (root_path r)" if "q \<in> set roots" "holds p q" for q
    proof (cases "match_root roots p")
      case None
      have "match_root roots p \<noteq> None" if "q \<in> set roots" "holds p q" for q roots
        using that by (induction roots rule: rev_induct) (auto simp: match_root_snoc closer_def holds_def split: option.splits)
      with None that show ?thesis by blast
    next
      case (Some m)
      with snoc.IH that less [OF Some] show ?thesis unfolding nearest_root_def by fastforce
    qed
    with r show ?thesis unfolding nearest_root_def by (intro exI [of _ roots] exI [of _ "[]"]) auto
  qed
qed (simp add: match_root_def)

lemma match_root_None: "match_root roots p = None \<longleftrightarrow> (\<forall>r \<in> set roots. \<not> holds p r)"
proof (induction roots rule: rev_induct)
  case (snoc r roots)
  then show ?case by (cases "match_root roots p") (auto simp: match_root_snoc closer_def holds_def)
qed (simp add: match_root_def)

lemma split_twice:
  assumes "b @ r # a = b' @ r' # a'" and "r \<noteq> r'"
  shows "r \<in> set b' \<and> r' \<in> set a \<or> r' \<in> set b \<and> r \<in> set a'"
  using assms by (auto simp: append_eq_append_conv2 append_eq_Cons_conv Cons_eq_append_conv)

lemma nearest_root_unique:
  assumes "nearest_root roots p r" and "nearest_root roots p r'"
  shows "r = r'"
proof (rule ccontr)
  assume ne: "r \<noteq> r'"
  from assms(1) obtain b a where 1: "roots = b @ r # a" "holds p r"
    "\<forall>q \<in> set b. holds p q \<longrightarrow> part_count (root_path q) < part_count (root_path r)"
    "\<forall>q \<in> set a. holds p q \<longrightarrow> part_count (root_path q) \<le> part_count (root_path r)" unfolding nearest_root_def by blast
  from assms(2) obtain b' a' where 2: "roots = b' @ r' # a'" "holds p r'"
    "\<forall>q \<in> set b'. holds p q \<longrightarrow> part_count (root_path q) < part_count (root_path r')"
    "\<forall>q \<in> set a'. holds p q \<longrightarrow> part_count (root_path q) \<le> part_count (root_path r')" unfolding nearest_root_def by blast
  from split_twice [OF _ ne, of b a b' a'] 1(1) 2(1)
  have "r \<in> set b' \<and> r' \<in> set a \<or> r' \<in> set b \<and> r \<in> set a'" by simp
  then show False
  proof
    assume "r \<in> set b' \<and> r' \<in> set a"
    with 1(2,4) 2(2,3) show False by (meson not_less)
  next
    assume "r' \<in> set b \<and> r \<in> set a'"
    with 1(2,3) 2(2,4) show False by (meson not_less)
  qed
qed

lemma match_root_iff: "match_root roots p = Some root \<longleftrightarrow> nearest_root roots p root"
proof
  assume n: "nearest_root roots p root"
  then have "match_root roots p \<noteq> None" using match_root_None [of roots p] by (force simp: nearest_root_def)
  then show "match_root roots p = Some root" using match_root_Some nearest_root_unique n by blast
qed (rule match_root_Some)

lemma relative_to_Some: "relative_to p q = Some ps \<longleftrightarrow> p = q\<lparr>parts := parts q @ ps\<rparr>"
proof
  assume r: "relative_to p q = Some ps"
  then have "anchor p = anchor q" "parts p = parts q @ ps"
    by (auto simp: relative_to_def split: if_splits) (metis append_take_drop_id)
  then show "p = q\<lparr>parts := parts q @ ps\<rparr>" by (cases p; cases q) simp
qed (simp add: relative_to_def)

text \<open>What a scope may do at a place of a root.\<close>

definition admits :: "bool \<Rightarrow> AuthorityRoot \<Rightarrow> string list \<Rightarrow> bool" where
  "admits for_write root ps \<longleftrightarrow>
     (for_write \<longrightarrow> ps \<noteq> [] \<and> root_writable root \<and> hd ps \<notin> set PROTECTED_WORKSPACE_DIRS)"

lemma write_refusal_None: "(if w then write_refusal root ps else None) = None \<longleftrightarrow> admits w root ps"
  by (auto simp: admits_def write_refusal_def split: list.splits)

lemma admitted_iff:
  "resolve_path resolve roots for_write requested = Inr r \<longleftrightarrow>
     (\<exists>p root ps. resolve (under (root_path (hd roots)) requested) = Some p \<and> nearest_root roots p root
        \<and> p = root_path root\<lparr>parts := parts (root_path root) @ ps\<rparr> \<and> admits for_write root ps \<and> r = name_resolved p root ps)"
proof (cases "resolve (under (root_path (hd roots)) requested)")
  case (Some p)
  show ?thesis
  proof (cases "match_root roots p")
    case None
    then have "\<not> nearest_root roots p root" for root using match_root_iff [of roots p root] by simp
    with Some None show ?thesis by (auto simp: resolve_path_def)
  next
    case root: (Some root)
    then have n: "nearest_root roots p root" by (rule match_root_Some)
    then obtain ps where ps: "relative_to p (root_path root) = Some ps" by (auto simp: nearest_root_def holds_def)
    have u: "nearest_root roots p root' \<longleftrightarrow> root' = root" for root' using n nearest_root_unique by blast
    have v: "p = root_path root\<lparr>parts := parts (root_path root) @ qs\<rparr> \<longleftrightarrow> qs = ps" for qs
    proof -
      have "p = root_path root\<lparr>parts := parts (root_path root) @ qs\<rparr> \<longleftrightarrow> relative_to p (root_path root) = Some qs"
        by (rule relative_to_Some [symmetric])
      with ps show ?thesis by auto
    qed
    have "resolve_path resolve roots for_write requested = Inr r \<longleftrightarrow> admits for_write root ps \<and> r = name_resolved p root ps"
      unfolding write_refusal_None [symmetric] by (auto simp: resolve_path_def Some root ps split: option.splits)
    then show ?thesis by (auto simp: Some u v)
  qed
qed (auto simp: resolve_path_def)

text \<open>
  C10: A path is admitted exactly when it may be. The answer for a requested path is a place exactly when the path,
  taken from the workspace if it is relative and with its links followed, lies inside a root; the root that names
  it is the deepest one that holds it; and a write needs that root writable, a place below it, and none of the
  protected folders at its top.
\<close>

theorem path_admitted_exactly:
  "resolve_path resolve roots for_write requested = Inr r \<longleftrightarrow>
     (\<exists>p root ps. resolve (under (root_path (hd roots)) requested) = Some p \<and> nearest_root roots p root
        \<and> p = root_path root\<lparr>parts := parts (root_path root) @ ps\<rparr> \<and> admits for_write root ps \<and> r = name_resolved p root ps)"
  by (rule admitted_iff)

subsection \<open>A stored key names its file\<close>

definition clean_part :: "string \<Rightarrow> bool" where
  "clean_part x \<longleftrightarrow> x \<noteq> [] \<and> x \<noteq> ''.'' \<and> CHR ''/'' \<notin> set x"

lemma path_parts_clean: "CHR ''/'' \<notin> set x \<Longrightarrow> path_parts (x @ CHR ''/'' # r) = x # path_parts r"
  "CHR ''/'' \<notin> set x \<Longrightarrow> path_parts x = [x]"
  by (induction x) auto

lemma path_parts_join: "list_all clean_part ps \<Longrightarrow> filter (\<lambda>p. p \<noteq> [] \<and> p \<noteq> ''.'') (path_parts (slash_join ps)) = ps"
  by (induction ps rule: slash_join.induct) (auto simp: clean_part_def path_parts_clean)

lemma to_path_join: "list_all clean_part ps \<Longrightarrow> to_path (slash_join ps) = \<lparr>anchor = [], parts = ps\<rparr>"
proof -
  assume c: "list_all clean_part ps"
  then have "\<not> starts_with (slash_join ps) ''/''"
    by (cases ps rule: slash_join.cases) (auto simp: clean_part_def starts_with_def take_Suc hd_append split: list.splits dest: hd_in_set)
  with path_parts_join [OF c] show ?thesis by (simp add: to_path_def)
qed

text \<open>The laws of resolution and of root ids that stored keys rely on.\<close>

definition addressable :: "resolver \<Rightarrow> AuthorityRoot list \<Rightarrow> bool" where
  "addressable resolve roots \<longleftrightarrow>
     (\<forall>p q. resolve p = Some q \<longrightarrow> resolve q = Some q \<and> is_absolute q \<and> list_all clean_part (parts q))
     \<and> roots \<noteq> [] \<and> root_id (hd roots) = WORKSPACE_ROOT_ID \<and> distinct (map root_id roots)
     \<and> (\<forall>r \<in> set roots. CHR '':'' \<notin> set (root_id r))"

lemma find_root_by_id: "distinct (map root_id roots) \<Longrightarrow> root \<in> set roots \<Longrightarrow> List.find (\<lambda>r. root_id r = root_id root) roots = Some root"
  by (induction roots) auto

lemma read_again:
  assumes "resolve p = Some p" and "nearest_root roots p root" and "under (root_path (hd roots)) requested = p"
  shows "read_or_decline (resolve_read resolve roots requested) = Inr (Some p)"
proof -
  from assms(2) obtain ps where "relative_to p (root_path root) = Some ps" by (auto simp: nearest_root_def holds_def)
  with assms have "resolve_read resolve roots requested = Inr (name_resolved p root ps)"
    unfolding resolve_read_def admitted_iff relative_to_Some by (auto simp: admits_def)
  then show ?thesis by (simp add: read_or_decline_def name_resolved_def Let_def)
qed

text \<open>
  C15: A stored key names the file it was made for. The key of a path any scope resolved decodes, under the same
  roots, to that path again, if the links of the file system have not changed, root ids are distinct and without a
  colon, and the path of a workspace file has no colon.
\<close>

theorem stored_key_round_trip:
  assumes "addressable resolve roots" and "resolve_path resolve roots w requested = Inr r"
    and "rp_root_id r = WORKSPACE_ROOT_ID \<Longrightarrow> CHR '':'' \<notin> set (rp_relative r)"
  shows "decode_root_path resolve roots (encode_root_path r) = Inr (Some (rp_path r))"
proof -
  from assms(2) obtain p root ps where resolved: "resolve (under (root_path (hd roots)) requested) = Some p"
    and nearest: "nearest_root roots p root" and p: "p = root_path root\<lparr>parts := parts (root_path root) @ ps\<rparr>"
    and r: "r = name_resolved p root ps" unfolding admitted_iff by blast
  from assms(1) resolved have again: "resolve p = Some p" and abs: "is_absolute p" and "list_all clean_part (parts p)"
    by (auto simp: addressable_def)
  with p have clean: "list_all clean_part ps" by simp
  from nearest have root: "root \<in> set roots" by (auto simp: nearest_root_def)
  have relative: "under (root_path root) (to_path (slash_join ps)) = p" by (simp add: to_path_join [OF clean] under_def is_absolute_def p)
  have r_eq: "rp_path r = p" "rp_root_id r = root_id root" "rp_relative r = slash_join ps" by (simp_all add: r name_resolved_def Let_def)
  show ?thesis
  proof (cases "root_id root = WORKSPACE_ROOT_ID")
    case True
    with assms(1) root find_root_by_id [of roots root] find_root_by_id [of roots "hd roots"] have "root = hd roots" by (simp add: addressable_def)
    moreover have "dropWhile (\<lambda>c. c \<noteq> CHR '':'') (slash_join ps) = []" using assms(3) r_eq True by (auto simp: dropWhile_eq_Nil_conv)
    ultimately show ?thesis
      using read_again [where resolve = resolve and p = p and requested = "to_path (slash_join ps)", OF again nearest] relative True
      by (simp add: decode_root_path_def encode_root_path_def r_eq del: dropWhile_eq_Nil_conv)
  next
    case False
    from assms(1) root have colon: "CHR '':'' \<notin> set (root_id root)" and "distinct (map root_id roots)" by (auto simp: addressable_def)
    then have split: "takeWhile (\<lambda>c. c \<noteq> CHR '':'') (root_id root @ CHR '':'' # q) = root_id root"
      "dropWhile (\<lambda>c. c \<noteq> CHR '':'') (root_id root @ CHR '':'' # q) = CHR '':'' # q" for q
      by (simp_all add: takeWhile_append dropWhile_append)
    have "under (root_path (hd roots)) p = p" using abs by (simp add: under_def)
    with False read_again [where resolve = resolve and p = p and requested = p, OF again nearest] relative find_root_by_id [OF \<open>distinct (map root_id roots)\<close> root] split
    show ?thesis by (simp add: decode_root_path_def encode_root_path_def r_eq)
  qed
qed

text \<open>A file system without links, and a workspace with one attached folder.\<close>

definition plain_files :: resolver where
  "plain_files p =
     (if is_absolute p \<and> list_all clean_part (parts p) \<and> ''..'' \<notin> set (parts p) then Some p else None)"

definition two_roots :: "AuthorityRoot list" where
  "two_roots =
     [\<lparr>root_id = WORKSPACE_ROOT_ID, root_path = to_path ''/w'', root_writable = True, root_label = ''workspace''\<rparr>,
      \<lparr>root_id = ''docs'', root_path = to_path ''/d'', root_writable = True, root_label = ''manual''\<rparr>]"

lemma two_roots_addressable: "addressable plain_files two_roots"
proof -
  have "two_roots \<noteq> [] \<and> root_id (hd two_roots) = WORKSPACE_ROOT_ID \<and> distinct (map root_id two_roots)
     \<and> (\<forall>r \<in> set two_roots. CHR '':'' \<notin> set (root_id r))" by code_simp
  then show ?thesis by (simp add: addressable_def plain_files_def)
qed

theorem stored_key_round_trip_witness:
  "\<exists>r. resolve_path plain_files two_roots True (to_path ''/d/a/b.txt'') = Inr r \<and> encode_root_path r = ''docs:a/b.txt''
     \<and> decode_root_path plain_files two_roots ''docs:a/b.txt'' = Inr (Some (to_path ''/d/a/b.txt''))"
proof -
  let ?r = "\<lparr>rp_path = to_path ''/d/a/b.txt'', rp_root_id = ''docs'', rp_relative = ''a/b.txt'', rp_display = ''manual/a/b.txt'', rp_writable = True\<rparr>"
  have r: "resolve_path plain_files two_roots True (to_path ''/d/a/b.txt'') = Inr ?r" by code_simp
  have "encode_root_path ?r = ''docs:a/b.txt''" by code_simp
  with stored_key_round_trip [OF two_roots_addressable r] r show ?thesis by (simp add: WORKSPACE_ROOT_ID_def)
qed

text \<open>
  A colon in the name of a workspace file breaks its stored key. The key is the bare path, and decoding takes
  what stands before the first colon for a root: without such a root the file is lost to a restore, and with one the
  key names a file of that root instead.
\<close>

theorem colon_key_names_another_root:
  assumes "rp_root_id r = WORKSPACE_ROOT_ID" and "rp_relative r = before @ CHR '':'' # after" and "CHR '':'' \<notin> set before"
  shows "decode_root_path resolve roots (encode_root_path r) =
    (case List.find (\<lambda>root. root_id root = before) roots of
       None \<Rightarrow> Inr None
     | Some root \<Rightarrow> read_or_decline (resolve_read resolve roots (under (root_path root) (to_path after))))"
proof -
  have "takeWhile (\<lambda>c. c \<noteq> CHR '':'') (before @ CHR '':'' # after) = before"
    "dropWhile (\<lambda>c. c \<noteq> CHR '':'') (before @ CHR '':'' # after) = CHR '':'' # after"
    using assms(3) by (induction before) auto
  with assms(1,2) show ?thesis by (simp add: decode_root_path_def encode_root_path_def)
qed

theorem colon_key_names_another_root_witness:
  "\<exists>r. resolve_path plain_files two_roots True (to_path ''docs:a.txt'') = Inr r \<and> rp_path r = to_path ''/w/docs:a.txt''
     \<and> decode_root_path plain_files two_roots (encode_root_path r) = Inr (Some (to_path ''/d/a.txt''))"
proof -
  let ?r = "\<lparr>rp_path = to_path ''/w/docs:a.txt'', rp_root_id = WORKSPACE_ROOT_ID, rp_relative = ''docs:a.txt'', rp_display = ''docs:a.txt'', rp_writable = True\<rparr>"
  have r: "resolve_path plain_files two_roots True (to_path ''docs:a.txt'') = Inr ?r" by code_simp
  have "(case List.find (\<lambda>root. root_id root = ''docs'') two_roots of
       None \<Rightarrow> Inr None
     | Some root \<Rightarrow> read_or_decline (resolve_read plain_files two_roots (under (root_path root) (to_path ''a.txt'')))) = Inr (Some (to_path ''/d/a.txt''))"
    by code_simp
  with colon_key_names_another_root [of ?r "''docs''" "''a.txt''" plain_files two_roots] r show ?thesis by simp
qed

end
