(* ===== verification/File_Writes.thy ===== *)
theory File_Writes
  imports Patch_Apply Path_Authority
begin

text \<open>
  The governed file changes (\<^verbatim>\<open>tools/filesystem.py\<close>): reading a target, the candidate of an edit or of each section
  of a patch, writing it, and the patch as one transaction. Files hold bytes; UTF-8 is modelled for Latin-1, other
  encoded text being refused as binary. The authority is the list of its roots; a call that passes none uses the
  workspace alone. Edits of notebook cells are not modelled.

  \<open>resolve\<close> does not change during an operation. Writing or deleting one file may raise: \<open>Breaks\<close> says what the
  file then holds.
\<close>

subsection \<open>Bytes and text\<close>

definition utf8_char :: "char \<Rightarrow> nat list" where
  "utf8_char c = (let n = of_char c in if n < 128 then [n] else [192 + n div 64, 128 + n mod 64])"

definition utf8_encode :: "string \<Rightarrow> nat list" where
  "utf8_encode s = concat (map utf8_char s)"

fun utf8_decode :: "nat list \<Rightarrow> string option" where
  "utf8_decode [] = Some []"
| "utf8_decode (b # bs) =
     (if b < 128 then map_option ((#) (char_of b)) (utf8_decode bs)
      else if b = 194 \<or> b = 195 then
        (case bs of
           [] \<Rightarrow> None
         | c # cs \<Rightarrow> if 128 \<le> c \<and> c < 192 then map_option ((#) (char_of ((b - 192) * 64 + (c - 128)))) (utf8_decode cs) else None)
      else None)"

text \<open>Reading in text mode: every line ending becomes a newline.\<close>

fun universal_newlines :: "string \<Rightarrow> string" where
  "universal_newlines [] = []"
| "universal_newlines [c] = [if c = CHR 0x0D then CHR 0x0A else c]"
| "universal_newlines (c # d # r) =
     (if c = CHR 0x0D then CHR 0x0A # universal_newlines (if d = CHR 0x0A then r else d # r)
      else c # universal_newlines (d # r))"

subsection \<open>The file system\<close>

record file_system =
  fs_files :: "posix_path \<rightharpoonup> nat list"
  fs_dirs :: "posix_path \<Rightarrow> bool"

definition is_binary_bytes :: "nat list \<Rightarrow> bool" where
  "is_binary_bytes data = (0 \<in> set data)"

definition is_text_file :: "file_system \<Rightarrow> posix_path \<Rightarrow> bool" where
  "is_text_file fs p =
     (case fs_files fs p of
        None \<Rightarrow> False
      | Some bytes \<Rightarrow> (let sample = take 4096 bytes in \<not> is_binary_bytes sample \<and> utf8_decode sample \<noteq> None))"

definition ancestors :: "posix_path \<Rightarrow> posix_path list" where
  "ancestors p = map (\<lambda>k. p\<lparr>parts := take k (parts p)\<rparr>) [0..<length (parts p)]"

text \<open>\<^verbatim>\<open>parent.mkdir(parents=True, exist_ok=True)\<close>; it raises when a parent is a file.\<close>

definition make_parents :: "posix_path \<Rightarrow> file_system \<Rightarrow> file_system option" where
  "make_parents p fs =
     (if \<exists>a \<in> set (ancestors p). fs_files fs a \<noteq> None then None
      else Some (fs\<lparr>fs_dirs := (\<lambda>q. fs_dirs fs q \<or> q \<in> set (ancestors p))\<rparr>))"

datatype write_outcome = Works | Breaks "nat list option"

definition put :: "posix_path \<Rightarrow> nat list option \<Rightarrow> file_system \<Rightarrow> file_system" where
  "put p content fs = fs\<lparr>fs_files := (fs_files fs)(p := content)\<rparr>"

text \<open>The parents, then \<^verbatim>\<open>write_text\<close>: whether it raised, and the files after it.\<close>

definition write_text :: "write_outcome \<Rightarrow> posix_path \<Rightarrow> string \<Rightarrow> file_system \<Rightarrow> bool \<times> file_system" where
  "write_text out p text fs =
     (case make_parents p fs of
        None \<Rightarrow> (False, fs)
      | Some fs1 \<Rightarrow>
          if fs_dirs fs1 p then (False, fs1)
          else case out of
            Works \<Rightarrow> (True, put p (Some (utf8_encode text)) fs1)
          | Breaks left \<Rightarrow> (False, put p left fs1))"

definition unlink :: "write_outcome \<Rightarrow> bool \<Rightarrow> posix_path \<Rightarrow> file_system \<Rightarrow> bool \<times> file_system" where
  "unlink out missing_ok p fs =
     (if fs_files fs p = None then (missing_ok \<and> \<not> fs_dirs fs p, fs)
      else case out of Works \<Rightarrow> (True, put p None fs) | Breaks left \<Rightarrow> (False, fs))"

subsection \<open>Targets and candidates\<close>

datatype tool_error = Refused edit_failure | Raised path_error

definition existing_text_target ::
  "resolver \<Rightarrow> AuthorityRoot list \<Rightarrow> file_system \<Rightarrow> string \<Rightarrow> tool_error + posix_path \<times> string" where
  "existing_text_target resolve roots fs path =
     (case resolve_write resolve roots (to_path path) of
        Inl e \<Rightarrow> Inl (Raised e)
      | Inr r \<Rightarrow>
          (case fs_files fs (rp_path r) of
             None \<Rightarrow> Inl (Refused (refuse ''not_found''))
           | Some bytes \<Rightarrow>
               if \<not> is_text_file fs (rp_path r) then Inl (Refused (refuse ''binary_file''))
               else case utf8_decode bytes of
                 None \<Rightarrow> Inl (Refused (refuse ''binary_file''))
               | Some text \<Rightarrow> Inr (rp_path r, universal_newlines text)))"

definition relative_path :: "resolver \<Rightarrow> AuthorityRoot list \<Rightarrow> posix_path \<Rightarrow> path_error + string" where
  "relative_path resolve roots p = (case resolve_read resolve roots p of Inl e \<Rightarrow> Inl e | Inr r \<Rightarrow> Inr (rp_display r))"

record PatchCandidate =
  pc_path :: posix_path
  pc_before :: string
  pc_proposed_text :: string
  pc_operation :: string

definition updated :: "tool_error + posix_path \<times> string \<Rightarrow> (string \<Rightarrow> edit_failure + string) \<Rightarrow> tool_error + PatchCandidate" where
  "updated target change =
     (case target of
        Inl e \<Rightarrow> Inl e
      | Inr (p, before) \<Rightarrow>
          (case change before of
             Inl f \<Rightarrow> Inl (Refused f)
           | Inr after \<Rightarrow> Inr \<lparr>pc_path = p, pc_before = before, pc_proposed_text = after, pc_operation = ''update''\<rparr>))"

definition edit_candidate ::
  "resolver \<Rightarrow> AuthorityRoot list \<Rightarrow> file_system \<Rightarrow> string \<Rightarrow> string \<Rightarrow> string \<Rightarrow> bool \<Rightarrow> int option
     \<Rightarrow> tool_error + PatchCandidate" where
  "edit_candidate resolve roots fs path old new every insert_line =
     (let target = existing_text_target resolve roots fs path
      in case insert_line of
           Some n \<Rightarrow>
             if old \<noteq> [] then Inl (Refused (refuse ''insert_line_with_old_text''))
             else if every then Inl (Refused (refuse ''insert_line_with_replace_all''))
             else updated target (\<lambda>before. insert_after before new n)
         | None \<Rightarrow>
             if every
             then (if old = [] then Inl (Refused (refuse ''old_text_empty''))
                   else updated target (\<lambda>before. replace_every before old new))
             else updated target (\<lambda>before. replace_once before old new))"

text \<open>The file a section starts from: nothing for a new one, which must not exist.\<close>

definition patch_base ::
  "resolver \<Rightarrow> AuthorityRoot list \<Rightarrow> file_system \<Rightarrow> string \<Rightarrow> string \<Rightarrow> posix_path \<Rightarrow> tool_error + posix_path \<times> string" where
  "patch_base resolve roots fs operation path p =
     (if operation = ''create''
      then (if fs_files fs p \<noteq> None \<or> fs_dirs fs p then Inl (Refused (refuse ''target_exists'')) else Inr (p, []))
      else existing_text_target resolve [hd roots] fs path)"

definition patch_candidate ::
  "resolver \<Rightarrow> AuthorityRoot list \<Rightarrow> file_system \<Rightarrow> string \<Rightarrow> string \<Rightarrow> tool_error + PatchCandidate" where
  "patch_candidate resolve roots fs path patch =
     (case resolve_write resolve roots (to_path path) of
        Inl e \<Rightarrow> Inl (Raised e)
      | Inr r \<Rightarrow>
          (case relative_path resolve roots (rp_path r) of
             Inl e \<Rightarrow> Inl (Raised e)
           | Inr name \<Rightarrow>
               (case parse_unified_patch patch (slashes name) of
                  Inl f \<Rightarrow> Inl (Refused f)
                | Inr (operation, hunks) \<Rightarrow>
                    (case patch_base resolve roots fs operation path (rp_path r) of
                       Inl e \<Rightarrow> Inl e
                     | Inr (p, before) \<Rightarrow>
                         (case patched_text operation before hunks of
                            Inl f \<Rightarrow> Inl (Refused f)
                          | Inr after \<Rightarrow>
                              Inr \<lparr>pc_path = p, pc_before = before, pc_proposed_text = after, pc_operation = operation\<rparr>)))))"

definition split_unified_patch :: "string \<Rightarrow> edit_failure + string list" where
  "split_unified_patch patch =
     (let lines = splitlines patch; starts = file_starts lines
      in if starts = [] \<or> hd starts \<noteq> 0 then Inl (malformed ''expected unified diff file headers'')
         else Inr (map (\<lambda>(s, e). concat (take (e - s) (drop s lines))) (zip starts (tl starts @ [length lines]))))"

definition section_target :: "string \<Rightarrow> string \<times> string \<times> string" where
  "section_target section =
     (let header = bare_lines section;
          old_path = normalized_patch_path (drop 4 (header ! 0)); new_path = normalized_patch_path (drop 4 (header ! 1))
      in (old_path, new_path, if old_path = ''/dev/null'' then new_path else old_path))"

definition section_targets :: "string \<Rightarrow> string list" where
  "section_targets patch =
     (case split_unified_patch patch of Inl f \<Rightarrow> [] | Inr ss \<Rightarrow> map (\<lambda>s. snd (snd (section_target s))) ss)"

definition with_path :: "string \<Rightarrow> tool_error \<Rightarrow> tool_error" where
  "with_path target e =
     (case e of Refused (Failure t d hs) \<Rightarrow> Refused (Failure t (dict_set d ''path'' (PStr target)) hs) | Raised _ \<Rightarrow> e)"

fun section_candidates ::
  "resolver \<Rightarrow> AuthorityRoot list \<Rightarrow> file_system \<Rightarrow> string option \<Rightarrow> posix_path list \<Rightarrow> string list
     \<Rightarrow> tool_error + PatchCandidate list" where
  "section_candidates resolve roots fs expected seen [] = Inr []"
| "section_candidates resolve roots fs expected seen (section # rest) =
     (case section_target section of
        (old_path, new_path, target) \<Rightarrow>
          if expected \<noteq> None \<and> expected \<noteq> Some target
          then Inl (Refused (Failure ''patch_path_mismatch'' [(''old_path'', PStr old_path), (''new_path'', PStr new_path)] []))
          else case patch_candidate resolve roots fs target section of
            Inl e \<Rightarrow> Inl (with_path target e)
          | Inr c \<Rightarrow>
              if pc_path c \<in> set seen then Inl (Refused (Failure ''duplicate_patch_target'' [(''path'', PStr target)] []))
              else (case section_candidates resolve roots fs None (pc_path c # seen) rest of
                      Inl e \<Rightarrow> Inl e | Inr cs \<Rightarrow> Inr (c # cs)))"

definition patch_candidates ::
  "resolver \<Rightarrow> AuthorityRoot list \<Rightarrow> file_system \<Rightarrow> string option \<Rightarrow> string \<Rightarrow> tool_error + PatchCandidate list" where
  "patch_candidates resolve roots fs path patch =
     (case (case path of
              None \<Rightarrow> Inr None
            | Some given \<Rightarrow>
                if given = [] then Inr None
                else (case resolve_write resolve roots (to_path given) of
                        Inl e \<Rightarrow> Inl e
                      | Inr r \<Rightarrow> map_sum id (\<lambda>name. Some (slashes name)) (relative_path resolve roots (rp_path r)))) of
        Inl e \<Rightarrow> Inl (Raised e)
      | Inr expected \<Rightarrow>
          (case split_unified_patch patch of
             Inl f \<Rightarrow> Inl (Refused f)
           | Inr ss \<Rightarrow> section_candidates resolve roots fs expected [] ss))"

subsection \<open>Proposals\<close>

record proposal =
  pp_path :: string
  pp_before_snapshot :: string
  pp_proposed_text :: string
  pp_operation :: string

definition proposal_from_candidate :: "resolver \<Rightarrow> AuthorityRoot list \<Rightarrow> PatchCandidate \<Rightarrow> tool_error + proposal" where
  "proposal_from_candidate resolve roots c =
     (case relative_path resolve roots (pc_path c) of
        Inl e \<Rightarrow> Inl (Raised e)
      | Inr name \<Rightarrow>
          Inr \<lparr>pp_path = name, pp_before_snapshot = pc_before c, pp_proposed_text = pc_proposed_text c,
               pp_operation = pc_operation c\<rparr>)"

definition proposed_edit_snapshot ::
  "resolver \<Rightarrow> AuthorityRoot list \<Rightarrow> file_system \<Rightarrow> string \<Rightarrow> string \<Rightarrow> string \<Rightarrow> bool \<Rightarrow> int option
     \<Rightarrow> tool_error + proposal" where
  "proposed_edit_snapshot resolve roots fs path old new every insert_line =
     (case edit_candidate resolve roots fs path old new every insert_line of
        Inl e \<Rightarrow> Inl e | Inr c \<Rightarrow> proposal_from_candidate resolve roots c)"

fun all_proposals :: "resolver \<Rightarrow> AuthorityRoot list \<Rightarrow> PatchCandidate list \<Rightarrow> tool_error + proposal list" where
  "all_proposals resolve roots [] = Inr []"
| "all_proposals resolve roots (c # cs) =
     (case proposal_from_candidate resolve roots c of
        Inl e \<Rightarrow> Inl e
      | Inr p \<Rightarrow> (case all_proposals resolve roots cs of Inl e \<Rightarrow> Inl e | Inr ps \<Rightarrow> Inr (p # ps)))"

definition proposed_patch_snapshot ::
  "resolver \<Rightarrow> AuthorityRoot list \<Rightarrow> file_system \<Rightarrow> string option \<Rightarrow> string \<Rightarrow> tool_error + proposal list" where
  "proposed_patch_snapshot resolve roots fs path patch =
     (case patch_candidates resolve roots fs path patch of Inl e \<Rightarrow> Inl e | Inr cs \<Rightarrow> all_proposals resolve roots cs)"

subsection \<open>Writing\<close>

record written =
  wr_path :: string
  wr_size_bytes :: nat
  wr_operation :: string

definition size_of :: "file_system \<Rightarrow> posix_path \<Rightarrow> nat" where
  "size_of fs p = (case fs_files fs p of None \<Rightarrow> 0 | Some b \<Rightarrow> length b)"

text \<open>\<open>None\<close> when it raised.\<close>

definition write_candidate ::
  "resolver \<Rightarrow> AuthorityRoot list \<Rightarrow> write_outcome \<Rightarrow> PatchCandidate \<Rightarrow> file_system \<Rightarrow> written option \<times> file_system" where
  "write_candidate resolve roots out c fs =
     (case (if pc_operation c = ''delete'' then unlink out False (pc_path c) fs
            else write_text out (pc_path c) (pc_proposed_text c) fs) of
        (False, fs1) \<Rightarrow> (None, fs1)
      | (True, fs1) \<Rightarrow>
          (case relative_path resolve roots (pc_path c) of
             Inl e \<Rightarrow> (None, fs1)
           | Inr name \<Rightarrow>
               (Some \<lparr>wr_path = name, wr_size_bytes = (if pc_operation c = ''delete'' then 0 else size_of fs1 (pc_path c)),
                      wr_operation = pc_operation c\<rparr>, fs1)))"

definition replace_text_content ::
  "resolver \<Rightarrow> AuthorityRoot list \<Rightarrow> write_outcome \<Rightarrow> string \<Rightarrow> string \<Rightarrow> string \<Rightarrow> bool \<Rightarrow> int option \<Rightarrow> file_system
     \<Rightarrow> (tool_error + written) \<times> file_system" where
  "replace_text_content resolve roots out path old new every insert_line fs =
     (case edit_candidate resolve roots fs path old new every insert_line of
        Inl e \<Rightarrow> (Inl e, fs)
      | Inr c \<Rightarrow>
          (case write_candidate resolve roots out c fs of
             (None, fs1) \<Rightarrow> (Inl (Raised Raises), fs1)
           | (Some w, fs1) \<Rightarrow> (Inr w, fs1)))"

text \<open>The sections in order until one raises: whether none did, what is completed, latest first, and the files.\<close>

fun write_all ::
  "resolver \<Rightarrow> AuthorityRoot list \<Rightarrow> (PatchCandidate \<Rightarrow> write_outcome) \<Rightarrow> PatchCandidate list \<Rightarrow> PatchCandidate list \<Rightarrow> file_system
     \<Rightarrow> bool \<times> PatchCandidate list \<times> file_system" where
  "write_all resolve roots out completed [] fs = (True, completed, fs)"
| "write_all resolve roots out completed (c # cs) fs =
     (case write_candidate resolve roots (out c) c fs of
        (None, fs1) \<Rightarrow> (False, completed, fs1)
      | (Some w, fs1) \<Rightarrow> write_all resolve roots out (c # completed) cs fs1)"

definition undo_candidate :: "write_outcome \<Rightarrow> PatchCandidate \<Rightarrow> file_system \<Rightarrow> bool \<times> file_system" where
  "undo_candidate out c fs =
     (if pc_operation c = ''create'' then unlink out True (pc_path c) fs else write_text out (pc_path c) (pc_before c) fs)"

text \<open>The rollback; an error in it escapes.\<close>

fun roll_back :: "(PatchCandidate \<Rightarrow> write_outcome) \<Rightarrow> PatchCandidate list \<Rightarrow> file_system \<Rightarrow> bool \<times> file_system" where
  "roll_back undo [] fs = (True, fs)"
| "roll_back undo (c # cs) fs =
     (case undo_candidate (undo c) c fs of (False, fs1) \<Rightarrow> (False, fs1) | (True, fs1) \<Rightarrow> roll_back undo cs fs1)"

fun changes_of :: "resolver \<Rightarrow> AuthorityRoot list \<Rightarrow> file_system \<Rightarrow> PatchCandidate list \<Rightarrow> tool_error + written list" where
  "changes_of resolve roots fs [] = Inr []"
| "changes_of resolve roots fs (c # cs) =
     (case relative_path resolve roots (pc_path c) of
        Inl e \<Rightarrow> Inl (Raised e)
      | Inr name \<Rightarrow>
          (case changes_of resolve roots fs cs of
             Inl e \<Rightarrow> Inl e
           | Inr ws \<Rightarrow>
               Inr (\<lparr>wr_path = name, wr_size_bytes = (if pc_operation c = ''delete'' then 0 else size_of fs (pc_path c)),
                     wr_operation = pc_operation c\<rparr> # ws)))"

definition apply_patch_content ::
  "resolver \<Rightarrow> AuthorityRoot list \<Rightarrow> (PatchCandidate \<Rightarrow> write_outcome) \<Rightarrow> (PatchCandidate \<Rightarrow> write_outcome) \<Rightarrow> string option \<Rightarrow> string
     \<Rightarrow> file_system \<Rightarrow> (tool_error + written list) \<times> file_system" where
  "apply_patch_content resolve roots out undo path patch fs =
     (case patch_candidates resolve roots fs path patch of
        Inl e \<Rightarrow> (Inl e, fs)
      | Inr cs \<Rightarrow>
          (case write_all resolve roots out [] cs fs of
             (False, completed, fs1) \<Rightarrow>
               (case roll_back undo completed fs1 of
                  (False, fs2) \<Rightarrow> (Inl (Raised Raises), fs2)
                | (True, fs2) \<Rightarrow> (Inl (Refused (refuse ''transaction_write_failed'')), fs2))
           | (True, completed, fs1) \<Rightarrow> (changes_of resolve [hd roots] fs1 cs, fs1)))"

text \<open>Writing a whole file (\<^verbatim>\<open>write_file_content\<close>) and its proposal.\<close>

definition write_file_content ::
  "resolver \<Rightarrow> AuthorityRoot list \<Rightarrow> write_outcome \<Rightarrow> string \<Rightarrow> string \<Rightarrow> file_system \<Rightarrow> (tool_error + string \<times> nat) \<times> file_system" where
  "write_file_content resolve roots out path text fs =
     (case resolve_write resolve roots (to_path path) of
        Inl e \<Rightarrow> (Inl (Raised e), fs)
      | Inr r \<Rightarrow>
          (case write_text out (rp_path r) text fs of
             (False, fs1) \<Rightarrow> (Inl (Raised Raises), fs1)
           | (True, fs1) \<Rightarrow>
               (case relative_path resolve roots (rp_path r) of
                  Inl e \<Rightarrow> (Inl (Raised e), fs1) | Inr name \<Rightarrow> (Inr (name, size_of fs1 (rp_path r)), fs1))))"

definition proposed_write_snapshot ::
  "resolver \<Rightarrow> AuthorityRoot list \<Rightarrow> file_system \<Rightarrow> string \<Rightarrow> tool_error + string \<times> string option" where
  "proposed_write_snapshot resolve roots fs path =
     (case resolve_write resolve roots (to_path path) of
        Inl e \<Rightarrow> Inl (Raised e)
      | Inr r \<Rightarrow>
          (let before = (case fs_files fs (rp_path r) of
                 None \<Rightarrow> Inr None
               | Some bytes \<Rightarrow>
                   if \<not> is_text_file fs (rp_path r) then Inr None
                   else case utf8_decode bytes of None \<Rightarrow> Inl (Raised Raises) | Some text \<Rightarrow> Inr (Some (universal_newlines text)))
           in case before of
                Inl e \<Rightarrow> Inl e
              | Inr snapshot \<Rightarrow>
                  (case relative_path resolve roots (rp_path r) of Inl e \<Rightarrow> Inl (Raised e) | Inr name \<Rightarrow> Inr (name, snapshot))))"

end
