(* ===== verification/File_Guards.thy ===== *)
theory File_Guards
  imports File_Writes
begin

text \<open>
  What the governed file changes leave of the files: they change nothing a scope may not write, and a patch that
  fails puts back what it had changed, except the file that failed and carriage returns.
\<close>

subsection \<open>Text survives\<close>

lemma encode_decode: "utf8_decode b = Some s \<Longrightarrow> utf8_encode s = b"
proof (induction b arbitrary: s rule: utf8_decode.induct)
  case (2 b bs)
  consider "b < 128" | "b = 194 \<or> b = 195" "\<not> b < 128" using 2(3) by (auto split: if_splits)
  then show ?case
  proof cases
    case 1
    with 2 show ?thesis by (auto simp: utf8_encode_def utf8_char_def)
  next
    case b: 2
    with 2(3) obtain c cs t where split: "bs = c # cs" "128 \<le> c" "c < 192" "utf8_decode cs = Some t"
      "s = char_of ((b - 192) * 64 + (c - 128)) # t" by (auto split: list.splits if_splits)
    with 2(2) b have rest: "utf8_encode t = cs" by auto
    define n where "n = (b - 192) * 64 + (c - 128)"
    define d where "d = c - 128"
    have d: "c = 128 + d" "d < 64" using split(2,3) by (simp_all add: d_def)
    have div: "(64 * k + d) div 64 = k" and mod: "(64 * k + d) mod 64 = d" for k using d(2) by simp_all
    have "(128 + d) mod 64 = d" "(64 + (128 + d)) mod 64 = d" "(128 + d) div 64 = 2" "(64 + (128 + d)) div 64 = 3"
      using mod [of 2] mod [of 3] div [of 2] div [of 3] by simp_all
    then have "128 \<le> n" "n < 256" "192 + n div 64 = b" "128 + n mod 64 = c" using b d by (auto simp: n_def)
    then have "utf8_char (char_of n) = [b, c]" by (simp add: utf8_char_def Let_def)
    with rest show ?thesis by (simp add: split utf8_encode_def n_def)
  qed
qed (simp add: utf8_encode_def)

lemma carriage_return_byte: "utf8_decode b = Some s \<Longrightarrow> CHR 0x0D \<in> set s \<Longrightarrow> 13 \<in> set b"
proof -
  assume "utf8_decode b = Some s" "CHR 0x0D \<in> set s"
  moreover have "13 \<in> set (utf8_char (CHR 0x0D))" by (simp add: utf8_char_def)
  ultimately show "13 \<in> set b" using encode_decode by (force simp: utf8_encode_def)
qed

lemma no_carriage_return: "CHR 0x0D \<notin> set s \<Longrightarrow> universal_newlines s = s"
  by (induction s rule: universal_newlines.induct) auto

text \<open>What is left of a file's bytes when its text was read and written back.\<close>

definition rewritten :: "nat list \<Rightarrow> nat list \<Rightarrow> bool" where
  "rewritten b b' \<longleftrightarrow> b' = b \<or> 13 \<in> set b \<and> (\<exists>s. utf8_decode b = Some s \<and> b' = utf8_encode (universal_newlines s))"

lemma rewritten_text: "utf8_decode b = Some s \<Longrightarrow> rewritten b (utf8_encode (universal_newlines s))"
  using encode_decode carriage_return_byte no_carriage_return by (metis rewritten_def)

subsection \<open>What each step changes\<close>

lemma make_parents_files: "make_parents p fs = Some fs' \<Longrightarrow> fs_files fs' = fs_files fs"
  by (auto simp: make_parents_def split: if_splits)

lemma write_text_files:
  "write_text out p s fs = (ok, fs') \<Longrightarrow>
     (\<forall>q. q \<noteq> p \<longrightarrow> fs_files fs' q = fs_files fs q) \<and> (ok \<longrightarrow> fs_files fs' p = Some (utf8_encode s))"
  using make_parents_files [of p fs]
  by (auto simp: write_text_def put_def split: option.splits write_outcome.splits if_splits)

lemma unlink_files:
  "unlink out missing_ok p fs = (ok, fs') \<Longrightarrow>
     (\<forall>q. q \<noteq> p \<longrightarrow> fs_files fs' q = fs_files fs q) \<and> (ok \<longrightarrow> fs_files fs' p = None)"
  by (auto simp: unlink_def put_def split: write_outcome.splits if_splits)

lemma write_candidate_files:
  assumes "write_candidate resolve roots out c fs = (r, fs')" and "q \<noteq> pc_path c"
  shows "fs_files fs' q = fs_files fs q"
proof -
  obtain ok fs1 where step: "(if pc_operation c = ''delete'' then unlink out False (pc_path c) fs
      else write_text out (pc_path c) (pc_proposed_text c) fs) = (ok, fs1)" by fastforce
  with assms(1) have "fs' = fs1" by (auto simp: write_candidate_def split: bool.splits sum.splits)
  with step assms(2) show ?thesis using write_text_files unlink_files by (metis (full_types))
qed

lemma undo_candidate_files:
  assumes "undo_candidate out c fs = (ok, fs')"
  shows "\<forall>q. q \<noteq> pc_path c \<longrightarrow> fs_files fs' q = fs_files fs q"
    and "ok \<Longrightarrow> fs_files fs' (pc_path c) = (if pc_operation c = ''create'' then None else Some (utf8_encode (pc_before c)))"
  using assms write_text_files [of out "pc_path c" "pc_before c" fs ok fs'] unlink_files [of out True "pc_path c" fs ok fs']
  by (auto simp: undo_candidate_def split: if_splits)

lemma write_all_files:
  "write_all resolve roots out before cs fs = (ok, completed, fs') \<Longrightarrow> q \<notin> pc_path ` set cs \<Longrightarrow> fs_files fs' q = fs_files fs q"
proof (induction cs arbitrary: before fs)
  case (Cons c cs)
  obtain r fs1 where step: "write_candidate resolve roots (out c) c fs = (r, fs1)" by fastforce
  from write_candidate_files [OF step] Cons.prems(2) have "fs_files fs1 q = fs_files fs q" by auto
  with Cons step show ?case by (cases r) auto
qed simp

lemma write_all_stops:
  "write_all resolve roots out earlier cs fs = (False, completed, fs') \<Longrightarrow>
     \<exists>pre c post. cs = pre @ c # post \<and> completed = rev pre @ earlier
       \<and> (\<forall>q. q \<notin> pc_path ` set (pre @ [c]) \<longrightarrow> fs_files fs' q = fs_files fs q)"
proof (induction cs arbitrary: earlier fs)
  case (Cons c cs)
  obtain r fs1 where step: "write_candidate resolve roots (out c) c fs = (r, fs1)" by fastforce
  note frame = write_candidate_files [OF step]
  show ?case
  proof (cases r)
    case None
    with Cons.prems step have "completed = earlier" "fs' = fs1" by auto
    with frame show ?thesis by (intro exI [of _ "[]"] exI [of _ c] exI [of _ cs]) auto
  next
    case (Some w)
    with Cons.prems step have "write_all resolve roots out (c # earlier) cs fs1 = (False, completed, fs')" by simp
    from Cons.IH [OF this] obtain pre d post where "cs = pre @ d # post" "completed = rev pre @ c # earlier"
      "\<forall>q. q \<notin> pc_path ` set (pre @ [d]) \<longrightarrow> fs_files fs' q = fs_files fs1 q" by blast
    with frame show ?thesis by (intro exI [of _ "c # pre"] exI [of _ d] exI [of _ post]) auto
  qed
qed simp

lemma roll_back_files:
  "roll_back undo cs fs = (ok, fs') \<Longrightarrow> q \<notin> pc_path ` set cs \<Longrightarrow> fs_files fs' q = fs_files fs q"
proof (induction cs arbitrary: fs)
  case (Cons c cs)
  obtain k fs1 where step: "undo_candidate (undo c) c fs = (k, fs1)" by fastforce
  with undo_candidate_files(1) [OF step] Cons show ?case by (cases k) auto
qed simp

lemma rolled_back:
  "roll_back undo cs fs = (True, fs') \<Longrightarrow> distinct (map pc_path cs) \<Longrightarrow> c \<in> set cs \<Longrightarrow>
     fs_files fs' (pc_path c) = (if pc_operation c = ''create'' then None else Some (utf8_encode (pc_before c)))"
proof (induction cs arbitrary: fs)
  case (Cons d cs)
  obtain k fs1 where step: "undo_candidate (undo d) d fs = (k, fs1)" by fastforce
  with Cons.prems(1) have k: k and rest: "roll_back undo cs fs1 = (True, fs')" by (auto split: if_splits bool.splits)
  show ?case
  proof (cases "c = d")
    case True
    with Cons.prems(2) roll_back_files [OF rest] undo_candidate_files(2) [OF step k] show ?thesis by simp
  next
    case False
    with Cons rest show ?thesis by simp
  qed
qed simp

subsection \<open>What a candidate is\<close>

text \<open>A place some scope of the authority may write.\<close>

definition writable_place :: "AuthorityRoot list \<Rightarrow> posix_path \<Rightarrow> bool" where
  "writable_place roots p \<longleftrightarrow>
     (\<exists>root ps. nearest_root roots p root \<and> p = root_path root\<lparr>parts := parts (root_path root) @ ps\<rparr> \<and> admits True root ps)"

lemma write_place: "resolve_write resolve roots requested = Inr r \<Longrightarrow> writable_place roots (rp_path r)"
proof -
  assume "resolve_write resolve roots requested = Inr r"
  then obtain p root ps where "nearest_root roots p root" "p = root_path root\<lparr>parts := parts (root_path root) @ ps\<rparr>"
    "admits True root ps" "r = name_resolved p root ps" unfolding resolve_write_def admitted_iff by blast
  moreover from this(4) have rp: "rp_path r = p" by (simp add: name_resolved_def Let_def)
  ultimately show "writable_place roots (rp_path r)" unfolding writable_place_def rp by blast
qed

lemma resolved_path:
  "resolve_path resolve roots w requested = Inr r \<Longrightarrow> resolve (under (root_path (hd roots)) requested) = Some (rp_path r)"
  unfolding admitted_iff by (auto simp: name_resolved_def Let_def)

definition read_text :: "file_system \<Rightarrow> posix_path \<Rightarrow> string \<Rightarrow> bool" where
  "read_text fs p s \<longleftrightarrow> (\<exists>b text. fs_files fs p = Some b \<and> utf8_decode b = Some text \<and> s = universal_newlines text)"

lemma target_read:
  assumes "existing_text_target resolve roots fs path = Inr (p, s)"
  shows "read_text fs p s" and "\<exists>r. resolve_write resolve roots (to_path path) = Inr r \<and> rp_path r = p"
  using assms by (auto simp: existing_text_target_def read_text_def split: sum.splits option.splits if_splits)

definition candidate_ok :: "resolver \<Rightarrow> AuthorityRoot list \<Rightarrow> file_system \<Rightarrow> PatchCandidate \<Rightarrow> bool" where
  "candidate_ok resolve roots fs c \<longleftrightarrow>
     writable_place roots (pc_path c)
     \<and> (if pc_operation c = ''create'' then fs_files fs (pc_path c) = None else read_text fs (pc_path c) (pc_before c))"

lemma updated_ok:
  assumes "updated (existing_text_target resolve roots fs path) change = Inr c"
  shows "candidate_ok resolve roots fs c"
proof -
  from assms obtain p s where t: "existing_text_target resolve roots fs path = Inr (p, s)" and c: "pc_path c = p" "pc_before c = s" "pc_operation c = ''update''"
    by (auto simp: updated_def split: sum.splits prod.splits)
  from target_read(2) [OF t] have "writable_place roots p" using write_place by blast
  with target_read(1) [OF t] show ?thesis by (simp add: candidate_ok_def c)
qed

lemma edit_candidate_ok: "edit_candidate resolve roots fs path old new every line = Inr c \<Longrightarrow> candidate_ok resolve roots fs c"
  by (auto simp: edit_candidate_def Let_def intro: updated_ok split: option.splits if_splits)

lemma patch_candidate_ok:
  assumes "patch_candidate resolve roots fs path patch = Inr c"
  shows "candidate_ok resolve roots fs c"
proof -
  obtain r where r: "resolve_write resolve roots (to_path path) = Inr r"
    using assms by (cases "resolve_write resolve roots (to_path path)") (auto simp: patch_candidate_def)
  obtain name where n: "relative_path resolve roots (rp_path r) = Inr name"
    using assms r by (cases "relative_path resolve roots (rp_path r)") (auto simp: patch_candidate_def)
  obtain operation hunks where parsed: "parse_unified_patch patch (slashes name) = Inr (operation, hunks)"
    using assms r n by (cases "parse_unified_patch patch (slashes name)") (auto simp: patch_candidate_def)
  have step: "(case patch_base resolve roots fs operation path (rp_path r) of Inl e \<Rightarrow> Inl e | Inr (p, before) \<Rightarrow>
      (case patched_text operation before hunks of Inl f \<Rightarrow> Inl (Refused f)
       | Inr after \<Rightarrow> Inr \<lparr>pc_path = p, pc_before = before, pc_proposed_text = after, pc_operation = operation\<rparr>)) = Inr c"
    using assms by (simp add: patch_candidate_def r n parsed)
  then obtain p s where target: "patch_base resolve roots fs operation path (rp_path r) = Inr (p, s)"
    by (cases "patch_base resolve roots fs operation path (rp_path r)") auto
  then obtain after where c: "c = \<lparr>pc_path = p, pc_before = s, pc_proposed_text = after, pc_operation = operation\<rparr>"
    using step by (auto simp: target split: sum.splits)
  have "p = rp_path r"
  proof (cases "operation = ''create''")
    case False
    then have "existing_text_target resolve [hd roots] fs path = Inr (p, s)" using target by (simp add: patch_base_def)
    from target_read(2) [OF this] obtain r' where r': "resolve_write resolve [hd roots] (to_path path) = Inr r'" "rp_path r' = p" by blast
    from resolved_path [OF r'(1) [unfolded resolve_write_def]] resolved_path [OF r [unfolded resolve_write_def]] r'(2)
    show ?thesis by simp
  qed (use target in \<open>simp add: patch_base_def split: if_splits\<close>)
  moreover have "if operation = ''create'' then fs_files fs p = None else read_text fs p s"
    using target target_read(1) by (auto simp: patch_base_def split: if_splits)
  ultimately show ?thesis using write_place [OF r] by (simp add: c candidate_ok_def split: if_splits)
qed

lemma section_candidates_ok:
  "section_candidates resolve roots fs expected seen ss = Inr cs \<Longrightarrow>
     (\<forall>c \<in> set cs. candidate_ok resolve roots fs c \<and> pc_path c \<notin> set seen) \<and> distinct (map pc_path cs)"
proof (induction ss arbitrary: expected seen cs)
  case (Cons s ss)
  obtain old_path new_path target where t: "section_target s = (old_path, new_path, target)" by (cases "section_target s")
  with Cons.prems obtain c ds where c: "patch_candidate resolve roots fs target s = Inr c" "pc_path c \<notin> set seen"
    and ds: "section_candidates resolve roots fs None (pc_path c # seen) ss = Inr ds" "cs = c # ds"
    by (auto split: if_splits sum.splits)
  from patch_candidate_ok [OF c(1)] Cons.IH [OF ds(1)] c(2) ds(2) show ?case by auto
qed simp

lemma patch_candidates_ok:
  "patch_candidates resolve roots fs path patch = Inr cs \<Longrightarrow>
     (\<forall>c \<in> set cs. candidate_ok resolve roots fs c) \<and> distinct (map pc_path cs)"
  using section_candidates_ok by (fastforce simp: patch_candidates_def split: sum.splits)

subsection \<open>Nothing else changes\<close>

lemma apply_patch_files:
  assumes "patch_candidates resolve roots fs path patch = Inr cs"
    and "apply_patch_content resolve roots out undo path patch fs = (res, fs')" and "q \<notin> pc_path ` set cs"
  shows "fs_files fs' q = fs_files fs q"
proof -
  obtain ok completed fs1 where w: "write_all resolve roots out [] cs fs = (ok, completed, fs1)" by (metis prod_cases3)
  note frame = write_all_files [OF w assms(3)]
  show ?thesis
  proof (cases ok)
    case True
    with assms w frame show ?thesis by (simp add: apply_patch_content_def)
  next
    case False
    with w write_all_stops have "set completed \<subseteq> set cs" by fastforce
    with assms(3) have q: "q \<notin> pc_path ` set completed" by blast
    obtain k fs2 where "roll_back undo completed fs1 = (k, fs2)" by fastforce
    with roll_back_files [OF this q] False assms w frame show ?thesis
      by (cases k) (auto simp: apply_patch_content_def)
  qed
qed

lemma edit_files:
  assumes "fs_files (snd (replace_text_content resolve roots out path old new every line fs)) p \<noteq> fs_files fs p"
  shows "writable_place roots p"
proof (cases "edit_candidate resolve roots fs path old new every line")
  case (Inl e)
  with assms show ?thesis by (simp add: replace_text_content_def)
next
  case (Inr c)
  obtain r fs1 where w: "write_candidate resolve roots out c fs = (r, fs1)" by fastforce
  then have "snd (replace_text_content resolve roots out path old new every line fs) = fs1"
    by (simp add: replace_text_content_def Inr split: option.splits)
  with assms write_candidate_files [OF w] have "p = pc_path c" by fastforce
  with edit_candidate_ok [OF Inr] show ?thesis by (simp add: candidate_ok_def)
qed

lemma patch_files:
  assumes "fs_files (snd (apply_patch_content resolve roots out undo path patch fs)) p \<noteq> fs_files fs p"
  shows "writable_place roots p"
proof (cases "patch_candidates resolve roots fs path patch")
  case (Inl e)
  with assms show ?thesis by (simp add: apply_patch_content_def)
next
  case (Inr cs)
  obtain res fs' where "apply_patch_content resolve roots out undo path patch fs = (res, fs')" by fastforce
  from apply_patch_files [OF Inr this] this assms have "p \<in> pc_path ` set cs" by fastforce
  with patch_candidates_ok [OF Inr] show ?thesis by (auto simp: candidate_ok_def)
qed

lemma write_files:
  assumes "fs_files (snd (write_file_content resolve roots out path text1 fs)) p \<noteq> fs_files fs p"
  shows "writable_place roots p"
proof (cases "resolve_write resolve roots (to_path path)")
  case (Inl e)
  with assms show ?thesis by (simp add: write_file_content_def)
next
  case (Inr r)
  obtain ok fs1 where w: "write_text out (rp_path r) text1 fs = (ok, fs1)" by fastforce
  then have "snd (write_file_content resolve roots out path text1 fs) = fs1"
    by (cases ok) (simp_all add: write_file_content_def Inr split: sum.splits)
  with assms write_text_files [OF w] have "p = rp_path r" by fastforce
  with write_place [OF Inr] show ?thesis by simp
qed

text \<open>
  C11: A governed change touches only what its scope may write. Whatever succeeds, fails or raises on the way, a file
  that an edit, a patch or a whole-file write leaves different lies in a writable root of the authority, below it and
  outside the protected folders at its top.
\<close>

theorem changes_stay_writable:
  "{p. fs_files (snd (replace_text_content resolve roots out1 path1 old new every line fs)) p \<noteq> fs_files fs p}
     \<subseteq> {p. writable_place roots p}
   \<and> {p. fs_files (snd (apply_patch_content resolve roots out undo path2 patch fs)) p \<noteq> fs_files fs p}
     \<subseteq> {p. writable_place roots p}
   \<and> {p. fs_files (snd (write_file_content resolve roots out1 path1 text1 fs)) p \<noteq> fs_files fs p}
     \<subseteq> {p. writable_place roots p}"
  unfolding subset_iff mem_Collect_eq
  by (intro conjI allI impI) (erule edit_files, erule patch_files, erule write_files)

subsection \<open>A failed patch\<close>

lemma changes_of_errors: "changes_of resolve roots fs cs = Inl e \<Longrightarrow> \<exists>x. e = Raised x"
  by (induction cs) (auto split: sum.splits)

lemma failed_transaction:
  assumes "patch_candidates resolve roots fs path patch = Inr cs"
    and "apply_patch_content resolve roots out undo path patch fs = (Inl (Refused f), fs')"
  obtains completed fs1 where "write_all resolve roots out [] cs fs = (False, completed, fs1)"
    and "roll_back undo completed fs1 = (True, fs')"
proof -
  obtain ok completed fs1 where w: "write_all resolve roots out [] cs fs = (ok, completed, fs1)" by (metis prod_cases3)
  obtain k fs2 where b: "roll_back undo completed fs1 = (k, fs2)" by fastforce
  have "\<not> ok"
  proof
    assume ok
    with assms w have "changes_of resolve [hd roots] fs1 cs = Inl (Refused f)" by (auto simp: apply_patch_content_def)
    with changes_of_errors show False by blast
  qed
  with assms w b have "k" "fs2 = fs'" by (cases k; simp add: apply_patch_content_def)+
  with that w b \<open>\<not> ok\<close> show ?thesis by simp
qed

text \<open>
  C12: A patch that fails is undone, but for the file that failed. When a patch whose sections were all valid is answered
  with a failure, every file other than the one whose write failed is as it was before the call; a file the patch had
  already changed is written back from the text that was read, so its carriage returns are gone.
\<close>

theorem failed_patch_restores_the_rest:
  assumes "patch_candidates resolve roots fs path patch = Inr cs"
    and "apply_patch_content resolve roots out undo path patch fs = (Inl (Refused f), fs')"
  shows "\<exists>failed \<in> set cs. \<forall>p. p \<noteq> pc_path failed \<longrightarrow>
    (case fs_files fs p of None \<Rightarrow> fs_files fs' p = None | Some b \<Rightarrow> \<exists>b'. fs_files fs' p = Some b' \<and> rewritten b b')"
proof -
  from failed_transaction [OF assms] obtain completed fs1
    where w: "write_all resolve roots out [] cs fs = (False, completed, fs1)" and undone: "roll_back undo completed fs1 = (True, fs')" .
  from write_all_stops [OF w] obtain pre c post where cs: "cs = pre @ c # post" and completed: "completed = rev pre"
    and frame: "\<And>q. q \<notin> pc_path ` set (pre @ [c]) \<Longrightarrow> fs_files fs1 q = fs_files fs q" by auto
  from patch_candidates_ok [OF assms(1)] have ok: "\<And>d. d \<in> set cs \<Longrightarrow> candidate_ok resolve roots fs d" and dist: "distinct (map pc_path cs)" by auto
  have "case fs_files fs p of None \<Rightarrow> fs_files fs' p = None | Some b \<Rightarrow> \<exists>b'. fs_files fs' p = Some b' \<and> rewritten b b'"
    if p: "p \<noteq> pc_path c" for p
  proof (cases "p \<in> pc_path ` set pre")
    case True
    then obtain d where d: "d \<in> set pre" "p = pc_path d" by blast
    have "distinct (map pc_path completed)" using dist cs by (simp add: completed rev_map [symmetric])
    from rolled_back [OF undone this] d have after: "fs_files fs' p = (if pc_operation d = ''create'' then None else Some (utf8_encode (pc_before d)))"
      by (simp add: completed)
    from ok [of d] d cs have "candidate_ok resolve roots fs d" by simp
    with after d(2) rewritten_text show ?thesis
      by (auto simp: candidate_ok_def read_text_def split: if_splits)
  next
    case False
    with p have "fs_files fs1 p = fs_files fs p" by (intro frame) auto
    moreover have "fs_files fs' p = fs_files fs1 p" using False by (intro roll_back_files [OF undone]) (simp add: completed)
    ultimately show ?thesis by (auto simp: rewritten_def split: option.splits)
  qed
  then show ?thesis using cs by (intro bexI [of _ c]) auto
qed

definition line :: "string \<Rightarrow> string" where
  "line s = s @ [CHR 0x0A]"

definition two_files :: file_system where
  "two_files = \<lparr>fs_files = [to_path ''/w/a.txt'' \<mapsto> utf8_encode (line ''one''), to_path ''/w/b.txt'' \<mapsto> utf8_encode (line ''two'')],
     fs_dirs = (\<lambda>p. p = to_path ''/w'')\<rparr>"

definition two_sections :: string where
  "two_sections = concat
     [line ''--- a/a.txt'', line ''+++ b/a.txt'', line ''@@ -1 +1 @@'', line ''-one'', line ''+1'',
      line ''--- a/b.txt'', line ''+++ b/b.txt'', line ''@@ -1 +1 @@'', line ''-two'', line ''+2'']"

definition second_breaks :: "PatchCandidate \<Rightarrow> write_outcome" where
  "second_breaks c = (if pc_path c = to_path ''/w/b.txt'' then Breaks (Some []) else Works)"

abbreviation changed :: "string \<Rightarrow> string \<Rightarrow> string \<Rightarrow> PatchCandidate" where
  "changed p before after \<equiv>
     \<lparr>pc_path = to_path p, pc_before = line before, pc_proposed_text = line after, pc_operation = ''update''\<rparr>"

theorem failed_patch_restores_the_rest_witness:
  "\<exists>fs'. apply_patch_content plain_files two_roots second_breaks (\<lambda>_. Works) None two_sections two_files
      = (Inl (Refused (refuse ''transaction_write_failed'')), fs')
    \<and> fs_files fs' (to_path ''/w/c.txt'') = None"
proof -
  let ?r = "apply_patch_content plain_files two_roots second_breaks (\<lambda>_. Works) None two_sections two_files"
  have cs: "patch_candidates plain_files two_roots two_files None two_sections
      = Inr [changed ''/w/a.txt'' ''one'' ''1'', changed ''/w/b.txt'' ''two'' ''2'']" by code_simp
  have "fst ?r = Inl (Refused (refuse ''transaction_write_failed''))" by code_simp
  then have r: "?r = (Inl (Refused (refuse ''transaction_write_failed'')), snd ?r)" by (metis prod.collapse)
  have ne: "to_path ''/w/c.txt'' \<noteq> to_path ''/w/a.txt''" "to_path ''/w/c.txt'' \<noteq> to_path ''/w/b.txt''" by code_simp+
  then have none: "fs_files two_files (to_path ''/w/c.txt'') = None" by (simp add: two_files_def)
  from bexE [OF failed_patch_restores_the_rest [OF cs r]] obtain failed where
    f: "failed \<in> set [changed ''/w/a.txt'' ''one'' ''1'', changed ''/w/b.txt'' ''two'' ''2'']"
    and rest: "\<forall>p. p \<noteq> pc_path failed \<longrightarrow> (case fs_files two_files p of None \<Rightarrow> fs_files (snd ?r) p = None
       | Some b \<Rightarrow> \<exists>b'. fs_files (snd ?r) p = Some b' \<and> rewritten b b')" .
  from f have "pc_path failed = to_path ''/w/a.txt'' \<or> pc_path failed = to_path ''/w/b.txt''" by auto
  with ne have "to_path ''/w/c.txt'' \<noteq> pc_path failed" by metis
  from rest [rule_format, OF this] have "fs_files (snd ?r) (to_path ''/w/c.txt'') = None" unfolding none by simp
  with r show ?thesis by blast
qed

subsection \<open>What is not put back, and two texts that are changed or refused\<close>

text \<open>The file whose write raised keeps what the write left of it, although the call answers that it was rolled back.\<close>

theorem broken_write_is_kept:
  assumes "patch_candidates resolve roots fs path patch = Inr [c]" and "pc_operation c = ''update''"
    and "out c = Breaks left" and "make_parents (pc_path c) fs = Some fs1" and "\<not> fs_dirs fs1 (pc_path c)"
  shows "fst (apply_patch_content resolve roots out undo path patch fs) = Inl (Refused (refuse ''transaction_write_failed''))
    \<and> fs_files (snd (apply_patch_content resolve roots out undo path patch fs)) (pc_path c) = left"
  using assms by (simp add: apply_patch_content_def write_candidate_def write_text_def put_def)

text \<open>An edit of one line turns every line ending of the file into a newline.\<close>

theorem edit_rewrites_line_endings:
  "fs_files (snd (replace_text_content plain_files two_roots Works ''a.txt'' ''b'' ''c'' False None
      (two_files\<lparr>fs_files := [to_path ''/w/a.txt'' \<mapsto> utf8_encode (''a'' @ [CHR 0x0D, CHR 0x0A] @ ''b'' @ [CHR 0x0D, CHR 0x0A])]\<rparr>)))
    (to_path ''/w/a.txt'') = Some (utf8_encode (line ''a'' @ line ''c''))"
  by code_simp

lemma decode_ascii: "utf8_decode (replicate n 97 @ r) = map_option (\<lambda>t. replicate n (CHR ''a'') @ t) (utf8_decode r)"
proof -
  have a: "char_of (97 :: nat) = CHR ''a''" by code_simp
  show ?thesis by (cases "utf8_decode r"; induction n) (simp_all add: a)
qed

text \<open>A text file in which the first four thousand and ninety-six bytes end inside a character is taken for binary.\<close>

theorem split_character_is_binary:
  assumes "fs_files fs p = Some (replicate 4095 97 @ [195, 169] @ rest)" and "utf8_decode rest = Some s" and "0 \<notin> set rest"
  shows "utf8_decode (replicate 4095 97 @ [195, 169] @ rest) \<noteq> None \<and> \<not> is_text_file fs p"
proof -
  have "take 4096 (replicate 4095 97 @ [195, 169] @ rest) = replicate 4095 97 @ [195::nat]" by (simp add: take_Cons')
  then have "\<not> is_text_file fs p" using assms(1) by (simp add: is_text_file_def decode_ascii)
  moreover have "utf8_decode (replicate 4095 97 @ [195, 169] @ rest) \<noteq> None" unfolding decode_ascii using assms(2) by simp
  ultimately show ?thesis by blast
qed

end
