(* ===== verification/Spec2Isabelle.thy ===== *)
theory Spec2Isabelle
  imports Turn_State_Machine Policy_Engine Critical_Actions Standing_Grants Capability_Gates
    Approval_Store Code_Placement Approval_Relay Event_Integrity Goal_Guards
    Command_Guards Capability_Admission Agent_Plan
    File_Guards
begin

text \<open>
  Raiker is a local agent runtime. A model proposes actions, and the runtime decides which of them reach an
  executor, what the owner is asked, what is written to the audit log, and which scheduled work runs. This
  development models that decision path and the work that runs under it. Paths below are under
  \<^verbatim>\<open>src/raiker/\<close>.

  How the parts interact. A proposal becomes a governed action. \<^verbatim>\<open>RuntimeAuthority.route_action\<close> places it,
  checks the principal, its scope and the capability gate, classifies it, asks the policy engine, looks for a
  standing grant and either answers, parks an approval or enters an executor. An approved row comes back through
  the relay, which routes the stored proposal again. Every step appends to the event log. Tasks and goals are
  scheduled work whose steps reach the same authority.
\<close>

subsection \<open>Theories and the code they model\<close>

text \<open>
  Shared:
  \<^item> \<open>Raiker_Prelude\<close>: Python values, \<^verbatim>\<open>str\<close>, \<^verbatim>\<open>dict\<close> and \<^verbatim>\<open>fnmatch\<close> as the code uses them, errors as
    sums, the fact collections, and the two interfaces of the development. \<open>step_invariant\<close> is a property
    that every step of a component keeps, lifted to whole runs; \<open>refines\<close> is an abstraction under which
    each concrete step is a step of a specification. Every locale is interpreted on the model's own operations.
  \<^item> \<open>Governance_Store\<close>: principals, the governance tables and the contracts that cross components
    (\<^verbatim>\<open>storage/stores/\<close>, \<^verbatim>\<open>contracts/models.py\<close>, \<^verbatim>\<open>runtime/authority/models.py\<close>).

  Deciding:
  \<^item> \<open>Risk_Model\<close> (\<^verbatim>\<open>policy/risk.py\<close>), \<open>Tool_Registry\<close> (\<^verbatim>\<open>models/tool_registry.py\<close>),
    \<open>Capability_Registry\<close> (\<^verbatim>\<open>phase_gates.py\<close>, \<^verbatim>\<open>runtime/authority/activation.py\<close>,
    \<^verbatim>\<open>decision_modes.py\<close>): the static tables and what is derived from them.
  \<^item> \<open>Policy_Engine\<close> (\<^verbatim>\<open>policy/engine.py\<close>): \<open>review\<close> and the exact condition under which it allows.
  \<^item> \<open>Critical_Actions\<close> (\<^verbatim>\<open>runtime/authority/critical.py\<close>): the classifier of critical actions.
  \<^item> \<open>Capability_Gates\<close> (\<^verbatim>\<open>runtime/authority/router.py\<close>, \<^verbatim>\<open>storage/stores/governance.py\<close>): gates,
    decision modes and the runtime switch. The four operations on them change them only for a human gate manager.
    The baseline of a new account and the bootstrap of the command line write gates by themselves.
  \<^item> \<open>Capability_Admission\<close> (\<^verbatim>\<open>runtime/authority/admission.py\<close>, \<^verbatim>\<open>baseline.py\<close>): the same gate as the paths
    read it that do not route an action, with the reads that may fail, and its agreement with the authority.
  \<^item> \<open>Standing_Grants\<close> (\<^verbatim>\<open>runtime/authority/grants.py\<close>): grants that match are live, made by a human and
    within their ceiling; a revoked one never matches again.
  \<^item> \<open>Code_Placement\<close> (\<^verbatim>\<open>execution/code_placement.py\<close>): which capability a command exercises.
  \<^item> \<open>Command_Policy\<close>, \<open>Command_Grammar\<close>, \<open>Command_Guards\<close> (\<^verbatim>\<open>runtime/command_policy.py\<close>): the shell
    scanner and its equivalence with a grammar of one simple command, the argv policy and what an accepted command
    cannot do, the environment it gets, and two inputs that pass although the policy means to refuse them.
  \<^item> \<open>Path_Authority\<close> (\<^verbatim>\<open>tools/path_authority.py\<close>): which places of a root a scope may read and write, exactly,
    and the stored key of a file, which decodes to that file.
  \<^item> \<open>Runtime_Authority\<close>, \<open>Authority_Properties\<close> (\<^verbatim>\<open>runtime/authority/router.py\<close>, \<^verbatim>\<open>posture.py\<close>):
    \<open>route_action\<close> with every early return; allow needs every check, a refusal enters no executor, a critical
    action needs a human confirmation. The action that is judged is the one after placement, \<open>graded_action\<close>.

  Approving and changing:
  \<^item> \<open>Approval_Store\<close> (\<^verbatim>\<open>storage/stores/approvals.py\<close>): the life of an approval; one claim per release, and a
    decision that stays.
  \<^item> \<open>Approval_Relay\<close> (\<^verbatim>\<open>runtime/executors/tier1_approval.py\<close>, \<^verbatim>\<open>approvals/execution.py\<close>): what runs is what
    was approved, and how the row is settled.
  \<^item> \<open>Patch_Selection\<close> (\<^verbatim>\<open>tools/patch_selection.py\<close>): accepting part of a patch.
  \<^item> \<open>Text_Edit\<close>, \<open>Patch_Apply\<close>, \<open>File_Writes\<close>, \<open>File_Guards\<close> (\<^verbatim>\<open>tools/filesystem.py\<close>): the place a quoted text
    identifies and the edits, the unified diff applied to a text with its round trip, the candidates and the write
    transaction; changes stay in what a scope may write, and a failed patch is undone but for the file that failed.

  Recording:
  \<^item> \<open>Event_Types\<close>, \<open>Event_Log\<close>, \<open>Event_Integrity\<close> (\<^verbatim>\<open>events/writer.py\<close>, \<^verbatim>\<open>events/integrity.py\<close>): the log
    refines an append-only list, written logs verify, and what verification does and does not notice.

  Scheduled work:
  \<^item> \<open>Turn_State_Machine\<close> (\<^verbatim>\<open>runtime/state_machine.py\<close>): the transitions of one turn.
  \<^item> \<open>Agent_Plan\<close> (\<^verbatim>\<open>runtime/agent_plan.py\<close>): the plans a model may write; the depth-first check against
    acyclicity of the waiting relation, and the round trip through the store.
  \<^item> \<open>Task_Store\<close>, \<open>Task_Manager\<close>, \<open>Task_Delegation\<close>, \<open>Task_Claims\<close>, \<open>Task_Interrupts\<close>
    (\<^verbatim>\<open>storage/stores/tasks.py\<close>, \<^verbatim>\<open>tasks/manager.py\<close>, \<^verbatim>\<open>runtime/interrupts.py\<close>): delegated tasks, claims of a run and
    the reach of an interrupt.
  \<^item> \<open>Goal_Store\<close>, \<open>Goal_Coordinator\<close>, \<open>Goal_Invariants\<close>, \<open>Goal_Properties\<close>, \<open>Goal_Guards\<close>
    (\<^verbatim>\<open>goals/store.py\<close>, \<^verbatim>\<open>goals/profiles.py\<close>, \<^verbatim>\<open>goals/coordinator.py\<close>): goals, their pinned profiles, the pass that
    files steps, and what it keeps true.
\<close>

subsection \<open>How state, errors and loops are modelled\<close>

text \<open>
  A table keyed by its primary key is a map and a table whose row order is visible is a list; a handler takes the
  store and returns it updated, with every write of the code. A raise, a refusal and an early return are values
  of a sum or an option type. What can fail inside a step (a write of the log, a read of a gate, an index) is an
  argument of that step.

  One operation is one step, and the interleavings of operations are the sequences of steps that the invariants
  range over. For the claims of an approval and of a run the code makes it so with one SQL statement, and for the
  append to the log with the lock of the session. For the operations of the task manager and of the goal coordinator it is
  an assumption: they are several SQL statements without a lock. The one place where another writer in
  between breaks an invariant of this development that was found is the parking of a task, in
  \<open>hold_after_last_child_strands\<close>.

  There is no fuel. Loops recurse over their data or end by a measure that is proved: the scanner by the text
  that is left, the dependency walk by the steps off its path, settling by the unfinished parents. The walk
  over delegated tasks is bounded by sixteen levels and the recipient walk by eight, as in the source.
\<close>

subsection \<open>Parameters and the hypotheses about them\<close>

text \<open>
  Code outside the modelled files is an argument, and what a theorem needs of it is named in its statement:
  \<^item> executors, in \<open>authority_env\<close>: \<open>executors_append\<close> (they only add to the log),
    \<open>executors_keep_approval\<close> (they leave the approval row that is being executed) and
    \<open>executors_own_reason\<close> (their reasons are not those of the authority);
  \<^item> \<open>sha256\<close>, the digest of \<^verbatim>\<open>hashlib\<close>; where a theorem needs it, that it does not collide on the values
    compared;
  \<^item> \<open>env_delegation\<close>: the answer of the delegation service, which one routing asks at most once. The budget
    that the service spends while it answers is in tables outside the model;
  \<^item> \<open>plus_hours\<close>, \<open>plus_days\<close> and \<open>uuid\<close>: timestamps and identifiers;
  \<^item> \<open>files_work\<close>: the file operations of an append succeed;
  \<^item> \<open>resolve\<close>: \<^verbatim>\<open>Path.resolve\<close> on the file system of the host, which may raise;
  \<^item> \<open>write_outcome\<close>: whether one write or removal of a file raises and what the file then holds; the theorems
    hold for every such fault;
  \<^item> \<open>task_env\<close> and \<open>goal_env\<close>: the notifier, the hooks, the model registry, the usage ledger, the age of
    a stamp and the service that files a task, which may differ from call to call.
\<close>

subsection \<open>Not modelled\<close>

text \<open>
  The executors, the model providers and the services behind them act on the outside world. The orchestrator is
  an asynchronous conversation around a provider. The HTTP API, the command line, the desktop app and the dashboard
  are surfaces over the operations modelled here. The database schema is SQL text; the tables that the modelled
  code reads are records of \<open>Governance_Store\<close>, \<open>Task_Store\<close> and \<open>Goal_Store\<close>. Of the file tools, reading, searching, notebook
  cells and PDF pages are left out. Memory, knowledge, graph and
  vector search rank by floating-point similarity and full-text indexes of SQLite. Prose for people or for a
  prompt is left out throughout. Text beyond Latin-1 is outside the model, and a JSON float is the text it prints as.
\<close>

end
